(* ===== verification/Prelude.thy ===== *)
theory Prelude
  imports Main
begin

text \<open>
  Shared vocabulary of the development: the Go string helpers the sources use
  everywhere (TrimSpace, ToLower, ToUpper, EqualFold, Repeat), the result type
  of fallible code, finite-map pruning, and the collections of facts the
  component theories hand to the simplifier.

  Strings are lists of bytes (HOL chars).  TrimSpace and the case mappings are
  those of Go on ASCII text; on the multi-byte white space and letters of
  Unicode they leave the bytes alone.  Instants and durations are integers in
  nanoseconds, as in Go's time package; the zero time is the value None.
\<close>

named_theorems tbl "lookup and update laws of the model's tables"
named_theorems hnd "equations that unfold request handlers"

type_synonym time = int
type_synonym dur = int

definition second :: dur where "second = 1000000000"
definition minute :: dur where "minute = 60 * second"
definition hour :: dur where "hour = 60 * minute"

lemma units [simp]: "second = 1000000000" "minute = 60000000000" "hour = 3600000000000"
  by (simp_all add: second_def minute_def hour_def)

section \<open>Results\<close>

type_synonym ('e, 'a) result = "'e + 'a"

abbreviation Err :: "'e \<Rightarrow> 'e + 'a" where "Err \<equiv> Inl"
abbreviation Ok :: "'a \<Rightarrow> 'e + 'a" where "Ok \<equiv> Inr"

definition rbind :: "'e + 'a \<Rightarrow> ('a \<Rightarrow> 'e + 'b) \<Rightarrow> 'e + 'b" where
  "rbind r f = (case r of Inl e \<Rightarrow> Inl e | Inr a \<Rightarrow> f a)"

lemma rbind_simps [simp]:
  "rbind (Inl e) f = Inl e"
  "rbind (Inr a) f = f a"
  by (simp_all add: rbind_def)

lemma rbind_eq_Inr [simp]: "rbind r f = Inr b \<longleftrightarrow> (\<exists>a. r = Inr a \<and> f a = Inr b)"
  by (cases r) simp_all

section \<open>Strings\<close>

definition is_space :: "char \<Rightarrow> bool" where
  "is_space c \<longleftrightarrow> c \<in> set [CHR '' '', CHR 0x09, CHR 0x0A, CHR 0x0B, CHR 0x0C, CHR 0x0D]"

definition TrimSpace :: "string \<Rightarrow> string" where
  "TrimSpace s = rev (dropWhile is_space (rev (dropWhile is_space s)))"

definition upper_letters :: string where "upper_letters = ''ABCDEFGHIJKLMNOPQRSTUVWXYZ''"
definition lower_letters :: string where "lower_letters = ''abcdefghijklmnopqrstuvwxyz''"
definition digits :: string where "digits = ''0123456789''"

definition lower_char :: "char \<Rightarrow> char" where
  "lower_char c = (case map_of (zip upper_letters lower_letters) c of None \<Rightarrow> c | Some d \<Rightarrow> d)"

definition upper_char :: "char \<Rightarrow> char" where
  "upper_char c = (case map_of (zip lower_letters upper_letters) c of None \<Rightarrow> c | Some d \<Rightarrow> d)"

definition ToLower :: "string \<Rightarrow> string" where "ToLower = map lower_char"
definition ToUpper :: "string \<Rightarrow> string" where "ToUpper = map upper_char"

definition EqualFold :: "string \<Rightarrow> string \<Rightarrow> bool" where
  "EqualFold a b \<longleftrightarrow> ToLower a = ToLower b"

definition Repeat :: "string \<Rightarrow> nat \<Rightarrow> string" where
  "Repeat s n = concat (replicate n s)"

definition blank :: "string \<Rightarrow> bool" where "blank s \<longleftrightarrow> TrimSpace s = []"

lemma dropWhile_fixed: "dropWhile P xs = xs \<longleftrightarrow> (xs = [] \<or> \<not> P (hd xs))"
proof (cases xs)
  case (Cons x ys)
  have "length (dropWhile P ys) \<le> length ys" by (rule length_dropWhile_le)
  then have "dropWhile P ys \<noteq> x # ys" by auto
  with Cons show ?thesis by auto
qed simp

lemma TrimSpace_Nil [simp]: "TrimSpace [] = []"
  by (simp add: TrimSpace_def)

lemma TrimSpace_fixed: "TrimSpace s = s \<longleftrightarrow> s = [] \<or> (\<not> is_space (hd s) \<and> \<not> is_space (last s))"
proof -
  have len: "length (TrimSpace s) \<le> length (dropWhile is_space s)"
    by (simp add: TrimSpace_def) (metis length_dropWhile_le length_rev)
  show ?thesis
  proof
    assume eq: "TrimSpace s = s"
    then have "length s \<le> length (dropWhile is_space s)" using len by simp
    then have d: "dropWhile is_space s = s"
      by (metis dropWhile_eq_drop length_dropWhile_le le_antisym dropWhile_append3
          append_Nil takeWhile_dropWhile_id length_append add_cancel_left_left length_0_conv)
    with eq have "dropWhile is_space (rev s) = rev s"
      by (metis TrimSpace_def rev_rev_ident)
    with d show "s = [] \<or> (\<not> is_space (hd s) \<and> \<not> is_space (last s))"
      by (metis dropWhile_fixed hd_rev rev_is_Nil_conv)
  next
    assume "s = [] \<or> (\<not> is_space (hd s) \<and> \<not> is_space (last s))"
    then show "TrimSpace s = s"
      by (auto simp: TrimSpace_def) (metis dropWhile_fixed hd_rev rev_rev_ident)
  qed
qed

lemma TrimSpace_idem [simp]: "TrimSpace (TrimSpace s) = TrimSpace s"
proof (cases "TrimSpace s = []")
  case False
  let ?a = "dropWhile is_space s"
  have r: "rev (TrimSpace s) = dropWhile is_space (rev ?a)"
    by (simp add: TrimSpace_def)
  have "\<not> is_space (hd (rev (TrimSpace s)))"
    using False by (metis r hd_dropWhile rev_is_Nil_conv)
  then have l: "\<not> is_space (last (TrimSpace s))"
    using False by (simp add: hd_rev)
  obtain p where "rev ?a = p @ rev (TrimSpace s)"
    by (metis r takeWhile_dropWhile_id)
  then have "?a = TrimSpace s @ rev p" by (metis rev_append rev_rev_ident)
  then have "hd (TrimSpace s) = hd ?a" using False by simp
  moreover have "\<not> is_space (hd ?a)"
    using False by (metis TrimSpace_def dropWhile.simps(1) hd_dropWhile rev.simps(1))
  ultimately show ?thesis using l by (simp add: TrimSpace_fixed)
qed simp

lemma ToLower_Nil [simp]: "ToLower [] = []" by (simp add: ToLower_def)
lemma ToUpper_Nil [simp]: "ToUpper [] = []" by (simp add: ToUpper_def)
lemma length_ToLower [simp]: "length (ToLower s) = length s" by (simp add: ToLower_def)
lemma length_ToUpper [simp]: "length (ToUpper s) = length s" by (simp add: ToUpper_def)

lemma EqualFold_refl [simp]: "EqualFold s s" by (simp add: EqualFold_def)
lemma EqualFold_sym: "EqualFold a b \<longleftrightarrow> EqualFold b a" by (auto simp: EqualFold_def)

lemmas str_eval = TrimSpace_def ToLower_def ToUpper_def lower_char_def upper_char_def
  upper_letters_def lower_letters_def is_space_def EqualFold_def Repeat_def blank_def

fun firstNonEmpty :: "string list \<Rightarrow> string" where
  "firstNonEmpty [] = []"
| "firstNonEmpty (v # vs) = (if TrimSpace v \<noteq> [] then TrimSpace v else firstNonEmpty vs)"

lemma firstNonEmpty_trimmed [simp]: "TrimSpace (firstNonEmpty vs) = firstNonEmpty vs"
  by (induction vs) auto

section \<open>Finite maps\<close>

definition prune :: "('k \<Rightarrow> 'v \<Rightarrow> bool) \<Rightarrow> ('k \<rightharpoonup> 'v) \<Rightarrow> ('k \<rightharpoonup> 'v)" where
  "prune P m = (\<lambda>k. case m k of None \<Rightarrow> None | Some v \<Rightarrow> if P k v then Some v else None)"

lemma prune_Some [simp]: "prune P m k = Some v \<longleftrightarrow> m k = Some v \<and> P k v"
  by (auto simp: prune_def split: option.splits if_splits)

lemma prune_None [simp]: "prune P m k = None \<longleftrightarrow> (\<forall>v. m k = Some v \<longrightarrow> \<not> P k v)"
  by (auto simp: prune_def split: option.splits if_splits)

lemma prune_empty [simp]: "prune P Map.empty = Map.empty"
  by (simp add: prune_def)

lemma prune_True [simp]: "prune (\<lambda>_ _. True) m = m"
  by (auto simp: prune_def split: option.splits)

lemma prune_le: "prune P m \<subseteq>\<^sub>m m"
  by (auto simp: map_le_def dom_def)

lemma finite_dom_prune [simp]: "finite (dom m) \<Longrightarrow> finite (dom (prune P m))"
  by (rule finite_subset [of _ "dom m"]) auto

end
