(* ===== verification/Json.thy ===== *)
theory Json
  imports Prelude Complex_Main "HOL-Library.List_Lexorder" "HOL-Library.Char_ord" "HOL-Library.AList" "HOL-Library.Multiset"
begin

text \<open>
  JSON values as encoding/json decodes them into any, and the deterministic
  serialisation that the DK signatures are computed over
  (internal/dkpg/canonical.go).

  An object is the list of its members in the order of the document; a lookup
  finds the last member of a name, as decoding into a Go map does.  A number
  is the exact rational of its decimal literal; it is printed in full decimal
  notation, which is Go's shortest text of the float64 for literals of at most
  15 significant digits and magnitude between 1e-6 and 1e21.
\<close>

datatype json =
    JNull
  | JBool bool
  | JNum rat
  | JStr string
  | JArr "json list"
  | JObj "(string \<times> json) list"

definition jget :: "(string \<times> json) list \<Rightarrow> string \<Rightarrow> json option" where
  "jget kvs k = map_of (rev kvs) k"

definition jput :: "string \<Rightarrow> json \<Rightarrow> (string \<times> json) list \<Rightarrow> (string \<times> json) list" where
  "jput k v kvs = filter (\<lambda>(k', _). k' \<noteq> k) kvs @ [(k, v)]"

definition jdel :: "string \<Rightarrow> (string \<times> json) list \<Rightarrow> (string \<times> json) list" where
  "jdel k kvs = filter (\<lambda>(k', _). k' \<noteq> k) kvs"

lemma jget_Nil [simp]: "jget [] k = None"
  by (simp add: jget_def)

lemma map_of_filter_neq:
  "map_of (filter (\<lambda>(k', _). k' \<noteq> k) kvs) = (map_of kvs)(k := None)"
  by (induction kvs) auto

lemma jget_jput [tbl]: "jget (jput k v kvs) k' = (if k' = k then Some v else jget kvs k')"
  by (simp add: jget_def jput_def rev_filter map_of_filter_neq)

lemma jget_jdel [tbl]: "jget (jdel k kvs) k' = (if k' = k then None else jget kvs k')"
  by (simp add: jget_def jdel_def rev_filter map_of_filter_neq)

section \<open>Text of numbers and strings\<close>

definition digit_char :: "nat \<Rightarrow> char" where
  "digit_char d = digits ! d"

fun nat_text :: "nat \<Rightarrow> string" where
  "nat_text n = (if n < 10 then [digit_char n] else nat_text (n div 10) @ [digit_char (n mod 10)])"

declare nat_text.simps [simp del]

definition int_text :: "int \<Rightarrow> string" where
  "int_text i = (if i < 0 then CHR ''-'' # nat_text (nat (- i)) else nat_text (nat i))"

fun pad_left :: "nat \<Rightarrow> string \<Rightarrow> string" where
  "pad_left n s = replicate (n - length s) CHR ''0'' @ s"

definition num_text :: "rat \<Rightarrow> string" where
  "num_text q =
     (let (n, d) = quotient_of q;
          k = (case find (\<lambda>k. d dvd 10 ^ k) [0..<21] of Some k \<Rightarrow> k | None \<Rightarrow> 21);
          m = nat (abs n * 10 ^ k div d)
      in (if n < 0 then ''-'' else []) @ nat_text (m div 10 ^ k)
         @ (if k = 0 then [] else ''.'' @ pad_left k (nat_text (m mod 10 ^ k))))"

definition hex_char :: "nat \<Rightarrow> char" where
  "hex_char d = ''0123456789abcdef'' ! d"

text \<open>The escapes of json.Marshal for strings, HTML-safe mode included.\<close>

definition escape_char :: "char \<Rightarrow> string" where
  "escape_char c =
     (if c = CHR 0x22 then [CHR 0x5C, CHR 0x22]
      else if c = CHR 0x5C then [CHR 0x5C, CHR 0x5C]
      else if c = CHR 0x08 then [CHR 0x5C, CHR ''b'']
      else if c = CHR 0x0C then [CHR 0x5C, CHR ''f'']
      else if c = CHR 0x0A then [CHR 0x5C, CHR ''n'']
      else if c = CHR 0x0D then [CHR 0x5C, CHR ''r'']
      else if c = CHR 0x09 then [CHR 0x5C, CHR ''t'']
      else if (of_char c :: nat) < 32 \<or> c \<in> set ''<>&''
      then CHR 0x5C # ''u00'' @ [hex_char (of_char c div 16), hex_char (of_char c mod 16)]
      else [c])"

definition quote_text :: "string \<Rightarrow> string" where
  "quote_text s = CHR 0x22 # concat (map escape_char s) @ [CHR 0x22]"

fun join :: "string \<Rightarrow> string list \<Rightarrow> string" where
  "join sep [] = []"
| "join sep [x] = x"
| "join sep (x # y # zs) = x @ sep @ join sep (y # zs)"

section \<open>Canonical serialisation\<close>

text \<open>
  The members of a Go map: each name once, with the value decoded last.
\<close>

definition members :: "(string \<times> 'a) list \<Rightarrow> (string \<times> 'a) list" where
  "members kvs = sort_key fst (AList.clearjunk (rev kvs))"

fun scalar_text :: "json \<Rightarrow> string" where
  "scalar_text JNull = ''null''"
| "scalar_text (JBool b) = (if b then ''true'' else ''false'')"
| "scalar_text (JNum q) = num_text q"
| "scalar_text (JStr s) = quote_text s"
| "scalar_text _ = []"

fun writeCanonical :: "json \<Rightarrow> string" where
  "writeCanonical (JObj kvs) =
     ''{'' @ join '','' (map (\<lambda>(k, s). quote_text k @ '':'' @ s)
                      (members (map (\<lambda>(k, v). (k, writeCanonical v)) kvs))) @ ''}''"
| "writeCanonical (JArr vs) = ''['' @ join '','' (map writeCanonical vs) @ '']''"
| "writeCanonical v = scalar_text v"

text \<open>
  The value a document decodes to: nested Go maps, slices and scalars.
\<close>

datatype gval = GNull | GBool bool | GNum rat | GStr string | GArr "gval list" | GMap "string \<Rightarrow> gval option"

primrec value_of :: "json \<Rightarrow> gval" where
  "value_of JNull = GNull"
| "value_of (JBool b) = GBool b"
| "value_of (JNum q) = GNum q"
| "value_of (JStr s) = GStr s"
| "value_of (JArr vs) = GArr (map value_of vs)"
| "value_of (JObj kvs) = GMap (map_of (rev (map (map_prod id value_of) kvs)))"

lemma members_determined:
  assumes "map_of (rev xs) = map_of (rev ys)"
  shows "members xs = members ys"
proof -
  let ?x = "AList.clearjunk (rev xs)" and ?y = "AList.clearjunk (rev ys)"
  have "map_of ?x = map_of ?y" using assms by (simp add: map_of_clearjunk)
  then have s: "set ?x = set ?y"
    by (metis distinct_clearjunk map_of_inject_set)
  have d: "distinct ?x" "distinct ?y" by (metis distinct_clearjunk distinct_map)+
  with s have "mset ?x = mset (sort_key fst ?y)"
    by (simp add: set_eq_iff_mset_eq_distinct)
  moreover have "inj_on fst (set ?x)" by (metis distinct_clearjunk distinct_map)
  ultimately show ?thesis
    unfolding members_def by (rule sort_key_inj_key_eq) simp
qed

lemma set_members: "set (members kvs) = {(k, v). map_of (rev kvs) k = Some v}"
proof -
  have "(k, v) \<in> set (AList.clearjunk (rev kvs)) \<longleftrightarrow> map_of (rev kvs) k = Some v" for k v
    using map_of_eq_Some_iff [OF distinct_clearjunk, of "rev kvs" k v]
    by (simp add: map_of_clearjunk)
  then show ?thesis by (auto simp: members_def)
qed

lemma map_of_rev_map: "map_of (rev (map (map_prod id f) kvs)) k = map_option f (map_of (rev kvs) k)"
  by (simp add: rev_map map_prod_def map_of_map)

lemma map_of_rev_Some: "map_of (rev kvs) k = Some v \<Longrightarrow> (k, v) \<in> set kvs"
  by (metis map_of_SomeD set_rev)

text \<open>
  The text that is signed is a function of the decoded payload: two
  documents that decode to the same nested Go maps, whatever the order or
  repetition of their members, have the same canonical text.
\<close>
lemma canonical_deterministic:
  assumes "value_of v = value_of w"
  shows "writeCanonical v = writeCanonical w"
  using assms
proof (induction v arbitrary: w)
  case (JArr vs)
  then obtain ws where w: "w = JArr ws" "map value_of vs = map value_of ws"
    by (cases w) auto
  have "map writeCanonical vs = map writeCanonical ws"
    using w(2) JArr.IH by (simp add: list_eq_iff_nth_eq)
  with w show ?case by (simp add: o_def)
next
  case (JObj kvs)
  then obtain kvs' where w: "w = JObj kvs'"
    "map_of (rev (map (map_prod id value_of) kvs)) = map_of (rev (map (map_prod id value_of) kvs'))"
    by (cases w) auto
  have "map_of (rev (map (map_prod id writeCanonical) kvs)) k
      = map_of (rev (map (map_prod id writeCanonical) kvs')) k" for k
  proof -
    have "map_option value_of (map_of (rev kvs) k) = map_option value_of (map_of (rev kvs') k)"
      using w(2) by (metis map_of_rev_map)
    then consider "map_of (rev kvs) k = None" "map_of (rev kvs') k = None"
      | a b where "map_of (rev kvs) k = Some a" "map_of (rev kvs') k = Some b" "value_of a = value_of b"
      by (cases "map_of (rev kvs) k"; cases "map_of (rev kvs') k") simp_all
    then show ?thesis
    proof cases
      case (2 a b)
      then have "writeCanonical a = writeCanonical b"
        using JObj.IH [OF map_of_rev_Some [OF 2(1)], of a b] by simp
      with 2 show ?thesis by (simp only: map_of_rev_map option.map)
    qed (simp only: map_of_rev_map option.map)
  qed
  then have "members (map (map_prod id writeCanonical) kvs) = members (map (map_prod id writeCanonical) kvs')"
    by (intro members_determined ext)
  with w show ?case by (simp add: map_prod_def id_def)
next
  case JNull
  then show ?case by (cases w) simp_all
next
  case (JBool b)
  then show ?case by (cases w) simp_all
next
  case (JNum q)
  then show ?case by (cases w) simp_all
next
  case (JStr s)
  then show ?case by (cases w) simp_all
qed

theorem canonical_deterministic_witness:
  "writeCanonical (JObj [(''b'', JNum 2), (''a'', JObj [(''y'', JNull), (''x'', JBool True)])])
   = writeCanonical (JObj [(''a'', JObj [(''x'', JBool False), (''x'', JBool True), (''y'', JNull)]), (''b'', JNum 2)])"
  by (rule canonical_deterministic) (simp add: fun_eq_iff)

end
