(* ===== verification/Http.thy ===== *)
theory Http
  imports Json
begin

text \<open>
  HTTP as the handlers see it.  A request gives the accessors of fiber.Ctx that
  the sources use: an absent header or cookie is the empty string, and the
  body is the JSON document it parses to, None when it does not parse.  A
  response is a status, the headers and cookies the handler sets and a JSON
  body (JNull for an empty one).  A middleware hands the request on with the
  values it stores in the request's locals, or answers it.
\<close>

record request =
  r_method :: string
  r_path :: string
  r_protocol :: string
  r_hostname :: string
  r_ip :: string
  r_header :: "string \<Rightarrow> string"
  r_cookie :: "string \<Rightarrow> string"
  r_body :: "json option"

record cookie =
  ck_Name :: string
  ck_Value :: string
  ck_Path :: string
  ck_HTTPOnly :: bool
  ck_Secure :: bool
  ck_SameSite :: string
  ck_MaxAge :: int

datatype response = Response
  (status: nat) (headers: "(string \<times> string) list") (cookies: "cookie list") (body: json)

datatype 'l step = Next 'l | Halt response

definition send :: "nat \<Rightarrow> (string \<times> json) list \<Rightarrow> response" where
  "send st kvs = Response st [] [] (JObj kvs)"

definition send_error :: "nat \<Rightarrow> string \<Rightarrow> response" where
  "send_error st msg = Response st [] [] (JObj [(''error'', JStr msg)])"

definition jint :: "int \<Rightarrow> json" where "jint i = JNum (of_int i)"

lemma status_send [simp]: "status (send st kvs) = st" "status (send_error st msg) = st"
  by (simp_all add: send_def send_error_def)

lemma send_error_inject [simp]: "send_error s m = send_error s' m' \<longleftrightarrow> s = s' \<and> m = m'"
  by (simp add: send_error_def)

fun passes :: "'l step \<Rightarrow> bool" where
  "passes (Next _) = True"
| "passes (Halt _) = False"

text \<open>
  BodyParser into a map[string]any: an object, or the JSON null, which leaves
  the map empty.
\<close>

definition BodyParser :: "request \<Rightarrow> (string \<times> json) list option" where
  "BodyParser r = (case r_body r of
     Some (JObj kvs) \<Rightarrow> Some kvs
   | Some JNull \<Rightarrow> Some []
   | _ \<Rightarrow> None)"

text \<open>
  Decoding into a struct of strings: a member sets the field whose tag it
  matches without regard to case, the last one wins; a member null leaves
  the field alone and a member of another type is an error.
\<close>

definition field :: "string \<Rightarrow> (string \<times> json) list \<Rightarrow> string" where
  "field name kvs = foldl (\<lambda>cur (k, v). if EqualFold k name
      then (case v of JStr s \<Rightarrow> s | _ \<Rightarrow> cur) else cur) [] kvs"

definition field_ok :: "string \<Rightarrow> (string \<times> json) list \<Rightarrow> bool" where
  "field_ok name kvs \<longleftrightarrow> list_all (\<lambda>(k, v). EqualFold k name \<longrightarrow>
      (case v of JStr s \<Rightarrow> True | JNull \<Rightarrow> True | _ \<Rightarrow> False)) kvs"

definition BodyFields :: "string list \<Rightarrow> request \<Rightarrow> (string \<Rightarrow> string) option" where
  "BodyFields names r = (case r_body r of
     Some (JObj kvs) \<Rightarrow> if list_all (\<lambda>n. field_ok n kvs) names then Some (\<lambda>n. field n kvs) else None
   | Some JNull \<Rightarrow> Some (\<lambda>n. [])
   | _ \<Rightarrow> None)"

text \<open>
  An integer field: a number that is not an integer, or a member of another
  type, is an error.  (Go also refuses an integer written as 1.0 or 1e0.)
\<close>

definition int_field :: "string \<Rightarrow> (string \<times> json) list \<Rightarrow> int option" where
  "int_field name kvs = foldl (\<lambda>cur (k, v). if EqualFold k name
      then (case v of JNum q \<Rightarrow> if snd (quotient_of q) = 1 then map_option (\<lambda>_. fst (quotient_of q)) cur else None
            | JNull \<Rightarrow> cur | _ \<Rightarrow> None) else cur) (Some 0) kvs"

text \<open>strings.SplitN(s, sep, 2) for a separator of one byte.\<close>

definition SplitN2 :: "char \<Rightarrow> string \<Rightarrow> (string \<times> string) option" where
  "SplitN2 c s = (if c \<in> set s then Some (takeWhile (\<lambda>x. x \<noteq> c) s, tl (dropWhile (\<lambda>x. x \<noteq> c) s)) else None)"

end
