(* ===== verification/SessionStore.thy ===== *)
theory SessionStore
  imports Prelude
begin

text \<open>
  The contract of a session store, as the admin middleware and the login
  handlers rely on it: what a check answers after a session was issued,
  revoked or checked.  Sessions.thy interprets it on the code's store.
\<close>

datatype store_op = Issue string string | Check string string | Revoke string | RevokeUser string

fun issued :: "(time \<times> store_op) list \<Rightarrow> string list" where
  "issued [] = []"
| "issued ((t, Issue sid v) # h) = sid # issued h"
| "issued (x # h) = issued h"

lemma issued_Cons: "issued ((t, e) # h) = (case e of Issue sid v \<Rightarrow> [sid] | _ \<Rightarrow> []) @ issued h"
  by (cases e) simp_all

locale session_store =
  fixes wf :: "'s \<Rightarrow> bool"
    and has :: "'s \<Rightarrow> string \<Rightarrow> bool"
    and issue :: "time \<Rightarrow> string \<Rightarrow> string \<Rightarrow> 's \<Rightarrow> 's"
    and check :: "time \<Rightarrow> string \<Rightarrow> string \<Rightarrow> 's \<Rightarrow> bool \<times> 's"
    and revoke :: "string \<Rightarrow> 's \<Rightarrow> 's"
    and revoke_user :: "string \<Rightarrow> 's \<Rightarrow> 's"
    and life :: "'s \<Rightarrow> dur"
  assumes wf_issue: "wf s \<Longrightarrow> \<not> has s sid \<Longrightarrow> wf (issue t sid v s)"
    and wf_check: "wf s \<Longrightarrow> wf (snd (check t sid v s))"
    and wf_revoke: "wf s \<Longrightarrow> wf (revoke sid s)"
    and wf_revoke_user: "wf s \<Longrightarrow> wf (revoke_user v s)"
    and check_issue: "wf s \<Longrightarrow> \<not> has s sid \<Longrightarrow> t \<le> now \<Longrightarrow> \<not> blank v \<Longrightarrow>
      fst (check now i u (issue t sid v s)) \<longleftrightarrow>
        (if TrimSpace i = sid then \<not> blank i \<and> TrimSpace u = TrimSpace v \<and> now < t + life s
         else fst (check now i u s))"
    and check_check: "wf s \<Longrightarrow> t \<le> now \<Longrightarrow> fst (check now i u (snd (check t j v s))) = fst (check now i u s)"
    and check_revoke: "wf s \<Longrightarrow> fst (check now i u (revoke j s)) \<longleftrightarrow>
      fst (check now i u s) \<and> (blank j \<or> TrimSpace i \<noteq> TrimSpace j)"
    and check_revoke_user: "wf s \<Longrightarrow> fst (check now i u (revoke_user v s)) \<longleftrightarrow>
      fst (check now i u s) \<and> (blank v \<or> TrimSpace u \<noteq> TrimSpace v)"
    and check_earlier: "wf s \<Longrightarrow> t \<le> now \<Longrightarrow> fst (check now i u s) \<Longrightarrow> fst (check t i u s)"
    and check_blank: "fst (check now i u s) \<Longrightarrow> \<not> blank i \<and> \<not> blank u"
    and has_issue: "wf s \<Longrightarrow> has (issue t sid v s) i \<Longrightarrow> has s i \<or> i = sid"
    and has_check: "wf s \<Longrightarrow> has (snd (check t j v s)) i \<Longrightarrow> has s i"
    and has_revoke: "wf s \<Longrightarrow> has (revoke j s) i \<Longrightarrow> has s i"
    and has_revoke_user: "wf s \<Longrightarrow> has (revoke_user v s) i \<Longrightarrow> has s i"
begin

lemma one_session_per_user:
  assumes "wf s" "\<not> has s sid" "t \<le> now" "\<not> blank v" "TrimSpace u = TrimSpace v"
    and "fst (check now i u (issue t sid v (revoke_user v s)))"
  shows "TrimSpace i = sid"
proof (rule ccontr)
  assume ne: "TrimSpace i \<noteq> sid"
  have "fst (check now i u (revoke_user v s))"
    using assms ne has_revoke_user [of s v sid]
      check_issue [OF wf_revoke_user [OF assms(1)], of v sid t now v i u] by auto
  with assms check_revoke_user [OF assms(1)] show False by blast
qed

fun apply_op :: "time \<Rightarrow> store_op \<Rightarrow> 's \<Rightarrow> 's" where
  "apply_op t (Issue sid v) s = issue t sid v s"
| "apply_op t (Check sid v) s = snd (check t sid v s)"
| "apply_op t (Revoke sid) s = revoke sid s"
| "apply_op t (RevokeUser v) s = revoke_user v s"

fun run_ops :: "(time \<times> store_op) list \<Rightarrow> 's \<Rightarrow> 's" where
  "run_ops [] s = s"
| "run_ops ((t, e) # h) s = run_ops h (apply_op t e s)"

lemma wf_apply: "wf s \<Longrightarrow> (\<And>sid v. e = Issue sid v \<Longrightarrow> \<not> has s sid) \<Longrightarrow> wf (apply_op t e s)"
  by (cases e) (auto intro: wf_issue wf_check wf_revoke wf_revoke_user)

lemma has_apply: "wf s \<Longrightarrow> has (apply_op t e s) i \<Longrightarrow> has s i \<or> (\<exists>v. e = Issue i v)"
  by (cases e) (auto dest: has_issue has_check has_revoke has_revoke_user)

lemma dead_apply:
  assumes "wf s" "\<And>sid v. e = Issue sid v \<Longrightarrow> \<not> has s sid \<and> \<not> blank v \<and> TrimSpace i \<noteq> sid"
    and "t \<le> now" "\<not> fst (check now i u s)"
  shows "\<not> fst (check now i u (apply_op t e s))"
  using assms
  by (cases e) (auto simp: check_issue check_check check_revoke check_revoke_user)

text \<open>
  An id that is not accepted is never accepted again, by any later sequence of
  operations that does not issue it anew.
\<close>

lemma dead_run:
  assumes "wf s" "\<not> fst (check now i u s)"
    and "\<forall>(t, e) \<in> set h. t \<le> now \<and> (\<forall>sid v. e = Issue sid v \<longrightarrow> \<not> blank v \<and> TrimSpace i \<noteq> sid)"
    and "distinct (issued h)" "\<forall>sid \<in> set (issued h). \<not> has s sid"
  shows "\<not> fst (check now i u (run_ops h s))"
  using assms
proof (induction h arbitrary: s)
  case (Cons x h)
  obtain t e where x: "x = (t, e)" by (cases x)
  have fresh: "\<And>sid v. e = Issue sid v \<Longrightarrow> \<not> has s sid"
    using Cons.prems(5) x by auto
  have later: "\<forall>sid \<in> set (issued h). \<not> has (apply_op t e s) sid"
    using has_apply [OF Cons.prems(1), of t e] Cons.prems(4,5) x by (auto simp: issued_Cons)
  show ?case
    using Cons.IH [OF wf_apply [OF Cons.prems(1) fresh] dead_apply [OF Cons.prems(1)]]
      Cons.prems fresh later x by (auto simp: issued_Cons)
qed simp

lemma revoked_stays_revoked:
  assumes "wf s" "\<not> blank i"
    and "\<forall>(t, e) \<in> set h. t \<le> now \<and> (\<forall>sid v. e = Issue sid v \<longrightarrow> \<not> blank v \<and> TrimSpace i \<noteq> sid)"
    and "distinct (issued h)" "\<forall>sid \<in> set (issued h). \<not> has s sid"
  shows "\<not> fst (check now i u (run_ops h (revoke i s)))"
  by (rule dead_run)
     (use assms in \<open>auto simp: wf_revoke check_revoke dest: has_revoke\<close>)

end

end
