(* ===== verification/Sessions.thy ===== *)
theory Sessions
  imports SessionStore "HOL-Library.AList"
begin

text \<open>
  The in-memory store of admin sessions, internal/auth/session_store.go.  The
  Go map of sessions is an association list with distinct keys, because the
  code iterates over it; byUser is the index of session ids per user.  The
  random id of Create is an argument, None when the random source fails.  The
  nil receiver, which verifyAdminSession excludes, is not modelled here.
\<close>

record session =
  s_ID :: string
  s_Username :: string
  s_CreatedAt :: time
  s_ExpiresAt :: time

record session_manager =
  ttl :: dur
  sessions :: "(string \<times> session) list"
  byUser :: "string \<rightharpoonup> string set"

definition NewSessionManager :: "dur \<Rightarrow> session_manager" where
  "NewSessionManager d = \<lparr> ttl = (if d \<le> 0 then hour else d), sessions = [], byUser = Map.empty \<rparr>"

definition deleteSessionLocked :: "string \<Rightarrow> session_manager \<Rightarrow> session_manager" where
  "deleteSessionLocked sid m = (case map_of (sessions m) sid of
     None \<Rightarrow> m
   | Some s \<Rightarrow> let m1 = m\<lparr>sessions := AList.delete sid (sessions m)\<rparr> in
       (case byUser m1 (s_Username s) of
          None \<Rightarrow> m1
        | Some ids \<Rightarrow> m1\<lparr>byUser := (byUser m1)(s_Username s :=
             (if ids - {sid} = {} then None else Some (ids - {sid})))\<rparr>))"

definition cleanupExpiredLocked :: "time \<Rightarrow> session_manager \<Rightarrow> session_manager" where
  "cleanupExpiredLocked now m =
     fold deleteSessionLocked (map fst (filter (\<lambda>(sid, s). \<not> now < s_ExpiresAt s) (sessions m))) m"

datatype session_error = UsernameRequired | RandomFailed

definition sm_Create :: "time \<Rightarrow> string option \<Rightarrow> string \<Rightarrow> session_manager
    \<Rightarrow> (session_error + string) \<times> session_manager" where
  "sm_Create now rnd username m =
     (let username = TrimSpace username in
      if username = [] then (Inl UsernameRequired, m)
      else case rnd of
        None \<Rightarrow> (Inl RandomFailed, m)
      | Some sid \<Rightarrow>
          let s = \<lparr> s_ID = sid, s_Username = username, s_CreatedAt = now, s_ExpiresAt = now + ttl m \<rparr>;
              m1 = cleanupExpiredLocked now m;
              m2 = m1\<lparr>sessions := AList.update sid s (sessions m1)\<rparr>;
              ids = (case byUser m2 username of None \<Rightarrow> {} | Some ids \<Rightarrow> ids)
          in (Inr sid, m2\<lparr>byUser := (byUser m2)(username \<mapsto> insert sid ids)\<rparr>))"

definition sm_Get :: "time \<Rightarrow> string \<Rightarrow> string \<Rightarrow> session_manager \<Rightarrow> session option \<times> session_manager" where
  "sm_Get now sessionID username m =
     (let sid = TrimSpace sessionID; u = TrimSpace username in
      if sid = [] \<or> u = [] then (None, m)
      else let m1 = cleanupExpiredLocked now m in
        (case map_of (sessions m1) sid of
           None \<Rightarrow> (None, m1)
         | Some s \<Rightarrow>
             if s_Username s \<noteq> u then (None, m1)
             else if \<not> now < s_ExpiresAt s then (None, deleteSessionLocked sid m1)
             else (Some s, m1)))"

definition sm_Validate :: "time \<Rightarrow> string \<Rightarrow> string \<Rightarrow> session_manager \<Rightarrow> bool \<times> session_manager" where
  "sm_Validate now sid u m = (case sm_Get now sid u m of (r, m') \<Rightarrow> (r \<noteq> None, m'))"

definition sm_Revoke :: "string \<Rightarrow> session_manager \<Rightarrow> session_manager" where
  "sm_Revoke sessionID m =
     (let sid = TrimSpace sessionID in if sid = [] then m else deleteSessionLocked sid m)"

definition sm_RevokeUser :: "string \<Rightarrow> session_manager \<Rightarrow> session_manager" where
  "sm_RevokeUser username m =
     (let u = TrimSpace username in
      if u = [] then m
      else case byUser m u of
        None \<Rightarrow> m
      | Some ids \<Rightarrow> m\<lparr>sessions := filter (\<lambda>(sid, _). sid \<notin> ids) (sessions m),
                       byUser := (byUser m)(u := None)\<rparr>)"

section \<open>Well-formed stores\<close>

text \<open>
  The two maps of the store agree: every session is indexed under its user, and
  every indexed id is a session of that user.
\<close>

definition consistent :: "(string \<rightharpoonup> session) \<Rightarrow> (string \<rightharpoonup> string set) \<Rightarrow> bool" where
  "consistent S B \<longleftrightarrow>
     (\<forall>sid s. S sid = Some s \<longrightarrow> s_ID s = sid \<and> TrimSpace (s_Username s) = s_Username s
        \<and> s_Username s \<noteq> [] \<and> (\<exists>ids. B (s_Username s) = Some ids \<and> sid \<in> ids))
     \<and> (\<forall>u ids. B u = Some ids \<longrightarrow> ids \<noteq> {}
          \<and> (\<forall>sid \<in> ids. \<exists>s. S sid = Some s \<and> s_Username s = u))"

definition sm_wf :: "session_manager \<Rightarrow> bool" where
  "sm_wf m \<longleftrightarrow> distinct (map fst (sessions m)) \<and> 0 < ttl m
     \<and> consistent (map_of (sessions m)) (byUser m)"

lemma consistent_delete:
  assumes "consistent S B" "S sid = Some s" "B (s_Username s) = Some ids"
  shows "consistent (S(sid := None))
    (B(s_Username s := (if ids - {sid} = {} then None else Some (ids - {sid}))))"
  unfolding consistent_def
proof (intro conjI allI impI)
  fix k t assume k: "(S(sid := None)) k = Some t"
  then have t: "s_ID t = k \<and> TrimSpace (s_Username t) = s_Username t \<and> s_Username t \<noteq> []
      \<and> (\<exists>ids. B (s_Username t) = Some ids \<and> k \<in> ids)" and ne: "k \<noteq> sid"
    using assms(1) by (auto simp: consistent_def split: if_splits)
  then show "s_ID t = k" "TrimSpace (s_Username t) = s_Username t" "s_Username t \<noteq> []" by auto
  show "\<exists>i. (B(s_Username s := (if ids - {sid} = {} then None else Some (ids - {sid})))) (s_Username t) = Some i
      \<and> k \<in> i"
    using t ne assms(3) by auto
next
  fix u i assume u: "(B(s_Username s := (if ids - {sid} = {} then None else Some (ids - {sid})))) u = Some i"
  then show "i \<noteq> {}" using assms(1) by (auto simp: consistent_def split: if_splits)
  have "\<exists>j. B u = Some j \<and> i \<subseteq> j \<and> (u = s_Username s \<longrightarrow> sid \<notin> i)"
    using u assms(3) by (auto split: if_splits)
  then show "\<forall>k \<in> i. \<exists>t. (S(sid := None)) k = Some t \<and> s_Username t = u"
    using assms(1,2) by (fastforce simp: consistent_def)
qed

lemma consistent_insert:
  assumes c: "consistent S B" and n: "S sid = None"
    and s: "s_ID s = sid" "TrimSpace (s_Username s) = s_Username s" "s_Username s \<noteq> []"
  shows "consistent (S(sid \<mapsto> s))
    (B(s_Username s \<mapsto> insert sid (case B (s_Username s) of None \<Rightarrow> {} | Some ids \<Rightarrow> ids)))"
  unfolding consistent_def
proof (intro conjI allI impI)
  fix k t assume k: "(S(sid \<mapsto> s)) k = Some t"
  show "s_ID t = k" "TrimSpace (s_Username t) = s_Username t" "s_Username t \<noteq> []"
    using k c s by (auto simp: consistent_def split: if_splits)
  show "\<exists>i. (B(s_Username s \<mapsto> insert sid (case B (s_Username s) of None \<Rightarrow> {} | Some ids \<Rightarrow> ids))) (s_Username t)
      = Some i \<and> k \<in> i"
    using k c by (fastforce simp: consistent_def split: if_splits option.splits)
next
  fix u i assume u: "(B(s_Username s \<mapsto> insert sid (case B (s_Username s) of None \<Rightarrow> {} | Some ids \<Rightarrow> ids))) u = Some i"
  show "i \<noteq> {}" using u c by (auto simp: consistent_def split: if_splits)
  show "\<forall>k \<in> i. \<exists>t. (S(sid \<mapsto> s)) k = Some t \<and> s_Username t = u"
    using u c n
    by (auto simp: consistent_def split: if_splits option.splits) (metis option.distinct(1))
qed

lemma consistent_drop_user:
  assumes "consistent S B"
  shows "consistent (prune (\<lambda>_ s. s_Username s \<noteq> u) S) (B(u := None))"
  using assms unfolding consistent_def by (auto; fastforce)

lemma sm_wf_init [simp]: "sm_wf (NewSessionManager d)"
  by (simp add: sm_wf_def consistent_def NewSessionManager_def)

abbreviation sess :: "session_manager \<Rightarrow> string \<rightharpoonup> session" where
  "sess m \<equiv> map_of (sessions m)"

lemma sm_wf_index: "sm_wf m \<Longrightarrow> sess m sid = Some s \<Longrightarrow> \<exists>ids. byUser m (s_Username s) = Some ids \<and> sid \<in> ids"
  unfolding sm_wf_def consistent_def by blast

lemma sm_wf_indexed: "sm_wf m \<Longrightarrow> byUser m u = Some ids \<Longrightarrow> sess m k = Some s \<Longrightarrow> k \<in> ids \<longleftrightarrow> s_Username s = u"
  unfolding sm_wf_def consistent_def by (metis option.inject)

lemma deleteSessionLocked_sess [tbl]: "sess (deleteSessionLocked sid m) = (sess m)(sid := None)"
  by (auto simp: deleteSessionLocked_def Let_def delete_conv' fun_eq_iff split: option.splits)

lemma deleteSessionLocked_ttl [simp]: "ttl (deleteSessionLocked sid m) = ttl m"
  by (simp add: deleteSessionLocked_def Let_def split: option.splits)

lemma deleteSessionLocked_distinct [simp]:
  "distinct (map fst (sessions m)) \<Longrightarrow> distinct (map fst (sessions (deleteSessionLocked sid m)))"
  by (auto simp: deleteSessionLocked_def Let_def distinct_delete split: option.splits)

lemma deleteSessionLocked_wf:
  assumes "sm_wf m"
  shows "sm_wf (deleteSessionLocked sid m)"
proof (cases "sess m sid")
  case None
  then show ?thesis using assms by (simp add: deleteSessionLocked_def)
next
  case (Some s)
  then obtain ids where ids: "byUser m (s_Username s) = Some ids" "sid \<in> ids"
    using sm_wf_index [OF assms] by blast
  have "byUser (deleteSessionLocked sid m)
      = (byUser m)(s_Username s := (if ids - {sid} = {} then None else Some (ids - {sid})))"
    using Some ids by (simp add: deleteSessionLocked_def Let_def)
  then show ?thesis
    using assms Some ids
    by (simp only: sm_wf_def deleteSessionLocked_sess deleteSessionLocked_ttl
        deleteSessionLocked_distinct consistent_delete)
qed

lemma cleanup_props:
  assumes "sm_wf m"
  shows "sm_wf (cleanupExpiredLocked now m) \<and> ttl (cleanupExpiredLocked now m) = ttl m
    \<and> sess (cleanupExpiredLocked now m) = prune (\<lambda>_ s. now < s_ExpiresAt s) (sess m)"
proof -
  have "sm_wf (fold deleteSessionLocked xs m) \<and> ttl (fold deleteSessionLocked xs m) = ttl m
      \<and> sess (fold deleteSessionLocked xs m) = (\<lambda>k. if k \<in> set xs then None else sess m k)" for xs
    using assms
    by (induction xs arbitrary: m)
       (auto simp: deleteSessionLocked_wf deleteSessionLocked_sess fun_eq_iff)
  moreover have "distinct (map fst (sessions m))" using assms by (simp add: sm_wf_def)
  then have "(k, s) \<in> set (sessions m) \<longleftrightarrow> sess m k = Some s" for k s
    by simp
  then have "k \<in> set (map fst (filter (\<lambda>(sid, s). \<not> now < s_ExpiresAt s) (sessions m)))
      \<longleftrightarrow> (\<exists>s. sess m k = Some s \<and> \<not> now < s_ExpiresAt s)" for k
    by force
  ultimately show ?thesis
    unfolding cleanupExpiredLocked_def prune_def
    by (auto simp: fun_eq_iff split: option.splits)
qed

lemmas cleanup_wf = cleanup_props [THEN conjunct1]
  and cleanup_ttl = cleanup_props [THEN conjunct2, THEN conjunct1]
  and cleanup_sess = cleanup_props [THEN conjunct2, THEN conjunct2]

lemma sm_Create_sess:
  assumes "sm_wf m" "\<not> blank u"
  shows "sess (snd (sm_Create now (Some sid) u m)) = (prune (\<lambda>_ s. now < s_ExpiresAt s) (sess m))
     (sid \<mapsto> \<lparr> s_ID = sid, s_Username = TrimSpace u, s_CreatedAt = now, s_ExpiresAt = now + ttl m \<rparr>)"
  using assms by (simp add: sm_Create_def Let_def blank_def cleanup_sess update_conv')

lemma sm_Create_wf:
  assumes wf: "sm_wf m" and fresh: "sess m sid = None"
  shows "sm_wf (snd (sm_Create now (Some sid) u m))"
proof (cases "TrimSpace u = []")
  case False
  let ?m1 = "cleanupExpiredLocked now m"
  let ?s = "\<lparr> s_ID = sid, s_Username = TrimSpace u, s_CreatedAt = now, s_ExpiresAt = now + ttl m \<rparr>"
  let ?ids = "case byUser ?m1 (TrimSpace u) of None \<Rightarrow> {} | Some ids \<Rightarrow> ids"
  have "sess ?m1 sid = None" using fresh by (simp add: cleanup_sess [OF wf])
  then have "consistent ((sess ?m1)(sid \<mapsto> ?s)) ((byUser ?m1)(TrimSpace u \<mapsto> insert sid ?ids))"
    using consistent_insert [of "sess ?m1" "byUser ?m1" sid ?s] cleanup_wf [OF wf, of now] False
    by (simp add: sm_wf_def)
  moreover have "snd (sm_Create now (Some sid) u m)
      = ?m1\<lparr>sessions := AList.update sid ?s (sessions ?m1), byUser := (byUser ?m1)(TrimSpace u \<mapsto> insert sid ?ids)\<rparr>"
    using False by (simp add: sm_Create_def Let_def)
  ultimately show ?thesis
    using cleanup_wf [OF wf, of now] by (simp add: sm_wf_def distinct_update update_conv')
qed (use wf in \<open>simp add: sm_Create_def\<close>)

lemma sm_Get_state:
  assumes "sm_wf m"
  shows "snd (sm_Get now sid u m) = (if blank sid \<or> blank u then m else cleanupExpiredLocked now m)"
    and "fst (sm_Get now sid u m) =
      (if blank sid \<or> blank u then None
       else case sess m (TrimSpace sid) of
         None \<Rightarrow> None
       | Some s \<Rightarrow> if now < s_ExpiresAt s \<and> s_Username s = TrimSpace u then Some s else None)"
  using assms by (auto simp: sm_Get_def blank_def Let_def cleanup_sess prune_def split: option.splits)

lemma sm_Revoke_sess:
  "sess (sm_Revoke sid m) = (if blank sid then sess m else (sess m)(TrimSpace sid := None))"
  by (simp add: sm_Revoke_def blank_def Let_def deleteSessionLocked_sess)

lemma sm_Revoke_wf: "sm_wf m \<Longrightarrow> sm_wf (sm_Revoke sid m)"
  by (simp add: sm_Revoke_def Let_def deleteSessionLocked_wf)

lemma map_of_filter_key:
  "map_of (filter (\<lambda>(k, _). P k) xs) k = (if P k then map_of xs k else None)"
  by (induction xs) auto

lemma sm_RevokeUser_sess:
  assumes "sm_wf m"
  shows "sess (sm_RevokeUser u m) =
     (if blank u then sess m else prune (\<lambda>_ s. s_Username s \<noteq> TrimSpace u) (sess m))"
proof (cases "byUser m (TrimSpace u)")
  case None
  then have "s_Username s \<noteq> TrimSpace u" if "sess m k = Some s" for k s
    using sm_wf_index [OF assms that] by auto
  then have "prune (\<lambda>_ s. s_Username s \<noteq> TrimSpace u) (sess m) = sess m"
    by (auto simp: fun_eq_iff prune_def split: option.split)
  then show ?thesis using None by (simp add: sm_RevokeUser_def blank_def Let_def)
next
  case (Some ids)
  have "(if k \<notin> ids then sess m k else None) = prune (\<lambda>_ s. s_Username s \<noteq> TrimSpace u) (sess m) k" for k
    using sm_wf_indexed [OF assms Some, of k] by (cases "sess m k") (simp_all add: prune_def)
  then show ?thesis using Some
    by (auto simp: sm_RevokeUser_def blank_def Let_def map_of_filter_key)
qed

lemma sm_RevokeUser_wf:
  assumes "sm_wf m"
  shows "sm_wf (sm_RevokeUser u m)"
proof (cases "blank u \<or> byUser m (TrimSpace u) = None")
  case True
  then show ?thesis using assms by (auto simp: sm_RevokeUser_def blank_def Let_def)
next
  case False
  then obtain ids where ids: "byUser m (TrimSpace u) = Some ids" by auto
  have "sess (sm_RevokeUser u m) = prune (\<lambda>_ s. s_Username s \<noteq> TrimSpace u) (sess m)"
    using sm_RevokeUser_sess [OF assms] False by simp
  moreover have "byUser (sm_RevokeUser u m) = (byUser m)(TrimSpace u := None)"
    "ttl (sm_RevokeUser u m) = ttl m"
    "distinct (map fst (sessions m)) \<Longrightarrow> distinct (map fst (sessions (sm_RevokeUser u m)))"
    using False ids by (auto simp: sm_RevokeUser_def blank_def Let_def distinct_map_filter)
  ultimately show ?thesis
    using assms consistent_drop_user by (simp add: sm_wf_def)
qed

section \<open>Histories and the specification of a live session\<close>

datatype sm_event =
    EvCreate "string option" string
  | EvValidate string string
  | EvRevoke string
  | EvRevokeUser string

fun sm_apply :: "time \<Rightarrow> sm_event \<Rightarrow> session_manager \<Rightarrow> session_manager" where
  "sm_apply now (EvCreate rnd u) m = snd (sm_Create now rnd u m)"
| "sm_apply now (EvValidate sid u) m = snd (sm_Validate now sid u m)"
| "sm_apply now (EvRevoke sid) m = sm_Revoke sid m"
| "sm_apply now (EvRevokeUser u) m = sm_RevokeUser u m"

fun sm_run :: "(time \<times> sm_event) list \<Rightarrow> session_manager \<Rightarrow> session_manager" where
  "sm_run [] m = m"
| "sm_run ((t, e) # h) m = sm_run h (sm_apply t e m)"

text \<open>
  The specification: which user a session id belongs to and when it expires,
  after a history.  It knows nothing of the clean-up or of the index by user.
\<close>

type_synonym live = "string \<rightharpoonup> string \<times> time"

fun live_apply :: "dur \<Rightarrow> time \<Rightarrow> sm_event \<Rightarrow> live \<Rightarrow> live" where
  "live_apply d now (EvCreate rnd u) L =
     (case rnd of None \<Rightarrow> L | Some sid \<Rightarrow> if blank u then L else L(sid \<mapsto> (TrimSpace u, now + d)))"
| "live_apply d now (EvValidate sid u) L = L"
| "live_apply d now (EvRevoke sid) L = (if blank sid then L else L(TrimSpace sid := None))"
| "live_apply d now (EvRevokeUser u) L = (if blank u then L else prune (\<lambda>_ (v, _). v \<noteq> TrimSpace u) L)"

fun live_run :: "dur \<Rightarrow> (time \<times> sm_event) list \<Rightarrow> live \<Rightarrow> live" where
  "live_run d [] L = L"
| "live_run d ((t, e) # h) L = live_run d h (live_apply d t e L)"

definition live_at :: "live \<Rightarrow> time \<Rightarrow> string \<Rightarrow> string \<Rightarrow> bool" where
  "live_at L now sid u \<longleftrightarrow> (case L sid of None \<Rightarrow> False | Some (v, e) \<Rightarrow> v = u \<and> now < e)"

text \<open>The store simulates the specification up to entries that have expired.\<close>

definition entry :: "session_manager \<Rightarrow> live" where
  "entry m sid = map_option (\<lambda>s. (s_Username s, s_ExpiresAt s)) (sess m sid)"

definition refines :: "time \<Rightarrow> session_manager \<Rightarrow> live \<Rightarrow> bool" where
  "refines now m L \<longleftrightarrow> sm_wf m
     \<and> (\<forall>sid u e. now < e \<longrightarrow> (entry m sid = Some (u, e) \<longleftrightarrow> L sid = Some (u, e)))"

lemma refines_later: "refines t m L \<Longrightarrow> t \<le> now \<Longrightarrow> refines now m L"
  by (auto simp: refines_def)

lemma entry_prune:
  "sess m' = prune (\<lambda>_ s. P (s_Username s, s_ExpiresAt s)) (sess m) \<Longrightarrow> entry m' = prune (\<lambda>_. P) (entry m)"
  by (auto simp: entry_def fun_eq_iff prune_def split: option.splits)

lemma entry_laws:
  assumes "sm_wf m"
  shows "\<not> blank u \<Longrightarrow> entry (snd (sm_Create now (Some sid) u m))
            = (prune (\<lambda>_ e. now < snd e) (entry m))(sid \<mapsto> (TrimSpace u, now + ttl m))"
    and "entry (snd (sm_Validate now sid u m))
            = (if blank sid \<or> blank u then entry m else prune (\<lambda>_ e. now < snd e) (entry m))"
    and "entry (sm_Revoke sid m) = (if blank sid then entry m else (entry m)(TrimSpace sid := None))"
    and "entry (sm_RevokeUser u m)
            = (if blank u then entry m else prune (\<lambda>_ e. fst e \<noteq> TrimSpace u) (entry m))"
proof -
  have c: "entry (cleanupExpiredLocked now m) = prune (\<lambda>_ e. now < snd e) (entry m)"
    by (rule entry_prune) (simp add: cleanup_sess [OF assms])
  show "entry (snd (sm_Validate now sid u m))
            = (if blank sid \<or> blank u then entry m else prune (\<lambda>_ e. now < snd e) (entry m))"
    by (simp add: sm_Validate_def split_beta sm_Get_state(1) [OF assms] c)
  show "\<not> blank u \<Longrightarrow> entry (snd (sm_Create now (Some sid) u m))
            = (prune (\<lambda>_ e. now < snd e) (entry m))(sid \<mapsto> (TrimSpace u, now + ttl m))"
    by (simp add: fun_eq_iff entry_def sm_Create_sess [OF assms] prune_def split: option.split)
  show "entry (sm_Revoke sid m) = (if blank sid then entry m else (entry m)(TrimSpace sid := None))"
    by (simp add: fun_eq_iff entry_def sm_Revoke_sess)
  show "entry (sm_RevokeUser u m)
            = (if blank u then entry m else prune (\<lambda>_ e. fst e \<noteq> TrimSpace u) (entry m))"
    by (auto simp: fun_eq_iff entry_def sm_RevokeUser_sess [OF assms] prune_def split: option.split)
qed

lemma sm_apply_ttl [simp]: "sm_wf m \<Longrightarrow> ttl (sm_apply now e m) = ttl m"
  by (cases e) (auto simp: sm_Create_def sm_Validate_def sm_Get_state(1) sm_Revoke_def
      sm_RevokeUser_def cleanup_ttl split_beta Let_def split: option.splits)

lemma sm_apply_wf:
  assumes "sm_wf m" "\<And>sid u. e = EvCreate (Some sid) u \<Longrightarrow> sess m sid = None"
  shows "sm_wf (sm_apply now e m)"
proof (cases e)
  case (EvCreate rnd u)
  then show ?thesis using assms sm_Create_wf [OF assms(1)]
    by (cases rnd) (auto simp: sm_Create_def Let_def)
qed (use assms in \<open>simp_all add: sm_Validate_def sm_Get_state(1) split_beta cleanup_wf
       sm_Revoke_wf sm_RevokeUser_wf\<close>)

lemma refines_apply:
  assumes r: "refines t m L" and t: "t \<le> now"
    and fresh: "\<And>sid u. e = EvCreate (Some sid) u \<Longrightarrow> sess m sid = None"
  shows "refines now (sm_apply now e m) (live_apply (ttl m) now e L)"
proof -
  have r': "refines now m L" by (rule refines_later [OF r t])
  then have wf: "sm_wf m" by (simp add: refines_def)
  have "\<forall>sid u x. now < x \<longrightarrow>
     (entry (sm_apply now e m) sid = Some (u, x) \<longleftrightarrow> live_apply (ttl m) now e L sid = Some (u, x))"
  proof (cases e)
    case (EvCreate rnd u)
    show ?thesis
    proof (cases "blank u \<or> rnd = None")
      case True
      with EvCreate r' show ?thesis
        by (auto simp: sm_Create_def Let_def blank_def refines_def split: option.splits)
    next
      case False
      then obtain sid where "rnd = Some sid" by auto
      with False EvCreate r' show ?thesis
        by (auto simp: refines_def entry_laws [OF wf])
    qed
  qed (use r' in \<open>auto simp: refines_def entry_laws [OF wf]\<close>)
  with sm_apply_wf [OF wf fresh] show ?thesis by (simp add: refines_def)
qed

text \<open>The ids a history creates.\<close>

fun created :: "(time \<times> sm_event) list \<Rightarrow> string list" where
  "created [] = []"
| "created ((t, EvCreate (Some sid) u) # h) = sid # created h"
| "created (e # h) = created h"

lemma created_Cons: "created ((t, e) # h) =
   (case e of EvCreate (Some sid) u \<Rightarrow> [sid] | _ \<Rightarrow> []) @ created h"
  by (auto split: sm_event.split option.split)

lemma sess_apply_dom:
  assumes wf: "sm_wf m" and k: "k \<in> dom (sess (sm_apply now e m))"
  shows "k \<in> dom (sess m) \<or> (\<exists>u. e = EvCreate (Some k) u)"
proof -
  have d: "k \<in> dom (sess m') \<longleftrightarrow> entry m' k \<noteq> None" for m' k by (auto simp: entry_def)
  show ?thesis
  proof (cases e)
    case (EvCreate rnd u)
    show ?thesis
    proof (cases "blank u \<or> rnd = None")
      case True
      then show ?thesis using k EvCreate
        by (auto simp: sm_Create_def Let_def blank_def split: option.splits if_splits)
    next
      case False
      then obtain sid where "rnd = Some sid" by auto
      then show ?thesis using k EvCreate False
        by (auto simp: d entry_laws [OF wf] split: if_splits)
    qed
  qed (use k in \<open>auto simp: d entry_laws [OF wf] split: if_splits\<close>)
qed

lemma refines_run:
  assumes "refines t m L" "sorted (t # map fst h)" "distinct (created h)"
    and "set (created h) \<inter> dom (sess m) = {}"
  shows "refines (last (t # map fst h)) (sm_run h m) (live_run (ttl m) h L)"
  using assms
proof (induction h arbitrary: t m L)
  case (Cons x h)
  obtain s e where x: "x = (s, e)" by (cases x)
  have wf: "sm_wf m" using Cons.prems(1) by (simp add: refines_def)
  have ap: "refines s (sm_apply s e m) (live_apply (ttl m) s e L)"
  proof (rule refines_apply [OF Cons.prems(1)])
    show "t \<le> s" using Cons.prems(2) x by simp
    show "sess m sid = None" if "e = EvCreate (Some sid) u" for sid u
      using Cons.prems(4) that x by (auto simp: dom_def)
  qed
  have "set (created h) \<inter> dom (sess (sm_apply s e m)) = {}"
  proof (rule equals0I, elim IntE)
    fix k assume k: "k \<in> set (created h)" "k \<in> dom (sess (sm_apply s e m))"
    from sess_apply_dom [OF wf k(2)] show False
    proof
      assume "k \<in> dom (sess m)"
      then show False using Cons.prems(4) k(1) x by (auto simp: created_Cons)
    next
      assume "\<exists>u. e = EvCreate (Some k) u"
      then show False using Cons.prems(3) k(1) x by auto
    qed
  qed
  moreover have "distinct (created h)" using Cons.prems(3) x by (simp add: created_Cons)
  ultimately show ?case
    using Cons.IH [of s "sm_apply s e m" "live_apply (ttl m) s e L"] ap Cons.prems(2) x wf by simp
qed simp

text \<open>
  C28: the session store implements its specification.  After any history of
  creations with fresh ids, validations, logouts and revocations, in the
  order of time, Validate accepts an id and a user name exactly when the id was
  issued to that user, has not been revoked since and has not expired; neither
  the clean-up of expired sessions nor the index by user ever changes an answer.
\<close>
theorem session_store_refines_spec:
  assumes "sorted (map fst h)" "distinct (created h)" "\<forall>(t, e) \<in> set h. t \<le> now"
  shows "fst (sm_Validate now sid u (sm_run h (NewSessionManager d)))
    \<longleftrightarrow> \<not> blank sid \<and> \<not> blank u
       \<and> live_at (live_run (ttl (NewSessionManager d)) h Map.empty) now (TrimSpace sid) (TrimSpace u)"
proof -
  let ?init = "NewSessionManager d"
  let ?t = "case h of [] \<Rightarrow> now | (t, _) # _ \<Rightarrow> t"
  let ?m = "sm_run h ?init" and ?L = "live_run (ttl ?init) h Map.empty"
  have "refines ?t ?init Map.empty" by (simp add: refines_def entry_def NewSessionManager_def consistent_def sm_wf_def)
  then have "refines (last (?t # map fst h)) ?m ?L"
    using assms by (intro refines_run) (auto simp: NewSessionManager_def split: list.splits)
  moreover have "last (?t # map fst h) \<le> now"
    using assms(3) last_in_set [of h] by (cases "h = []") (auto simp: last_map split_beta)
  ultimately have r: "refines now ?m ?L" by (rule refines_later)
  then have wf: "sm_wf ?m" by (simp add: refines_def)
  have "fst (sm_Validate now sid u ?m) \<longleftrightarrow> \<not> blank sid \<and> \<not> blank u \<and>
     (\<exists>s. sess ?m (TrimSpace sid) = Some s \<and> s_Username s = TrimSpace u \<and> now < s_ExpiresAt s)"
    using sm_Get_state(2) [OF wf, of now sid u]
    by (auto simp: sm_Validate_def split_beta simp del: map_of_eq_Some_iff split: option.splits if_splits)
  also have "(\<exists>s. sess ?m (TrimSpace sid) = Some s \<and> s_Username s = TrimSpace u \<and> now < s_ExpiresAt s)
      \<longleftrightarrow> (\<exists>e. now < e \<and> entry ?m (TrimSpace sid) = Some (TrimSpace u, e))"
    by (auto simp: entry_def)
  also have "\<dots> \<longleftrightarrow> (\<exists>e. now < e \<and> ?L (TrimSpace sid) = Some (TrimSpace u, e))"
    using r by (auto simp: refines_def)
  also have "\<dots> \<longleftrightarrow> live_at ?L now (TrimSpace sid) (TrimSpace u)"
    by (auto simp: live_at_def split: option.splits)
  finally show ?thesis .
qed

theorem session_store_refines_spec_witness:
  "fst (sm_Validate 9 ''s1'' '' admin ''
     (sm_run [(1, EvCreate (Some ''s1'') ''admin''), (2, EvCreate (Some ''s2'') ''bob''), (3, EvRevokeUser ''bob'')]
        (NewSessionManager 10)))"
  using session_store_refines_spec [of
      "[(1, EvCreate (Some ''s1'') ''admin''), (2, EvCreate (Some ''s2'') ''bob''), (3, EvRevokeUser ''bob'')]"
      9 "''s1''" "'' admin ''" 10]
  by (simp add: live_at_def blank_def TrimSpace_def is_space_def NewSessionManager_def prune_def)

section \<open>The store provides the contract\<close>

text \<open>
  The facts the contract asks for, over the specification relation: two stores
  with the same live entries answer every later check alike.
\<close>

lemma sm_Validate_iff:
  "sm_wf m \<Longrightarrow> fst (sm_Validate now i u m) \<longleftrightarrow>
     \<not> blank i \<and> \<not> blank u \<and> (\<exists>e. now < e \<and> entry m (TrimSpace i) = Some (TrimSpace u, e))"
  by (auto simp: sm_Validate_def split_beta sm_Get_state(2) entry_def split: option.splits)

lemma sess_None_entry: "sess m sid = None \<longleftrightarrow> entry m sid = None"
  by (simp add: entry_def)

interpretation sm: session_store sm_wf "\<lambda>m sid. entry m sid \<noteq> None"
  "\<lambda>t sid v m. snd (sm_Create t (Some sid) v m)" sm_Validate sm_Revoke sm_RevokeUser ttl
proof (unfold_locales, goal_cases)
  case (1 s sid t v) then show ?case by (metis sess_None_entry sm_Create_wf)
next
  case (2 s t sid v) then show ?case
    by (simp add: sm_Validate_def split_beta sm_Get_state(1) cleanup_wf)
next
  case (3 s sid) then show ?case by (rule sm_Revoke_wf)
next
  case (4 s v) then show ?case by (rule sm_RevokeUser_wf)
next
  case (5 s sid t now v i u)
  then have wf: "sm_wf (snd (sm_Create t (Some sid) v s))"
    by (metis sess_None_entry sm_Create_wf)
  from 5 show ?case
    by (auto simp: sm_Validate_iff [OF wf] sm_Validate_iff [OF 5(1)] entry_laws(1) [OF 5(1)] blank_def)
next
  case (6 s t now i u j v)
  then have wf: "sm_wf (snd (sm_Validate t j v s))"
    by (simp add: sm_Validate_def split_beta sm_Get_state(1) cleanup_wf)
  from 6 show ?case
    by (auto simp: sm_Validate_iff [OF wf] sm_Validate_iff [OF 6(1)] entry_laws(2) [OF 6(1)])
next
  case (7 s now i u j)
  then show ?case
    by (auto simp: sm_Validate_iff sm_Revoke_wf entry_laws(3) blank_def split: if_splits)
next
  case (8 s now i u v)
  then show ?case
    by (auto simp: sm_Validate_iff sm_RevokeUser_wf entry_laws(4) blank_def split: if_splits)
next
  case (9 s t now i u) then show ?case by (auto simp: sm_Validate_iff)
next
  case (10 now i u s) then show ?case
    by (auto simp: sm_Validate_def sm_Get_def blank_def Let_def split: if_splits)
next
  case (11 s t sid v i) show ?case
  proof (cases "blank v")
    case True
    then show ?thesis using 11 by (simp add: sm_Create_def blank_def)
  next
    case False
    from 11(2) have "entry (snd (sm_Create t (Some sid) v s)) i \<noteq> None" .
    then show ?thesis unfolding entry_laws(1) [OF 11(1) False]
      by (cases "i = sid") auto
  qed
next
  case (12 s t j v i) then show ?case by (auto simp: entry_laws(2) split: if_splits)
next
  case (13 s j i) then show ?case by (auto simp: entry_laws(3) split: if_splits)
next
  case (14 s v i) then show ?case by (auto simp: entry_laws(4) split: if_splits)
qed

end
