(* ===== verification/AdminAuth.thy ===== *)
theory AdminAuth
  imports Http Sessions
begin

text \<open>
  Authentication of admin requests: the JWT manager (internal/auth/jwt.go),
  the bearer/cookie middleware (middleware/admin_auth.go) and the CSRF
  middleware (middleware/csrf_middleware.go).  The JWT library and the parser
  of IP addresses are arguments: jwt_sign and jwt_parse stand for
  SignedString and ParseWithClaims, addr for netip.ParseAddr followed by
  IsLoopback.
\<close>

record jwt_manager =
  jm_Secret :: string
  jm_TTL :: dur
  jm_Issuer :: string
  jm_Audience :: string

record claims =
  c_Username :: string
  c_SessionID :: string
  c_ExpiresAt :: "time option"
  c_IssuedAt :: "time option"
  c_NotBefore :: "time option"
  c_Subject :: string
  c_Issuer :: string
  c_ID :: string
  c_Audience :: "string list"

text \<open>jwt.NewNumericDate truncates to whole seconds.\<close>

definition NumericDate :: "time \<Rightarrow> time" where
  "NumericDate t = t div second * second"

type_synonym jwt_sign = "string \<Rightarrow> claims \<Rightarrow> string option"

record parser_options =
  po_key :: string
  po_alg :: "string list"
  po_leeway :: dur
  po_issuer :: "string option"
  po_audience :: "string option"

type_synonym jwt_parse = "parser_options \<Rightarrow> time \<Rightarrow> string \<Rightarrow> claims option"

definition jwt_Generate :: "jwt_sign \<Rightarrow> time \<Rightarrow> jwt_manager option \<Rightarrow> string \<Rightarrow> string \<Rightarrow> string + string" where
  "jwt_Generate jsign now m username sessionID = (case m of
     None \<Rightarrow> Inl ''jwt manager is nil''
   | Some m \<Rightarrow>
       if jm_Secret m = [] then Inl ''jwt secret is empty''
       else if TrimSpace username = [] then Inl ''username is required''
       else if TrimSpace sessionID = [] then Inl ''session id is required''
       else let
           d = (if jm_TTL m \<le> 0 then hour else jm_TTL m);
           c = \<lparr> c_Username = TrimSpace username, c_SessionID = TrimSpace sessionID,
                 c_ExpiresAt = Some (NumericDate (now + d)), c_IssuedAt = Some (NumericDate now),
                 c_NotBefore = Some (NumericDate now), c_Subject = TrimSpace username,
                 c_Issuer = jm_Issuer m, c_ID = TrimSpace sessionID,
                 c_Audience = (if jm_Audience m \<noteq> [] then [jm_Audience m] else []) \<rparr>
         in (case jsign (jm_Secret m) c of None \<Rightarrow> Inl ''signing failed'' | Some tok \<Rightarrow> Inr tok))"

definition jwt_Verify :: "jwt_parse \<Rightarrow> time \<Rightarrow> jwt_manager option \<Rightarrow> string \<Rightarrow> claims option" where
  "jwt_Verify jparse now m tok = (case m of
     None \<Rightarrow> None
   | Some m \<Rightarrow>
       if jm_Secret m = [] then None
       else jparse \<lparr> po_key = jm_Secret m, po_alg = [''HS256''], po_leeway = 5 * second,
                    po_issuer = (if jm_Issuer m \<noteq> [] then Some (jm_Issuer m) else None),
                    po_audience = (if jm_Audience m \<noteq> [] then Some (jm_Audience m) else None) \<rparr> now tok)"

section \<open>The admin middleware\<close>

definition bearerToken :: "string \<Rightarrow> string" where
  "bearerToken h =
     (if h = [] then []
      else case SplitN2 (CHR '' '') h of
        None \<Rightarrow> []
      | Some (a, b) \<Rightarrow> if \<not> EqualFold (TrimSpace a) ''Bearer'' then [] else TrimSpace b)"

definition resolveToken :: "request \<Rightarrow> string \<Rightarrow> string + string" where
  "resolveToken r cookieName =
     (let headerToken = bearerToken (TrimSpace (r_header r ''Authorization''));
          cookieToken = TrimSpace (r_cookie r cookieName)
      in if headerToken \<noteq> [] \<and> cookieToken \<noteq> [] \<and> headerToken \<noteq> cookieToken
         then Inl ''conflicting auth tokens''
         else if headerToken \<noteq> [] then Inr headerToken
         else if cookieToken \<noteq> [] then Inr cookieToken
         else Inl ''missing auth token'')"

definition verifyAdminSession ::
    "jwt_parse \<Rightarrow> time \<Rightarrow> jwt_manager option \<Rightarrow> session_manager option \<Rightarrow> string
      \<Rightarrow> claims option \<times> session_manager option" where
  "verifyAdminSession jparse now jm sm tok = (case (jm, sm) of
     (Some _, Some m) \<Rightarrow> (case jwt_Verify jparse now jm tok of
         None \<Rightarrow> (None, sm)
       | Some c \<Rightarrow>
           let username = TrimSpace (c_Username c); sessionID = TrimSpace (c_SessionID c) in
           if username = [] \<or> sessionID = [] then (None, sm)
           else case sm_Validate now sessionID username m of (ok, m') \<Rightarrow>
             if \<not> ok then (None, Some m') else (Some c, Some m'))
   | _ \<Rightarrow> (None, sm))"

definition default_to :: "string \<Rightarrow> string \<Rightarrow> string" where
  "default_to d s = (let s = TrimSpace s in if s = [] then d else s)"

text \<open>The locals of an authenticated request are functions of its claims.\<close>

definition AdminAuth :: "jwt_parse \<Rightarrow> time \<Rightarrow> jwt_manager option \<Rightarrow> string \<Rightarrow> request
    \<Rightarrow> session_manager option \<Rightarrow> claims step \<times> session_manager option" where
  "AdminAuth jparse now jm cookieName r sm =
     (case resolveToken r (default_to ''admin_session'' cookieName) of
        Inl _ \<Rightarrow> (Halt (send_error 401 ''unauthorized''), sm)
      | Inr tok \<Rightarrow> (case verifyAdminSession jparse now jm sm tok of
          (None, sm') \<Rightarrow> (Halt (send_error 401 ''invalid token''), sm')
        | (Some c, sm') \<Rightarrow> (Next c, sm')))"

definition mw_isSecureRequest :: "(string \<Rightarrow> bool option) \<Rightarrow> request \<Rightarrow> bool" where
  "mw_isSecureRequest addr r =
     (let hostname = TrimSpace (r_hostname r) in
      if EqualFold (r_protocol r) ''https'' then True
      else if hostname = [] then False
      else if hostname = ''localhost'' then False
      else case addr hostname of Some loopback \<Rightarrow> \<not> loopback | None \<Rightarrow> True)"

definition clearAuthCookie :: "(string \<Rightarrow> bool option) \<Rightarrow> request \<Rightarrow> string \<Rightarrow> cookie" where
  "clearAuthCookie addr r name =
     \<lparr> ck_Name = name, ck_Value = [], ck_Path = ''/'', ck_HTTPOnly = True,
       ck_Secure = mw_isSecureRequest addr r, ck_SameSite = ''Strict'', ck_MaxAge = -1 \<rparr>"

definition redirect_found :: "string \<Rightarrow> cookie list \<Rightarrow> response" where
  "redirect_found loc cks = Response 302 [(''Location'', loc)] cks JNull"

definition AdminPageAuth :: "(string \<Rightarrow> bool option) \<Rightarrow> jwt_parse \<Rightarrow> time \<Rightarrow> jwt_manager option
    \<Rightarrow> string \<Rightarrow> string \<Rightarrow> request \<Rightarrow> session_manager option \<Rightarrow> claims step \<times> session_manager option" where
  "AdminPageAuth addr jparse now jm cookieName loginPath r sm =
     (let cookieName = default_to ''admin_session'' cookieName;
          loginPath = default_to ''/login'' loginPath;
          tok = TrimSpace (r_cookie r cookieName)
      in if tok = [] then (Halt (redirect_found loginPath []), sm)
         else case verifyAdminSession jparse now jm sm tok of
           (None, sm') \<Rightarrow> (Halt (redirect_found loginPath [clearAuthCookie addr r cookieName]), sm')
         | (Some c, sm') \<Rightarrow> (Next c, sm'))"

section \<open>The CSRF middleware\<close>

definition safe_methods :: "string list" where
  "safe_methods = [''GET'', ''HEAD'', ''OPTIONS'']"

definition CSRFProtect :: "string \<Rightarrow> string \<Rightarrow> request \<Rightarrow> unit step" where
  "CSRFProtect cookieName headerName r =
     (let cookieName = default_to ''csrf_token'' cookieName;
          headerName = default_to ''X-CSRF-Token'' headerName;
          method = ToUpper (TrimSpace (r_method r))
      in if method \<in> set safe_methods then Next ()
         else let fromHeader = TrimSpace (r_header r headerName);
                  fromCookie = TrimSpace (r_cookie r cookieName)
           in if fromHeader = [] then Halt (send 403
                  [(''error'', JStr ''csrf token missing''),
                   (''hint'', JStr (''Include the '' @ headerName @ '' header with your request''))])
              else if fromCookie = [] then Halt (send 403
                  [(''error'', JStr ''csrf token missing''),
                   (''hint'', JStr ''No CSRF cookie present; please re-authenticate'')])
              else if fromHeader \<noteq> fromCookie then Halt (send_error 403 ''csrf token mismatch'')
              else Next ())"

section \<open>What the middlewares guarantee\<close>

lemma verifyAdminSession_Some:
  assumes "verifyAdminSession jparse now jm sm tok = (Some c, sm')"
  shows "\<exists>m. sm = Some m \<and> jwt_Verify jparse now jm tok = Some c
    \<and> \<not> blank (c_Username c) \<and> \<not> blank (c_SessionID c)
    \<and> sm_Validate now (c_SessionID c) (c_Username c) m = (True, the sm') \<and> sm' \<noteq> None"
proof -
  have v: "sm_Validate now (TrimSpace i) (TrimSpace u) m = sm_Validate now i u m" for i u m
    by (simp add: sm_Validate_def sm_Get_def Let_def)
  from assms show ?thesis
    by (auto simp: verifyAdminSession_def Let_def v blank_def split: option.splits prod.splits if_splits)
qed

lemma AdminAuth_Next:
  assumes "AdminAuth jparse now jm name r sm = (Next c, sm')"
  shows "\<exists>tok m. resolveToken r (default_to ''admin_session'' name) = Inr tok \<and> sm = Some m
    \<and> jwt_Verify jparse now jm tok = Some c
    \<and> fst (sm_Validate now (c_SessionID c) (c_Username c) m)"
proof -
  from assms obtain tok where
    "resolveToken r (default_to ''admin_session'' name) = Inr tok"
    "verifyAdminSession jparse now jm sm tok = (Some c, sm')"
    by (auto simp: AdminAuth_def split: sum.splits prod.splits option.splits)
  with verifyAdminSession_Some show ?thesis by (metis fst_conv)
qed

text \<open>
  The admin middleware admits a request exactly when the one token it carries
  (header and cookie may not disagree) verifies under the configured secret to
  claims whose session the store accepts for the claimed user at this instant;
  everything else is answered 401 and never reaches a handler.
\<close>
lemma AdminAuth_admits_iff:
  "passes (fst (AdminAuth jparse now (Some j) name r (Some m))) \<longleftrightarrow>
     (\<exists>tok c. resolveToken r (default_to ''admin_session'' name) = Inr tok
        \<and> jwt_Verify jparse now (Some j) tok = Some c
        \<and> fst (sm_Validate now (c_SessionID c) (c_Username c) m))"
proof -
  have v: "sm_Validate now (TrimSpace i) (TrimSpace u) m = sm_Validate now i u m" for i u
    by (simp add: sm_Validate_def sm_Get_def Let_def)
  have b: "fst (sm_Validate now i u m) \<Longrightarrow> TrimSpace i \<noteq> [] \<and> TrimSpace u \<noteq> []" for i u
    using sm.check_blank by (simp add: blank_def)
  show ?thesis
    by (auto simp: AdminAuth_def verifyAdminSession_def Let_def v split: sum.splits option.splits prod.splits
        dest: b) (metis b fst_conv)+
qed

text \<open>
  Once a session has been revoked, no later history of logins with fresh ids,
  checks and revocations makes the middleware admit a request whose token names it.
\<close>
lemma revoked_token_refused:
  assumes "sm_wf m" "\<not> blank sid"
    and "\<forall>(t, e) \<in> set h. t \<le> now \<and> (\<forall>i v. e = Issue i v \<longrightarrow> \<not> blank v \<and> TrimSpace sid \<noteq> i)"
    and "distinct (issued h)" "\<forall>i \<in> set (issued h). entry m i = None"
    and "\<And>tok c. resolveToken r (default_to ''admin_session'' name) = Inr tok \<Longrightarrow> jwt_Verify jparse now jm tok = Some c
      \<Longrightarrow> TrimSpace (c_SessionID c) = TrimSpace sid"
  shows "\<not> passes (fst (AdminAuth jparse now jm name r (Some (sm.run_ops h (sm_Revoke sid m)))))"
proof
  let ?m = "sm.run_ops h (sm_Revoke sid m)"
  assume "passes (fst (AdminAuth jparse now jm name r (Some ?m)))"
  then obtain c sm' where "AdminAuth jparse now jm name r (Some ?m) = (Next c, sm')"
    by (metis passes.elims(2) prod.collapse)
  from AdminAuth_Next [OF this] obtain tok where
    c: "resolveToken r (default_to ''admin_session'' name) = Inr tok" "jwt_Verify jparse now jm tok = Some c"
      "fst (sm_Validate now (c_SessionID c) (c_Username c) ?m)"
    by auto
  then have "TrimSpace (c_SessionID c) = TrimSpace sid" using assms(6) by blast
  then have "fst (sm_Validate now sid (c_Username c) ?m)"
    using c(3) by (simp add: sm_Validate_def sm_Get_def)
  moreover have "\<not> fst (sm_Validate now sid (c_Username c) ?m)"
    by (rule sm.revoked_stays_revoked) (use assms(1-5) in auto)
  ultimately show False by simp
qed

definition demo_store :: session_manager where
  "demo_store = \<lparr> ttl = hour,
     sessions = [(''s1'', \<lparr> s_ID = ''s1'', s_Username = ''root'', s_CreatedAt = 0, s_ExpiresAt = hour \<rparr>)],
     byUser = [''root'' \<mapsto> {''s1''}] \<rparr>"

definition demo_claims :: claims where
  "demo_claims = \<lparr> c_Username = ''root'', c_SessionID = ''s1'', c_ExpiresAt = Some hour, c_IssuedAt = Some 0,
     c_NotBefore = Some 0, c_Subject = ''root'', c_Issuer = ''gw'', c_ID = ''s1'', c_Audience = [] \<rparr>"

definition demo_request :: request where
  "demo_request = \<lparr> r_method = ''GET'', r_path = ''/'', r_protocol = ''https'', r_hostname = ''gw'', r_ip = ''1.2.3.4'',
     r_header = (\<lambda>_. []), r_cookie = (\<lambda>_. ''tok''), r_body = None \<rparr>"

definition demo_jwt :: jwt_manager where
  "demo_jwt = \<lparr> jm_Secret = ''k'', jm_TTL = hour, jm_Issuer = ''gw'', jm_Audience = [] \<rparr>"

lemma demo_store_wf: "sm_wf demo_store"
  by (auto simp: sm_wf_def demo_store_def consistent_def TrimSpace_def is_space_def split: if_splits)

text \<open>
  A state-changing request passes the CSRF middleware exactly when it echoes
  a non-blank CSRF cookie in the header; GET, HEAD and OPTIONS always pass.
\<close>
lemma CSRFProtect_passes_iff:
  "passes (CSRFProtect ck hn r) \<longleftrightarrow>
     ToUpper (TrimSpace (r_method r)) \<in> set safe_methods
     \<or> (\<not> blank (r_cookie r (default_to ''csrf_token'' ck))
        \<and> TrimSpace (r_header r (default_to ''X-CSRF-Token'' hn))
            = TrimSpace (r_cookie r (default_to ''csrf_token'' ck)))"
  by (auto simp: CSRFProtect_def Let_def blank_def)

end
