(* ===== verification/AdminUsers.thy ===== *)
theory AdminUsers
  imports Http Strings
begin

text \<open>
  The table of admin accounts, internal/storage/gorm/admin.go, and the private
  signup endpoint, controllers/admin_signup_controller.go.  A row is a user name
  with the hash of its password; bcrypt is an argument.  A request runs alone:
  the unique index that a concurrent insert would hit is not modelled.
\<close>

record bcrypt =
  bc_hash :: "string \<Rightarrow> string + string"
  bc_compare :: "string \<Rightarrow> string \<Rightarrow> bool"
  bc_cost_ok :: "string \<Rightarrow> bool"

text \<open>
  What bcrypt promises: a hash accepts the password it was made from, and among
  passwords it can hash (at most 72 bytes, no zero byte) no other.
\<close>

definition bcrypt_law :: "bcrypt \<Rightarrow> bool" where
  "bcrypt_law b \<longleftrightarrow> (\<forall>p h. bc_hash b p = Inr h \<longrightarrow> length p \<le> 72 \<and> bc_compare b h p
     \<and> (\<forall>q. length q \<le> 72 \<and> CHR 0x00 \<notin> set p \<and> CHR 0x00 \<notin> set q \<and> bc_compare b h q \<longrightarrow> q = p))"

type_synonym admin_users = "(string \<times> string) list"

datatype admin_error = ErrAdminUserExists | AdminError string

definition ValidateAdminPassword :: "string \<Rightarrow> string option" where
  "ValidateAdminPassword password =
     (if length password < 12 then Some ''admin password must be at least 12 characters''
      else if length password > 128 then Some ''admin password is too long''
      else if \<not> (\<exists>c \<in> set password. c \<in> set upper_letters)
         \<or> \<not> (\<exists>c \<in> set password. c \<in> set lower_letters)
         \<or> \<not> (\<exists>c \<in> set password. c \<in> set digits)
      then Some ''admin password must contain uppercase, lowercase, and number''
      else None)"

definition ValidateAdminUsername :: "string \<Rightarrow> string option" where
  "ValidateAdminUsername username =
     (let username = TrimSpace username in
      if username = [] then Some ''admin username required''
      else if length username < 3 \<or> length username > 64
      then Some ''admin username must be between 3 and 64 characters''
      else if \<not> list_all (\<lambda>c. c \<in> set (upper_letters @ lower_letters @ digits @ ''.-_'')) username
      then Some ''admin username can only contain letters, numbers, dot, dash, and underscore''
      else None)"

definition EnsureAdminUser :: "bcrypt \<Rightarrow> string \<Rightarrow> string \<Rightarrow> string \<Rightarrow> admin_users
    \<Rightarrow> (string + unit) \<times> admin_users" where
  "EnsureAdminUser b username password passwordHash users =
     (let username = TrimSpace username in
      case ValidateAdminUsername username of
        Some e \<Rightarrow> (Inl e, users)
      | None \<Rightarrow>
          if username \<in> set (map fst users) then (Inr (), users)
          else let passwordHash = TrimSpace passwordHash in
            if passwordHash \<noteq> [] then
              (if \<not> bc_cost_ok b passwordHash then (Inl ''invalid ADMIN_PASSWORD_HASH'', users)
               else (Inr (), users @ [(username, passwordHash)]))
            else (case ValidateAdminPassword password of
              Some e \<Rightarrow> (Inl e, users)
            | None \<Rightarrow> (case bc_hash b password of
                Inl e \<Rightarrow> (Inl e, users)
              | Inr h \<Rightarrow> (Inr (), users @ [(username, h)]))))"

definition CreateAdminUser :: "bcrypt \<Rightarrow> string \<Rightarrow> string \<Rightarrow> admin_users
    \<Rightarrow> (admin_error + unit) \<times> admin_users" where
  "CreateAdminUser b username password users =
     (let username = TrimSpace username in
      case ValidateAdminUsername username of
        Some e \<Rightarrow> (Inl (AdminError e), users)
      | None \<Rightarrow> (case ValidateAdminPassword password of
          Some e \<Rightarrow> (Inl (AdminError e), users)
        | None \<Rightarrow>
            if username \<in> set (map fst users) then (Inl ErrAdminUserExists, users)
            else (case bc_hash b password of
              Inl e \<Rightarrow> (Inl (AdminError e), users)
            | Inr h \<Rightarrow> (Inr (), users @ [(username, h)]))))"

definition VerifyAdminUser :: "bcrypt \<Rightarrow> string \<Rightarrow> string \<Rightarrow> admin_users \<Rightarrow> bool" where
  "VerifyAdminUser b username password users =
     (let username = TrimSpace username in
      if username = [] \<or> password = [] then False
      else case find (\<lambda>(u, _). u = username) users of
        None \<Rightarrow> False
      | Some (_, h) \<Rightarrow> bc_compare b h password)"

section \<open>Signup\<close>

definition SendStatus :: "nat \<Rightarrow> response" where "SendStatus st = Response st [] [] JNull"

definition secureEquals :: "(string \<Rightarrow> string) \<Rightarrow> string \<Rightarrow> string \<Rightarrow> bool" where
  "secureEquals sha256 a b \<longleftrightarrow> a \<noteq> [] \<and> b \<noteq> [] \<and> sha256 a = sha256 b"

definition admin_error_text :: "admin_error \<Rightarrow> string" where
  "admin_error_text e = (case e of ErrAdminUserExists \<Rightarrow> ''admin user already exists'' | AdminError m \<Rightarrow> m)"

definition isValidationErr :: "string \<Rightarrow> bool" where
  "isValidationErr msg =
     (let msg = ToLower (TrimSpace msg) in
      msg \<noteq> [] \<and> (Contains msg ''username'' \<or> Contains msg ''password''))"

definition Signup :: "(string \<Rightarrow> string) \<Rightarrow> bcrypt \<Rightarrow> string \<Rightarrow> request \<Rightarrow> admin_users \<Rightarrow> response \<times> admin_users" where
  "Signup sha256 b signupKey r users =
     (let signupKey = TrimSpace signupKey in
      if signupKey = [] then (SendStatus 404, users)
      else if \<not> secureEquals sha256 (TrimSpace (r_header r ''X-Signup-Key'')) signupKey then (SendStatus 404, users)
      else case BodyFields [''username'', ''password''] r of
        None \<Rightarrow> (send_error 400 ''invalid JSON'', users)
      | Some req \<Rightarrow>
          let username = TrimSpace (req ''username''); password = req ''password'' in
          if username = [] \<or> blank password then (send_error 400 ''username and password are required'', users)
          else (case CreateAdminUser b username password users of
            (Inr _, users') \<Rightarrow>
              (Response 201 [(''Cache-Control'', ''no-store'')] []
                 (JObj [(''ok'', JBool True), (''username'', JStr username), (''message'', JStr ''admin user created'')]),
               users')
          | (Inl e, users') \<Rightarrow>
              (if e = ErrAdminUserExists then send_error 409 ''admin username already exists''
               else if isValidationErr (admin_error_text e) then send_error 400 (admin_error_text e)
               else send_error 500 ''failed to create admin user'', users')))"

section \<open>Accounts\<close>

definition usernames_ok :: "admin_users \<Rightarrow> bool" where
  "usernames_ok users \<longleftrightarrow> distinct (map fst users) \<and> (\<forall>u \<in> set (map fst users). TrimSpace u = u \<and> u \<noteq> [])"

lemma find_user_append:
  "u \<notin> set (map fst users) \<Longrightarrow> find (\<lambda>(v, _). v = w) (users @ [(u, h)]) =
     (if w = u then Some (u, h) else find (\<lambda>(v, _). v = w) users)"
  by (induction users) auto

lemma Verify_append:
  assumes "u \<notin> set (map fst users)"
  shows "VerifyAdminUser b w q (users @ [(u, h)]) =
     (if TrimSpace w = u then u \<noteq> [] \<and> q \<noteq> [] \<and> bc_compare b h q else VerifyAdminUser b w q users)"
  by (simp add: VerifyAdminUser_def Let_def find_user_append [OF assms])

lemma CreateAdminUser_Inr:
  assumes "CreateAdminUser b u p users = (Inr (), users')"
  obtains h where "users' = users @ [(TrimSpace u, h)]" "bc_hash b p = Inr h" "TrimSpace u \<notin> set (map fst users)"
    "ValidateAdminUsername (TrimSpace u) = None" "ValidateAdminPassword p = None"
  using assms by (auto simp: CreateAdminUser_def Let_def split: option.splits sum.splits if_splits)

lemma CreateAdminUser_Inl: "CreateAdminUser b u p users = (Inl e, users') \<Longrightarrow> users' = users"
  by (auto simp: CreateAdminUser_def Let_def split: option.splits sum.splits if_splits)

lemma Signup_cases:
  assumes "Signup sha b key r users = (resp, users')"
  shows "users' = users \<and> status resp \<noteq> 201
     \<or> (\<exists>req. BodyFields [''username'', ''password''] r = Some req \<and> status resp = 201
          \<and> CreateAdminUser b (req ''username'') (req ''password'') users = (Inr (), users')
          \<and> \<not> blank key \<and> sha (TrimSpace (r_header r ''X-Signup-Key'')) = sha (TrimSpace key))"
proof (cases "TrimSpace key \<noteq> [] \<and> secureEquals sha (TrimSpace (r_header r ''X-Signup-Key'')) (TrimSpace key)")
  case False
  then have "Signup sha b key r users = (SendStatus 404, users)" by (auto simp: Signup_def Let_def)
  then show ?thesis using assms by (auto simp: SendStatus_def)
next
  case key: True
  show ?thesis
  proof (cases "BodyFields [''username'', ''password''] r")
    case None
    then show ?thesis using assms key by (auto simp: Signup_def)
  next
    case (Some req)
    let ?u = "req ''username''" and ?p = "req ''password''"
    have t: "CreateAdminUser b (TrimSpace ?u) ?p users = CreateAdminUser b ?u ?p users"
      by (simp add: CreateAdminUser_def)
    obtain x users1 where c: "CreateAdminUser b ?u ?p users = (x, users1)" by (cases "CreateAdminUser b ?u ?p users")
    show ?thesis
    proof (cases "TrimSpace ?u = [] \<or> blank ?p")
      case True
      then show ?thesis using assms key Some by (simp add: Signup_def Let_def) force
    next
      case False
      then have s: "Signup sha b key r users = (case (x, users1) of
          (Inr _, users') \<Rightarrow>
              (Response 201 [(''Cache-Control'', ''no-store'')] []
                 (JObj [(''ok'', JBool True), (''username'', JStr (TrimSpace ?u)), (''message'', JStr ''admin user created'')]),
               users')
          | (Inl e, users') \<Rightarrow>
              (if e = ErrAdminUserExists then send_error 409 ''admin username already exists''
               else if isValidationErr (admin_error_text e) then send_error 400 (admin_error_text e)
               else send_error 500 ''failed to create admin user'', users'))"
        using key Some by (simp add: Signup_def Let_def t c)
      show ?thesis
      proof (cases x)
        case (Inl e)
        then show ?thesis using assms s c CreateAdminUser_Inl [of b ?u ?p users e users1] by (auto split: if_splits)
      next
        case (Inr u)
        then have u: "status resp = 201" "users' = users1" using assms s by auto
        have "\<not> blank key" "sha (TrimSpace (r_header r ''X-Signup-Key'')) = sha (TrimSpace key)"
          using key by (simp_all add: secureEquals_def blank_def)
        moreover have "CreateAdminUser b ?u ?p users = (Inr (), users')" using c u Inr by simp
        ultimately show ?thesis using u(1) Some by blast
      qed
    qed
  qed
qed

text \<open>
  Signup opens exactly the account it was asked for.  A 201 needs the signup
  key; from then on the new name logs in with the submitted password and, as
  far as bcrypt can tell passwords apart, with no other; every other account
  verifies as before.  Any other answer leaves the table as it was.
\<close>
lemma signup_creates_account:
  assumes "bcrypt_law b" "Signup sha b key r users = (resp, users')"
  shows "if status resp = 201
    then (\<exists>req. BodyFields [''username'', ''password''] r = Some req
            \<and> \<not> blank key \<and> sha (TrimSpace (r_header r ''X-Signup-Key'')) = sha (TrimSpace key)
            \<and> VerifyAdminUser b (req ''username'') (req ''password'') users'
            \<and> (\<forall>q. length q \<le> 72 \<and> CHR 0x00 \<notin> set q \<and> CHR 0x00 \<notin> set (req ''password'')
                  \<and> VerifyAdminUser b (req ''username'') q users' \<longrightarrow> q = req ''password'')
            \<and> TrimSpace (req ''username'') \<notin> set (map fst users)
            \<and> (\<forall>w q. TrimSpace w \<noteq> TrimSpace (req ''username'') \<longrightarrow>
                  VerifyAdminUser b w q users' = VerifyAdminUser b w q users))
    else users' = users"
proof (cases "status resp = 201")
  case True
  with Signup_cases [OF assms(2)] obtain req where
    req: "BodyFields [''username'', ''password''] r = Some req"
      "CreateAdminUser b (req ''username'') (req ''password'') users = (Inr (), users')"
      "\<not> blank key" "sha (TrimSpace (r_header r ''X-Signup-Key'')) = sha (TrimSpace key)" by auto
  from req(2) obtain h where h: "users' = users @ [(TrimSpace (req ''username''), h)]" "bc_hash b (req ''password'') = Inr h"
    "TrimSpace (req ''username'') \<notin> set (map fst users)" "ValidateAdminUsername (TrimSpace (req ''username'')) = None"
    "ValidateAdminPassword (req ''password'') = None"
    by (rule CreateAdminUser_Inr)
  then have "TrimSpace (req ''username'') \<noteq> []" "req ''password'' \<noteq> []"
    by (auto simp: ValidateAdminUsername_def ValidateAdminPassword_def Let_def split: if_splits)
  moreover have "bc_compare b h (req ''password'')"
    "\<forall>q. length q \<le> 72 \<and> CHR 0x00 \<notin> set q \<and> CHR 0x00 \<notin> set (req ''password'') \<and> bc_compare b h q \<longrightarrow> q = req ''password''"
    using assms(1) h(2) unfolding bcrypt_law_def by blast+
  ultimately show ?thesis
    using True req(1,3,4) h(1,3) by (auto simp: Verify_append)
next
  case False
  then show ?thesis using Signup_cases [OF assms(2)] by auto
qed

definition toy_bcrypt :: bcrypt where
  "toy_bcrypt = \<lparr> bc_hash = (\<lambda>p. if length p \<le> 72 then Inr (CHR ''$'' # p) else Inl ''bcrypt: password length exceeds 72 bytes''),
     bc_compare = (\<lambda>h q. h = CHR ''$'' # q), bc_cost_ok = (\<lambda>h. take 1 h = ''$'') \<rparr>"

lemma toy_bcrypt_law: "bcrypt_law toy_bcrypt"
  by (auto simp: bcrypt_law_def toy_bcrypt_def split: if_splits)

definition signup_request :: request where
  "signup_request = \<lparr> r_method = ''POST'', r_path = ''/'', r_protocol = ''https'', r_hostname = ''gw'', r_ip = ''1.2.3.4'',
     r_header = (\<lambda>h. if h = ''X-Signup-Key'' then ''key'' else []), r_cookie = (\<lambda>_. []),
     r_body = Some (JObj [(''username'', JStr ''alice''), (''password'', JStr ''Correct-Horse-1'')]) \<rparr>"

theorem signup_creates_account_witness:
  "\<exists>resp users'. Signup id toy_bcrypt ''key'' signup_request [(''bob'', ''$x'')] = (resp, users')
     \<and> status resp = 201 \<and> VerifyAdminUser toy_bcrypt ''bob'' ''x'' users'"
proof -
  let ?s = "Signup id toy_bcrypt ''key'' signup_request [(''bob'', ''$x'')]"
  have st: "status (fst ?s) = 201" by code_simp
  have f: "BodyFields [''username'', ''password''] signup_request = Some req \<Longrightarrow> req ''username'' = ''alice''" for req
    by (auto simp: BodyFields_def signup_request_def field_def str_eval split: if_splits)
  have "VerifyAdminUser toy_bcrypt ''bob'' ''x'' [(''bob'', ''$x'')]" by code_simp
  moreover have "TrimSpace ''bob'' \<noteq> TrimSpace ''alice''" by code_simp
  ultimately have "VerifyAdminUser toy_bcrypt ''bob'' ''x'' (snd ?s)"
    using signup_creates_account [OF toy_bcrypt_law, of id "''key''" signup_request "[(''bob'', ''$x'')]" "fst ?s" "snd ?s"]
      st f by (auto simp del: TrimSpace_idem)
  then show ?thesis using st by (metis prod.collapse)
qed

end
