(* ===== verification/LoginLimiter.thy ===== *)
theory LoginLimiter
  imports Prelude
begin

text \<open>
  The in-memory limiter of admin login attempts, internal/auth/login_limiter.go.
  A method of the Go type takes the instant time.Now() returned as its argument
  now and returns its results with the updated limiter; it runs under the
  limiter's mutex, so a history of the limiter is a sequence of method calls.
  The receiver is never nil (main.go builds it with NewLoginLimiter).
\<close>

record login_attempt =
  failures :: int
  firstFailed :: "time option"
  lockUntil :: "time option"
  lastSeen :: time

record login_limiter =
  maxAttempts :: int
  ll_window :: dur
  lockDuration :: dur
  attempts :: "string \<rightharpoonup> login_attempt"

definition NewLoginLimiter :: "int \<Rightarrow> dur \<Rightarrow> dur \<Rightarrow> login_limiter" where
  "NewLoginLimiter n w d =
     \<lparr> maxAttempts = (if n \<le> 0 then 5 else n),
       ll_window = (if w \<le> 0 then 15 * minute else w),
       lockDuration = (if d \<le> 0 then 15 * minute else d),
       attempts = Map.empty \<rparr>"

definition locked_at :: "time \<Rightarrow> login_attempt \<Rightarrow> bool" where
  "locked_at now a \<longleftrightarrow> (case lockUntil a of None \<Rightarrow> False | Some u \<Rightarrow> now < u)"

definition ll_cleanup :: "time \<Rightarrow> login_limiter \<Rightarrow> login_limiter" where
  "ll_cleanup now l =
     (let staleBefore = now - (ll_window l + lockDuration l + hour)
      in l\<lparr>attempts := prune (\<lambda>k a. locked_at now a \<or> \<not> lastSeen a < staleBefore) (attempts l)\<rparr>)"

definition ll_Allow :: "time \<Rightarrow> string \<Rightarrow> login_limiter \<Rightarrow> (bool \<times> dur) \<times> login_limiter" where
  "ll_Allow now key l =
     (if key = [] then ((True, 0), l)
      else let l' = ll_cleanup now l in
        (case attempts l' key of
           None \<Rightarrow> ((True, 0), l')
         | Some a \<Rightarrow> (case lockUntil a of
             None \<Rightarrow> ((True, 0), l')
           | Some u \<Rightarrow> if now < u then ((False, u - now), l') else ((True, 0), l'))))"

definition fresh_attempt :: "time \<Rightarrow> login_attempt" where
  "fresh_attempt now = \<lparr> failures = 0, firstFailed = None, lockUntil = None, lastSeen = now \<rparr>"

definition ll_put :: "string \<Rightarrow> login_attempt \<Rightarrow> login_limiter \<Rightarrow> login_limiter" where
  "ll_put key a l = l\<lparr>attempts := (attempts l)(key \<mapsto> a)\<rparr>"

definition ll_RegisterFailure :: "time \<Rightarrow> string \<Rightarrow> login_limiter \<Rightarrow> (bool \<times> dur) \<times> login_limiter" where
  "ll_RegisterFailure now key l =
     (if key = [] then ((False, 0), l)
      else let
          l1 = ll_cleanup now l;
          a = (case attempts l1 key of None \<Rightarrow> fresh_attempt now | Some a \<Rightarrow> a\<lparr>lastSeen := now\<rparr>)
        in
        if locked_at now a
        then ((True, the (lockUntil a) - now), ll_put key a l1)
        else if (case firstFailed a of None \<Rightarrow> True | Some f \<Rightarrow> now - f > ll_window l1)
        then ((False, 0),
              ll_put key (a\<lparr>firstFailed := Some now, failures := 1, lockUntil := None\<rparr>) l1)
        else if failures a + 1 \<ge> maxAttempts l1
        then ((True, lockDuration l1),
              ll_put key (a\<lparr>failures := 0, firstFailed := None,
                            lockUntil := Some (now + lockDuration l1)\<rparr>) l1)
        else ((False, 0), ll_put key (a\<lparr>failures := failures a + 1\<rparr>) l1))"

definition ll_RegisterSuccess :: "string \<Rightarrow> login_limiter \<Rightarrow> login_limiter" where
  "ll_RegisterSuccess key l =
     (if key = [] then l else l\<lparr>attempts := (attempts l)(key := None)\<rparr>)"

definition ll_FailureCount :: "time \<Rightarrow> string \<Rightarrow> login_limiter \<Rightarrow> int \<times> login_limiter" where
  "ll_FailureCount now key l =
     (if key = [] then (0, l)
      else let l' = ll_cleanup now l in
        (case attempts l' key of
           None \<Rightarrow> (0, l')
         | Some a \<Rightarrow> (case firstFailed a of
             None \<Rightarrow> (0, l')
           | Some f \<Rightarrow>
               if now - f > ll_window l' then (0, l')
               else if failures a < 0 then (0, l')
               else (failures a, l'))))"

section \<open>Histories\<close>

datatype ll_op = OpAllow string | OpFail string | OpSuccess string | OpCount string

fun ll_apply :: "time \<Rightarrow> ll_op \<Rightarrow> login_limiter \<Rightarrow> login_limiter" where
  "ll_apply now (OpAllow k) l = snd (ll_Allow now k l)"
| "ll_apply now (OpFail k) l = snd (ll_RegisterFailure now k l)"
| "ll_apply now (OpSuccess k) l = ll_RegisterSuccess k l"
| "ll_apply now (OpCount k) l = snd (ll_FailureCount now k l)"

fun ll_run :: "(time \<times> ll_op) list \<Rightarrow> login_limiter \<Rightarrow> login_limiter" where
  "ll_run [] l = l"
| "ll_run ((t, op) # h) l = ll_run h (ll_apply t op l)"

text \<open>The attempt recorded for a key, as the lookups of the methods find it.\<close>

lemma ll_cleanup_fields [simp]:
  "maxAttempts (ll_cleanup now l) = maxAttempts l"
  "ll_window (ll_cleanup now l) = ll_window l"
  "lockDuration (ll_cleanup now l) = lockDuration l"
  by (simp_all add: ll_cleanup_def Let_def)

lemma ll_put_fields [simp]:
  "maxAttempts (ll_put k a l) = maxAttempts l"
  "ll_window (ll_put k a l) = ll_window l"
  "lockDuration (ll_put k a l) = lockDuration l"
  "attempts (ll_put k a l) = (attempts l)(k \<mapsto> a)"
  by (simp_all add: ll_put_def)

lemma attempts_ll_cleanup:
  "attempts (ll_cleanup now l) k =
     (case attempts l k of None \<Rightarrow> None
      | Some a \<Rightarrow> if locked_at now a \<or> \<not> lastSeen a < now - (ll_window l + lockDuration l + hour)
                 then Some a else None)"
  by (simp add: ll_cleanup_def prune_def Let_def split: option.splits)

lemma ll_cleanup_locked:
  "attempts l k = Some a \<Longrightarrow> locked_at now a \<Longrightarrow> attempts (ll_cleanup now l) k = Some a"
  by (simp add: attempts_ll_cleanup)

lemma ll_cleanup_recent:
  assumes "attempts l k = Some a" "now - lastSeen a \<le> ll_window l" "0 < lockDuration l"
  shows "attempts (ll_cleanup now l) k = Some a"
  using assms by (simp add: attempts_ll_cleanup)

lemmas ll_defs = ll_Allow_def ll_RegisterFailure_def ll_RegisterSuccess_def ll_FailureCount_def

lemma ll_apply_fields [simp]:
  "maxAttempts (ll_apply t op l) = maxAttempts l"
  "ll_window (ll_apply t op l) = ll_window l"
  "lockDuration (ll_apply t op l) = lockDuration l"
  by (cases op; auto simp: ll_defs Let_def split: option.splits)+

lemma ll_run_fields [simp]:
  "maxAttempts (ll_run h l) = maxAttempts l"
  "ll_window (ll_run h l) = ll_window l"
  "lockDuration (ll_run h l) = lockDuration l"
  by (induction h l rule: ll_run.induct) simp_all

lemma ll_run_append: "ll_run (h @ h') l = ll_run h' (ll_run h l)"
  by (induction h l rule: ll_run.induct) simp_all

section \<open>A lock holds until it expires\<close>

definition key_locked_until :: "string \<Rightarrow> time \<Rightarrow> login_limiter \<Rightarrow> bool" where
  "key_locked_until k u l \<longleftrightarrow> (\<exists>a. attempts l k = Some a \<and> lockUntil a = Some u)"

lemma ll_Allow_locked:
  assumes "key_locked_until k u l" "now < u" "k \<noteq> []"
  shows "fst (ll_Allow now k l) = (False, u - now)"
  using assms by (auto simp: key_locked_until_def ll_Allow_def Let_def locked_at_def
      ll_cleanup_locked split: option.splits)

lemma ll_apply_locked:
  assumes "key_locked_until k u l" "now < u" "op \<noteq> OpSuccess k"
  shows "key_locked_until k u (ll_apply now op l)"
proof -
  obtain a where a: "attempts l k = Some a" "lockUntil a = Some u"
    using assms(1) by (auto simp: key_locked_until_def)
  then have lk: "locked_at now a" using assms(2) by (simp add: locked_at_def)
  note c = ll_cleanup_locked [OF a(1) lk]
  have lk': "locked_at now (a\<lparr>lastSeen := now\<rparr>)" using lk by (simp add: locked_at_def)
  show ?thesis
    using assms(3) a c lk lk'
    by (cases op) (auto simp: ll_defs Let_def key_locked_until_def split: option.splits)
qed

lemma ll_run_locked:
  assumes "key_locked_until k u l"
    and "\<forall>(t, op) \<in> set h. t < u \<and> op \<noteq> OpSuccess k"
  shows "key_locked_until k u (ll_run h l)"
  using assms by (induction h l rule: ll_run.induct) (auto intro: ll_apply_locked)

lemma ll_RegisterFailure_locks:
  assumes "fst (ll_RegisterFailure now k l) = (True, d)"
  shows "key_locked_until k (now + d) (snd (ll_RegisterFailure now k l))"
  using assms
  by (auto simp: ll_RegisterFailure_def Let_def key_locked_until_def locked_at_def
      split: option.splits if_splits)

text \<open>
  Once RegisterFailure reports a lock of length d at time t, no interleaving of
  later calls for any keys lifts it: as long as the key itself is not
  cleared by a successful login, Allow refuses the key at every instant before
  t + d and reports exactly the time that is left.
\<close>
lemma lock_holds_until_expiry:
  assumes "fst (ll_RegisterFailure t k l) = (True, d)" "k \<noteq> []"
    and "\<forall>(s, op) \<in> set h. s < t + d \<and> op \<noteq> OpSuccess k"
    and "now < t + d"
  shows "fst (ll_Allow now k (ll_run h (snd (ll_RegisterFailure t k l)))) = (False, t + d - now)"
  using assms by (blast intro: ll_Allow_locked ll_run_locked ll_RegisterFailure_locks)

theorem lock_holds_until_expiry_witness:
  "let l0 = snd (ll_RegisterFailure 1 ''k'' (NewLoginLimiter 2 10 100));
       l1 = snd (ll_RegisterFailure 2 ''k'' l0)
   in fst (ll_Allow 50 ''k'' (ll_run [(3, OpFail ''k''), (4, OpSuccess ''j''), (9, OpAllow ''k'')] l1))
        = (False, 2 + 100 - 50)"
  unfolding Let_def
  by (rule lock_holds_until_expiry [where d = 100, simplified])
     (simp_all add: ll_RegisterFailure_def NewLoginLimiter_def fresh_attempt_def ll_put_def
        attempts_ll_cleanup locked_at_def Let_def)

section \<open>The threshold\<close>

definition tracking :: "string \<Rightarrow> time \<Rightarrow> int \<Rightarrow> login_limiter \<Rightarrow> bool" where
  "tracking k f n l \<longleftrightarrow> (\<exists>a. attempts l k = Some a \<and> firstFailed a = Some f \<and> failures a = n
     \<and> lockUntil a = None \<and> f \<le> lastSeen a \<and> lastSeen a \<le> f + ll_window l)"

fun fails_of :: "string \<Rightarrow> (time \<times> ll_op) list \<Rightarrow> int" where
  "fails_of k [] = 0"
| "fails_of k ((t, op) # h) = (if op = OpFail k then 1 else 0) + fails_of k h"

lemma fails_of_nonneg: "0 \<le> fails_of k h"
  by (induction k h rule: fails_of.induct) auto

lemma tracking_cleanup:
  assumes "attempts l k = Some a" "f \<le> lastSeen a" "t \<le> f + ll_window l" "0 < lockDuration l"
  shows "attempts (ll_cleanup t l) k = Some a"
  by (rule ll_cleanup_recent) (use assms in auto)

lemma tracking_start:
  assumes "attempts l k = None" "k \<noteq> []" "0 \<le> ll_window l"
  shows "tracking k f 1 (snd (ll_RegisterFailure f k l))"
    and "fst (ll_RegisterFailure f k l) = (False, 0)"
  using assms by (simp_all add: tracking_def ll_RegisterFailure_def attempts_ll_cleanup
      fresh_attempt_def locked_at_def Let_def)

lemma tracking_step:
  assumes tr: "tracking k f n l" and t: "f \<le> t" "t \<le> f + ll_window l"
    and d: "0 < lockDuration l" and op: "op \<noteq> OpSuccess k" and k: "k \<noteq> []"
    and n: "op = OpFail k \<Longrightarrow> n + 1 < maxAttempts l"
  shows "tracking k f (n + (if op = OpFail k then 1 else 0)) (ll_apply t op l)"
proof -
  obtain a where a: "attempts l k = Some a" "firstFailed a = Some f" "failures a = n"
    "lockUntil a = None" "f \<le> lastSeen a" "lastSeen a \<le> f + ll_window l"
    using tr by (auto simp: tracking_def)
  note c = tracking_cleanup [OF a(1,5) t(2) d]
  show ?thesis
  proof (cases "op = OpFail k")
    case True
    then show ?thesis
      using a c n t k by (simp add: tracking_def ll_RegisterFailure_def Let_def locked_at_def)
  next
    case False
    have "attempts (ll_apply t op l) k = Some a"
      using a c op False
      by (cases op) (auto simp: ll_defs Let_def split: option.splits)
    with a False show ?thesis by (simp add: tracking_def)
  qed
qed

lemma tracking_run:
  assumes "tracking k f n l" "0 < lockDuration l" "k \<noteq> []"
    and "\<forall>(t, op) \<in> set h. f \<le> t \<and> t \<le> f + ll_window l \<and> op \<noteq> OpSuccess k"
    and "n + fails_of k h < maxAttempts l"
  shows "tracking k f (n + fails_of k h) (ll_run h l)"
  using assms
proof (induction k h arbitrary: l n rule: fails_of.induct)
  case (2 k t op h)
  have "tracking k f (n + (if op = OpFail k then 1 else 0)) (ll_apply t op l)"
    using 2 fails_of_nonneg [of k h] by (intro tracking_step) auto
  from "2.IH" [OF this] 2(3-6) show ?case by (simp add: add.assoc)
qed simp

lemma tracking_observe:
  assumes tr: "tracking k f n l" and t: "f \<le> t" "t \<le> f + ll_window l"
    and d: "0 < lockDuration l" and k: "k \<noteq> []" and n: "0 \<le> n"
  shows "fst (ll_Allow t k l) = (True, 0)"
    and "fst (ll_FailureCount t k l) = n"
    and "fst (ll_RegisterFailure t k l)
           = (if n + 1 \<ge> maxAttempts l then (True, lockDuration l) else (False, 0))"
proof -
  obtain a where a: "attempts l k = Some a" "firstFailed a = Some f" "failures a = n"
    "lockUntil a = None" "f \<le> lastSeen a"
    using tr by (auto simp: tracking_def)
  note c = tracking_cleanup [OF a(1,5) t(2) d]
  show "fst (ll_Allow t k l) = (True, 0)" "fst (ll_FailureCount t k l) = n"
    "fst (ll_RegisterFailure t k l)
           = (if n + 1 \<ge> maxAttempts l then (True, lockDuration l) else (False, 0))"
    using a c t k n by (simp_all add: ll_defs Let_def locked_at_def)
qed

text \<open>
  C32: the threshold of the login limiter.  Let a key with no record fail at
  instant f and let any calls follow within the window, m further failures of
  the key among them and no successful login of it.  While 1 + m stays below
  maxAttempts the key is allowed and FailureCount is exactly 1 + m; the
  failure that reaches maxAttempts locks the key for lockDuration, and no
  earlier one does.
\<close>
theorem lock_at_threshold:
  assumes "attempts l k = None" "k \<noteq> []" "0 \<le> ll_window l" "0 < lockDuration l"
    and "\<forall>(s, op) \<in> set h. f \<le> s \<and> s \<le> f + ll_window l \<and> op \<noteq> OpSuccess k"
    and "f \<le> t" "t \<le> f + ll_window l"
    and "1 + fails_of k h < maxAttempts l"
  defines "l' \<equiv> ll_run ((f, OpFail k) # h) l"
  shows "fst (ll_Allow t k l') = (True, 0)
    \<and> fst (ll_FailureCount t k l') = 1 + fails_of k h
    \<and> fst (ll_RegisterFailure t k l')
        = (if 2 + fails_of k h \<ge> maxAttempts l then (True, lockDuration l) else (False, 0))"
proof -
  let ?l1 = "ll_apply f (OpFail k) l"
  have "tracking k f 1 ?l1" using tracking_start(1) assms by simp
  then have tr: "tracking k f (1 + fails_of k h) l'"
    unfolding l'_def ll_run.simps
    by (rule tracking_run) (use assms in \<open>simp_all del: ll_apply.simps\<close>)
  have f: "ll_window l' = ll_window l" "lockDuration l' = lockDuration l"
    "maxAttempts l' = maxAttempts l"
    unfolding l'_def by (simp_all del: ll_apply.simps)
  show ?thesis
    using tracking_observe [OF tr, of t] assms fails_of_nonneg [of k h] f by simp
qed

theorem lock_at_threshold_witness:
  "let l' = ll_run [(1, OpFail ''k''), (2, OpFail ''j''), (3, OpFail ''k'')] (NewLoginLimiter 3 10 100)
   in fst (ll_Allow 5 ''k'' l') = (True, 0) \<and> fst (ll_FailureCount 5 ''k'' l') = 2
    \<and> fst (ll_RegisterFailure 5 ''k'' l') = (True, 100)"
  using lock_at_threshold [of "NewLoginLimiter 3 10 100" "''k''"
      "[(2, OpFail ''j''), (3, OpFail ''k'')]" 1 5]
  unfolding Let_def by (simp add: NewLoginLimiter_def del: ll_run.simps)

text \<open>
  A limiter configured with maxAttempts = 1 does not lock on the first
  failure: RegisterFailure opens the window before it compares the count with
  the threshold, so whatever the configuration the first failure of an unknown
  key is answered with no lock and the key stays allowed.
\<close>
lemma first_failure_never_locks:
  assumes "attempts l k = None"
  shows "fst (ll_RegisterFailure t k l) = (False, 0)
    \<and> fst (ll_Allow t k (snd (ll_RegisterFailure t k l))) = (True, 0)"
  using assms
  by (simp add: ll_RegisterFailure_def ll_Allow_def attempts_ll_cleanup fresh_attempt_def
      locked_at_def Let_def split: option.splits)

theorem first_failure_never_locks_witness:
  "fst (ll_RegisterFailure 7 ''k'' (NewLoginLimiter 1 10 10)) = (False, 0)"
  using first_failure_never_locks [of "NewLoginLimiter 1 10 10" "''k''" 7]
  by (simp add: NewLoginLimiter_def)

end
