(* ===== verification/Base64.thy ===== *)
theory Base64
  imports Prelude "HOL-Library.Char_ord"
begin

text \<open>
  encoding/base64 as the sources use it: the standard and the URL alphabet,
  padded or raw.  Decoding ignores line breaks, asks for the padding and does not
  check the unused bits of the last symbol, as Go's StdEncoding does.
\<close>

definition std_alphabet :: string where
  "std_alphabet = ''ABCDEFGHIJKLMNOPQRSTUVWXYZabcdefghijklmnopqrstuvwxyz0123456789+/''"

definition url_alphabet :: string where
  "url_alphabet = ''ABCDEFGHIJKLMNOPQRSTUVWXYZabcdefghijklmnopqrstuvwxyz0123456789-_''"

definition byte :: "char \<Rightarrow> nat" where "byte c = of_char c"

lemma byte_bound [simp]: "byte c < 256"
  by (simp add: byte_def)

lemma char_of_byte [simp]: "char_of (byte c) = c"
  by (simp add: byte_def)

fun encode64 :: "string \<Rightarrow> bool \<Rightarrow> string \<Rightarrow> string" where
  "encode64 al pad [] = []"
| "encode64 al pad [a] =
     [al ! (byte a div 4), al ! (byte a mod 4 * 16)] @ (if pad then ''=='' else [])"
| "encode64 al pad [a, b] =
     [al ! (byte a div 4), al ! (byte a mod 4 * 16 + byte b div 16), al ! (byte b mod 16 * 4)]
       @ (if pad then ''='' else [])"
| "encode64 al pad (a # b # c # s) =
     [al ! (byte a div 4), al ! (byte a mod 4 * 16 + byte b div 16),
      al ! (byte b mod 16 * 4 + byte c div 64), al ! (byte c mod 64)] @ encode64 al pad s"

definition symbol :: "string \<Rightarrow> char \<Rightarrow> nat option" where
  "symbol al c = map_of (zip al [0..<64]) c"

fun quads :: "string \<Rightarrow> string \<Rightarrow> string option" where
  "quads al [] = Some []"
| "quads al (c1 # c2 # c3 # c4 # s) =
     (case (symbol al c1, symbol al c2) of
        (Some x, Some y) \<Rightarrow>
          if c4 = CHR ''='' \<and> s = [] then
            if c3 = CHR ''='' then Some [char_of ((x * 4 + y div 16) mod 256)]
            else (case symbol al c3 of
                None \<Rightarrow> None
              | Some z \<Rightarrow> Some [char_of ((x * 4 + y div 16) mod 256),
                              char_of ((y mod 16 * 16 + z div 4) mod 256)])
          else (case (symbol al c3, symbol al c4, quads al s) of
              (Some z, Some w, Some r) \<Rightarrow>
                Some (char_of ((x * 4 + y div 16) mod 256) # char_of ((y mod 16 * 16 + z div 4) mod 256)
                        # char_of ((z mod 4 * 64 + w) mod 256) # r)
            | _ \<Rightarrow> None)
      | _ \<Rightarrow> None)"
| "quads al _ = None"

definition is_newline :: "char \<Rightarrow> bool" where
  "is_newline c \<longleftrightarrow> c = CHR 0x0A \<or> c = CHR 0x0D"

definition StdEncode :: "string \<Rightarrow> string" where "StdEncode = encode64 std_alphabet True"
definition URLEncode :: "string \<Rightarrow> string" where "URLEncode = encode64 url_alphabet True"
definition RawURLEncode :: "string \<Rightarrow> string" where "RawURLEncode = encode64 url_alphabet False"

definition StdDecode :: "string \<Rightarrow> string option" where
  "StdDecode s = quads std_alphabet (filter (\<lambda>c. \<not> is_newline c) s)"

lemma alphabets [simp]:
  "length std_alphabet = 64" "length url_alphabet = 64"
  "distinct std_alphabet" "distinct url_alphabet"
  by (simp_all add: std_alphabet_def url_alphabet_def)

lemma symbol_nth: "length al = 64 \<Longrightarrow> distinct al \<Longrightarrow> n < 64 \<Longrightarrow> symbol al (al ! n) = Some n"
  using map_of_zip_nth [of al "[0..<64]" n] by (simp add: symbol_def)

lemma low_bits:
  fixes r t k :: nat
  assumes "t < k"
  shows "(r * k + t) div k = r" "(r * k + t) mod k = t"
  using assms by simp_all

lemma parts:
  fixes a :: nat
  assumes "a < 256"
  shows "a div 4 < 64" "a div 16 < 16" "a div 64 < 4"
  using assms by (simp_all add: div_less_iff_less_mult)

lemma sextets:
  fixes a b c :: nat
  assumes "a < 256" "b < 256" "c < 256"
  shows "a div 4 < 64" "a mod 4 * 16 + b div 16 < 64" "b mod 16 * 4 + c div 64 < 64" "c mod 64 < 64"
    and "a mod 4 * 16 < 64" "b mod 16 * 4 < 64"
proof -
  have m: "a mod 4 < 4" "b mod 16 < 16" "c mod 64 < 64" by simp_all
  note p = parts [OF assms(1)] parts [OF assms(2)] parts [OF assms(3)]
  show "a div 4 < 64" "c mod 64 < 64" using p m by simp_all
  show "a mod 4 * 16 + b div 16 < 64" "b mod 16 * 4 + c div 64 < 64"
    "a mod 4 * 16 < 64" "b mod 16 * 4 < 64"
    using p m by linarith+
qed

lemma octets:
  fixes a b c :: nat
  assumes "a < 256" "b < 256" "c < 256"
  shows "(a div 4 * 4 + (a mod 4 * 16 + b div 16) div 16) mod 256 = a"
    and "((a mod 4 * 16 + b div 16) mod 16 * 16 + (b mod 16 * 4 + c div 64) div 4) mod 256 = b"
    and "((b mod 16 * 4 + c div 64) mod 4 * 64 + c mod 64) mod 256 = c"
    and "(a div 4 * 4 + (a mod 4 * 16) div 16) mod 256 = a"
    and "((a mod 4 * 16 + b div 16) mod 16 * 16 + (b mod 16 * 4) div 4) mod 256 = b"
  using assms parts by (simp_all add: low_bits)

lemma nth_neq: "n < length al \<Longrightarrow> c \<notin> set al \<Longrightarrow> al ! n \<noteq> c"
  using nth_mem by blast

lemma quads_encode64:
  assumes "length al = 64" "distinct al" "CHR ''='' \<notin> set al" "pad"
  shows "quads al (encode64 al pad s) = Some s"
  using assms
proof (induction al pad s rule: encode64.induct)
  case (2 al pad a)
  then show ?case
    using sextets [of "byte a" 0 0] octets(4) [of "byte a" 0 0]
    by (simp add: symbol_nth)
next
  case (3 al pad a b)
  then show ?case
    using sextets [of "byte a" "byte b" 0] octets(1,5) [of "byte a" "byte b" 0]
    by (simp add: symbol_nth nth_neq)
next
  case (4 al pad a b c s)
  then show ?case
    using sextets [of "byte a" "byte b" "byte c"] octets(1-3) [of "byte a" "byte b" "byte c"]
    by (simp add: symbol_nth nth_neq)
qed simp

lemma encode64_set: "length al = 64 \<Longrightarrow> set (encode64 al pad s) \<subseteq> insert (CHR ''='') (set al)"
proof (induction al pad s rule: encode64.induct)
  case (2 al pad a)
  then show ?case using sextets [of "byte a" 0 0] by (auto intro: nth_mem)
next
  case (3 al pad a b)
  then show ?case using sextets [of "byte a" "byte b" 0] by (auto intro: nth_mem)
next
  case (4 al pad a b c s)
  then show ?case using sextets [of "byte a" "byte b" "byte c"] by (auto intro: nth_mem)
qed simp

lemma no_newline: "CHR 0x0A \<notin> set (StdEncode s)" "CHR 0x0D \<notin> set (StdEncode s)"
  using encode64_set [of std_alphabet True s] by (auto simp: StdEncode_def std_alphabet_def)

lemma StdDecode_StdEncode [simp]: "StdDecode (StdEncode s) = Some s"
proof -
  have "filter (\<lambda>c. \<not> is_newline c) (StdEncode s) = StdEncode s"
    using no_newline by (auto simp: filter_id_conv is_newline_def)
  then show ?thesis
    using quads_encode64 [of std_alphabet True s]
    by (simp add: StdDecode_def StdEncode_def) (simp add: std_alphabet_def)
qed

text \<open>Encoded text has no white space, so trimming leaves it alone.\<close>

lemma encoded_no_space: "c \<in> set (encode64 al pad s) \<Longrightarrow> length al = 64 \<Longrightarrow> \<forall>c \<in> set al. \<not> is_space c \<Longrightarrow> \<not> is_space c"
  using encode64_set [of al pad s] by (auto simp: is_space_def)

lemma TrimSpace_no_space: "\<forall>c \<in> set s. \<not> is_space c \<Longrightarrow> TrimSpace s = s"
  by (auto simp: TrimSpace_fixed)

lemma TrimSpace_StdEncode [simp]: "TrimSpace (StdEncode s) = StdEncode s"
  by (rule TrimSpace_no_space)
     (auto simp: StdEncode_def dest!: encoded_no_space [of _ std_alphabet], auto simp: std_alphabet_def is_space_def)

lemma TrimSpace_RawURLEncode [simp]: "TrimSpace (RawURLEncode s) = RawURLEncode s"
  by (rule TrimSpace_no_space)
     (auto simp: RawURLEncode_def dest!: encoded_no_space [of _ url_alphabet], auto simp: url_alphabet_def is_space_def)

lemma RawURLEncode_Nil_iff [simp]: "RawURLEncode s = [] \<longleftrightarrow> s = []"
  by (cases "(url_alphabet, False, s)" rule: encode64.cases) (simp_all add: RawURLEncode_def)

end
