(* ===== verification/AdminLogin.thy ===== *)
theory AdminLogin
  imports AdminAuth AdminUsers LoginLimiter Base64
begin

text \<open>
  Admin sign-in and sign-out, controllers/auth_controller.go, with the captcha
  verifier of internal/auth/captcha.go.  One instant stands for the calls of
  time.Now during a request.  Cloudflare's answer, bcrypt, the JWT library
  and the parser of IP addresses are arguments.  A cookie's Expires, which
  repeats its MaxAge, and the request's locals are left out.
\<close>

section \<open>Captcha\<close>

record captcha_verifier =
  SiteKey :: string
  cv_Secret :: string
  AfterFailures :: int
  cv_Timeout :: dur

definition NewCaptchaVerifier :: "string \<Rightarrow> string \<Rightarrow> int \<Rightarrow> dur \<Rightarrow> captcha_verifier" where
  "NewCaptchaVerifier siteKey secret afterFailures timeout =
     \<lparr> SiteKey = TrimSpace siteKey, cv_Secret = TrimSpace secret,
       AfterFailures = (if afterFailures < 0 then 0 else afterFailures),
       cv_Timeout = (if timeout \<le> 0 then 3 * second else timeout) \<rparr>"

definition Enabled :: "captcha_verifier option \<Rightarrow> bool" where
  "Enabled v = (case v of None \<Rightarrow> False | Some v \<Rightarrow> SiteKey v \<noteq> [] \<and> cv_Secret v \<noteq> [])"

definition RequiresCaptcha :: "captcha_verifier option \<Rightarrow> int \<Rightarrow> bool" where
  "RequiresCaptcha v n =
     (if \<not> Enabled v then False
      else let threshold = (if AfterFailures (the v) < 0 then 0 else AfterFailures (the v)) in n \<ge> threshold)"

definition PublicConfig :: "captcha_verifier option \<Rightarrow> bool \<times> string \<times> int" where
  "PublicConfig v = (if \<not> Enabled v then (False, [], 0) else (True, SiteKey (the v), AfterFailures (the v)))"

text \<open>The member success of the answer; a member of another type is a decoding error.\<close>

definition success_field :: "json option \<Rightarrow> bool option" where
  "success_field doc = (case doc of
     Some JNull \<Rightarrow> Some False
   | Some (JObj kvs) \<Rightarrow> foldl (\<lambda>cur (k, v). if EqualFold k ''success''
        then (case v of JBool b \<Rightarrow> map_option (\<lambda>_. b) cur | JNull \<Rightarrow> cur | _ \<Rightarrow> None) else cur) (Some False) kvs
   | _ \<Rightarrow> None)"

type_synonym siteverify = "(string \<times> string) list \<Rightarrow> (nat \<times> json option) option"

definition Verify :: "siteverify \<Rightarrow> captcha_verifier option \<Rightarrow> string \<Rightarrow> string \<Rightarrow> string + bool" where
  "Verify turnstile v token remoteIP =
     (if \<not> Enabled v then Inr True
      else let token = TrimSpace token in
        if token = [] then Inr False
        else let remoteIP = TrimSpace remoteIP;
                 form = [(''secret'', cv_Secret (the v)), (''response'', token)]
                        @ (if remoteIP \<noteq> [] then [(''remoteip'', remoteIP)] else [])
          in (case turnstile form of
                None \<Rightarrow> Inl ''captcha verify request failed''
              | Some (st, doc) \<Rightarrow>
                  if st \<noteq> 200 then Inl ''captcha verify status''
                  else (case success_field doc of
                     None \<Rightarrow> Inl ''decode captcha verify response''
                   | Some b \<Rightarrow> Inr b)))"

section \<open>The controller\<close>

record auth_controller =
  ac_JWT :: "jwt_manager option"
  ac_Captcha :: "captcha_verifier option"
  ac_CookieName :: string
  ac_CSRFCookieName :: string

record auth_state =
  as_Sessions :: "session_manager option"
  as_Limiter :: "login_limiter option"

text \<open>
  What a login consults outside the program: the parser of IP addresses
  (Some loopback), Cloudflare, bcrypt, the JWT signer and two random values,
  None when the random source fails.
\<close>

record login_world =
  w_addr :: "string \<Rightarrow> bool option"
  w_turnstile :: siteverify
  w_bcrypt :: bcrypt
  w_sign :: jwt_sign
  w_session_id :: "string option"
  w_csrf_token :: "string option"

definition csrfCookieName :: "auth_controller \<Rightarrow> string" where
  "csrfCookieName ctl = (let name = TrimSpace (ac_CSRFCookieName ctl) in if name = [] then ''csrf_token'' else name)"

definition sessionCookieName :: "auth_controller \<Rightarrow> string" where
  "sessionCookieName ctl = (let name = TrimSpace (ac_CookieName ctl) in if name = [] then ''admin_session'' else name)"

definition bearerTokenFromHeader :: "string \<Rightarrow> string" where
  "bearerTokenFromHeader h =
     (let h = TrimSpace h in
      if h = [] then []
      else case SplitN2 (CHR '' '') h of
        None \<Rightarrow> []
      | Some (a, b) \<Rightarrow> if \<not> EqualFold (TrimSpace a) ''Bearer'' then [] else TrimSpace b)"

definition requestToken :: "request \<Rightarrow> string \<Rightarrow> string" where
  "requestToken r name =
     (let headerToken = bearerTokenFromHeader (r_header r ''Authorization'') in
      if headerToken \<noteq> [] then headerToken else TrimSpace (r_cookie r name))"

definition host_part :: "string \<Rightarrow> string" where
  "host_part hostname = (let hostname = TrimSpace hostname in
     case SplitHost hostname of Some host \<Rightarrow> host | None \<Rightarrow> hostname)"

definition isSecureRequest :: "(string \<Rightarrow> bool option) \<Rightarrow> request \<Rightarrow> bool" where
  "isSecureRequest addr r =
     (if EqualFold (r_protocol r) ''https'' then True
      else let hostname = Trim (set ''[]'') (host_part (r_hostname r)) in
        if hostname = [] then False
        else if hostname = ''localhost'' then False
        else (case addr hostname of Some loopback \<Rightarrow> \<not> loopback | None \<Rightarrow> True))"

definition limiterKey :: "request \<Rightarrow> string \<Rightarrow> string" where
  "limiterKey r username = ToLower (TrimSpace username) @ ''|'' @ TrimSpace (r_ip r)"

definition retryAfterSeconds :: "dur \<Rightarrow> int" where
  "retryAfterSeconds d = (if d \<le> 0 then 1 else (d + second - 1) div second)"

definition failedAttempts :: "time \<Rightarrow> string \<Rightarrow> login_limiter option \<Rightarrow> int \<times> login_limiter option" where
  "failedAttempts now key li = (case li of
     None \<Rightarrow> (0, None)
   | Some l \<Rightarrow> apsnd Some (ll_FailureCount now key l))"

definition captchaRequired :: "time \<Rightarrow> auth_controller \<Rightarrow> string \<Rightarrow> login_limiter option \<Rightarrow> bool \<times> login_limiter option" where
  "captchaRequired now ctl key li = (case ac_Captcha ctl of
     None \<Rightarrow> (False, li)
   | Some v \<Rightarrow> apfst (RequiresCaptcha (Some v)) (failedAttempts now key li))"

text \<open>The bodies that report the state of the key; the reads run in this order.\<close>

definition key_report :: "time \<Rightarrow> auth_controller \<Rightarrow> string \<Rightarrow> login_limiter option
    \<Rightarrow> (string \<times> json) list \<times> login_limiter option" where
  "key_report now ctl key li =
     (case failedAttempts now key li of (n, lim1) \<Rightarrow>
      case captchaRequired now ctl key lim1 of (need, lim2) \<Rightarrow>
        ([(''failed_attempts'', jint n), (''captcha_required'', JBool need)], lim2))"

definition loginErrorResponse :: "time \<Rightarrow> auth_controller \<Rightarrow> nat \<Rightarrow> string \<Rightarrow> string \<Rightarrow> login_limiter option
    \<Rightarrow> response \<times> login_limiter option" where
  "loginErrorResponse now ctl st msg key li =
     (case key_report now ctl key li of (kvs, li') \<Rightarrow> (send st ((''error'', JStr msg) # kvs), li'))"

definition tooManyAttempts :: "time \<Rightarrow> auth_controller \<Rightarrow> dur \<Rightarrow> string \<Rightarrow> login_limiter option
    \<Rightarrow> response \<times> login_limiter option" where
  "tooManyAttempts now ctl retry key li =
     (let secs = retryAfterSeconds retry in
      case key_report now ctl key li of (kvs, li') \<Rightarrow>
        (Response 429 [(''Retry-After'', int_text secs)] []
           (JObj ([(''error'', JStr ''too many login attempts''), (''retry_after_seconds'', jint secs)] @ kvs)), li'))"

definition refuse :: "time \<Rightarrow> auth_controller \<Rightarrow> nat \<Rightarrow> string \<Rightarrow> string \<Rightarrow> login_limiter option
    \<Rightarrow> response \<times> login_limiter option" where
  "refuse now ctl st msg key li = (case li of
     None \<Rightarrow> loginErrorResponse now ctl st msg key None
   | Some l \<Rightarrow> (case ll_RegisterFailure now key l of ((locked, retry), l') \<Rightarrow>
       if locked then tooManyAttempts now ctl retry key (Some l')
       else loginErrorResponse now ctl st msg key (Some l')))"

definition LoginOptions :: "auth_controller \<Rightarrow> response" where
  "LoginOptions ctl =
     (let (enabled, siteKey, afterFailures) = (case ac_Captcha ctl of None \<Rightarrow> (False, [], 0) | v \<Rightarrow> PublicConfig v)
      in Response 200 [(''Cache-Control'', ''no-store'')] []
           (JObj [(''captcha_enabled'', JBool enabled), (''captcha_site_key'', JStr siteKey),
                  (''captcha_after_failures'', jint afterFailures)]))"

definition session_cookie :: "login_world \<Rightarrow> auth_controller \<Rightarrow> request \<Rightarrow> string \<Rightarrow> int \<Rightarrow> cookie" where
  "session_cookie w ctl r tok age =
     \<lparr> ck_Name = sessionCookieName ctl, ck_Value = tok, ck_Path = ''/'', ck_HTTPOnly = True,
       ck_Secure = isSecureRequest (w_addr w) r, ck_SameSite = ''Strict'', ck_MaxAge = age \<rparr>"

definition csrf_cookie :: "login_world \<Rightarrow> auth_controller \<Rightarrow> request \<Rightarrow> string \<Rightarrow> int \<Rightarrow> cookie" where
  "csrf_cookie w ctl r tok age =
     \<lparr> ck_Name = csrfCookieName ctl, ck_Value = tok, ck_Path = ''/'', ck_HTTPOnly = False,
       ck_Secure = isSecureRequest (w_addr w) r, ck_SameSite = ''Strict'', ck_MaxAge = age \<rparr>"

text \<open>Login, in its stages: the transport and the body, ...\<close>

definition login_allowed_transport :: "(string \<Rightarrow> bool option) \<Rightarrow> request \<Rightarrow> bool" where
  "login_allowed_transport addr r \<longleftrightarrow>
     EqualFold (r_protocol r) ''https''
     \<or> EqualFold (host_part (r_hostname r)) ''localhost''
     \<or> addr (host_part (r_hostname r)) = Some True"

definition decode_credential :: "string \<Rightarrow> string" where
  "decode_credential s = (case StdDecode s of Some dec \<Rightarrow> if dec \<noteq> [] then dec else s | None \<Rightarrow> s)"

definition login_fields :: "string list" where
  "login_fields = [''username'', ''password'', ''captcha_token'']"

definition login_input :: "login_world \<Rightarrow> request \<Rightarrow> response + (string \<times> string \<times> string)" where
  "login_input w r =
     (if \<not> login_allowed_transport (w_addr w) r
      then Inl (send_error 403 ''login requires a secure connection (HTTPS)'')
      else case BodyFields login_fields r of
        None \<Rightarrow> Inl (send_error 400 ''invalid JSON'')
      | Some req \<Rightarrow>
          let username = TrimSpace (decode_credential (req ''username''));
              password = decode_credential (req ''password'')
          in if username = [] \<or> blank password then Inl (send_error 400 ''username and password required'')
             else if length password > 256 then Inl (send_error 400 ''password is too long'')
             else Inr (username, password, req ''captcha_token''))"

text \<open>... the limiter and the captcha, None meaning go on, ...\<close>

definition login_gate :: "login_world \<Rightarrow> time \<Rightarrow> auth_controller \<Rightarrow> request \<Rightarrow> string \<Rightarrow> string \<Rightarrow> login_limiter option
    \<Rightarrow> response option \<times> login_limiter option" where
  "login_gate w now ctl r key captchaToken li =
     (case (case li of
              None \<Rightarrow> ((True, 0), None)
            | Some l \<Rightarrow> apsnd Some (ll_Allow now key l)) of ((ok, retry), lim1) \<Rightarrow>
      if \<not> ok then apfst Some (tooManyAttempts now ctl retry key lim1)
      else case captchaRequired now ctl key lim1 of (need, lim2) \<Rightarrow>
        if \<not> need then (None, lim2)
        else let token = TrimSpace captchaToken in
          if token = [] then apfst Some (loginErrorResponse now ctl 400 ''captcha required'' key lim2)
          else (case Verify (w_turnstile w) (ac_Captcha ctl) token (r_ip r) of
            Inl _ \<Rightarrow> apfst Some (loginErrorResponse now ctl 503 ''captcha verification unavailable'' key lim2)
          | Inr ok \<Rightarrow>
              if \<not> ok then apfst Some (refuse now ctl 400 ''captcha validation failed'' key lim2)
              else (None, lim2)))"

text \<open>... and the session, once the credentials are right.\<close>

definition login_session :: "login_world \<Rightarrow> time \<Rightarrow> auth_controller \<Rightarrow> jwt_manager \<Rightarrow> request \<Rightarrow> string
    \<Rightarrow> session_manager \<Rightarrow> response \<times> session_manager" where
  "login_session w now ctl jm r username sm =
     (let sm1 = sm_RevokeUser username sm in
      case sm_Create now (w_session_id w) username sm1 of
        (Inl _, sm2) \<Rightarrow> (send_error 500 ''session creation failed'', sm2)
      | (Inr sid, sm2) \<Rightarrow> (case jwt_Generate (w_sign w) now (Some jm) username sid of
          Inl _ \<Rightarrow> (send_error 500 ''token generation failed'', sm_Revoke sid sm2)
        | Inr tok \<Rightarrow>
            let d = (if jm_TTL jm \<le> 0 then hour else jm_TTL jm); age = d div second in
            (case w_csrf_token w of
               None \<Rightarrow> (Response 500 [] [session_cookie w ctl r tok age]
                          (JObj [(''error'', JStr ''csrf token generation failed'')]), sm_Revoke sid sm2)
             | Some csrf \<Rightarrow>
                 (Response 200 [(''Cache-Control'', ''no-store'')]
                    [session_cookie w ctl r tok age, csrf_cookie w ctl r csrf age]
                    (JObj [(''ok'', JBool True), (''expires_in'', jint age)]), sm2))))"

definition Login :: "login_world \<Rightarrow> time \<Rightarrow> auth_controller \<Rightarrow> admin_users \<Rightarrow> request \<Rightarrow> auth_state
    \<Rightarrow> response \<times> auth_state" where
  "Login w now ctl users r s = (case (ac_JWT ctl, as_Sessions s) of
     (Some jm, Some sm) \<Rightarrow>
       (case login_input w r of
          Inl resp \<Rightarrow> (resp, s)
        | Inr (username, password, captchaToken) \<Rightarrow>
            let key = limiterKey r username in
            (case login_gate w now ctl r key captchaToken (as_Limiter s) of
               (Some resp, li') \<Rightarrow> (resp, s\<lparr>as_Limiter := li'\<rparr>)
             | (None, lim1) \<Rightarrow>
                 if \<not> VerifyAdminUser (w_bcrypt w) username password users
                 then (case refuse now ctl 401 ''invalid credentials'' key lim1 of
                         (resp, li') \<Rightarrow> (resp, s\<lparr>as_Limiter := li'\<rparr>))
                 else let lim2 = map_option (ll_RegisterSuccess key) lim1 in
                   (case login_session w now ctl jm r username sm of
                      (resp, sm') \<Rightarrow> (resp, s\<lparr>as_Limiter := lim2, as_Sessions := Some sm'\<rparr>))))
   | _ \<Rightarrow> (send_error 500 ''auth is not configured'', s))"

definition Logout :: "login_world \<Rightarrow> jwt_parse \<Rightarrow> time \<Rightarrow> auth_controller \<Rightarrow> request \<Rightarrow> auth_state
    \<Rightarrow> response \<times> auth_state" where
  "Logout w jparse now ctl r s =
     (let tokenValue = requestToken r (sessionCookieName ctl);
          s' = (case (ac_JWT ctl, as_Sessions s) of
             (Some jm, Some sm) \<Rightarrow>
               if tokenValue = [] then s
               else (case jwt_Verify jparse now (Some jm) tokenValue of
                  None \<Rightarrow> s
                | Some c \<Rightarrow> if blank (c_SessionID c) then s
                            else s\<lparr>as_Sessions := Some (sm_Revoke (c_SessionID c) sm)\<rparr>)
           | _ \<Rightarrow> s)
      in (Response 200 [(''Cache-Control'', ''no-store'')]
            [session_cookie w ctl r [] (-1), csrf_cookie w ctl r [] (-1)]
            (JObj [(''ok'', JBool True)]), s'))"

text \<open>Session answers with the claims the middleware stored; fmt is RFC 3339 in UTC.\<close>

definition Session :: "(time \<Rightarrow> string) \<Rightarrow> claims option \<Rightarrow> response" where
  "Session fmt c =
     (let username = (case c of None \<Rightarrow> [] | Some c \<Rightarrow> TrimSpace (c_Username c)) in
      if username = [] then send_error 401 ''unauthorized''
      else send 200 ([(''authenticated'', JBool True), (''username'', JStr username)]
        @ (case c of Some c \<Rightarrow> (case c_ExpiresAt c of Some t \<Rightarrow> [(''expires_at'', JStr (fmt t))] | None \<Rightarrow> [])
           | None \<Rightarrow> [])))"


section \<open>What sign-in and sign-out guarantee\<close>

lemma report_status [simp]:
  "status (fst (loginErrorResponse now ctl st msg key li)) = st"
  "status (fst (tooManyAttempts now ctl d key li)) = 429"
  by (simp_all add: loginErrorResponse_def tooManyAttempts_def Let_def split: prod.splits)

lemma refuse_status: "status (fst (refuse now ctl st msg key li)) \<in> {st, 429}"
  by (simp add: refuse_def split: option.splits prod.splits)

lemma login_gate_status:
  assumes "fst (login_gate w now ctl r key tok li) = Some e"
  shows "status e \<in> {400, 429, 503}"
proof -
  obtain ok retry l1 where a: "(case li of None \<Rightarrow> ((True, 0), None) | Some l \<Rightarrow> apsnd Some (ll_Allow now key l)) = ((ok, retry), l1)"
    by (metis prod.exhaust)
  obtain need l2 where c: "captchaRequired now ctl key l1 = (need, l2)" by force
  show ?thesis
  proof (cases "Verify (w_turnstile w) (ac_Captcha ctl) (TrimSpace tok) (r_ip r)")
    case (Inl x)
    then show ?thesis using assms by (auto simp: login_gate_def a c Let_def split: if_splits)
  next
    case (Inr b)
    then show ?thesis
      using assms refuse_status [of now ctl 400 "''captcha validation failed''" key l2]
      by (auto simp: login_gate_def a c Let_def split: if_splits)
  qed
qed

lemma login_input_status: "login_input w r = Inl e \<Longrightarrow> status e \<in> {400, 403}"
  by (auto simp: login_input_def Let_def split: option.splits if_splits)

lemma Login_cases:
  assumes "Login w now ctl users r s = (resp, s')" "ac_JWT ctl = Some jm" "as_Sessions s = Some sm"
  obtains
    (refused) "as_Sessions s' = Some sm" "status resp \<noteq> 200"
  | (verified) u p tok sm' where "login_input w r = Inr (u, p, tok)" "VerifyAdminUser (w_bcrypt w) u p users"
      "login_session w now ctl jm r u sm = (resp, sm')" "as_Sessions s' = Some sm'"
proof (cases "login_input w r")
  case (Inl e)
  then show thesis using assms login_input_status [OF Inl] refused by (auto simp: Login_def)
next
  case (Inr x)
  obtain u p tok where x: "x = (u, p, tok)" by (cases x)
  obtain g li where g: "login_gate w now ctl r (limiterKey r u) tok (as_Limiter s) = (g, li)" by force
  show thesis
  proof (cases g)
    case (Some e)
    then have "status e \<noteq> 200" using login_gate_status [of w now ctl r "limiterKey r u" tok "as_Limiter s" e] g by auto
    then show thesis using assms Inr x g Some refused by (auto simp: Login_def Let_def)
  next
    case None
    show thesis
    proof (cases "VerifyAdminUser (w_bcrypt w) u p users")
      case True
      then show thesis using assms Inr x g None verified by (auto simp: Login_def Let_def split: prod.splits)
    next
      case False
      then show thesis
        using assms Inr x g None refused refuse_status [of now ctl 401 "''invalid credentials''" "limiterKey r u" li]
        by (auto simp: Login_def Let_def split: prod.splits)
    qed
  qed
qed

text \<open>
  What the JWT library promises: a token it signed parses, under the same key, to
  the claims that were signed, as long as issuer, audience and the two instants
  admit it.  A token is not blank.
\<close>

definition jwt_law :: "jwt_sign \<Rightarrow> jwt_parse \<Rightarrow> bool" where
  "jwt_law jsign jparse \<longleftrightarrow> (\<forall>k c tok opts t. jsign k c = Some tok \<longrightarrow>
     TrimSpace tok = tok \<and> tok \<noteq> []
     \<and> (po_key opts = k \<and> ''HS256'' \<in> set (po_alg opts)
        \<and> (po_issuer opts = None \<or> po_issuer opts = Some (c_Issuer c))
        \<and> (po_audience opts = None \<or> po_audience opts \<in> Some ` set (c_Audience c))
        \<and> (\<forall>e. c_ExpiresAt c = Some e \<longrightarrow> t < e + po_leeway opts)
        \<and> (\<forall>n. c_NotBefore c = Some n \<longrightarrow> n - po_leeway opts \<le> t)
        \<longrightarrow> jparse opts t tok = Some c))"

lemma NumericDate_bounds: "NumericDate t \<le> t \<and> t < NumericDate t + second"
proof -
  have "t mod second < second" "0 \<le> t mod second" by simp_all
  moreover have "NumericDate t + t mod second = t" by (simp add: NumericDate_def)
  ultimately show ?thesis by linarith
qed

definition jwt_ttl :: "jwt_manager \<Rightarrow> dur" where "jwt_ttl jm = (if jm_TTL jm \<le> 0 then hour else jm_TTL jm)"

lemma jwt_Verify_Generate:
  assumes "jwt_law jsign jparse" "jwt_Generate jsign now (Some jm) u sid = Inr tok" "now \<le> t" "t < now + jwt_ttl jm"
  shows "TrimSpace tok = tok \<and> tok \<noteq> [] \<and> (\<exists>c. jwt_Verify jparse t (Some jm) tok = Some c
     \<and> c_Username c = TrimSpace u \<and> c_SessionID c = TrimSpace sid)"
proof -
  let ?c = "\<lparr> c_Username = TrimSpace u, c_SessionID = TrimSpace sid,
                 c_ExpiresAt = Some (NumericDate (now + jwt_ttl jm)), c_IssuedAt = Some (NumericDate now),
                 c_NotBefore = Some (NumericDate now), c_Subject = TrimSpace u,
                 c_Issuer = jm_Issuer jm, c_ID = TrimSpace sid,
                 c_Audience = (if jm_Audience jm \<noteq> [] then [jm_Audience jm] else []) \<rparr>"
  have j: "jsign (jm_Secret jm) ?c = Some tok" "jm_Secret jm \<noteq> []"
    using assms(2) by (auto simp: jwt_Generate_def jwt_ttl_def Let_def split: if_splits option.splits)
  have "t < NumericDate (now + jwt_ttl jm) + 5 * second" "NumericDate now - 5 * second \<le> t"
    using assms(3,4) NumericDate_bounds [of now] NumericDate_bounds [of "now + jwt_ttl jm"] by simp_all
  then have "jwt_Verify jparse t (Some jm) tok = Some ?c"
    using assms(1) j unfolding jwt_law_def by (auto simp: jwt_Verify_def)
  moreover have "TrimSpace tok = tok \<and> tok \<noteq> []" using assms(1) j(1) unfolding jwt_law_def by blast
  ultimately show ?thesis by auto
qed

lemma login_session_200:
  assumes "login_session w now ctl jm r u sm = (resp, sm')" "status resp = 200"
  obtains sid tok csrf where "w_session_id w = Some sid" "TrimSpace u \<noteq> []"
    "jwt_Generate (w_sign w) now (Some jm) u sid = Inr tok" "w_csrf_token w = Some csrf"
    "cookies resp = [session_cookie w ctl r tok (jwt_ttl jm div second), csrf_cookie w ctl r csrf (jwt_ttl jm div second)]"
    "sm' = snd (sm_Create now (Some sid) u (sm_RevokeUser u sm))"
proof -
  obtain x sm2 where c: "sm_Create now (w_session_id w) u (sm_RevokeUser u sm) = (x, sm2)" by force
  obtain sid where x: "x = Inr sid" using assms c by (cases x) (auto simp: login_session_def)
  then have i: "w_session_id w = Some sid" "TrimSpace u \<noteq> []"
    using c by (auto simp: sm_Create_def Let_def split: if_splits option.splits)
  obtain tok where t: "jwt_Generate (w_sign w) now (Some jm) u sid = Inr tok"
    using assms c x by (cases "jwt_Generate (w_sign w) now (Some jm) u sid") (auto simp: login_session_def)
  obtain csrf where "w_csrf_token w = Some csrf"
    using assms c x t by (cases "w_csrf_token w") (auto simp: login_session_def Let_def)
  with assms c x t i show thesis
    by (intro that) (auto simp: login_session_def Let_def jwt_ttl_def split: if_splits)
qed

lemma login_session_else:
  assumes "login_session w now ctl jm r u sm = (resp, sm')" "status resp \<noteq> 200"
  shows "sm' = sm_RevokeUser u sm
    \<or> (\<exists>sid. w_session_id w = Some sid \<and> sm' = sm_Revoke sid (snd (sm_Create now (Some sid) u (sm_RevokeUser u sm))))"
proof -
  obtain x sm2 where c: "sm_Create now (w_session_id w) u (sm_RevokeUser u sm) = (x, sm2)" by force
  show ?thesis
  proof (cases x)
    case (Inl e)
    then have "sm2 = sm_RevokeUser u sm"
      using c by (auto simp: sm_Create_def Let_def split: if_splits option.splits)
    then show ?thesis using assms(1) c Inl by (simp add: login_session_def)
  next
    case (Inr sid)
    then have "w_session_id w = Some sid"
      using c by (auto simp: sm_Create_def Let_def split: if_splits option.splits)
    then show ?thesis
      using assms c Inr by (auto simp: login_session_def Let_def split: sum.splits option.splits)
  qed
qed

text \<open>
  C25: a successful login opens the one session of its user.  An answer 200
  means the submitted credentials verified; the session cookie it sets is
  admitted by the admin middleware until the session or the token runs out;
  and no other session of that user is accepted any more.
\<close>
theorem login_opens_the_only_session:
  assumes "sm_wf sm" "ac_JWT ctl = Some jm" "as_Sessions s = Some sm"
    and "Login w now ctl users r s = (resp, s')" "status resp = 200"
    and "jwt_law (w_sign w) jparse"
    and "w_session_id w = Some sid" "TrimSpace sid = sid" "sid \<noteq> []" "entry sm sid = None"
  shows "\<exists>u p t sm' tok. login_input w r = Inr (u, p, t) \<and> VerifyAdminUser (w_bcrypt w) u p users
    \<and> as_Sessions s' = Some sm'
    \<and> session_cookie w ctl r tok (jwt_ttl jm div second) \<in> set (cookies resp)
    \<and> (\<forall>now' r'. now \<le> now' \<and> now' < now + ttl sm \<and> now' < now + jwt_ttl jm
          \<and> r_cookie r' (sessionCookieName ctl) = tok \<and> blank (r_header r' ''Authorization'') \<longrightarrow>
          passes (fst (AdminAuth jparse now' (Some jm) (ac_CookieName ctl) r' (Some sm'))))
    \<and> (\<forall>now' i. now \<le> now' \<and> fst (sm_Validate now' i u sm') \<longrightarrow> TrimSpace i = sid)"
proof -
  obtain u p t sm' where l: "login_input w r = Inr (u, p, t)" "VerifyAdminUser (w_bcrypt w) u p users"
      "login_session w now ctl jm r u sm = (resp, sm')" "as_Sessions s' = Some sm'"
    using Login_cases [OF assms(4,2,3)] assms(5) by metis
  obtain sid' tok csrf where i: "w_session_id w = Some sid'" and
    g': "TrimSpace u \<noteq> []" "jwt_Generate (w_sign w) now (Some jm) u sid' = Inr tok"
      "cookies resp = [session_cookie w ctl r tok (jwt_ttl jm div second), csrf_cookie w ctl r csrf (jwt_ttl jm div second)]"
    and sm'': "sm' = snd (sm_Create now (Some sid') u (sm_RevokeUser u sm))"
    using login_session_200 [OF l(3) assms(5)] by metis
  have "sid' = sid" using i assms(7) by simp
  note g = g' [unfolded this] and sm' = sm'' [unfolded this]
  have fresh: "\<not> entry (sm_RevokeUser u sm) sid \<noteq> None"
    using sm.has_revoke_user [OF assms(1), of u sid] assms(10) by blast
  have ttl: "ttl (sm_RevokeUser u sm) = ttl sm" by (simp add: sm_RevokeUser_def Let_def split: option.splits)
  have valid: "fst (sm_Validate now' i v sm') \<longleftrightarrow>
      (if TrimSpace i = sid then \<not> blank i \<and> TrimSpace v = TrimSpace u \<and> now' < now + ttl sm
       else fst (sm_Validate now' i v (sm_RevokeUser u sm)))" if "now \<le> now'" for now' i v
    using sm.check_issue [OF sm.wf_revoke_user [OF assms(1)] fresh that, of u i v] g(1) ttl
    unfolding sm' by (simp add: blank_def)
  have only: "TrimSpace i = sid" if "now \<le> now'" "fst (sm_Validate now' i u sm')" for now' i
    using sm.one_session_per_user [OF assms(1) _ that(1), of sid u u i] that(2) g(1) assms(10)
    unfolding sm' by (simp add: blank_def)
  have pass: "passes (fst (AdminAuth jparse now' (Some jm) (ac_CookieName ctl) r' (Some sm')))"
    if h: "now \<le> now'" "now' < now + ttl sm" "now' < now + jwt_ttl jm"
      "r_cookie r' (sessionCookieName ctl) = tok" "blank (r_header r' ''Authorization'')" for now' r'
  proof -
    obtain c where c: "jwt_Verify jparse now' (Some jm) tok = Some c" "c_Username c = TrimSpace u" "c_SessionID c = TrimSpace sid"
        "TrimSpace tok = tok" "tok \<noteq> []"
      using jwt_Verify_Generate [OF assms(6) g(2) h(1,3)] by blast
    have name: "default_to ''admin_session'' (ac_CookieName ctl) = sessionCookieName ctl"
      by (simp add: default_to_def sessionCookieName_def)
    have "resolveToken r' (sessionCookieName ctl) = Inr tok"
      using h(4,5) c(4,5) by (simp add: resolveToken_def bearerToken_def blank_def Let_def)
    moreover have v: "fst (sm_Validate now' (TrimSpace sid) (TrimSpace u) sm')"
      using valid [OF h(1), of "TrimSpace sid" "TrimSpace u"] h(2) assms(8,9) by (simp add: blank_def)
    ultimately show ?thesis
      unfolding AdminAuth_def name
      using c(1-3) g(1) assms(8,9) by (auto simp: verifyAdminSession_def Let_def split: prod.splits)
  qed
  show ?thesis
    using l(1,2,4) g(3) pass only by (intro exI [of _ u] exI [of _ p] exI [of _ t] exI [of _ sm'] exI [of _ tok]) auto
qed


text \<open>
  A login that does not answer 200 opens nothing.  Whatever went wrong, from a
  bad body to a failing random source after the session was created, no
  session id is accepted afterwards that was not accepted before.
\<close>
lemma failed_login_opens_nothing:
  assumes "sm_wf sm" "ac_JWT ctl = Some jm" "as_Sessions s = Some sm"
    and "Login w now ctl users r s = (resp, s')" "status resp \<noteq> 200"
    and "\<forall>sid. w_session_id w = Some sid \<longrightarrow> TrimSpace sid = sid \<and> sid \<noteq> [] \<and> entry sm sid = None"
  shows "\<exists>sm'. as_Sessions s' = Some sm'
    \<and> (\<forall>now' i v. now \<le> now' \<and> fst (sm_Validate now' i v sm') \<longrightarrow> fst (sm_Validate now' i v sm))"
  using assms(4,2,3)
proof (cases rule: Login_cases)
  case (verified u p tok sm')
  let ?m = "sm_RevokeUser u sm"
  have wf: "sm_wf ?m" by (rule sm.wf_revoke_user [OF assms(1)])
  have old: "fst (sm_Validate t i v ?m) \<Longrightarrow> fst (sm_Validate t i v sm)" for t i v
    using sm.check_revoke_user [OF assms(1)] by blast
  from login_session_else [OF verified(3) assms(5)] show ?thesis
  proof (elim disjE exE conjE)
    assume "sm' = ?m"
    with old verified(4) show ?thesis by blast
  next
    fix sid
    assume sid: "w_session_id w = Some sid" and sm': "sm' = sm_Revoke sid (snd (sm_Create now (Some sid) u ?m))"
    have ok: "TrimSpace sid = sid" "sid \<noteq> []" "entry sm sid = None" using assms(6) sid by auto
    have fresh: "\<not> entry ?m sid \<noteq> None" using sm.has_revoke_user [OF assms(1), of u sid] ok(3) by blast
    have "fst (sm_Validate t i v ?m)" if "now \<le> t" "fst (sm_Validate t i v sm')" for t i v
    proof -
      have "TrimSpace i \<noteq> TrimSpace sid" "fst (sm_Validate t i v (snd (sm_Create now (Some sid) u ?m)))"
        using that(2) ok sm.check_revoke [OF sm.wf_issue [OF wf fresh], of t i v sid now u]
        unfolding sm' by (simp_all add: blank_def)
      moreover have "\<not> blank u"
        using verified(1) by (auto simp: login_input_def Let_def blank_def split: option.splits if_splits)
      ultimately show ?thesis
        using sm.check_issue [OF wf fresh that(1), of u i v] ok(1) by auto
    qed
    with old verified(4) show ?thesis by blast
  qed
qed blast

text \<open>
  A locked key cannot log in.  While the limiter holds a lock for the user name
  and address of a request, Login answers 429 whatever the password, the table
  of accounts and the captcha say, touches no session, and the lock stays.
\<close>
lemma locked_key_cannot_login:
  assumes "as_Limiter s = Some l" "login_input w r = Inr (u, p, tok)"
    and "attempts l (limiterKey r u) = Some a" "locked_at now a"
    and "ac_JWT ctl \<noteq> None" "as_Sessions s \<noteq> None"
  shows "\<exists>resp l'. (\<forall>users. Login w now ctl users r s = (resp, s\<lparr>as_Limiter := Some l'\<rparr>))
    \<and> status resp = 429 \<and> attempts l' (limiterKey r u) = Some a"
proof -
  let ?k = "limiterKey r u"
  have k: "?k \<noteq> []" by (simp add: limiterKey_def)
  have keep: "attempts (ll_cleanup now l1) ?k = Some a" if "attempts l1 ?k = Some a" for l1
    using that assms(4) by (rule ll_cleanup_locked)
  obtain d where d: "lockUntil a = Some d" "now < d"
    using assms(4) by (auto simp: locked_at_def split: option.splits)
  have al: "ll_Allow now ?k l = ((False, d - now), ll_cleanup now l)"
    using k keep [OF assms(3)] d by (simp add: ll_Allow_def Let_def)
  have fc: "\<exists>n. ll_FailureCount now ?k l1 = (n, ll_cleanup now l1)" for l1
    using k by (auto simp: ll_FailureCount_def Let_def split: option.splits)
  have fa: "\<exists>n l2. failedAttempts now ?k (Some l1) = (n, Some l2) \<and> attempts l2 ?k = Some a"
    if "attempts l1 ?k = Some a" for l1
    using fc [of l1] keep [OF that] by (auto simp: failedAttempts_def)
  have cr: "\<exists>b l2. captchaRequired now ctl ?k (Some l1) = (b, Some l2) \<and> attempts l2 ?k = Some a"
    if "attempts l1 ?k = Some a" for l1
    using fa [OF that] that by (auto simp: captchaRequired_def split: option.splits)
  obtain resp l' where t: "tooManyAttempts now ctl (d - now) ?k (Some (ll_cleanup now l)) = (resp, Some l')"
      "attempts l' ?k = Some a"
  proof -
    obtain n l2 where n: "failedAttempts now ?k (Some (ll_cleanup now l)) = (n, Some l2)" "attempts l2 ?k = Some a"
      using fa [OF keep [OF assms(3)]] by blast
    obtain b l3 where "captchaRequired now ctl ?k (Some l2) = (b, Some l3)" "attempts l3 ?k = Some a"
      using cr [OF n(2)] by blast
    with n(1) show thesis by (intro that) (simp_all add: tooManyAttempts_def key_report_def Let_def)
  qed
  have "status resp = 429" using report_status(2) [of now ctl "d - now" ?k "Some (ll_cleanup now l)"] t(1) by simp
  moreover have "login_gate w now ctl r ?k tok (Some l) = (Some resp, Some l')"
    by (simp add: login_gate_def al t(1))
  then have "Login w now ctl users r s = (resp, s\<lparr>as_Limiter := Some l'\<rparr>)" for users
    using assms(1,2,5,6) by (auto simp: Login_def Let_def)
  ultimately show ?thesis using t(2) by blast
qed

text \<open>
  C27: signing out is final.  After Logout of a request whose token verifies, and after any
  later history of logins with fresh session ids, checks, logouts and
  revocations, the middleware refuses every request whose own token, if it verifies at all, names the
  session that was signed out; tokens of other sessions may verify as they like.
  Both cookies are cleared.
\<close>
theorem logout_is_final:
  assumes "sm_wf sm" "as_Sessions s = Some sm" "ac_JWT ctl = Some jm"
    and "jwt_Verify jparse now0 (Some jm) (requestToken r0 (sessionCookieName ctl)) = Some c0"
    and "requestToken r0 (sessionCookieName ctl) \<noteq> []" "\<not> blank (c_SessionID c0)"
    and "Logout w jparse now0 ctl r0 s = (resp, s')"
    and "\<forall>(t, e) \<in> set h. t \<le> now \<and> (\<forall>i v. e = Issue i v \<longrightarrow> \<not> blank v \<and> TrimSpace (c_SessionID c0) \<noteq> i)"
    and "distinct (issued h)" "\<forall>i \<in> set (issued h). entry sm i = None"
  shows "map ck_MaxAge (cookies resp) = [-1, -1] \<and> (\<exists>sm'. as_Sessions s' = Some sm' \<and>
    (\<forall>r name tok. resolveToken r (default_to ''admin_session'' name) = Inr tok
       \<and> (\<forall>c. jwt_Verify jparse now (Some jm) tok = Some c \<longrightarrow> TrimSpace (c_SessionID c) = TrimSpace (c_SessionID c0))
       \<longrightarrow> \<not> passes (fst (AdminAuth jparse now (Some jm) name r (Some (sm.run_ops h sm'))))))"
proof -
  have out: "as_Sessions s' = Some (sm_Revoke (c_SessionID c0) sm)" "map ck_MaxAge (cookies resp) = [-1, -1]"
    using assms(2-7) by (auto simp: Logout_def Let_def session_cookie_def csrf_cookie_def)
  have "\<not> passes (fst (AdminAuth jparse now (Some jm) name r (Some (sm.run_ops h (sm_Revoke (c_SessionID c0) sm)))))"
    if "resolveToken r (default_to ''admin_session'' name) = Inr tok"
      "\<forall>c. jwt_Verify jparse now (Some jm) tok = Some c \<longrightarrow> TrimSpace (c_SessionID c) = TrimSpace (c_SessionID c0)" for r name tok
    by (rule revoked_token_refused [OF assms(1,6,8-10)]) (use that in auto)
  then show ?thesis using out by blast
qed


section \<open>Concrete runs\<close>

definition demo_ctl :: auth_controller where
  "demo_ctl = \<lparr> ac_JWT = Some demo_jwt, ac_Captcha = None, ac_CookieName = [], ac_CSRFCookieName = [] \<rparr>"

definition demo_token_claims :: claims where
  "demo_token_claims = \<lparr> c_Username = ''root'', c_SessionID = ''s2'', c_ExpiresAt = Some hour, c_IssuedAt = Some 0,
     c_NotBefore = Some 0, c_Subject = ''root'', c_Issuer = ''gw'', c_ID = ''s2'', c_Audience = [] \<rparr>"

definition demo_sign :: jwt_sign where
  "demo_sign k c = (if k = ''k'' \<and> c = demo_token_claims then Some ''tok'' else None)"

definition demo_parse :: jwt_parse where
  "demo_parse opts t tok = (if tok = ''tok'' \<and> po_key opts = ''k'' then Some demo_token_claims else None)"

lemma demo_jwt_law: "jwt_law demo_sign demo_parse"
  by (auto simp: jwt_law_def demo_sign_def demo_parse_def TrimSpace_def is_space_def split: if_splits)

definition demo_world :: "string option \<Rightarrow> login_world" where
  "demo_world csrf = \<lparr> w_addr = (\<lambda>_. None), w_turnstile = (\<lambda>_. None), w_bcrypt = toy_bcrypt, w_sign = demo_sign,
     w_session_id = Some ''s2'', w_csrf_token = csrf \<rparr>"

definition demo_login :: request where
  "demo_login = \<lparr> r_method = ''POST'', r_path = ''/api/admin/login'', r_protocol = ''https'', r_hostname = ''gw'',
     r_ip = ''1.2.3.4'', r_header = (\<lambda>_. []), r_cookie = (\<lambda>_. []),
     r_body = Some (JObj [(''username'', JStr ''cm9vdA==''), (''password'', JStr ''Correct-Horse-1'')]) \<rparr>"

definition demo_accounts :: admin_users where
  "demo_accounts = [(''root'', ''$Correct-Horse-1'')]"

definition demo_auth :: auth_state where
  "demo_auth = \<lparr> as_Sessions = Some demo_store, as_Limiter = Some (NewLoginLimiter 5 0 0) \<rparr>"

lemma demo_fresh: "entry demo_store ''s2'' = None"
  by code_simp

lemma demo_input: "login_input (demo_world csrf) demo_login = Inr (''root'', ''Correct-Horse-1'', [])"
  by code_simp

lemma demo_ctl_JWT [simp]: "ac_JWT demo_ctl = Some demo_jwt" "as_Sessions demo_auth = Some demo_store"
  "w_session_id (demo_world csrf) = Some ''s2''" "w_sign (demo_world csrf) = demo_sign" "TrimSpace ''s2'' = ''s2''"
  by (simp_all add: demo_ctl_def demo_auth_def demo_world_def TrimSpace_def is_space_def)

theorem login_opens_the_only_session_witness:
  "\<exists>resp s' sm'. Login (demo_world (Some ''csrf'')) 0 demo_ctl demo_accounts demo_login demo_auth = (resp, s')
     \<and> status resp = 200 \<and> as_Sessions s' = Some sm' \<and> \<not> fst (sm_Validate 5 ''s1'' ''root'' sm')"
proof -
  let ?l = "Login (demo_world (Some ''csrf'')) 0 demo_ctl demo_accounts demo_login demo_auth"
  obtain resp s' where l: "?l = (resp, s')" by force
  have "status (fst ?l) = 200" by code_simp
  then have st: "status resp = 200" by (simp add: l)
  have "TrimSpace ''s1'' \<noteq> ''s2''" by (simp add: TrimSpace_def is_space_def)
  obtain sm' where sm': "as_Sessions s' = Some sm'"
      "\<And>now' i. 0 \<le> now' \<Longrightarrow> fst (sm_Validate now' i ''root'' sm') \<Longrightarrow> TrimSpace i = ''s2''"
    using login_opens_the_only_session [OF demo_store_wf demo_ctl_JWT(1,2) l st, of demo_parse "''s2''"]
      demo_jwt_law demo_fresh demo_input by auto
  have "\<not> fst (sm_Validate 5 ''s1'' ''root'' sm')"
    using sm'(2) [of 5 "''s1''"] \<open>TrimSpace ''s1'' \<noteq> ''s2''\<close> by auto
  with l st sm'(1) show ?thesis by blast
qed

theorem failed_login_opens_nothing_witness:
  "\<exists>resp s' sm'. Login (demo_world None) 0 demo_ctl demo_accounts demo_login demo_auth = (resp, s')
     \<and> status resp = 500 \<and> as_Sessions s' = Some sm' \<and> \<not> fst (sm_Validate 5 ''s2'' ''root'' sm')"
proof -
  let ?l = "Login (demo_world None) 0 demo_ctl demo_accounts demo_login demo_auth"
  obtain resp s' where l: "?l = (resp, s')" by force
  have "status (fst ?l) = 500" by code_simp
  then have st: "status resp = 500" "status resp \<noteq> 200" by (simp_all add: l)
  have "\<not> fst (sm_Validate 5 ''s2'' ''root'' demo_store)" by code_simp
  then show ?thesis
    using failed_login_opens_nothing [OF demo_store_wf demo_ctl_JWT(1,2) l st(2)] demo_fresh l st by auto
qed

theorem locked_key_cannot_login_witness:
  "\<exists>resp l'. Login (demo_world None) 5 demo_ctl demo_accounts demo_login
      (demo_auth\<lparr>as_Limiter := Some ((NewLoginLimiter 5 0 0)\<lparr>attempts := [''root|1.2.3.4'' \<mapsto>
         (fresh_attempt 0)\<lparr>lockUntil := Some minute\<rparr>]\<rparr>)\<rparr>)
      = (resp, demo_auth\<lparr>as_Limiter := Some l'\<rparr>) \<and> status resp = 429"
proof -
  let ?a = "(fresh_attempt 0)\<lparr>lockUntil := Some minute\<rparr>"
  let ?l = "(NewLoginLimiter 5 0 0)\<lparr>attempts := [''root|1.2.3.4'' \<mapsto> ?a]\<rparr>"
  have k: "limiterKey demo_login ''root'' = ''root|1.2.3.4''" by code_simp
  have "as_Sessions (demo_auth\<lparr>as_Limiter := Some ?l\<rparr>) \<noteq> None" by simp
  then show ?thesis
    using locked_key_cannot_login [of "demo_auth\<lparr>as_Limiter := Some ?l\<rparr>" ?l "demo_world None" demo_login "''root''"
        "''Correct-Horse-1''" "[]" ?a 5 demo_ctl] demo_input k by (auto simp: locked_at_def)
qed

text \<open>Two tokens verify: that of the session that signs out, and that of a later login.\<close>

definition two_tokens :: jwt_parse where
  "two_tokens opts t tok = (if tok = ''tok'' then Some demo_claims else if tok = ''new'' then Some demo_token_claims else None)"

theorem logout_is_final_witness:
  "\<exists>resp s' sm'. Logout (demo_world None) two_tokens 5 demo_ctl demo_request demo_auth = (resp, s')
     \<and> as_Sessions s' = Some sm'
     \<and> \<not> passes (fst (AdminAuth two_tokens 9 (Some demo_jwt) [] demo_request
          (Some (snd (sm_Create 7 (Some ''s2'') ''root'' sm')))))
     \<and> jwt_Verify two_tokens 9 (Some demo_jwt) ''new'' = Some demo_token_claims \<and> c_SessionID demo_token_claims = ''s2''"
proof -
  obtain resp s' where l: "Logout (demo_world None) two_tokens 5 demo_ctl demo_request demo_auth = (resp, s')"
    by force
  have t: "requestToken demo_request (sessionCookieName demo_ctl) = ''tok''"
    "resolveToken demo_request (default_to ''admin_session'' []) = Inr ''tok''" by code_simp+
  have v: "jwt_Verify two_tokens n (Some demo_jwt) ''tok'' = Some demo_claims" "jwt_Verify two_tokens n (Some demo_jwt) ''new'' = Some demo_token_claims" for n
    by (simp_all add: jwt_Verify_def demo_jwt_def two_tokens_def)
  have c: "c_SessionID demo_claims = ''s1''" "c_SessionID demo_token_claims = ''s2''" by (simp_all add: demo_claims_def demo_token_claims_def)
  have "\<exists>sm'. as_Sessions s' = Some sm' \<and> (\<forall>r name tok. resolveToken r (default_to ''admin_session'' name) = Inr tok
       \<and> (\<forall>c. jwt_Verify two_tokens 9 (Some demo_jwt) tok = Some c \<longrightarrow> TrimSpace (c_SessionID c) = TrimSpace (c_SessionID demo_claims))
       \<longrightarrow> \<not> passes (fst (AdminAuth two_tokens 9 (Some demo_jwt) name r (Some (sm.run_ops [(7, Issue ''s2'' ''root'')] sm')))))"
    using logout_is_final [OF demo_store_wf demo_ctl_JWT(2,1), of two_tokens 5 demo_request demo_claims
        "demo_world None" resp s' "[(7, Issue ''s2'' ''root'')]" 9] demo_fresh l
    by (auto simp: t v c blank_def TrimSpace_def is_space_def)
  then obtain sm' where sm': "as_Sessions s' = Some sm'" and refused: "\<forall>r name tok. resolveToken r (default_to ''admin_session'' name) = Inr tok
       \<and> (\<forall>c. jwt_Verify two_tokens 9 (Some demo_jwt) tok = Some c \<longrightarrow> TrimSpace (c_SessionID c) = TrimSpace (c_SessionID demo_claims))
       \<longrightarrow> \<not> passes (fst (AdminAuth two_tokens 9 (Some demo_jwt) name r (Some (sm.run_ops [(7, Issue ''s2'' ''root'')] sm'))))" by blast
  have "\<not> passes (fst (AdminAuth two_tokens 9 (Some demo_jwt) [] demo_request (Some (sm.run_ops [(7, Issue ''s2'' ''root'')] sm'))))"
    using refused t(2) by (simp add: v)
  then show ?thesis using l sm' v(2) c(2) by auto
qed

end
