(* ===== verification/ApiKeys.thy ===== *)
theory ApiKeys
  imports Base64 AdminUsers
begin

text \<open>
  The credentials of the external apps, internal/common/api_key.go, and how the
  admin portal shows them, controllers/apps_management_controller.go.  The random
  bytes of a draw are an argument, None when the source fails; bcrypt is an argument.
\<close>

definition GenerateAPIKey :: "string option \<Rightarrow> string option" where
  "GenerateAPIKey b = map_option (\<lambda>b. ''sk_live_'' @ URLEncode b) b"

definition GenerateAPISecret :: "string option \<Rightarrow> string option" where
  "GenerateAPISecret b = map_option URLEncode b"

definition HashAPIKey :: "bcrypt \<Rightarrow> string \<Rightarrow> string + string" where
  "HashAPIKey b apiKey = bc_hash b apiKey"

definition VerifyAPIKey :: "bcrypt \<Rightarrow> string \<Rightarrow> string \<Rightarrow> bool" where
  "VerifyAPIKey b plainKey hashedKey = bc_compare b hashedKey plainKey"

definition GenerateAppID :: "string option \<Rightarrow> string option" where
  "GenerateAppID b = map_option (\<lambda>b. ''APP-'' @ take 6 (URLEncode b)) b"

definition maskAPIKeyHint :: "string \<Rightarrow> string" where
  "maskAPIKeyHint key = (let key = TrimSpace key in if length key \<le> 8 then ''********'' else take 8 key @ ''********'')"

text \<open>encodeCredential, and what the front end does with it.\<close>

definition encodeCredential :: "string \<Rightarrow> string" where
  "encodeCredential cred =
     (let b64 = StdEncode (TrimSpace cred); q = length b64 div 4 in
      if length b64 \<le> 8 then ''**'' @ b64 @ ''**''
      else ''**'' @ take q b64 @ ''**'' @ take (q * 2 - q) (drop q b64) @ ''**'' @ take (q * 3 - q * 2) (drop (q * 2) b64)
             @ ''**'' @ drop (q * 3) b64 @ ''**'')"

definition shown_credential :: "string \<Rightarrow> string option" where
  "shown_credential s = StdDecode (filter (\<lambda>c. c \<noteq> CHR ''*'') s)"

lemma quarters:
  "take q xs @ take (q * 2 - q) (drop q xs) @ take (q * 3 - q * 2) (drop (q * 2) xs) @ drop (q * 3) xs = xs"
proof -
  have e: "q * 2 - q = q" "q * 3 - q * 2 = q" by simp_all
  have s: "q + q * 2 = q * 3" "q + q = q * 2" by simp_all
  have a: "take q (drop (q * 2) xs) @ drop (q * 3) xs = drop (q * 2) xs"
    using append_take_drop_id [of q "drop (q * 2) xs"] unfolding drop_drop s .
  have b: "take q (drop q xs) @ drop (q * 2) xs = drop q xs"
    using append_take_drop_id [of q "drop q xs"] unfolding drop_drop s .
  show ?thesis unfolding e a b by simp
qed

lemma no_star: "CHR ''*'' \<notin> set (StdEncode s)"
  using encode64_set [of std_alphabet True s] by (auto simp: StdEncode_def std_alphabet_def)

lemma filter_star: "CHR ''*'' \<notin> set xs \<Longrightarrow> filter (\<lambda>c. c \<noteq> CHR ''*'') xs = xs"
  by (induction xs) auto

lemma shown_credential_inverse: "shown_credential (encodeCredential cred) = Some (TrimSpace cred)"
proof -
  let ?b = "StdEncode (TrimSpace cred)"
  have t: "filter (\<lambda>c. c \<noteq> CHR ''*'') (take n xs) = take n xs" if "CHR ''*'' \<notin> set xs" for n xs
    by (rule filter_star) (meson that in_set_takeD)
  have d: "CHR ''*'' \<notin> set (drop n ?b)" for n by (meson no_star in_set_dropD)
  have "filter (\<lambda>c. c \<noteq> CHR ''*'') (encodeCredential cred) = ?b"
    using quarters [of "length ?b div 4" ?b]
    by (simp add: encodeCredential_def Let_def t [OF no_star] t [OF d] filter_star [OF d] filter_star [OF no_star])
  then show ?thesis by (simp add: shown_credential_def)
qed

text \<open>
  What the portal shows is the credential.  Removing the stars and decoding gives
  back the credential that encodeCredential was called with, without surrounding space.
\<close>
lemma shown_credential_roundtrip: "shown_credential (encodeCredential cred) = Some (TrimSpace cred)"
  by (rule shown_credential_inverse)

text \<open>A generated key can be hashed: bcrypt takes at most 72 bytes.\<close>

lemma encode64_length: "length (encode64 al True s) = (length s + 2) div 3 * 4"
proof (induction al True s rule: encode64.induct)
  case (4 al a b c s)
  have "(Suc (Suc (Suc (length s))) + 2) div 3 = Suc ((length s + 2) div 3)" by presburger
  then show ?case using 4 by simp
qed simp_all

lemma GenerateAPIKey_length: "GenerateAPIKey (Some b) = Some k \<Longrightarrow> length b = 32 \<Longrightarrow> length k = 52"
  by (auto simp: GenerateAPIKey_def URLEncode_def encode64_length)

lemma TrimSpace_URLEncode [simp]: "TrimSpace (URLEncode s) = URLEncode s"
  by (rule TrimSpace_no_space) (auto simp: URLEncode_def url_alphabet_def is_space_def dest!: encoded_no_space)

lemma TrimSpace_GenerateAPIKey: "GenerateAPIKey b = Some k \<Longrightarrow> TrimSpace k = k"
proof -
  assume "GenerateAPIKey b = Some k"
  then obtain x where k: "k = ''sk_live_'' @ URLEncode x" by (auto simp: GenerateAPIKey_def)
  have "\<forall>c \<in> set (URLEncode x). \<not> is_space c"
    unfolding URLEncode_def by (intro ballI, erule encoded_no_space) (auto simp: url_alphabet_def is_space_def)
  then show ?thesis unfolding k by (intro TrimSpace_no_space) (auto simp: is_space_def)
qed

lemma GenerateAPIKey_no_zero: "GenerateAPIKey b = Some k \<Longrightarrow> CHR 0x00 \<notin> set k"
  using encode64_set [of url_alphabet True] by (fastforce simp: GenerateAPIKey_def URLEncode_def url_alphabet_def)

end
