(* ===== verification/Validation.thy ===== *)
theory Validation
  imports Strings Json
begin

text \<open>
  The checks of request bodies, internal/validation/validation.go.  The regular
  expressions are those of the source on ASCII text; the validator library's rule for
  email addresses is an argument.  A field carries its name, whether it may be left
  empty, its rules in the order of its tag, and its value.
\<close>

definition safe_chars :: string where
  "safe_chars = upper_letters @ lower_letters @ digits @ '' .,&'' @ [CHR 0x27] @ ''()-_/''"

definition SafeText :: "string \<Rightarrow> bool" where
  "SafeText v \<longleftrightarrow> v \<noteq> [] \<and> list_all (\<lambda>c. c \<in> set safe_chars) v"

definition all_digits :: "string \<Rightarrow> bool" where
  "all_digits v \<longleftrightarrow> v \<noteq> [] \<and> list_all (\<lambda>c. c \<in> set digits) v"

definition PhoneDigits :: "string \<Rightarrow> bool" where
  "PhoneDigits v = (let d = (if take 1 v = ''+'' then tl v else v) in all_digits d \<and> 8 \<le> length d \<and> length d \<le> 15)"

definition valid_MerchantReference :: "string \<Rightarrow> bool" where
  "valid_MerchantReference v \<longleftrightarrow> list_all (\<lambda>c. c \<in> set (upper_letters @ lower_letters @ digits @ ''_-'')) v
     \<and> 1 \<le> length v \<and> length v \<le> 64"

definition valid_AccountNumber :: "string \<Rightarrow> bool" where
  "valid_AccountNumber v \<longleftrightarrow> all_digits v \<and> 6 \<le> length v \<and> length v \<le> 20"

datatype rule = Required | MinLen nat | MaxLen nat | EmailRule | SafeTextRule | PhoneRule | MerchantRefRule | OneOf "string list"

definition passes_rule :: "(string \<Rightarrow> bool) \<Rightarrow> rule \<Rightarrow> string \<Rightarrow> bool" where
  "passes_rule is_email r v = (case r of
     Required \<Rightarrow> v \<noteq> [] | MinLen n \<Rightarrow> n \<le> length v | MaxLen n \<Rightarrow> length v \<le> n | EmailRule \<Rightarrow> is_email v
   | SafeTextRule \<Rightarrow> v = [] \<or> SafeText v | PhoneRule \<Rightarrow> v = [] \<or> PhoneDigits v
   | MerchantRefRule \<Rightarrow> v = [] \<or> valid_MerchantReference v | OneOf vs \<Rightarrow> v \<in> set vs)"

record vfield =
  vf_name :: string
  vf_omitempty :: bool
  vf_rules :: "rule list"
  vf_value :: string

definition describe :: "string \<Rightarrow> rule \<Rightarrow> string" where
  "describe name r = name @ (case r of
     Required \<Rightarrow> '' is required''
   | MinLen n \<Rightarrow> '' must be at least '' @ nat_text n @ '' characters''
   | MaxLen n \<Rightarrow> '' must be at most '' @ nat_text n @ '' characters''
   | EmailRule \<Rightarrow> '' must be a valid email address''
   | SafeTextRule \<Rightarrow> '' may contain only letters, digits, spaces and . , & '' @ [CHR 0x27] @ '' ( ) - _ /''
   | PhoneRule \<Rightarrow> '' must be 8 to 15 digits, optionally starting with +''
   | MerchantRefRule \<Rightarrow> '' is not valid''
   | OneOf vs \<Rightarrow> '' must be one of: '' @ join '' '' vs)"

definition field_error :: "(string \<Rightarrow> bool) \<Rightarrow> vfield \<Rightarrow> string option" where
  "field_error is_email f =
     (if vf_omitempty f \<and> vf_value f = [] then None
      else map_option (describe (vf_name f)) (find (\<lambda>r. \<not> passes_rule is_email r (vf_value f)) (vf_rules f)))"

fun valid_struct :: "(string \<Rightarrow> bool) \<Rightarrow> vfield list \<Rightarrow> string option" where
  "valid_struct is_email [] = None"
| "valid_struct is_email (f # fs) = (case field_error is_email f of Some e \<Rightarrow> Some e | None \<Rightarrow> valid_struct is_email fs)"

lemma field_error_None: "field_error is_email f = None \<longleftrightarrow>
    (vf_omitempty f \<and> vf_value f = []) \<or> (\<forall>r \<in> set (vf_rules f). passes_rule is_email r (vf_value f))"
  by (auto simp: field_error_def find_None_iff)

lemma valid_struct_None: "valid_struct is_email fs = None \<longleftrightarrow> (\<forall>f \<in> set fs. field_error is_email f = None)"
  by (induction fs) (auto split: option.splits)

text \<open>No message quotes the submitted value: it depends on the field and the rule alone.\<close>

lemma valid_struct_message: "valid_struct is_email fs = Some e \<Longrightarrow> \<exists>f \<in> set fs. \<exists>r \<in> set (vf_rules f). e = describe (vf_name f) r"
proof (induction fs)
  case (Cons f fs)
  show ?case
  proof (cases "field_error is_email f")
    case None
    then show ?thesis using Cons by auto
  next
    case (Some e')
    then have "e' = e" using Cons.prems by simp
    then obtain r where "find (\<lambda>r. \<not> passes_rule is_email r (vf_value f)) (vf_rules f) = Some r" "e = describe (vf_name f) r"
      using Some by (auto simp: field_error_def split: if_splits)
    then show ?thesis by (auto simp: find_Some_iff)
  qed
qed simp

end
