(* ===== verification/RoutingStore.thy ===== *)
theory RoutingStore
  imports Http
begin

text \<open>
  The merchant routing tables and the repository over them:
  internal/storage/merchant_routing.go, with the constraints and indexes of
  internal/storage/migrations_merchant_routing.go, which decide when a
  statement fails.  A table is the list of its rows in insertion order.  Every
  method is one transaction: it returns an error and leaves the tables as they
  are, or commits.  The database's reading of a UUID literal, uuid_of, is part of
  the state as an argument (it stands for PostgreSQL); fresh UUIDs and now() are
  arguments of the methods.  Lost connections and the repository without a
  database, whose methods all fail, are not modelled.
\<close>

record PaymentRecipient =
  pr_ID :: string
  pr_Name :: string
  pr_IsActive :: bool
  pr_CreatedAt :: time
  pr_UpdatedAt :: time

record IntegrationRecipientMapping =
  im_ID :: string
  im_ExternalAppID :: string
  im_ExternalMerchantReference :: string
  im_RecipientID :: string
  im_IsActive :: bool
  im_CreatedAt :: time
  im_UpdatedAt :: time

record GatewayCredentialConfiguration =
  gc_ID :: string
  gc_RecipientID :: string
  gc_Provider :: string
  gc_Version :: int
  gc_Status :: string
  gc_EncryptedCredentials :: json
  gc_EncryptionKeyID :: string
  gc_RotatedFromID :: string
  gc_CreatedAt :: time
  gc_UpdatedAt :: time
  gc_ActivatedAt :: "time option"
  gc_DisabledAt :: "time option"

record ResolvedGatewayConfiguration =
  rg_ExternalAppID :: string
  rg_ExternalMerchantReference :: string
  rg_RecipientID :: string
  rg_RecipientName :: string
  rg_Credential :: GatewayCredentialConfiguration

record routing_db =
  uuid_of :: "string \<Rightarrow> string option"
  app_ids :: "string list"
  recipients :: "PaymentRecipient list"
  mappings :: "IntegrationRecipientMapping list"
  credentials :: "GatewayCredentialConfiguration list"

datatype db_error =
    NoRows | InvalidUUID | PrimaryKeyViolation | UniqueViolation | ForeignKeyViolation
  | CheckViolation | EncryptFailed string | RecipientMappingNotFound | CredentialNotConfigured

type_synonym 'a routing_result = "(db_error + 'a) \<times> routing_db"

section \<open>Statements\<close>

definition find_recipient :: "string \<Rightarrow> routing_db \<Rightarrow> PaymentRecipient option" where
  "find_recipient k db = find (\<lambda>r. pr_ID r = k) (recipients db)"

definition find_credential :: "string \<Rightarrow> routing_db \<Rightarrow> GatewayCredentialConfiguration option" where
  "find_credential k db = find (\<lambda>c. gc_ID c = k) (credentials db)"

definition gc_key :: "GatewayCredentialConfiguration \<Rightarrow> string \<times> string" where
  "gc_key c = (gc_RecipientID c, gc_Provider c)"

definition im_key :: "IntegrationRecipientMapping \<Rightarrow> string \<times> string" where
  "im_key m = (im_ExternalAppID m, im_ExternalMerchantReference m)"

definition gc_active :: "GatewayCredentialConfiguration \<Rightarrow> bool" where
  "gc_active c \<longleftrightarrow> gc_Status c = ''active''"

definition providers :: "string list" where "providers = [''dkpg'', ''stripe'']"
definition statuses :: "string list" where "statuses = [''draft'', ''active'', ''disabled'', ''retired'']"

section \<open>The repository\<close>

definition CreateRecipient :: "time \<Rightarrow> string \<Rightarrow> string \<Rightarrow> string \<Rightarrow> bool \<Rightarrow> routing_db \<Rightarrow> unit routing_result" where
  "CreateRecipient now rnd rid name active db =
     (case (if TrimSpace rid = [] then Some rnd else uuid_of db (TrimSpace rid)) of
        None \<Rightarrow> (Inl InvalidUUID, db)
      | Some k \<Rightarrow>
          if find_recipient k db \<noteq> None then (Inl PrimaryKeyViolation, db)
          else (Inr (), db\<lparr>recipients := recipients db @
            [\<lparr> pr_ID = k, pr_Name = TrimSpace name, pr_IsActive = active, pr_CreatedAt = now, pr_UpdatedAt = now \<rparr>]\<rparr>))"

definition SetRecipientActive :: "time \<Rightarrow> string \<Rightarrow> bool \<Rightarrow> routing_db \<Rightarrow> unit routing_result" where
  "SetRecipientActive now rid active db = (case uuid_of db (TrimSpace rid) of
     None \<Rightarrow> (Inl InvalidUUID, db)
   | Some k \<Rightarrow>
       if find_recipient k db = None then (Inl NoRows, db)
       else (Inr (), db\<lparr>recipients := map (\<lambda>r. if pr_ID r = k
              then r\<lparr>pr_IsActive := active, pr_UpdatedAt := now\<rparr> else r) (recipients db)\<rparr>))"

definition AppExists :: "string \<Rightarrow> routing_db \<Rightarrow> bool" where
  "AppExists appID db \<longleftrightarrow> TrimSpace appID \<in> set (app_ids db)"

definition CreateMapping :: "time \<Rightarrow> string \<Rightarrow> string \<Rightarrow> string \<Rightarrow> string \<Rightarrow> bool \<Rightarrow> routing_db \<Rightarrow> unit routing_result" where
  "CreateMapping now rnd appID ref rid active db = (case uuid_of db (TrimSpace rid) of
     None \<Rightarrow> (Inl InvalidUUID, db)
   | Some k \<Rightarrow>
       let m = \<lparr> im_ID = rnd, im_ExternalAppID = TrimSpace appID, im_ExternalMerchantReference = TrimSpace ref,
                 im_RecipientID = k, im_IsActive = active, im_CreatedAt = now, im_UpdatedAt = now \<rparr>
       in if im_ExternalMerchantReference m = [] then (Inl CheckViolation, db)
          else if rnd \<in> set (map im_ID (mappings db)) then (Inl PrimaryKeyViolation, db)
          else if active \<and> im_key m \<in> set (map im_key (filter im_IsActive (mappings db)))
          then (Inl UniqueViolation, db)
          else if im_ExternalAppID m \<notin> set (app_ids db) \<or> find_recipient k db = None
          then (Inl ForeignKeyViolation, db)
          else (Inr (), db\<lparr>mappings := mappings db @ [m]\<rparr>))"

definition SetMappingActive :: "time \<Rightarrow> string \<Rightarrow> bool \<Rightarrow> routing_db \<Rightarrow> unit routing_result" where
  "SetMappingActive now mid active db = (case uuid_of db (TrimSpace mid) of
     None \<Rightarrow> (Inl InvalidUUID, db)
   | Some k \<Rightarrow> (case find (\<lambda>m. im_ID m = k) (mappings db) of
       None \<Rightarrow> (Inl NoRows, db)
     | Some m \<Rightarrow>
         if active \<and> im_key m \<in> set (map im_key (filter (\<lambda>m'. im_IsActive m' \<and> im_ID m' \<noteq> k) (mappings db)))
         then (Inl UniqueViolation, db)
         else (Inr (), db\<lparr>mappings := map (\<lambda>m. if im_ID m = k
                then m\<lparr>im_IsActive := active, im_UpdatedAt := now\<rparr> else m) (mappings db)\<rparr>)))"

definition lockRecipientForCredentialChange :: "string \<Rightarrow> routing_db \<Rightarrow> db_error option" where
  "lockRecipientForCredentialChange rid db = (case uuid_of db (TrimSpace rid) of
     None \<Rightarrow> Some InvalidUUID
   | Some k \<Rightarrow> if find_recipient k db = None then Some NoRows else None)"

definition versions :: "string \<times> string \<Rightarrow> routing_db \<Rightarrow> int list" where
  "versions key db = map gc_Version (filter (\<lambda>c. gc_key c = key) (credentials db))"

definition newCredentialVersion :: "time \<Rightarrow> string \<Rightarrow> string \<Rightarrow> string \<Rightarrow> string \<Rightarrow> string \<Rightarrow> routing_db
    \<Rightarrow> db_error + GatewayCredentialConfiguration" where
  "newCredentialVersion now rnd rid provider keyID rotatedFrom db = (case uuid_of db (TrimSpace rid) of
     None \<Rightarrow> Inl InvalidUUID
   | Some k \<Rightarrow>
       Inr \<lparr> gc_ID = rnd, gc_RecipientID = TrimSpace rid, gc_Provider = TrimSpace provider,
             gc_Version = fold max (versions (k, TrimSpace provider) db) 0 + 1,
             gc_Status = ''draft'', gc_EncryptedCredentials = JNull,
             gc_EncryptionKeyID = TrimSpace keyID, gc_RotatedFromID = TrimSpace rotatedFrom,
             gc_CreatedAt = now, gc_UpdatedAt = now, gc_ActivatedAt = None, gc_DisabledAt = None \<rparr>)"

definition insertCredential :: "GatewayCredentialConfiguration \<Rightarrow> routing_db \<Rightarrow> unit routing_result" where
  "insertCredential c db =
     (case (uuid_of db (gc_RecipientID c),
            if gc_RotatedFromID c = [] then Some [] else uuid_of db (gc_RotatedFromID c)) of
        (Some k, Some from) \<Rightarrow>
          let row = c\<lparr>gc_RecipientID := k, gc_RotatedFromID := from\<rparr> in
          if gc_Provider row \<notin> set providers \<or> gc_Status row \<notin> set statuses \<or> \<not> gc_Version row > 0
          then (Inl CheckViolation, db)
          else if find_credential (gc_ID row) db \<noteq> None then (Inl PrimaryKeyViolation, db)
          else if gc_Version row \<in> set (versions (gc_key row) db)
             \<or> gc_active row \<and> gc_key row \<in> set (map gc_key (filter gc_active (credentials db)))
          then (Inl UniqueViolation, db)
          else if find_recipient k db = None \<or> from \<noteq> [] \<and> find_credential from db = None
          then (Inl ForeignKeyViolation, db)
          else (Inr (), db\<lparr>credentials := credentials db @ [row]\<rparr>)
      | _ \<Rightarrow> (Inl InvalidUUID, db))"

definition retire_active :: "time \<Rightarrow> string \<times> string \<Rightarrow> routing_db \<Rightarrow> routing_db" where
  "retire_active now key db = db\<lparr>credentials := map (\<lambda>c. if gc_key c = key \<and> gc_active c
      then c\<lparr>gc_Status := ''retired'', gc_UpdatedAt := now\<rparr> else c) (credentials db)\<rparr>"

definition set_status :: "time \<Rightarrow> string \<Rightarrow> string \<Rightarrow> routing_db \<Rightarrow> routing_db" where
  "set_status now k st db = db\<lparr>credentials := map (\<lambda>c. if gc_ID c = k
      then c\<lparr>gc_Status := st,
             gc_ActivatedAt := (if st = ''active'' then Some now else gc_ActivatedAt c),
             gc_DisabledAt := (if st = ''disabled'' then Some now else gc_DisabledAt c),
             gc_UpdatedAt := now\<rparr> else c) (credentials db)\<rparr>"

type_synonym encryptor = "GatewayCredentialConfiguration \<Rightarrow> string + json"

definition CreateDraftCredential :: "time \<Rightarrow> string \<Rightarrow> string \<Rightarrow> string \<Rightarrow> string \<Rightarrow> encryptor \<Rightarrow> routing_db
    \<Rightarrow> GatewayCredentialConfiguration routing_result" where
  "CreateDraftCredential now rnd rid provider keyID encrypt db =
     (case lockRecipientForCredentialChange rid db of
        Some e \<Rightarrow> (Inl e, db)
      | None \<Rightarrow> (case newCredentialVersion now rnd rid provider keyID [] db of
          Inl e \<Rightarrow> (Inl e, db)
        | Inr c \<Rightarrow> (case encrypt c of
            Inl e \<Rightarrow> (Inl (EncryptFailed e), db)
          | Inr doc \<Rightarrow> let c = c\<lparr>gc_EncryptedCredentials := doc\<rparr> in
              (case insertCredential c db of
                 (Inl e, _) \<Rightarrow> (Inl e, db)
               | (Inr _, db') \<Rightarrow> (Inr c, db')))))"

definition RotateCredential :: "time \<Rightarrow> string \<Rightarrow> string \<Rightarrow> string \<Rightarrow> encryptor \<Rightarrow> routing_db
    \<Rightarrow> GatewayCredentialConfiguration routing_result" where
  "RotateCredential now rnd cid keyID encrypt db = (case uuid_of db (TrimSpace cid) of
     None \<Rightarrow> (Inl InvalidUUID, db)
   | Some k \<Rightarrow> (case find_credential k db of
       None \<Rightarrow> (Inl NoRows, db)
     | Some old \<Rightarrow> (case lockRecipientForCredentialChange (gc_RecipientID old) db of
         Some e \<Rightarrow> (Inl e, db)
       | None \<Rightarrow> (case newCredentialVersion now rnd (gc_RecipientID old) (gc_Provider old) keyID cid db of
           Inl e \<Rightarrow> (Inl e, db)
         | Inr c \<Rightarrow> (case encrypt c of
             Inl e \<Rightarrow> (Inl (EncryptFailed e), db)
           | Inr doc \<Rightarrow> let c = c\<lparr>gc_EncryptedCredentials := doc\<rparr> in
               (case insertCredential c db of
                  (Inl e, _) \<Rightarrow> (Inl e, db)
                | (Inr _, db1) \<Rightarrow>
                    let db2 = retire_active now (gc_key old) db1;
                        db3 = set_status now (gc_ID c) ''active'' db2
                    in (Inr (c\<lparr>gc_Status := ''active'', gc_ActivatedAt := Some now\<rparr>), db3)))))))"

definition GetCredential :: "string \<Rightarrow> routing_db \<Rightarrow> db_error + GatewayCredentialConfiguration" where
  "GetCredential cid db = (case uuid_of db (TrimSpace cid) of
     None \<Rightarrow> Inl InvalidUUID
   | Some k \<Rightarrow> (case find_credential k db of None \<Rightarrow> Inl CredentialNotConfigured | Some c \<Rightarrow> Inr c))"

definition SetCredentialStatus :: "time \<Rightarrow> string \<Rightarrow> string \<Rightarrow> routing_db \<Rightarrow> unit routing_result" where
  "SetCredentialStatus now cid st db = (case uuid_of db (TrimSpace cid) of
     None \<Rightarrow> (Inl InvalidUUID, db)
   | Some k \<Rightarrow> (case find_credential k db of
       None \<Rightarrow> (Inl NoRows, db)
     | Some c \<Rightarrow> (case lockRecipientForCredentialChange (gc_RecipientID c) db of
         Some e \<Rightarrow> (Inl e, db)
       | None \<Rightarrow>
           if st \<notin> set statuses then (Inl CheckViolation, db)
           else let db1 = (if st = ''active'' then retire_active now (gc_key c) db else db)
                in (Inr (), set_status now k st db1))))"

definition routes :: "string \<Rightarrow> string \<Rightarrow> string \<Rightarrow> routing_db \<Rightarrow> ResolvedGatewayConfiguration list" where
  "routes app ref provider db =
     [\<lparr> rg_ExternalAppID = im_ExternalAppID m, rg_ExternalMerchantReference = im_ExternalMerchantReference m,
        rg_RecipientID = pr_ID r, rg_RecipientName = pr_Name r, rg_Credential = c \<rparr>.
      m \<leftarrow> mappings db, r \<leftarrow> recipients db, c \<leftarrow> credentials db,
      pr_ID r = im_RecipientID m \<and> gc_RecipientID c = pr_ID r \<and> gc_Provider c = provider \<and> gc_active c
      \<and> im_ExternalAppID m = app \<and> im_ExternalMerchantReference m = ref \<and> im_IsActive m \<and> pr_IsActive r]"

definition ResolveActive :: "string \<Rightarrow> string \<Rightarrow> string \<Rightarrow> routing_db \<Rightarrow> db_error + ResolvedGatewayConfiguration" where
  "ResolveActive appID ref provider db =
     (case routes (TrimSpace appID) (TrimSpace ref) (TrimSpace provider) db of
        [] \<Rightarrow> Inl RecipientMappingNotFound
      | x # _ \<Rightarrow> Inr x)"

definition CredentialAdditionalData :: "string \<Rightarrow> string \<Rightarrow> string \<Rightarrow> int \<Rightarrow> string" where
  "CredentialAdditionalData cid rid provider version =
     join '':'' [TrimSpace cid, TrimSpace rid, TrimSpace provider, int_text version]"

end
