(* ===== verification/RoutingLaws.thy ===== *)
theory RoutingLaws
  imports RoutingStore "HOL-Library.Sublist"
begin

text \<open>
  The invariant of the merchant routing tables, its preservation by every
  method of the repository, and what each method does to the credential that
  payments resolve to.
\<close>

section \<open>The invariant\<close>

definition counting :: "nat \<Rightarrow> int list" where
  "counting n = map int [1..<Suc n]"

lemma counting_simps [simp]: "counting 0 = []" "counting (Suc n) = counting n @ [int (Suc n)]"
  by (simp_all add: counting_def)

lemma fold_max_counting: "fold max (counting n) 0 = int n"
  by (induction n) auto

definition routing_ok :: "routing_db \<Rightarrow> bool" where
  "routing_ok db \<longleftrightarrow>
     distinct (map pr_ID (recipients db)) \<and> distinct (map im_ID (mappings db))
     \<and> distinct (map gc_ID (credentials db))
     \<and> (\<forall>m \<in> set (mappings db). im_RecipientID m \<in> set (map pr_ID (recipients db))
          \<and> im_ExternalAppID m \<in> set (app_ids db) \<and> im_ExternalMerchantReference m \<noteq> [])
     \<and> (\<forall>c \<in> set (credentials db). gc_RecipientID c \<in> set (map pr_ID (recipients db))
          \<and> gc_Provider c \<in> set providers \<and> gc_Status c \<in> set statuses)
     \<and> (\<forall>key. versions key db = counting (length (versions key db)))
     \<and> distinct (map gc_key (filter gc_active (credentials db)))
     \<and> distinct (map im_key (filter im_IsActive (mappings db)))"

text \<open>
  The columns of a credential no statement may change, and the order in which rows
  were inserted.
\<close>

definition core :: "GatewayCredentialConfiguration \<Rightarrow>
    string \<times> string \<times> string \<times> int \<times> json \<times> string \<times> string \<times> time" where
  "core c = (gc_ID c, gc_RecipientID c, gc_Provider c, gc_Version c, gc_EncryptedCredentials c,
     gc_EncryptionKeyID c, gc_RotatedFromID c, gc_CreatedAt c)"

definition cores :: "routing_db \<Rightarrow> (string \<times> string \<times> string \<times> int \<times> json \<times> string \<times> string \<times> time) list" where
  "cores db = map core (credentials db)"

lemma find_recipient_None: "find_recipient k db = None \<longleftrightarrow> k \<notin> set (map pr_ID (recipients db))"
  by (auto simp: find_recipient_def find_None_iff)

lemma find_credential_None: "find_credential k db = None \<longleftrightarrow> k \<notin> set (map gc_ID (credentials db))"
  by (auto simp: find_credential_def find_None_iff)

lemma find_credential_Some: "find_credential k db = Some c \<Longrightarrow> c \<in> set (credentials db) \<and> gc_ID c = k"
  by (auto simp: find_credential_def find_Some_iff)

lemma find_credential_unique:
  "distinct (map gc_ID (credentials db)) \<Longrightarrow> c \<in> set (credentials db) \<Longrightarrow> find_credential (gc_ID c) db = Some c"
proof -
  assume d: "distinct (map gc_ID (credentials db))" and c: "c \<in> set (credentials db)"
  then obtain c' where c': "find_credential (gc_ID c) db = Some c'"
    by (metis find_credential_None in_set_conv_nth length_map nth_map nth_mem option.exhaust)
  with d c show ?thesis
    by (metis find_credential_Some distinct_map inj_onD)
qed

text \<open>Updates that touch only status columns.\<close>

definition status_only :: "(GatewayCredentialConfiguration \<Rightarrow> GatewayCredentialConfiguration) \<Rightarrow> bool" where
  "status_only f \<longleftrightarrow> (\<forall>c. core (f c) = core c)"

lemma core_fields:
  "core c = core d \<Longrightarrow> gc_ID c = gc_ID d \<and> gc_key c = gc_key d \<and> gc_Version c = gc_Version d
     \<and> gc_RecipientID c = gc_RecipientID d \<and> gc_Provider c = gc_Provider d"
  by (simp add: core_def gc_key_def)

definition retire1 :: "time \<Rightarrow> string \<times> string \<Rightarrow> GatewayCredentialConfiguration \<Rightarrow> GatewayCredentialConfiguration" where
  "retire1 now key c = (if gc_key c = key \<and> gc_active c
     then c\<lparr>gc_Status := ''retired'', gc_UpdatedAt := now\<rparr> else c)"

definition status1 :: "time \<Rightarrow> string \<Rightarrow> string \<Rightarrow> GatewayCredentialConfiguration \<Rightarrow> GatewayCredentialConfiguration" where
  "status1 now k st c = (if gc_ID c = k
      then c\<lparr>gc_Status := st,
             gc_ActivatedAt := (if st = ''active'' then Some now else gc_ActivatedAt c),
             gc_DisabledAt := (if st = ''disabled'' then Some now else gc_DisabledAt c),
             gc_UpdatedAt := now\<rparr> else c)"

lemma retire_active_map: "retire_active now key db = db\<lparr>credentials := map (retire1 now key) (credentials db)\<rparr>"
  by (simp add: retire_active_def retire1_def)

lemma set_status_map: "set_status now k st db = db\<lparr>credentials := map (status1 now k st) (credentials db)\<rparr>"
  by (simp add: set_status_def status1_def)

lemma core_retire1 [simp]: "core (retire1 now key c) = core c"
  by (simp add: retire1_def core_def)

lemma core_status1 [simp]: "core (status1 now k st c) = core c"
  by (simp add: status1_def core_def)

lemma retire1_fields [simp]: "gc_ID (retire1 now key c) = gc_ID c" "gc_key (retire1 now key c) = gc_key c"
  "gc_Version (retire1 now key c) = gc_Version c" "gc_RecipientID (retire1 now key c) = gc_RecipientID c"
  "gc_Provider (retire1 now key c) = gc_Provider c"
  using core_fields [OF core_retire1] by simp_all

lemma status1_fields [simp]: "gc_ID (status1 now k st c) = gc_ID c" "gc_key (status1 now k st c) = gc_key c"
  "gc_Version (status1 now k st c) = gc_Version c" "gc_RecipientID (status1 now k st c) = gc_RecipientID c"
  "gc_Provider (status1 now k st c) = gc_Provider c"
  using core_fields [OF core_status1] by simp_all

lemma retire1_active: "gc_active (retire1 now key c) \<longleftrightarrow> gc_active c \<and> gc_key c \<noteq> key"
  by (auto simp: retire1_def gc_active_def)

lemma status1_active: "gc_active (status1 now k st c) \<longleftrightarrow> (if gc_ID c = k then st = ''active'' else gc_active c)"
  by (auto simp: status1_def gc_active_def)

lemma versions_map:
  assumes "\<And>c. gc_key (f c) = gc_key c" "\<And>c. gc_Version (f c) = gc_Version c"
  shows "map gc_Version (filter (\<lambda>c. gc_key c = key) (map f cs))
    = map gc_Version (filter (\<lambda>c. gc_key c = key) cs)"
  using assms by (induction cs) auto

lemma retire_active_laws [simp]:
  "cores (retire_active now key db) = cores db"
  "versions k (retire_active now key db) = versions k db"
  "map gc_ID (credentials (retire_active now key db)) = map gc_ID (credentials db)"
  "recipients (retire_active now key db) = recipients db"
  "mappings (retire_active now key db) = mappings db"
  "app_ids (retire_active now key db) = app_ids db"
  "uuid_of (retire_active now key db) = uuid_of db"
  by (simp_all add: retire_active_map cores_def versions_def versions_map o_def)

lemma set_status_laws [simp]:
  "cores (set_status now i st db) = cores db"
  "versions k (set_status now i st db) = versions k db"
  "map gc_ID (credentials (set_status now i st db)) = map gc_ID (credentials db)"
  "recipients (set_status now i st db) = recipients db"
  "mappings (set_status now i st db) = mappings db"
  "app_ids (set_status now i st db) = app_ids db"
  "uuid_of (set_status now i st db) = uuid_of db"
  by (simp_all add: set_status_map cores_def versions_def versions_map o_def)

lemma active_retire:
  "map gc_key (filter gc_active (credentials (retire_active now key db)))
     = filter (\<lambda>k. k \<noteq> key) (map gc_key (filter gc_active (credentials db)))"
proof -
  have "map gc_key (filter gc_active (map (retire1 now key) cs))
     = filter (\<lambda>k. k \<noteq> key) (map gc_key (filter gc_active cs))" for cs
    by (induction cs) (auto simp: retire1_active)
  then show ?thesis by (simp add: retire_active_map)
qed

lemma active_set_status:
  assumes "distinct (map gc_ID (credentials db))" "find_credential k db = Some c"
    and "distinct (map gc_key (filter gc_active (credentials db)))"
    and "st = ''active'' \<Longrightarrow> gc_key c \<notin> set (map gc_key (filter gc_active (credentials db)))"
  shows "distinct (map gc_key (filter gc_active (credentials (set_status now k st db))))"
proof -
  obtain as bs where split: "credentials db = as @ c # bs"
    using find_credential_Some [OF assms(2)] split_list by fastforce
  have c: "gc_ID c = k" using find_credential_Some [OF assms(2)] by simp
  have fresh: "gc_ID c \<notin> set (map gc_ID as) \<union> set (map gc_ID bs)" using assms(1) split by simp
  have out: "\<forall>x \<in> set as \<union> set bs. gc_ID x \<noteq> k"
  proof
    fix x assume "x \<in> set as \<union> set bs"
    then have "gc_ID x \<in> set (map gc_ID as) \<union> set (map gc_ID bs)" by auto
    with fresh c show "gc_ID x \<noteq> k" by metis
  qed
  have "filter gc_active (map (status1 now k st) xs) = filter gc_active xs" if "\<forall>x \<in> set xs. gc_ID x \<noteq> k" for xs
    using that by (induction xs) (auto simp: status1_active status1_def)
  then have "filter gc_active (map (status1 now k st) as) = filter gc_active as"
    "filter gc_active (map (status1 now k st) bs) = filter gc_active bs" using out by auto
  then have "filter gc_active (credentials (set_status now k st db))
      = filter gc_active as @ (if st = ''active'' then [status1 now k st c] else []) @ filter gc_active bs"
    using c by (cases "st = ''active''") (simp_all add: set_status_map split status1_active)
  then show ?thesis using assms(3,4) split by (auto split: if_splits)
qed

section \<open>Every method preserves it\<close>

lemma routing_ok_status:
  assumes "routing_ok db" "cores db' = cores db"
    and "recipients db' = recipients db" "mappings db' = mappings db" "app_ids db' = app_ids db"
    and "\<forall>c \<in> set (credentials db'). gc_Status c \<in> set statuses"
    and "distinct (map gc_key (filter gc_active (credentials db')))"
  shows "routing_ok db'"
proof -
  have ids: "map gc_ID (credentials db') = map gc_ID (credentials db)"
    using arg_cong [OF assms(2), of "map fst"] by (simp add: cores_def core_def o_def)
  have vs: "versions key db' = versions key db" for key
  proof -
    have "versions key d = map (\<lambda>x. fst (snd (snd (snd x))))
        (filter (\<lambda>x. (fst (snd x), fst (snd (snd x))) = key) (cores d))" for d
      by (simp add: versions_def cores_def core_def filter_map o_def gc_key_def)
    then show ?thesis using assms(2) by simp
  qed
  have mem: "\<exists>c \<in> set (credentials db). core c' = core c" if "c' \<in> set (credentials db')" for c'
    using that assms(2) unfolding cores_def by (metis (no_types, lifting) image_iff image_set)
  have "gc_RecipientID c' \<in> set (map pr_ID (recipients db)) \<and> gc_Provider c' \<in> set providers"
    if "c' \<in> set (credentials db')" for c'
    using mem [OF that] assms(1) core_fields unfolding routing_ok_def by metis
  then show ?thesis
    using assms ids vs unfolding routing_ok_def by simp
qed

lemma retire_active_ok:
  assumes "routing_ok db"
  shows "routing_ok (retire_active now key db)"
proof (rule routing_ok_status [OF assms])
  show "\<forall>c \<in> set (credentials (retire_active now key db)). gc_Status c \<in> set statuses"
    using assms by (auto simp: retire_active_map retire1_def routing_ok_def statuses_def)
  show "distinct (map gc_key (filter gc_active (credentials (retire_active now key db))))"
    using assms by (simp add: active_retire routing_ok_def)
qed simp_all

lemma set_status_ok:
  assumes "routing_ok db" "find_credential k db = Some c" "st \<in> set statuses"
    and "st = ''active'' \<Longrightarrow> gc_key c \<notin> set (map gc_key (filter gc_active (credentials db)))"
  shows "routing_ok (set_status now k st db)"
proof (rule routing_ok_status [OF assms(1)])
  show "\<forall>c \<in> set (credentials (set_status now k st db)). gc_Status c \<in> set statuses"
    using assms(1,3) by (auto simp: set_status_map status1_def routing_ok_def)
  show "distinct (map gc_key (filter gc_active (credentials (set_status now k st db))))"
    using assms by (intro active_set_status) (auto simp: routing_ok_def)
qed simp_all

lemma ok_versions: "routing_ok db \<Longrightarrow> versions key db = counting (length (versions key db))"
  unfolding routing_ok_def by blast

lemma new_version:
  assumes "routing_ok db"
  shows "fold max (versions key db) 0 + 1 = int (Suc (length (versions key db)))"
proof -
  have "fold max (versions key db) 0 = int (length (versions key db))"
    by (subst ok_versions [OF assms]) (rule fold_max_counting)
  then show ?thesis by simp
qed

lemma insertCredential_props:
  assumes ok: "routing_ok db" and ins: "insertCredential c db = (Inr (), db')"
    and v: "\<And>k. uuid_of db (gc_RecipientID c) = Some k \<Longrightarrow>
        gc_Version c = int (Suc (length (versions (k, gc_Provider c) db)))"
  obtains k frm where "uuid_of db (gc_RecipientID c) = Some k"
    "db' = db\<lparr>credentials := credentials db @ [c\<lparr>gc_RecipientID := k, gc_RotatedFromID := frm\<rparr>]\<rparr>"
    "gc_ID c \<notin> set (map gc_ID (credentials db))" "routing_ok db'"
    "gc_RotatedFromID c = [] \<Longrightarrow> frm = []"
proof -
  obtain k frm where kf: "uuid_of db (gc_RecipientID c) = Some k"
    "(if gc_RotatedFromID c = [] then Some [] else uuid_of db (gc_RotatedFromID c)) = Some frm"
    using ins by (auto simp: insertCredential_def split: option.splits if_splits)
  let ?row = "c\<lparr>gc_RecipientID := k, gc_RotatedFromID := frm\<rparr>"
  have cond: "gc_Provider c \<in> set providers" "gc_Status c \<in> set statuses"
    "find_credential (gc_ID c) db = None"
    "gc_active ?row \<longrightarrow> gc_key ?row \<notin> set (map gc_key (filter gc_active (credentials db)))"
    "find_recipient k db \<noteq> None" "db' = db\<lparr>credentials := credentials db @ [?row]\<rparr>"
    using ins kf by (auto simp: insertCredential_def Let_def gc_active_def split: if_splits)
  have vs: "versions key db' = versions key db @ (if gc_key ?row = key then [gc_Version c] else [])" for key
    by (simp add: cond(6) versions_def)
  have "versions key db' = counting (length (versions key db'))" for key
  proof -
    have old: "versions key db = counting (length (versions key db))"
      by (rule ok_versions [OF ok])
    show ?thesis
    proof (cases "gc_key ?row = key")
      case True
      then have "gc_Version c = int (Suc (length (versions key db)))"
        using v [OF kf(1)] by (auto simp: gc_key_def)
      then show ?thesis using True old by (simp add: vs)
    next
      case False
      then have "versions key db' = versions key db" by (simp add: vs)
      with old show ?thesis by simp
    qed
  qed
  moreover have "distinct (map gc_key (filter gc_active (credentials db')))"
    using cond(4,6) ok by (auto simp: routing_ok_def)
  ultimately have "routing_ok db'"
    using ok cond unfolding routing_ok_def
    by (simp add: find_credential_None find_recipient_None)
  moreover have "gc_ID c \<notin> set (map gc_ID (credentials db))"
    using cond(3) find_credential_None by blast
  moreover have "gc_RotatedFromID c = [] \<Longrightarrow> frm = []" using kf(2) by simp
  ultimately show thesis using that kf(1) cond(6) by blast
qed

text \<open>The two methods that create credentials, and the status change.\<close>

definition fresh_uuid :: "string \<Rightarrow> routing_db \<Rightarrow> bool" where
  "fresh_uuid k db \<longleftrightarrow> uuid_of db k = Some k"

lemma newCredentialVersion_Inr:
  assumes "newCredentialVersion now rnd rid provider keyID frm db = Inr c" "routing_ok db"
  obtains k where "uuid_of db (TrimSpace rid) = Some k" "gc_ID c = rnd" "gc_RecipientID c = TrimSpace rid"
    "gc_Provider c = TrimSpace provider" "gc_Status c = ''draft''" "gc_RotatedFromID c = TrimSpace frm"
    "gc_Version c = int (Suc (length (versions (k, TrimSpace provider) db)))"
  using assms by (auto simp: newCredentialVersion_def new_version split: option.splits)

lemma CreateDraft_Inr:
  assumes "CreateDraftCredential now rnd rid provider keyID encrypt db = (Inr c, db')" "routing_ok db"
  obtains k row where "uuid_of db (TrimSpace rid) = Some k" "routing_ok db'"
    "db' = db\<lparr>credentials := credentials db @ [row]\<rparr>" "rnd \<notin> set (map gc_ID (credentials db))"
    "gc_ID row = rnd" "gc_key row = (k, TrimSpace provider)" "gc_Status row = ''draft''"
    "gc_Version row = int (Suc (length (versions (k, TrimSpace provider) db)))"
    "encrypt (c\<lparr>gc_EncryptedCredentials := JNull\<rparr>) = Inr (gc_EncryptedCredentials row)"
    "c = row\<lparr>gc_RecipientID := TrimSpace rid\<rparr>"
proof -
  obtain c0 doc where c0: "newCredentialVersion now rnd rid provider keyID [] db = Inr c0"
    "encrypt c0 = Inr doc" "c = c0\<lparr>gc_EncryptedCredentials := doc\<rparr>" "insertCredential c db = (Inr (), db')"
    using assms(1) by (auto simp: CreateDraftCredential_def Let_def split: option.splits sum.splits prod.splits)
  obtain k where k: "uuid_of db (TrimSpace rid) = Some k" "gc_ID c0 = rnd" "gc_RecipientID c0 = TrimSpace rid"
    "gc_Provider c0 = TrimSpace provider" "gc_Status c0 = ''draft''" "gc_RotatedFromID c0 = []"
    "gc_Version c0 = int (Suc (length (versions (k, TrimSpace provider) db)))"
    "gc_EncryptedCredentials c0 = JNull"
    using c0(1) assms(2) by (auto simp: newCredentialVersion_def new_version split: option.splits)
  obtain k' frm where ins: "uuid_of db (gc_RecipientID c) = Some k'"
    "db' = db\<lparr>credentials := credentials db @ [c\<lparr>gc_RecipientID := k', gc_RotatedFromID := frm\<rparr>]\<rparr>"
    "gc_ID c \<notin> set (map gc_ID (credentials db))" "routing_ok db'" "frm = []"
    by (rule insertCredential_props [OF assms(2) c0(4)]) (use k c0(3) in auto)
  have same: "c0\<lparr>gc_EncryptedCredentials := JNull\<rparr> = c0"
    using k(8) by (cases c0) simp
  have enc: "encrypt (c0\<lparr>gc_EncryptedCredentials := JNull\<rparr>) = Inr doc"
    unfolding same by (rule c0(2))
  show thesis
    by (rule that [of k "c\<lparr>gc_RecipientID := k', gc_RotatedFromID := frm\<rparr>"])
       (use ins k c0 enc in \<open>auto simp: gc_key_def\<close>)
qed

lemma Rotate_Inr:
  assumes rot: "RotateCredential now rnd cid keyID encrypt db = (Inr c, db')" and ok: "routing_ok db"
    and canon: "\<And>r. r \<in> set (recipients db) \<Longrightarrow> uuid_of db (pr_ID r) = Some (pr_ID r) \<and> TrimSpace (pr_ID r) = pr_ID r"
  obtains k old row where "uuid_of db (TrimSpace cid) = Some k" "find_credential k db = Some old"
    "routing_ok db'" "rnd \<notin> set (map gc_ID (credentials db))"
    "db' = set_status now rnd ''active'' (retire_active now (gc_key old) (db\<lparr>credentials := credentials db @ [row]\<rparr>))"
    "gc_ID row = rnd" "gc_key row = gc_key old" "gc_Status row = ''draft''"
    "gc_Version row = int (Suc (length (versions (gc_key old) db)))"
    "gc_Version c = gc_Version row" "gc_ID c = rnd" "gc_EncryptedCredentials c = gc_EncryptedCredentials row"
    "gc_key c = gc_key old" "routing_ok (db\<lparr>credentials := credentials db @ [row]\<rparr>)"
proof -
  obtain k old c0 doc db1 where s: "uuid_of db (TrimSpace cid) = Some k" "find_credential k db = Some old"
    "newCredentialVersion now rnd (gc_RecipientID old) (gc_Provider old) keyID cid db = Inr c0"
    "encrypt c0 = Inr doc" "insertCredential (c0\<lparr>gc_EncryptedCredentials := doc\<rparr>) db = (Inr (), db1)"
    "db' = set_status now (gc_ID c0) ''active'' (retire_active now (gc_key old) db1)"
    "c = c0\<lparr>gc_EncryptedCredentials := doc, gc_Status := ''active'', gc_ActivatedAt := Some now\<rparr>"
    using rot by (auto simp: RotateCredential_def Let_def split: option.splits sum.splits prod.splits)
  have old: "old \<in> set (credentials db)" using find_credential_Some [OF s(2)] by simp
  then obtain r where r: "r \<in> set (recipients db)" "pr_ID r = gc_RecipientID old"
    using ok unfolding routing_ok_def by auto
  have p: "gc_Provider old \<in> set providers" using ok old unfolding routing_ok_def by blast
  then have tp: "TrimSpace (gc_Provider old) = gc_Provider old"
    by (auto simp: providers_def TrimSpace_def is_space_def)
  have ur: "uuid_of db (gc_RecipientID old) = Some (gc_RecipientID old)" "TrimSpace (gc_RecipientID old) = gc_RecipientID old"
    using canon [OF r(1)] r(2) by simp_all
  have c0: "gc_ID c0 = rnd" "gc_RecipientID c0 = gc_RecipientID old" "gc_Provider c0 = gc_Provider old"
    "gc_Status c0 = ''draft''" "gc_Version c0 = int (Suc (length (versions (gc_key old) db)))"
    using s(3) ok ur tp by (auto simp: newCredentialVersion_def new_version gc_key_def split: option.splits)
  obtain k' frm where ins: "uuid_of db (gc_RecipientID old) = Some k'"
    "db1 = db\<lparr>credentials := credentials db @ [c0\<lparr>gc_EncryptedCredentials := doc, gc_RecipientID := k', gc_RotatedFromID := frm\<rparr>]\<rparr>"
    "rnd \<notin> set (map gc_ID (credentials db))" "routing_ok db1"
    by (rule insertCredential_props [OF ok s(5)]) (use c0 ur in \<open>auto simp: gc_key_def\<close>)
  let ?row = "c0\<lparr>gc_EncryptedCredentials := doc, gc_RecipientID := k', gc_RotatedFromID := frm\<rparr>"
  have key: "gc_key ?row = gc_key old" using ins(1) ur c0 by (simp add: gc_key_def)
  let ?db2 = "retire_active now (gc_key old) db1"
  have ok2: "routing_ok ?db2" by (rule retire_active_ok [OF ins(4)])
  have "retire1 now (gc_key old) ?row \<in> set (credentials ?db2)"
    by (simp add: retire_active_map ins(2))
  moreover have "gc_ID (retire1 now (gc_key old) ?row) = rnd" using c0 by simp
  ultimately have f: "find_credential rnd ?db2 = Some (retire1 now (gc_key old) ?row)"
    using find_credential_unique ok2 unfolding routing_ok_def by metis
  have "routing_ok db'"
    unfolding s(6) c0(1)
    by (rule set_status_ok [OF ok2 f]) (simp_all add: statuses_def active_retire key)
  moreover have "gc_key c = gc_key old" using c0 by (simp add: s(7) gc_key_def)
  ultimately show thesis
    using that [of k old ?row] s(1,2,6,7) ins c0 key by simp
qed

lemma SetStatus_Inr:
  assumes "SetCredentialStatus now cid st db = (Inr (), db')" "routing_ok db"
  obtains k c where "uuid_of db (TrimSpace cid) = Some k" "find_credential k db = Some c" "routing_ok db'"
    "db' = set_status now k st (if st = ''active'' then retire_active now (gc_key c) db else db)"
    "st \<in> set statuses"
proof -
  obtain k c where s: "uuid_of db (TrimSpace cid) = Some k" "find_credential k db = Some c" "st \<in> set statuses"
    "db' = set_status now k st (if st = ''active'' then retire_active now (gc_key c) db else db)"
    using assms(1) by (auto simp: SetCredentialStatus_def Let_def split: option.splits if_splits)
  have "routing_ok db'"
  proof (cases "st = ''active''")
    case True
    let ?db2 = "retire_active now (gc_key c) db"
    have ok2: "routing_ok ?db2" by (rule retire_active_ok [OF assms(2)])
    have "retire1 now (gc_key c) c \<in> set (credentials ?db2)" "gc_ID (retire1 now (gc_key c) c) = k"
      using find_credential_Some [OF s(2)] by (auto simp: retire_active_map)
    then have "find_credential k ?db2 = Some (retire1 now (gc_key c) c)"
      using find_credential_unique ok2 unfolding routing_ok_def by metis
    then have "routing_ok (set_status now k st ?db2)"
      by (rule set_status_ok [OF ok2 _ s(3)]) (simp add: active_retire)
    with True s(4) show ?thesis by simp
  next
    case False
    with s show ?thesis by (auto intro!: set_status_ok [OF assms(2)])
  qed
  with that s show thesis by blast
qed

end
