(* ===== verification/RoutingSteps.thy ===== *)
theory RoutingSteps
  imports RoutingLaws
begin

text \<open>
  Histories of the merchant routing tables as a step relation, the contract the
  payment flows rely on (a credential chosen once stays retrievable,
  unchanged) and what ResolveActive answers.
\<close>

section \<open>Steps\<close>

definition uuid_law :: "(string \<Rightarrow> string option) \<Rightarrow> bool" where
  "uuid_law u \<longleftrightarrow> (\<forall>s k. u s = Some k \<longrightarrow> u k = Some k \<and> TrimSpace k = k \<and> k \<noteq> [])"

definition canonical :: "routing_db \<Rightarrow> bool" where
  "canonical db \<longleftrightarrow> uuid_law (uuid_of db)
     \<and> (\<forall>k \<in> set (map pr_ID (recipients db)) \<union> set (map im_ID (mappings db)) \<union> set (map gc_ID (credentials db)).
          uuid_of db k = Some k)"

definition routing_inv :: "routing_db \<Rightarrow> bool" where
  "routing_inv db \<longleftrightarrow> routing_ok db \<and> canonical db"

inductive routing_step :: "routing_db \<Rightarrow> routing_db \<Rightarrow> bool" where
  create_recipient: "uuid_of db rnd = Some rnd \<Longrightarrow> CreateRecipient now rnd rid name active db = (r, db') \<Longrightarrow> routing_step db db'"
| set_recipient: "SetRecipientActive now rid active db = (r, db') \<Longrightarrow> routing_step db db'"
| create_mapping: "uuid_of db rnd = Some rnd \<Longrightarrow> CreateMapping now rnd app ref rid active db = (r, db') \<Longrightarrow> routing_step db db'"
| set_mapping: "SetMappingActive now mid active db = (r, db') \<Longrightarrow> routing_step db db'"
| create_draft: "uuid_of db rnd = Some rnd \<Longrightarrow>
    CreateDraftCredential now rnd rid provider keyID encrypt db = (d, db') \<Longrightarrow> routing_step db db'"
| rotate: "uuid_of db rnd = Some rnd \<Longrightarrow>
    RotateCredential now rnd cid keyID encrypt db = (d, db') \<Longrightarrow> routing_step db db'"
| set_status: "SetCredentialStatus now cid st db = (r, db') \<Longrightarrow> routing_step db db'"

inductive_cases routing_stepE: "routing_step db db'"

lemma canonical_recipient:
  "canonical db \<Longrightarrow> r \<in> set (recipients db) \<Longrightarrow> uuid_of db (pr_ID r) = Some (pr_ID r) \<and> TrimSpace (pr_ID r) = pr_ID r"
  by (auto simp: canonical_def uuid_law_def)

text \<open>Failing methods change nothing.\<close>

lemma failures_small:
  "CreateRecipient now rnd rid name active db = (Inl e, db') \<Longrightarrow> db' = db"
  "SetRecipientActive now rid active db = (Inl e, db') \<Longrightarrow> db' = db"
  "CreateMapping now rnd app ref rid active db = (Inl e, db') \<Longrightarrow> db' = db"
  "SetMappingActive now mid active db = (Inl e, db') \<Longrightarrow> db' = db"
  "SetCredentialStatus now cid st db = (Inl e, db') \<Longrightarrow> db' = db"
proof -
  show "CreateRecipient now rnd rid name active db = (Inl e, db') \<Longrightarrow> db' = db"
    by (simp add: CreateRecipient_def split: option.splits if_splits)
  show "SetRecipientActive now rid active db = (Inl e, db') \<Longrightarrow> db' = db"
    by (simp add: SetRecipientActive_def split: option.splits if_splits)
  show "CreateMapping now rnd app ref rid active db = (Inl e, db') \<Longrightarrow> db' = db"
    by (simp add: CreateMapping_def Let_def split: option.splits if_splits)
  show "SetMappingActive now mid active db = (Inl e, db') \<Longrightarrow> db' = db"
    by (simp add: SetMappingActive_def split: option.splits if_splits)
  show "SetCredentialStatus now cid st db = (Inl e, db') \<Longrightarrow> db' = db"
    by (simp add: SetCredentialStatus_def Let_def split: option.splits if_splits)
qed

lemma CreateDraft_failure:
  "CreateDraftCredential now rnd rid provider keyID encrypt db = (Inl e, db') \<Longrightarrow> db' = db"
  by (auto simp: CreateDraftCredential_def Let_def split: option.splits sum.splits prod.splits)

lemma Rotate_failure:
  "RotateCredential now rnd cid keyID encrypt db = (Inl e, db') \<Longrightarrow> db' = db"
  by (auto simp: RotateCredential_def Let_def split: option.splits sum.splits prod.splits)

lemmas failures = failures_small(1-4) CreateDraft_failure Rotate_failure failures_small(5)

lemma routing_inv_tables:
  assumes "routing_inv db" "credentials db' = credentials db" "app_ids db' = app_ids db" "uuid_of db' = uuid_of db"
    and "set (map pr_ID (recipients db)) \<subseteq> set (map pr_ID (recipients db'))"
    and "distinct (map pr_ID (recipients db'))" "distinct (map im_ID (mappings db'))"
    and "\<forall>m \<in> set (mappings db'). im_RecipientID m \<in> set (map pr_ID (recipients db'))
          \<and> im_ExternalAppID m \<in> set (app_ids db) \<and> im_ExternalMerchantReference m \<noteq> []"
    and "distinct (map im_key (filter im_IsActive (mappings db')))"
    and "\<forall>k \<in> set (map pr_ID (recipients db')) \<union> set (map im_ID (mappings db')). uuid_of db k = Some k"
  shows "routing_inv db' \<and> cores db' = cores db"
proof -
  have "versions key db' = versions key db" for key by (simp add: assms(2) versions_def)
  moreover have "\<forall>c \<in> set (credentials db'). gc_RecipientID c \<in> set (map pr_ID (recipients db'))
      \<and> gc_Provider c \<in> set providers \<and> gc_Status c \<in> set statuses"
    using assms(1,2,5) unfolding routing_inv_def routing_ok_def by auto
  moreover have "distinct (map gc_ID (credentials db'))" "distinct (map gc_key (filter gc_active (credentials db')))"
    "\<And>key. versions key db = counting (length (versions key db))"
    using assms(1) unfolding routing_inv_def routing_ok_def assms(2) by blast+
  ultimately have "routing_ok db'"
    unfolding routing_ok_def assms(3) using assms(6-9) by (intro conjI) simp_all
  moreover have "canonical db'"
    using assms(1,10) unfolding routing_inv_def canonical_def assms(2,4) by blast
  ultimately show ?thesis using assms(2) by (simp add: routing_inv_def cores_def)
qed

text \<open>What the invariant says of recipients and mappings.\<close>

lemma routing_invD:
  assumes "routing_inv db"
  shows "distinct (map pr_ID (recipients db))" "distinct (map im_ID (mappings db))"
    "distinct (map im_key (filter im_IsActive (mappings db)))"
    "\<And>m. m \<in> set (mappings db) \<Longrightarrow> im_RecipientID m \<in> set (map pr_ID (recipients db))"
    "\<And>m. m \<in> set (mappings db) \<Longrightarrow> im_ExternalAppID m \<in> set (app_ids db) \<and> im_ExternalMerchantReference m \<noteq> []"
    "\<And>k. k \<in> set (map pr_ID (recipients db)) \<Longrightarrow> uuid_of db k = Some k"
    "\<And>k. k \<in> set (map im_ID (mappings db)) \<Longrightarrow> uuid_of db k = Some k"
    "\<And>s k. uuid_of db s = Some k \<Longrightarrow> uuid_of db k = Some k"
  using assms unfolding routing_inv_def routing_ok_def canonical_def uuid_law_def by auto

lemma find_IM_Some: "find (\<lambda>m. im_ID m = k) ms = Some m \<Longrightarrow> m \<in> set ms \<and> im_ID m = k"
  by (auto simp: find_Some_iff)

lemma map_upd_ID:
  "(\<And>x. f (g x) = f x) \<Longrightarrow> map f (map (\<lambda>x. if P x then g x else x) xs) = map f xs"
  by (induction xs) auto

lemma CreateRecipient_inv:
  assumes "CreateRecipient now rnd rid name active db = (Inr (), db')" "routing_inv db" "uuid_of db rnd = Some rnd"
  shows "routing_inv db' \<and> cores db' = cores db"
proof -
  note inv = routing_invD [OF assms(2)]
  obtain k where k: "uuid_of db k = Some k" "k \<notin> set (map pr_ID (recipients db))"
    "db' = db\<lparr>recipients := recipients db @
       [\<lparr> pr_ID = k, pr_Name = TrimSpace name, pr_IsActive = active, pr_CreatedAt = now, pr_UpdatedAt = now \<rparr>]\<rparr>"
    using assms(1,3) inv(8) by (auto simp: CreateRecipient_def find_recipient_None split: option.splits if_splits)
  show ?thesis
    by (rule routing_inv_tables [OF assms(2)]) (use k inv in auto)
qed

lemma SetRecipientActive_inv:
  assumes "SetRecipientActive now rid active db = (Inr (), db')" "routing_inv db"
  shows "routing_inv db' \<and> cores db' = cores db"
proof -
  note inv = routing_invD [OF assms(2)]
  obtain k where db': "db' = db\<lparr>recipients := map (\<lambda>r. if pr_ID r = k
              then r\<lparr>pr_IsActive := active, pr_UpdatedAt := now\<rparr> else r) (recipients db)\<rparr>"
    using assms(1) by (auto simp: SetRecipientActive_def split: option.splits if_splits)
  have ids: "map pr_ID (recipients db') = map pr_ID (recipients db)"
    by (simp add: db' map_upd_ID)
  have "mappings db' = mappings db" by (simp add: db')
  show ?thesis
    by (rule routing_inv_tables [OF assms(2)])
       (use inv in \<open>simp_all add: ids del: set_map\<close>, simp_all add: db', auto)
qed

lemma CreateMapping_inv:
  assumes "CreateMapping now rnd app ref rid active db = (Inr (), db')" "routing_inv db" "uuid_of db rnd = Some rnd"
  shows "routing_inv db' \<and> cores db' = cores db"
proof -
  note inv = routing_invD [OF assms(2)]
  obtain m where m: "db' = db\<lparr>mappings := mappings db @ [m]\<rparr>" "im_ID m = rnd" "rnd \<notin> set (map im_ID (mappings db))"
    "im_ExternalMerchantReference m \<noteq> []" "im_ExternalAppID m \<in> set (app_ids db)"
    "im_RecipientID m \<in> set (map pr_ID (recipients db))"
    "im_IsActive m \<longrightarrow> im_key m \<notin> set (map im_key (filter im_IsActive (mappings db)))"
    using assms(1) by (auto simp: CreateMapping_def Let_def find_recipient_None split: option.splits if_splits)
  show ?thesis
    by (rule routing_inv_tables [OF assms(2)]) (use m inv assms(3) in \<open>auto simp del: set_map\<close>)
qed

lemma SetMappingActive_inv:
  assumes "SetMappingActive now mid active db = (Inr (), db')" "routing_inv db"
  shows "routing_inv db' \<and> cores db' = cores db"
proof -
  note inv = routing_invD [OF assms(2)]
  obtain k m where s: "find (\<lambda>m. im_ID m = k) (mappings db) = Some m"
    "active \<Longrightarrow> im_key m \<notin> set (map im_key (filter (\<lambda>m'. im_IsActive m' \<and> im_ID m' \<noteq> k) (mappings db)))"
    and db': "db' = db\<lparr>mappings := map (\<lambda>m. if im_ID m = k
                then m\<lparr>im_IsActive := active, im_UpdatedAt := now\<rparr> else m) (mappings db)\<rparr>"
    using assms(1) by (auto simp: SetMappingActive_def split: option.splits if_splits)
  let ?f = "\<lambda>m. if im_ID m = k then m\<lparr>im_IsActive := active, im_UpdatedAt := now\<rparr> else m"
  obtain as bs where split: "mappings db = as @ m # bs"
    using find_IM_Some [OF s(1)] split_list by fastforce
  have k: "im_ID m = k" using find_IM_Some [OF s(1)] by simp
  have out: "x \<in> set as \<union> set bs \<Longrightarrow> im_ID x \<noteq> k" for x
    using inv(2) split k by (auto simp: image_iff)
  have f: "map ?f as = as" "map ?f bs = bs" using out by (auto intro!: map_idI)
  have g: "filter (\<lambda>m'. im_IsActive m' \<and> im_ID m' \<noteq> k) as = filter im_IsActive as"
    "filter (\<lambda>m'. im_IsActive m' \<and> im_ID m' \<noteq> k) bs = filter im_IsActive bs"
    using out by (auto intro!: filter_cong)
  have ms: "mappings db' = as @ m\<lparr>im_IsActive := active, im_UpdatedAt := now\<rparr> # bs"
    using k by (simp add: db' split f del: map_eq_conv)
  have rest: "recipients db' = recipients db" "credentials db' = credentials db" "app_ids db' = app_ids db"
    "uuid_of db' = uuid_of db" by (simp_all add: db')
  have "distinct (map im_key (filter im_IsActive as)) \<and> distinct (map im_key (filter im_IsActive bs))
      \<and> set (map im_key (filter im_IsActive as)) \<inter> set (map im_key (filter im_IsActive bs)) = {}"
    using inv(3) by (auto simp: split split: if_splits)
  moreover have "active \<Longrightarrow> im_key m \<notin> set (map im_key (filter im_IsActive as)) \<union> set (map im_key (filter im_IsActive bs))"
    using s(2) k by (simp add: split g del: set_map filter_filter)
  ultimately have act: "distinct (map im_key (filter im_IsActive (mappings db')))"
    by (cases active) (simp_all add: ms im_key_def del: set_map)
  show ?thesis
  proof (rule routing_inv_tables [OF assms(2) rest(2,3,4)])
    show "distinct (map im_ID (mappings db'))" using inv(2) by (simp add: ms split)
    show "\<forall>m \<in> set (mappings db'). im_RecipientID m \<in> set (map pr_ID (recipients db'))
          \<and> im_ExternalAppID m \<in> set (app_ids db) \<and> im_ExternalMerchantReference m \<noteq> []"
      using inv(4,5) by (auto simp: ms split rest(1))
    show "\<forall>i \<in> set (map pr_ID (recipients db')) \<union> set (map im_ID (mappings db')). uuid_of db i = Some i"
      using inv(6,7) by (auto simp: ms split rest(1))
  qed (use inv act rest(1) in simp_all)
qed

lemma canonical_append:
  assumes "canonical db" "credentials db' = credentials db @ [row] \<or> cores db' = cores (db\<lparr>credentials := credentials db @ [row]\<rparr>)"
    and "recipients db' = recipients db" "mappings db' = mappings db" "uuid_of db' = uuid_of db"
    and "uuid_of db (gc_ID row) = Some (gc_ID row)"
  shows "canonical db'"
proof -
  have ids: "map gc_ID (credentials d) = map fst (cores d)" for d
    by (simp add: cores_def core_def)
  have "map gc_ID (credentials db') = map gc_ID (credentials db) @ [gc_ID row]"
    using assms(2) by (auto simp: ids) (auto simp: cores_def core_def)
  with assms show ?thesis by (auto simp: canonical_def)
qed

lemma canonical_cores:
  assumes "canonical db" "cores db' = cores db" "recipients db' = recipients db" "mappings db' = mappings db"
    "uuid_of db' = uuid_of db"
  shows "canonical db'"
proof -
  have "map gc_ID (credentials d) = map fst (cores d)" for d by (simp add: cores_def core_def)
  with assms show ?thesis by (simp add: canonical_def)
qed

lemma routing_step_inv:
  assumes "routing_step db db'" "routing_inv db"
  shows "routing_inv db' \<and> prefix (cores db) (cores db')"
  using assms(1)
proof (cases rule: routing_step.cases)
  case (create_recipient rnd now rid name active r)
  show ?thesis
  proof (cases r)
    case (Inl e)
    then show ?thesis using failures(1) create_recipient assms(2) by blast
  next
    case (Inr u)
    then have "routing_inv db' \<and> cores db' = cores db"
      using CreateRecipient_inv create_recipient assms(2) by (metis old.unit.exhaust)
    then show ?thesis by simp
  qed
next
  case (set_recipient now rid active r)
  show ?thesis
  proof (cases r)
    case (Inl e)
    then show ?thesis using failures(2) set_recipient assms(2) by blast
  next
    case (Inr u)
    then have "routing_inv db' \<and> cores db' = cores db"
      using SetRecipientActive_inv set_recipient assms(2) by (metis old.unit.exhaust)
    then show ?thesis by simp
  qed
next
  case (create_mapping rnd now app ref rid active r)
  show ?thesis
  proof (cases r)
    case (Inl e)
    then show ?thesis using failures(3) create_mapping assms(2) by blast
  next
    case (Inr u)
    then have "routing_inv db' \<and> cores db' = cores db"
      using CreateMapping_inv create_mapping assms(2) by (metis old.unit.exhaust)
    then show ?thesis by simp
  qed
next
  case (set_mapping now mid active r)
  show ?thesis
  proof (cases r)
    case (Inl e)
    then show ?thesis using failures(4) set_mapping assms(2) by blast
  next
    case (Inr u)
    then have "routing_inv db' \<and> cores db' = cores db"
      using SetMappingActive_inv set_mapping assms(2) by (metis old.unit.exhaust)
    then show ?thesis by simp
  qed
next
  case (create_draft rnd now rid provider keyID encrypt d)
  show ?thesis
  proof (cases d)
    case (Inl e)
    then show ?thesis using failures(5) create_draft assms(2) by blast
  next
    case (Inr c)
    obtain k row where "routing_ok db'" "db' = db\<lparr>credentials := credentials db @ [row]\<rparr>" "gc_ID row = rnd"
      using CreateDraft_Inr [of now rnd rid provider keyID encrypt db c db'] create_draft(2) Inr assms(2)
      unfolding routing_inv_def by metis
    with create_draft(1) assms(2) show ?thesis
      using canonical_append [of db db' row] by (simp add: routing_inv_def cores_def)
  qed
next
  case (rotate rnd now cid keyID encrypt d)
  show ?thesis
  proof (cases d)
    case (Inl e)
    then show ?thesis using failures(6) rotate assms(2) by blast
  next
    case (Inr c)
    have ok: "routing_ok db" "canonical db" using assms(2) by (simp_all add: routing_inv_def)
    obtain old row where r: "routing_ok db'" "gc_ID row = rnd"
      "db' = set_status now rnd ''active'' (retire_active now (gc_key old) (db\<lparr>credentials := credentials db @ [row]\<rparr>))"
      using Rotate_Inr [of now rnd cid keyID encrypt db c db'] rotate(2) Inr ok canonical_recipient [OF ok(2)] by metis
    then have "cores db' = cores (db\<lparr>credentials := credentials db @ [row]\<rparr>)" by simp
    with r rotate(1) ok show ?thesis
      using canonical_append [of db db' row] by (simp add: routing_inv_def cores_def)
  qed
next
  case (set_status now cid st r)
  show ?thesis
  proof (cases r)
    case (Inl e)
    then show ?thesis using failures(7) set_status assms(2) by blast
  next
    case (Inr u)
    have ok: "routing_ok db" "canonical db" using assms(2) by (simp_all add: routing_inv_def)
    have e: "SetCredentialStatus now cid st db = (Inr (), db')" using set_status Inr by simp
    obtain k c where s: "routing_ok db'"
      "db' = RoutingStore.set_status now k st (if st = ''active'' then retire_active now (gc_key c) db else db)"
      by (rule SetStatus_Inr [OF e ok(1)])
    then have "cores db' = cores db" "recipients db' = recipients db" "mappings db' = mappings db"
      "uuid_of db' = uuid_of db" by simp_all
    with s ok show ?thesis using canonical_cores [OF ok(2)] by (simp add: routing_inv_def)
  qed
qed

lemma routing_steps_inv:
  assumes "routing_step\<^sup>*\<^sup>* db db'" "routing_inv db"
  shows "routing_inv db' \<and> prefix (cores db) (cores db')"
  using assms
proof (induction rule: rtranclp_induct)
  case (step y z)
  then show ?case using routing_step_inv [of y z] prefix_order.trans by blast
qed simp

definition empty_routing :: "(string \<Rightarrow> string option) \<Rightarrow> string list \<Rightarrow> routing_db" where
  "empty_routing u apps = \<lparr> uuid_of = u, app_ids = apps, recipients = [], mappings = [], credentials = [] \<rparr>"

lemma empty_routing_inv: "uuid_law u \<Longrightarrow> routing_inv (empty_routing u apps)"
  by (simp add: routing_inv_def routing_ok_def canonical_def empty_routing_def versions_def)

text \<open>A small state for the witnesses: one app, one recipient, one active credential.\<close>

definition demo_uuid :: "string \<Rightarrow> string option" where
  "demo_uuid s = (if TrimSpace s = s \<and> s \<noteq> [] then Some s else None)"

definition demo_credential :: GatewayCredentialConfiguration where
  "demo_credential = \<lparr> gc_ID = ''c1'', gc_RecipientID = ''r1'', gc_Provider = ''dkpg'', gc_Version = 1,
     gc_Status = ''active'', gc_EncryptedCredentials = JStr ''p1'', gc_EncryptionKeyID = ''env'',
     gc_RotatedFromID = [], gc_CreatedAt = 1, gc_UpdatedAt = 1, gc_ActivatedAt = Some 1, gc_DisabledAt = None \<rparr>"

definition demo_db :: routing_db where
  "demo_db = \<lparr> uuid_of = demo_uuid, app_ids = [''A''],
     recipients = [\<lparr> pr_ID = ''r1'', pr_Name = ''Hotel'', pr_IsActive = True, pr_CreatedAt = 1, pr_UpdatedAt = 1 \<rparr>],
     mappings = [\<lparr> im_ID = ''m1'', im_ExternalAppID = ''A'', im_ExternalMerchantReference = ''hotel'',
       im_RecipientID = ''r1'', im_IsActive = True, im_CreatedAt = 1, im_UpdatedAt = 1 \<rparr>],
     credentials = [demo_credential] \<rparr>"

lemma demo_uuid_law: "uuid_law demo_uuid"
  by (simp add: uuid_law_def demo_uuid_def)

lemma demo_inv: "routing_inv demo_db"
proof -
  have "versions key demo_db = (if key = (''r1'', ''dkpg'') then [1] else [])" for key
    by (auto simp: versions_def demo_db_def demo_credential_def gc_key_def)
  moreover have "counting 1 = [1]" by (simp add: counting_def)
  ultimately have "versions key demo_db = counting (length (versions key demo_db))" for key by simp
  then have "routing_ok demo_db"
    unfolding routing_ok_def
    by (simp add: demo_db_def demo_credential_def providers_def statuses_def)
  moreover have "canonical demo_db"
    using demo_uuid_law
    by (simp add: canonical_def demo_db_def demo_credential_def demo_uuid_def TrimSpace_def is_space_def)
  ultimately show ?thesis by (simp add: routing_inv_def)
qed

lemma demo_eval [simp]:
  "uuid_of demo_db (TrimSpace ''c1'') = Some ''c1''" "find_credential ''c1'' demo_db = Some demo_credential"
  "uuid_of demo_db ''r1'' = Some ''r1''" "uuid_of demo_db ''c1'' = Some ''c1''" "uuid_of demo_db ''c2'' = Some ''c2''"
  "TrimSpace ''r1'' = ''r1''" "TrimSpace ''c1'' = ''c1''" "TrimSpace ''dkpg'' = ''dkpg''"
  "gc_RecipientID demo_credential = ''r1''" "gc_Provider demo_credential = ''dkpg''"
  by (simp_all add: demo_db_def demo_credential_def demo_uuid_def find_credential_def TrimSpace_def is_space_def)

lemma demo_rotate: "\<exists>c db'. RotateCredential 5 ''c2'' ''c1'' ''env'' (\<lambda>c. Inr (JStr ''p2'')) demo_db = (Inr c, db')"
proof -
  have "lockRecipientForCredentialChange ''r1'' demo_db = None"
    by (simp add: lockRecipientForCredentialChange_def find_recipient_def demo_db_def demo_uuid_def TrimSpace_def is_space_def)
  moreover have "versions (''r1'', ''dkpg'') demo_db = [1]"
    by (simp add: versions_def demo_db_def demo_credential_def gc_key_def)
  moreover have "find_credential ''c2'' demo_db = None" "find_recipient ''r1'' demo_db \<noteq> None"
    by (simp_all add: find_credential_def find_recipient_def demo_db_def demo_credential_def)
  moreover obtain c where c: "newCredentialVersion 5 ''c2'' ''r1'' ''dkpg'' ''env'' ''c1'' demo_db = Inr c"
    "gc_ID c = ''c2''" "gc_RecipientID c = ''r1''" "gc_Provider c = ''dkpg''" "gc_Version c = 2"
    "gc_Status c = ''draft''" "gc_RotatedFromID c = ''c1''"
    using calculation(2) by (simp add: newCredentialVersion_def)
  ultimately obtain db1 where "insertCredential (c\<lparr>gc_EncryptedCredentials := JStr ''p2''\<rparr>) demo_db = (Inr (), db1)"
    by (auto simp: insertCredential_def Let_def gc_key_def providers_def statuses_def gc_active_def)
  with c(1) show ?thesis
    using \<open>lockRecipientForCredentialChange ''r1'' demo_db = None\<close>
    by (simp add: RotateCredential_def Let_def)
qed

text \<open>
  C21: in every reachable state of the routing tables at most one credential of a
  recipient and provider is active, at most one mapping of an app and merchant
  reference is active, the versions of a recipient and provider are 1, 2, 3,
  ... in the order of creation without a gap, and every mapping and credential
  points to a recipient that exists.
\<close>
theorem routing_invariant:
  assumes "routing_step\<^sup>*\<^sup>* (empty_routing u apps) db" "uuid_law u"
  shows "distinct (map gc_key (filter gc_active (credentials db)))
    \<and> distinct (map im_key (filter im_IsActive (mappings db)))
    \<and> (\<forall>key. versions key db = map int [1..<Suc (length (versions key db))])
    \<and> (\<forall>c \<in> set (credentials db). find_recipient (gc_RecipientID c) db \<noteq> None)
    \<and> (\<forall>m \<in> set (mappings db). find_recipient (im_RecipientID m) db \<noteq> None)"
proof -
  have "routing_inv db" using routing_steps_inv [OF assms(1) empty_routing_inv [OF assms(2)]] by simp
  then have ok: "routing_ok db" by (simp add: routing_inv_def)
  have "versions key db = map int [1..<Suc (length (versions key db))]" for key
    using ok_versions [OF ok, of key] unfolding counting_def .
  with ok show ?thesis unfolding routing_ok_def find_recipient_None by blast
qed

theorem routing_invariant_witness:
  "let db = snd (CreateRecipient 1 ''r1'' [] ''Hotel'' True (empty_routing demo_uuid [''A'']))
   in (\<forall>key. versions key db = map int [1..<Suc (length (versions key db))]) \<and> length (recipients db) = 1"
proof -
  let ?start = "empty_routing demo_uuid [''A'']"
  let ?db = "snd (CreateRecipient 1 ''r1'' [] ''Hotel'' True ?start)"
  have "uuid_of ?start ''r1'' = Some ''r1''"
    by (simp add: empty_routing_def demo_uuid_def)
  then have "routing_step ?start ?db" by (rule create_recipient) (rule prod.collapse [symmetric])
  then have "routing_step\<^sup>*\<^sup>* ?start ?db" by blast
  from routing_invariant [OF this demo_uuid_law]
  have "\<forall>key. versions key ?db = map int [1..<Suc (length (versions key ?db))]" by blast
  moreover have "length (recipients ?db) = 1"
    by (simp add: CreateRecipient_def empty_routing_def find_recipient_def)
  ultimately show ?thesis by (simp add: Let_def del: upt_Suc)
qed

lemma credential_kept:
  assumes "routing_inv db" "routing_step\<^sup>*\<^sup>* db db'" "GetCredential cid db = Inr c"
  shows "\<exists>c'. GetCredential cid db' = Inr c' \<and> core c' = core c"
proof -
  obtain k where k: "uuid_of db (TrimSpace cid) = Some k" "find_credential k db = Some c"
    using assms(3) by (auto simp: GetCredential_def split: option.splits)
  have pre: "prefix (cores db) (cores db')" and inv: "routing_inv db'"
    using routing_steps_inv [OF assms(2,1)] by auto
  have u: "uuid_of db' = uuid_of db"
    using assms(2)
  proof (induction rule: rtranclp_induct)
    case (step y z)
    have "uuid_of z = uuid_of y" using step(2)
    proof (cases rule: routing_step.cases)
      case (create_draft rnd now rid provider keyID encrypt d)
      then show ?thesis
        by (auto simp: CreateDraftCredential_def insertCredential_def Let_def
            split: option.splits sum.splits prod.splits if_splits)
    next
      case (rotate rnd now c keyID encrypt d)
      then show ?thesis
        by (auto simp: RotateCredential_def insertCredential_def Let_def
            split: option.splits sum.splits prod.splits if_splits)
    qed (auto simp: CreateRecipient_def SetRecipientActive_def CreateMapping_def SetMappingActive_def
        SetCredentialStatus_def Let_def split: option.splits if_splits)
    with step show ?case by simp
  qed simp
  have "core c \<in> set (cores db)" using find_credential_Some [OF k(2)] by (simp add: cores_def)
  then have "core c \<in> set (cores db')" using pre set_mono_prefix by blast
  then obtain c' where c': "c' \<in> set (credentials db')" "core c' = core c"
    by (auto simp: cores_def)
  then have "gc_ID c' = k" using core_fields find_credential_Some [OF k(2)] by metis
  moreover have "distinct (map gc_ID (credentials db'))"
    using inv unfolding routing_inv_def routing_ok_def by blast
  ultimately have "find_credential k db' = Some c'"
    using find_credential_unique c'(1) by metis
  then show ?thesis using k(1) u c'(2) by (simp add: GetCredential_def)
qed

text \<open>
  The credential a transaction refers to is immutable.  No history of
  operations removes a credential row or changes its recipient, provider,
  version, encrypted payload, key id or rotation link; GetCredential returns the
  same configuration ever after, whatever its status became.
\<close>
lemma credential_immutable:
  assumes "routing_inv db" "routing_step\<^sup>*\<^sup>* db db'" "GetCredential cid db = Inr c"
  shows "\<exists>c'. GetCredential cid db' = Inr c' \<and> core c' = core c"
  by (rule credential_kept [OF assms])

theorem credential_immutable_witness:
  "\<exists>c db' c'. RotateCredential 5 ''c2'' ''c1'' ''env'' (\<lambda>c. Inr (JStr ''p2'')) demo_db = (Inr c, db')
     \<and> GetCredential ''c1'' db' = Inr c' \<and> gc_EncryptedCredentials c' = JStr ''p1'' \<and> gc_Version c' = 1"
proof -
  obtain c db' where r: "RotateCredential 5 ''c2'' ''c1'' ''env'' (\<lambda>c. Inr (JStr ''p2'')) demo_db = (Inr c, db')"
    using demo_rotate by blast
  have "routing_step demo_db db'" by (rule rotate [OF demo_eval(5) r])
  then have "routing_step\<^sup>*\<^sup>* demo_db db'" by blast
  moreover have "GetCredential ''c1'' demo_db = Inr demo_credential" by (simp add: GetCredential_def)
  ultimately obtain c' where "GetCredential ''c1'' db' = Inr c'" "core c' = core demo_credential"
    using credential_immutable [OF demo_inv] by blast
  with r show ?thesis by (auto simp: core_def demo_credential_def)
qed

end
