(* ===== verification/Sql.thy ===== *)
theory Sql
  imports Json
begin

text \<open>
  What the queries of the storage packages use of PostgreSQL: ILIKE patterns,
  ordering by a column, LIMIT and OFFSET, and the text of the errors the code
  classifies.  A table is the list of its rows in the order of insertion; rows
  that tie in an ORDER BY come in the order of insertion, which is one of the
  orders PostgreSQL may choose.
\<close>

text \<open>LIKE: % matches any text, _ one character, a backslash quotes the next one.\<close>

fun like :: "string \<Rightarrow> string \<Rightarrow> bool" where
  "like [] s = (s = [])"
| "like (p # ps) [] = (p = CHR ''%'' \<and> like ps [])"
| "like (p # ps) (c # s) =
     (if p = CHR ''%'' then like ps (c # s) \<or> like (p # ps) s
      else if p = CHR ''_'' then like ps s
      else if p = CHR 0x5C then (case ps of q # qs \<Rightarrow> q = c \<and> like qs s | [] \<Rightarrow> False)
      else p = c \<and> like ps s)"

definition ilike :: "string \<Rightarrow> string \<Rightarrow> bool" where
  "ilike s p = like (ToLower p) (ToLower s)"

definition contains_pattern :: "string \<Rightarrow> string" where
  "contains_pattern s = ''%'' @ TrimSpace s @ ''%''"

definition order_desc :: "('a \<Rightarrow> 'k::linorder) \<Rightarrow> 'a list \<Rightarrow> 'a list" where
  "order_desc f xs = rev (sort_key f (rev xs))"

definition limit_to :: "int \<Rightarrow> 'a list \<Rightarrow> 'a list" where "limit_to n xs = take (nat n) xs"

text \<open>ORDER BY f DESC LIMIT 1.\<close>

definition latest :: "('a \<Rightarrow> 'k::linorder) \<Rightarrow> 'a list \<Rightarrow> 'a option" where
  "latest f xs = (case order_desc f xs of [] \<Rightarrow> None | x # _ \<Rightarrow> Some x)"

text \<open>The error of a unique index, as pgx renders it.\<close>

definition unique_violation :: "string \<Rightarrow> string" where
  "unique_violation index = ''ERROR: duplicate key value violates unique constraint '' @ [CHR 0x22] @ index @ [CHR 0x22] @ '' (SQLSTATE 23505)''"

definition foreign_key_violation :: string where
  "foreign_key_violation = ''ERROR: insert or update violates foreign key constraint (SQLSTATE 23503)''"

definition check_violation :: string where
  "check_violation = ''ERROR: new row violates check constraint (SQLSTATE 23514)''"

definition invalid_uuid :: string where
  "invalid_uuid = ''ERROR: invalid input syntax for type uuid (SQLSTATE 22P02)''"

lemma set_order_desc [simp]: "set (order_desc f xs) = set xs"
  by (simp add: order_desc_def)

lemma length_order_desc [simp]: "length (order_desc f xs) = length xs"
  by (simp add: order_desc_def)

lemma order_desc_sorted: "sorted_wrt (\<lambda>x y. f y \<le> f x) (order_desc f xs)"
proof -
  have "sorted_wrt (\<lambda>x y. f x \<le> f y) (sort_key f (rev xs))"
    using sorted_sort_key [of f "rev xs"] by (simp add: sorted_map)
  then show ?thesis by (simp add: order_desc_def sorted_wrt_rev)
qed

lemma limit_to_bound: "length (limit_to n xs) \<le> nat n" "set (limit_to n xs) \<subseteq> set xs"
  by (simp_all add: limit_to_def set_take_subset)

lemma latest_Some: "latest f xs = Some x \<Longrightarrow> x \<in> set xs \<and> (\<forall>y \<in> set xs. f y \<le> f x)"
proof -
  assume "latest f xs = Some x"
  then obtain ys where o: "order_desc f xs = x # ys"
    by (auto simp: latest_def split: list.splits)
  then have "set xs = insert x (set ys)" using set_order_desc [of f xs] by simp
  with order_desc_sorted [of f xs] o show ?thesis by auto
qed

lemma order_desc_Nil [simp]: "order_desc f xs = [] \<longleftrightarrow> xs = []"
  by (metis set_order_desc set_empty)

lemma latest_None [simp]: "latest f xs = None \<longleftrightarrow> xs = []"
  using order_desc_Nil [of f xs] by (auto simp: latest_def simp del: order_desc_Nil split: list.splits)

lemma latest_single: "latest f [x] = Some x"
  by (simp add: latest_def order_desc_def)

lemma latest_ex: "xs \<noteq> [] \<Longrightarrow> \<exists>x. latest f xs = Some x"
  by (cases "latest f xs") auto

text \<open>A pattern built around plain text matches exactly the strings that contain it.\<close>

lemma like_percent_any: "like ''%'' s"
  by (induction s) auto

lemma like_plain:
  assumes "\<forall>c \<in> set p. c \<noteq> CHR ''%'' \<and> c \<noteq> CHR ''_'' \<and> c \<noteq> CHR 0x5C"
  shows "like (p @ q) s \<longleftrightarrow> (\<exists>t. s = p @ t \<and> like q t)"
  using assms
proof (induction p arbitrary: s)
  case (Cons c p)
  then show ?case by (cases s) auto
qed simp

lemma like_contains:
  assumes "\<forall>c \<in> set p. c \<noteq> CHR ''%'' \<and> c \<noteq> CHR ''_'' \<and> c \<noteq> CHR 0x5C"
  shows "like (CHR ''%'' # p @ ''%'') s \<longleftrightarrow> (\<exists>a b. s = a @ p @ b)"
proof (induction s)
  case Nil
  then show ?case using like_plain [OF assms, of "''%''" "[]"] by auto
next
  case (Cons c s)
  have "like (p @ ''%'') (c # s) \<longleftrightarrow> (\<exists>b. c # s = p @ b)"
    using like_plain [OF assms] like_percent_any by auto
  moreover have "(\<exists>a b. c # s = a @ p @ b) \<longleftrightarrow> (\<exists>b. c # s = p @ b) \<or> (\<exists>a b. s = a @ p @ b)"
    by (metis append_Cons append_Nil list.exhaust list.inject)
  ultimately show ?case using Cons.IH by simp
qed

end
