(* ===== verification/Calendar.thy ===== *)
theory Calendar
  imports Json
begin

text \<open>
  Dates and times of day in UTC of an instant in nanoseconds since 1970, as the
  layouts of time.Format in the sources print them.
\<close>

record civil =
  year :: int
  month :: int
  day :: int

definition days_of :: "time \<Rightarrow> int" where "days_of t = t div (24 * hour)"

definition civil_of_days :: "int \<Rightarrow> civil" where
  "civil_of_days d =
     (let z = d + 719468; era = z div 146097; doe = z mod 146097;
          yoe = (doe - doe div 1460 + doe div 36524 - doe div 146096) div 365;
          doy = doe - (365 * yoe + yoe div 4 - yoe div 100);
          mp = (5 * doy + 2) div 153;
          m = (if mp < 10 then mp + 3 else mp - 9)
      in \<lparr> year = yoe + era * 400 + (if m \<le> 2 then 1 else 0), month = m, day = doy - (153 * mp + 2) div 5 + 1 \<rparr>)"

definition civil_of :: "time \<Rightarrow> civil" where "civil_of t = civil_of_days (days_of t)"

definition hour_of :: "time \<Rightarrow> int" where "hour_of t = t div hour mod 24"
definition minute_of :: "time \<Rightarrow> int" where "minute_of t = t div minute mod 60"
definition second_of :: "time \<Rightarrow> int" where "second_of t = t div second mod 60"
definition nanosecond_of :: "time \<Rightarrow> int" where "nanosecond_of t = t mod second"

text \<open>The verb %0nd for a value that is not negative.\<close>

definition pad :: "nat \<Rightarrow> int \<Rightarrow> string" where "pad n i = pad_left n (int_text i)"

definition fmt_date :: "time \<Rightarrow> string" where
  "fmt_date t = pad 4 (year (civil_of t)) @ pad 2 (month (civil_of t)) @ pad 2 (day (civil_of t))"

definition fmt_clock :: "time \<Rightarrow> string" where
  "fmt_clock t = pad 2 (hour_of t) @ pad 2 (minute_of t) @ pad 2 (second_of t)"

text \<open>time.RFC3339 of an instant in UTC.\<close>

definition RFC3339 :: "time \<Rightarrow> string" where
  "RFC3339 t = pad 4 (year (civil_of t)) @ ''-'' @ pad 2 (month (civil_of t)) @ ''-'' @ pad 2 (day (civil_of t))
     @ ''T'' @ pad 2 (hour_of t) @ '':'' @ pad 2 (minute_of t) @ '':'' @ pad 2 (second_of t) @ ''Z''"

lemma clock_bounds:
  "0 \<le> hour_of t \<and> hour_of t < 24" "0 \<le> minute_of t \<and> minute_of t < 60" "0 \<le> second_of t \<and> second_of t < 60"
  "0 \<le> nanosecond_of t \<and> nanosecond_of t < 1000000000"
  by (simp_all add: hour_of_def minute_of_def second_of_def nanosecond_of_def)

lemma nat_text_two: "n < 100 \<Longrightarrow> length (nat_text n) \<le> 2"
  by (subst nat_text.simps) (auto simp: nat_text.simps)

lemma pad_two: "0 \<le> i \<Longrightarrow> i < 100 \<Longrightarrow> length (pad 2 i) = 2"
  using nat_text_two [of "nat i"] by (simp add: pad_def int_text_def)

end
