(* ===== verification/JsonText.thy ===== *)
theory JsonText
  imports Json
begin

text \<open>
  The reader of encoding/json for documents of ASCII text, with the proof that it
  reads what the canonical writer writes.  The fuel of the reader is bounded by the
  length of the text, which the proof shows to be enough.
\<close>

definition is_ws :: "char \<Rightarrow> bool" where
  "is_ws c \<longleftrightarrow> c \<in> set [CHR '' '', CHR 0x09, CHR 0x0A, CHR 0x0D]"

definition skip_ws :: "string \<Rightarrow> string" where "skip_ws = dropWhile is_ws"

definition is_digit :: "char \<Rightarrow> bool" where "is_digit c \<longleftrightarrow> c \<in> set digits"

definition digit_val :: "char \<Rightarrow> nat" where
  "digit_val c = (case map_of (zip digits [0..<10]) c of Some d \<Rightarrow> d | None \<Rightarrow> 0)"

definition digits_val :: "string \<Rightarrow> nat" where
  "digits_val ds = foldl (\<lambda>a c. a * 10 + digit_val c) 0 ds"

section \<open>Numbers\<close>

definition read_exp :: "string \<Rightarrow> (int \<times> string) option" where
  "read_exp s = (case s of
     c # t \<Rightarrow> if c = CHR ''e'' \<or> c = CHR ''E'' then
         (let (sg, u) = (case t of d # u \<Rightarrow> if d = CHR ''-'' then (-1, u) else if d = CHR ''+'' then (1, u) else (1, t)
                         | [] \<Rightarrow> (1, []));
              ds = takeWhile is_digit u
          in if ds = [] then None else Some (sg * int (digits_val ds), dropWhile is_digit u))
       else Some (0, s)
   | [] \<Rightarrow> Some (0, s))"

definition read_frac :: "string \<Rightarrow> (string \<times> string) option" where
  "read_frac s = (case s of
     c # t \<Rightarrow> if c = CHR ''.'' then
         (let ds = takeWhile is_digit t in if ds = [] then None else Some (ds, dropWhile is_digit t))
       else Some ([], s)
   | [] \<Rightarrow> Some ([], s))"

definition scale :: "rat \<Rightarrow> int \<Rightarrow> rat" where
  "scale q e = (if e \<ge> 0 then q * 10 ^ nat e else q / 10 ^ nat (- e))"

definition read_num :: "string \<Rightarrow> (rat \<times> string) option" where
  "read_num s =
     (let (sg, t) = (case s of c # t \<Rightarrow> if c = CHR ''-'' then (-1, t) else (1, s) | [] \<Rightarrow> (1, s));
          ds = takeWhile is_digit t
      in if ds = [] \<or> (hd ds = CHR ''0'' \<and> length ds > 1) then None
         else case read_frac (dropWhile is_digit t) of
           None \<Rightarrow> None
         | Some (fs, u) \<Rightarrow> (case read_exp u of
             None \<Rightarrow> None
           | Some (e, r) \<Rightarrow>
               Some (sg * scale (of_nat (digits_val (ds @ fs)) / 10 ^ length fs) e, r)))"

section \<open>Strings\<close>

definition hex_val :: "char \<Rightarrow> nat option" where
  "hex_val c = map_of (zip ''0123456789abcdefABCDEF'' ([0..<16] @ [10..<16])) c"

definition utf8 :: "nat \<Rightarrow> string" where
  "utf8 n = (if n < 128 then [char_of n]
     else if n < 2048 then [char_of (192 + n div 64), char_of (128 + n mod 64)]
     else if 55296 \<le> n \<and> n < 57344 then [char_of (239::nat), char_of (191::nat), char_of (189::nat)]
     else [char_of (224 + n div 4096), char_of (128 + n div 64 mod 64), char_of (128 + n mod 64)])"

definition simple_escape :: "char \<Rightarrow> char option" where
  "simple_escape c = map_of [(CHR 0x22, CHR 0x22), (CHR 0x5C, CHR 0x5C), (CHR ''/'', CHR ''/''),
     (CHR ''b'', CHR 0x08), (CHR ''f'', CHR 0x0C), (CHR ''n'', CHR 0x0A), (CHR ''r'', CHR 0x0D),
     (CHR ''t'', CHR 0x09)] c"

fun read_str :: "string \<Rightarrow> (string \<times> string) option" where
  "read_str [] = None"
| "read_str (c # s) =
     (if c = CHR 0x22 then Some ([], s)
      else if c = CHR 0x5C then
        (case s of
           [] \<Rightarrow> None
         | d # t \<Rightarrow> if d = CHR ''u'' then
             (case t of
                a1 # a2 # a3 # a4 # u \<Rightarrow> (case (hex_val a1, hex_val a2, hex_val a3, hex_val a4) of
                    (Some x1, Some x2, Some x3, Some x4) \<Rightarrow>
                      map_option (\<lambda>(x, r). (utf8 (((x1 * 16 + x2) * 16 + x3) * 16 + x4) @ x, r)) (read_str u)
                  | _ \<Rightarrow> None)
              | _ \<Rightarrow> None)
           else (case simple_escape d of
               None \<Rightarrow> None
             | Some e \<Rightarrow> map_option (\<lambda>(x, r). (e # x, r)) (read_str t)))
      else if (of_char c :: nat) < 32 then None
      else map_option (\<lambda>(x, r). (c # x, r)) (read_str s))"

section \<open>Values\<close>

definition literal :: "string \<Rightarrow> json \<Rightarrow> string \<Rightarrow> (json \<times> string) option" where
  "literal w v s = (if take (length w) s = w then Some (v, drop (length w) s) else None)"

fun read_value :: "nat \<Rightarrow> string \<Rightarrow> (json \<times> string) option"
and read_elems :: "nat \<Rightarrow> string \<Rightarrow> (json list \<times> string) option"
and read_members :: "nat \<Rightarrow> string \<Rightarrow> ((string \<times> json) list \<times> string) option" where
  "read_value 0 s = None"
| "read_value (Suc n) s = (case skip_ws s of
     [] \<Rightarrow> None
   | c # t \<Rightarrow>
       if c = CHR ''{'' then (case skip_ws t of
           d # u \<Rightarrow> if d = CHR ''}'' then Some (JObj [], u)
             else map_option (\<lambda>(m, r). (JObj m, r)) (read_members n (d # u))
         | [] \<Rightarrow> None)
       else if c = CHR ''['' then (case skip_ws t of
           d # u \<Rightarrow> if d = CHR '']'' then Some (JArr [], u)
             else map_option (\<lambda>(vs, r). (JArr vs, r)) (read_elems n (d # u))
         | [] \<Rightarrow> None)
       else if c = CHR 0x22 then map_option (\<lambda>(x, r). (JStr x, r)) (read_str t)
       else if c = CHR ''t'' then literal ''true'' (JBool True) (c # t)
       else if c = CHR ''f'' then literal ''false'' (JBool False) (c # t)
       else if c = CHR ''n'' then literal ''null'' JNull (c # t)
       else map_option (\<lambda>(q, r). (JNum q, r)) (read_num (c # t)))"
| "read_elems 0 s = None"
| "read_elems (Suc n) s = (case read_value n s of
     None \<Rightarrow> None
   | Some (v, r) \<Rightarrow> (case skip_ws r of
       c # u \<Rightarrow> if c = CHR '','' then map_option (\<lambda>(vs, w). (v # vs, w)) (read_elems n u)
         else if c = CHR '']'' then Some ([v], u) else None
     | [] \<Rightarrow> None))"
| "read_members 0 s = None"
| "read_members (Suc n) s = (case skip_ws s of
     c # t \<Rightarrow> if c \<noteq> CHR 0x22 then None else (case read_str t of
         None \<Rightarrow> None
       | Some (k, r) \<Rightarrow> (case skip_ws r of
           d # u \<Rightarrow> if d \<noteq> CHR '':'' then None else (case read_value n u of
               None \<Rightarrow> None
             | Some (v, w) \<Rightarrow> (case skip_ws w of
                 e # x \<Rightarrow> if e = CHR '','' then map_option (\<lambda>(m, y). ((k, v) # m, y)) (read_members n x)
                   else if e = CHR ''}'' then Some ([(k, v)], x) else None
               | [] \<Rightarrow> None))
         | [] \<Rightarrow> None))
   | [] \<Rightarrow> None)"

definition Unmarshal :: "string \<Rightarrow> json option" where
  "Unmarshal s = (case read_value (length s) s of
     None \<Rightarrow> None
   | Some (v, r) \<Rightarrow> if skip_ws r = [] then Some v else None)"

section \<open>Reading back strings\<close>

lemma hex_roundtrip: "d < 16 \<Longrightarrow> hex_val (hex_char d) = Some d"
proof -
  have "list_all (\<lambda>d. hex_val (hex_char d) = Some d) [0..<16]"
    by (simp add: hex_val_def hex_char_def upt_rec)
  then show "d < 16 \<Longrightarrow> ?thesis" by (simp add: list_all_iff)
qed

lemma of_char_bound: "(of_char c :: nat) < 256" by simp

lemma read_str_escape:
  "read_str (escape_char c @ s) = map_option (\<lambda>(x, r). (c # x, r)) (read_str s)"
proof (cases "(of_char c :: nat) < 32 \<or> c \<in> set ''<>&''")
  case False
  then show ?thesis by (auto simp: escape_char_def simple_escape_def)
next
  case True
  then have n: "(of_char c :: nat) < 128" by auto
  let ?n = "of_char c :: nat"
  have h: "hex_val (hex_char (?n div 16)) = Some (?n div 16)" "hex_val (hex_char (?n mod 16)) = Some (?n mod 16)"
    using n by (auto intro!: hex_roundtrip)
  have z: "hex_val (CHR ''0'') = Some 0" by (simp add: hex_val_def upt_rec)
  have v: "utf8 (?n div 16 * 16 + ?n mod 16) = [c]"
    using n by (simp add: utf8_def)
  show ?thesis
    using True h z v by (auto simp: escape_char_def simple_escape_def)
qed

lemma read_quoted: "read_str (concat (map escape_char x) @ CHR 0x22 # r) = Some (x, r)"
  by (induction x) (simp_all add: read_str_escape)

section \<open>Reading back numbers\<close>

definition decimal :: "rat \<Rightarrow> bool" where
  "decimal q \<longleftrightarrow> find (\<lambda>k. snd (quotient_of q) dvd 10 ^ k) [0..<21] \<noteq> None"

definition delimited :: "string \<Rightarrow> bool" where
  "delimited r \<longleftrightarrow> r = [] \<or> hd r \<in> set '',]}''"

lemma digit_char_props:
  assumes "d < 10"
  shows "is_digit (digit_char d)" "digit_val (digit_char d) = d" "digit_char d = CHR ''0'' \<longleftrightarrow> d = 0"
proof -
  have l: "length digits = 10" "distinct digits" "digits ! 0 = CHR ''0''" by (simp_all add: digits_def)
  show "is_digit (digit_char d)" using assms l(1) by (simp add: is_digit_def digit_char_def)
  show "digit_val (digit_char d) = d"
  proof -
    have "map_of (zip digits [0..<10]) (digits ! d) = Some ([0..<10] ! d)"
      by (rule map_of_zip_nth) (use l(1,2) assms in \<open>simp_all del: upt_Suc\<close>)
    moreover have "[0..<10] ! d = d" using assms nth_upt [of 0 d 10] by simp
    ultimately show ?thesis by (simp only: digit_val_def digit_char_def option.case)
  qed
  show "digit_char d = CHR ''0'' \<longleftrightarrow> d = 0"
    using nth_eq_iff_index_eq [OF l(2), of d 0] assms l(1,3) by (simp add: digit_char_def)
qed

lemma digits_val_single [simp]: "digits_val [c] = digit_val c" "digits_val [] = 0"
  by (simp_all add: digits_val_def)

lemma digits_val_append: "digits_val (a @ b) = digits_val a * 10 ^ length b + digits_val b"
proof -
  have "foldl (\<lambda>a c. a * 10 + digit_val c) x b = x * 10 ^ length b + foldl (\<lambda>a c. a * 10 + digit_val c) 0 b" for x
  proof (induction b arbitrary: x)
    case (Cons c b)
    let ?F = "foldl (\<lambda>a c. a * 10 + digit_val c) 0 b" and ?d = "digit_val c"
    have "foldl (\<lambda>a c. a * 10 + digit_val c) (x * 10 + ?d) b = (x * 10 + ?d) * 10 ^ length b + ?F"
      by (rule Cons.IH)
    moreover have "foldl (\<lambda>a c. a * 10 + digit_val c) ?d b = ?d * 10 ^ length b + ?F"
      by (rule Cons.IH)
    ultimately show ?case by (simp add: distrib_right)
  qed simp
  from this [of "foldl (\<lambda>a c. a * 10 + digit_val c) 0 a"] show ?thesis
    by (simp only: digits_val_def foldl_append)
qed

lemma pad_digits: "\<forall>c \<in> set s. is_digit c \<Longrightarrow> \<forall>c \<in> set (pad_left k s). is_digit c"
proof -
  have "is_digit (CHR ''0'')" by (simp add: is_digit_def digits_def)
  then show "\<forall>c \<in> set s. is_digit c \<Longrightarrow> ?thesis" by auto
qed

lemma digits_val_zeros [simp]: "digits_val (replicate j (CHR ''0'')) = 0"
  by (induction j) (simp_all add: digits_val_def digit_val_def digits_def upt_rec)

lemma nat_text_props:
  "nat_text n \<noteq> [] \<and> (\<forall>c \<in> set (nat_text n). is_digit c) \<and> digits_val (nat_text n) = n
     \<and> (hd (nat_text n) = CHR ''0'' \<longrightarrow> n = 0)"
proof (induction n rule: nat_text.induct)
  case (1 n)
  show ?case
  proof (cases "n < 10")
    case True
    then show ?thesis
      using digit_char_props [of n] by (subst (1 2 3 4) nat_text.simps) simp
  next
    case False
    then have e: "nat_text n = nat_text (n div 10) @ [digit_char (n mod 10)]"
      by (subst nat_text.simps) simp
    have d: "n mod 10 < 10" by simp
    show ?thesis
      using 1 [OF False] digit_char_props [OF d] False
      by (auto simp: e digits_val_append)
  qed
qed

lemma nat_text_length: "n < 10 ^ k \<Longrightarrow> 0 < k \<Longrightarrow> length (nat_text n) \<le> k"
proof (induction n arbitrary: k rule: nat_text.induct)
  case (1 n)
  show ?case
  proof (cases "n < 10")
    case True
    then show ?thesis using 1(3) by (subst nat_text.simps) simp
  next
    case False
    then obtain j where k: "k = Suc j" "0 < j" using 1(2,3) by (cases k; cases "k - 1") auto
    then have "n div 10 < 10 ^ j" using 1(2) by (simp add: div_less_iff_less_mult mult.commute)
    from 1(1) [OF False this k(2)] False k(1) show ?thesis by (subst nat_text.simps) simp
  qed
qed

lemma takeWhile_digits:
  assumes "\<forall>c \<in> set ds. is_digit c" "r = [] \<or> \<not> is_digit (hd r)"
  shows "takeWhile is_digit (ds @ r) = ds" "dropWhile is_digit (ds @ r) = r"
  using assms by (cases r; simp)+

lemma delimited_stop: "delimited r \<Longrightarrow> r = [] \<or> (\<not> is_digit (hd r) \<and> hd r \<notin> set ''.eE'')"
  by (auto simp: delimited_def is_digit_def digits_def)

lemma read_num_decimal:
  assumes "\<forall>c \<in> set a. is_digit c" "a \<noteq> []" "hd a = CHR ''0'' \<Longrightarrow> length a = 1"
    and "\<forall>c \<in> set f. is_digit c" "delimited r"
  shows "read_num ((if neg then ''-'' else []) @ a @ (if f = [] then [] else ''.'' @ f) @ r)
     = Some ((if neg then -1 else 1) * (of_nat (digits_val (a @ f)) / 10 ^ length f), r)"
proof -
  let ?t = "(if f = [] then [] else ''.'' @ f) @ r"
  have stop: "?t = [] \<or> \<not> is_digit (hd ?t)"
    using delimited_stop [OF assms(5)] by (auto simp: is_digit_def digits_def)
  have d: "hd a \<noteq> CHR ''-''" using assms(1,2) by (cases a) (auto simp: is_digit_def digits_def)
  have frac: "read_frac ?t = Some (f, r)"
    using assms(4) takeWhile_digits [of f r] delimited_stop [OF assms(5)]
    by (cases r; cases f) (auto simp: read_frac_def Let_def takeWhile_eq_all_conv dropWhile_eq_Nil_conv)
  have ex: "read_exp r = Some (0, r)"
    using delimited_stop [OF assms(5)] by (cases r) (auto simp: read_exp_def)
  have sg: "(case (if neg then ''-'' else []) @ a @ ?t of c # t \<Rightarrow> if c = CHR ''-'' then (- 1, t)
        else (1 :: rat, (if neg then ''-'' else []) @ a @ ?t) | [] \<Rightarrow> (1, (if neg then ''-'' else []) @ a @ ?t))
      = ((if neg then -1 else 1), a @ ?t)"
    using assms(2) d by (cases a) auto
  show ?thesis
    unfolding read_num_def sg
    using assms(2,3) takeWhile_digits [OF assms(1) stop] frac ex
    by (simp add: scale_def)
qed

lemma read_num_text:
  assumes "decimal q" "delimited r"
  shows "read_num (num_text q @ r) = Some (q, r)"
proof -
  obtain n d where nd: "quotient_of q = (n, d)" by (cases "quotient_of q")
  then obtain k where k: "find (\<lambda>k. d dvd 10 ^ k) [0..<21] = Some k"
    using assms(1) by (auto simp: decimal_def)
  then have dvd: "d dvd 10 ^ k" by (auto simp: find_Some_iff)
  have d0: "0 < d" using nd by (rule quotient_of_denom_pos)
  have q: "q = of_int n / of_int d" using nd by (rule quotient_of_div)
  let ?m = "nat (\<bar>n\<bar> * 10 ^ k div d)"
  let ?a = "nat_text (?m div 10 ^ k)" and ?f = "if k = 0 then [] else pad_left k (nat_text (?m mod 10 ^ k))"
  have tx: "num_text q = (if n < 0 then ''-'' else []) @ ?a @ (if ?f = [] then [] else ''.'' @ ?f)"
    using nat_text_props [of "?m mod 10 ^ k"] by (simp add: num_text_def nd k Let_def)
  have lf: "length ?f = k"
  proof (cases "k = 0")
    case False
    have "?m mod 10 ^ k < 10 ^ k" by simp
    from nat_text_length [OF this] False show ?thesis by simp
  qed simp
  have "digits_val ?f = ?m mod 10 ^ k"
    using nat_text_props [of "?m mod 10 ^ k"] by (simp add: digits_val_append)
  then have val: "digits_val (?a @ ?f) = ?m"
    using nat_text_props [of "?m div 10 ^ k"] by (simp only: digits_val_append lf div_mult_mod_eq)
  have "of_nat ?m * of_int d = (of_int \<bar>n\<bar> * 10 ^ k :: rat)"
  proof -
    have "\<bar>n\<bar> * 10 ^ k div d * d = \<bar>n\<bar> * 10 ^ k" using dvd by simp
    moreover have "0 \<le> \<bar>n\<bar> * 10 ^ k div d" using d0 by (simp add: pos_imp_zdiv_nonneg_iff)
    ultimately have "int ?m * d = \<bar>n\<bar> * 10 ^ k" by simp
    then have "(of_int (int ?m * d) :: rat) = of_int (\<bar>n\<bar> * 10 ^ k)" by (rule arg_cong)
    then show ?thesis
      by (simp only: of_int_mult of_int_of_nat_eq of_int_power of_int_numeral)
  qed
  then have "(of_nat ?m / 10 ^ k :: rat) = of_int \<bar>n\<bar> / of_int d"
    using d0 by (simp add: field_simps)
  then have "(if n < 0 then -1 else 1) * (of_nat ?m / 10 ^ k) = q"
    using q by (simp add: abs_if)
  moreover have "read_num (num_text q @ r) = Some ((if n < 0 then -1 else 1) * (of_nat (digits_val (?a @ ?f)) / 10 ^ length ?f), r)"
    unfolding tx append_assoc
  proof (rule read_num_decimal)
    show "\<forall>c \<in> set ?a. is_digit c" "?a \<noteq> []" using nat_text_props by blast+
    show "length ?a = 1" if "hd ?a = CHR ''0''"
    proof -
      have "?m div 10 ^ k = 0" using nat_text_props that by blast
      then show ?thesis by (simp add: nat_text.simps)
    qed
    show "\<forall>c \<in> set ?f. is_digit c"
      using pad_digits [of "nat_text (?m mod 10 ^ k)" k] nat_text_props [of "?m mod 10 ^ k"]
      by (cases "k = 0") (simp_all del: pad_left.simps)
  qed (rule assms(2))
  ultimately show ?thesis unfolding val lf by simp
qed

section \<open>Reading back documents\<close>

fun decimals :: "json \<Rightarrow> bool" where
  "decimals (JNum q) = decimal q"
| "decimals (JArr vs) = list_all decimals vs"
| "decimals (JObj kvs) = list_all (\<lambda>(k, v). decimals v) kvs"
| "decimals _ = True"

fun jnorm :: "json \<Rightarrow> json" where
  "jnorm (JObj kvs) = JObj (members (map (\<lambda>(k, v). (k, jnorm v)) kvs))"
| "jnorm (JArr vs) = JArr (map jnorm vs)"
| "jnorm v = v"

lemma clearjunk_map: "AList.clearjunk (map (apsnd f) xs) = map (apsnd f) (AList.clearjunk xs)"
proof (induction xs rule: AList.clearjunk.induct)
  case (2 x xs)
  have "AList.delete k (map (apsnd f) xs) = map (apsnd f) (AList.delete k xs)" for k
    by (induction xs) auto
  with 2 show ?case by simp
qed simp

lemma members_map:
  fixes kvs :: "(string \<times> 'b) list" and f :: "'b \<Rightarrow> 'c"
  shows "members (map (apsnd f) kvs) = map (apsnd f) (members kvs)"
proof -
  have "sort_key fst (map (apsnd f) xs) = map (apsnd f) (sort_key fst xs)" for xs :: "(string \<times> 'b) list"
  proof -
    have "insort_key fst (apsnd f x) (map (apsnd f) ys) = map (apsnd f) (insort_key fst x ys)"
      for x and ys :: "(string \<times> 'b) list"
      by (induction ys) auto
    then show ?thesis by (induction xs) (simp_all add: sort_key_def)
  qed
  then show ?thesis by (simp add: members_def rev_map clearjunk_map)
qed

lemma members_subset: "(k, v) \<in> set (members kvs) \<Longrightarrow> (k, v) \<in> set kvs"
  by (auto simp: set_members dest: map_of_rev_Some)

definition member_text :: "string \<times> json \<Rightarrow> string" where
  "member_text m = quote_text (fst m) @ '':'' @ writeCanonical (snd m)"

lemma writeCanonical_members:
  "writeCanonical (JObj kvs) = ''{'' @ join '','' (map member_text (members kvs)) @ ''}''"
proof -
  have "map (\<lambda>(k, v). (k, writeCanonical v)) kvs = map (apsnd writeCanonical) kvs" by auto
  moreover have "map (\<lambda>(k, s). quote_text k @ '':'' @ s) (map (apsnd writeCanonical) ms) = map member_text ms" for ms
    by (induction ms) (auto simp: member_text_def)
  ultimately show ?thesis by (simp only: writeCanonical.simps members_map)
qed

lemma jnorm_members: "jnorm (JObj kvs) = JObj (map (apsnd jnorm) (members kvs))"
proof -
  have "map (\<lambda>(k, v). (k, jnorm v)) kvs = map (apsnd jnorm) kvs" by auto
  then show ?thesis by (simp only: jnorm.simps members_map)
qed

lemma value_of_JObj: "value_of (JObj kvs) = GMap (map_of (rev (map (apsnd value_of) kvs)))"
  by (simp add: apsnd_def)

lemma map_of_rev_apsnd: "map_of (rev (map (apsnd f) kvs)) k = map_option f (map_of (rev kvs) k)"
  using map_of_rev_map [of f kvs k] by (simp add: apsnd_def)

lemma value_of_jnorm: "value_of (jnorm v) = value_of v"
proof (induction v)
  case (JObj kvs)
  have d: "distinct (map fst (members kvs))"
  proof -
    have "mset (map fst (members kvs)) = mset (map fst (AList.clearjunk (rev kvs)))"
      by (simp add: members_def)
    then show ?thesis by (metis distinct_clearjunk mset_eq_imp_distinct_iff)
  qed
  have same: "map_of (rev (members kvs)) = map_of (rev kvs)"
  proof
    fix k
    have "map_of (rev (members kvs)) k = map_of (members kvs) k" for k
      using map_of_inject_set [of "rev (members kvs)" "members kvs"] d by (simp add: rev_map [symmetric])
    moreover have "map_of (members kvs) k = Some v \<longleftrightarrow> map_of (rev kvs) k = Some v" for v
      using map_of_eq_Some_iff [OF d, of k v] set_members [of kvs] by auto
    ultimately show "map_of (rev (members kvs)) k = map_of (rev kvs) k"
      by (metis not_None_eq)
  qed
  have "map_option value_of (map_option jnorm (map_of (rev kvs) k)) = map_option value_of (map_of (rev kvs) k)" for k
    using JObj.IH [OF map_of_rev_Some, of k] by (cases "map_of (rev kvs) k") auto
  then show ?case
    unfolding jnorm_members value_of_JObj by (simp only: fun_eq_iff map_of_rev_apsnd same gval.inject simp_thms)
qed (auto simp: list.map_comp)

lemma first_char:
  "\<exists>c t. writeCanonical v = c # t \<and> \<not> is_ws c \<and> c \<noteq> CHR ''}'' \<and> c \<noteq> CHR '']''
     \<and> (\<forall>q. v = JNum q \<longrightarrow> c \<notin> set ''{[tfn'' \<and> c \<noteq> CHR 0x22)"
proof (cases v)
  case (JNum q)
  obtain n d where nd: "quotient_of q = (n, d)" by (cases "quotient_of q")
  have "\<exists>c t. num_text q = c # t \<and> (c = CHR ''-'' \<or> is_digit c)"
  proof (cases "n < 0")
    case True
    then show ?thesis by (simp add: num_text_def nd Let_def)
  next
    case False
    have "\<exists>c t. nat_text k = c # t \<and> is_digit c" for k
      using nat_text_props [of k] by (cases "nat_text k") auto
    with False show ?thesis by (simp add: num_text_def nd Let_def) (metis append_Cons)
  qed
  with JNum show ?thesis by (auto simp: is_digit_def digits_def is_ws_def)
qed (auto simp: is_ws_def quote_text_def)

lemma skip_ws_Cons [simp]: "\<not> is_ws c \<Longrightarrow> skip_ws (c # t) = c # t"
  by (simp add: skip_ws_def)

lemma ws_punct [simp]: "\<not> is_ws (CHR '','')" "\<not> is_ws (CHR '':'')" "\<not> is_ws (CHR ''}'')"
  "\<not> is_ws (CHR '']'')" "\<not> is_ws (CHR 0x22)" "\<not> is_ws (CHR ''{'')" "\<not> is_ws (CHR ''['')"
  by (simp_all add: is_ws_def)

lemma delimited_punct [simp]: "delimited (CHR '','' # r)" "delimited (CHR ''}'' # r)" "delimited (CHR '']'' # r)" "delimited []"
  by (simp_all add: delimited_def)

definition reads_back :: "json \<Rightarrow> bool" where
  "reads_back v \<longleftrightarrow> (\<forall>n r. length (writeCanonical v) \<le> n \<longrightarrow> delimited r \<longrightarrow>
     read_value n (writeCanonical v @ r) = Some (jnorm v, r))"

lemma read_elems_back:
  assumes "vs \<noteq> []" "\<forall>v \<in> set vs. reads_back v" "length (join '','' (map writeCanonical vs)) < n"
  shows "read_elems n (join '','' (map writeCanonical vs) @ CHR '']'' # r) = Some (map jnorm vs, r)"
  using assms
proof (induction vs arbitrary: n)
  case (Cons v vs)
  then obtain m where n: "n = Suc m" by (cases n) auto
  have rv: "delimited r' \<Longrightarrow> read_value m (writeCanonical v @ r') = Some (jnorm v, r')" for r'
    using Cons.prems n by (cases vs) (auto simp: reads_back_def)
  show ?case
  proof (cases vs)
    case Nil
    then show ?thesis by (simp add: n rv)
  next
    case (Cons w ws)
    have "read_elems m (join '','' (map writeCanonical vs) @ CHR '']'' # r) = Some (map jnorm vs, r)"
      by (rule Cons.IH) (use Cons.prems n Cons in auto)
    then show ?thesis by (simp add: n rv Cons)
  qed
qed simp

lemma read_members_back:
  assumes "ms \<noteq> []" "\<forall>m \<in> set ms. reads_back (snd m)" "length (join '','' (map member_text ms)) < n"
  shows "read_members n (join '','' (map member_text ms) @ CHR ''}'' # r) = Some (map (apsnd jnorm) ms, r)"
  using assms
proof (induction ms arbitrary: n)
  case (Cons kv ms)
  obtain k v where kv: "kv = (k, v)" by (cases kv)
  obtain j where n: "n = Suc j" using Cons.prems(3) by (cases n) auto
  have rv: "delimited r' \<Longrightarrow> read_value j (writeCanonical v @ r') = Some (jnorm v, r')" for r'
    using Cons.prems n kv by (cases ms) (auto simp: reads_back_def member_text_def)
  have q: "quote_text k @ s = CHR 0x22 # concat (map escape_char k) @ CHR 0x22 # s" for s
    by (simp add: quote_text_def)
  show ?case
  proof (cases ms)
    case Nil
    then show ?thesis by (simp add: n kv member_text_def q read_quoted rv)
  next
    case (Cons m ms')
    have "read_members j (join '','' (map member_text ms) @ CHR ''}'' # r) = Some (map (apsnd jnorm) ms, r)"
      by (rule Cons.IH) (use Cons.prems n Cons in \<open>auto simp: kv member_text_def\<close>)
    then show ?thesis by (simp add: n kv Cons member_text_def [of "(k, v)"] q read_quoted rv)
  qed
qed simp

lemma reads_backI:
  assumes "\<And>m r. length (writeCanonical v) \<le> Suc m \<Longrightarrow> delimited r \<Longrightarrow>
    read_value (Suc m) (writeCanonical v @ r) = Some (jnorm v, r)"
  shows "reads_back v"
  unfolding reads_back_def
proof (intro allI impI)
  fix n r assume n: "length (writeCanonical v) \<le> n" "delimited r"
  moreover have "writeCanonical v \<noteq> []" using first_char [of v] by auto
  ultimately obtain m where "n = Suc m" by (cases n) auto
  with n assms show "read_value n (writeCanonical v @ r) = Some (jnorm v, r)" by simp
qed

lemma reads_back_all: "decimals v \<Longrightarrow> reads_back v"
proof (induction v)
  case (JNum q)
  obtain c t where c: "num_text q = c # t" "\<not> is_ws c" "c \<notin> set ''{[tfn''" "c \<noteq> CHR 0x22"
    using first_char [of "JNum q"] by auto
  have "read_value n (num_text q @ r) = Some (JNum q, r)" if "length (num_text q) \<le> n" "delimited r" for n r
  proof -
    have "0 < n" using that(1) c(1) by (metis length_greater_0_conv list.distinct(1) less_le_trans)
    then obtain m where "n = Suc m" by (cases n) auto
    moreover have "read_num (c # t @ r) = Some (q, r)"
      using read_num_text [of q r] JNum that(2) c(1) by simp
    ultimately show ?thesis using c by simp
  qed
  then show ?case by (simp add: reads_back_def)
next
  case (JArr vs)
  have all: "\<forall>v \<in> set vs. reads_back v" using JArr by (auto simp: list_all_iff)
  show ?case
  proof (cases "vs = []")
    case True
    have "read_value n (writeCanonical (JArr vs) @ r) = Some (jnorm (JArr vs), r)"
      if "length (writeCanonical (JArr vs)) \<le> n" for n r
      using that by (cases n) (simp_all add: True)
    then show ?thesis by (simp add: reads_back_def)
  next
    case False
    obtain c t where c: "join '','' (map writeCanonical vs) = c # t" "\<not> is_ws c" "c \<noteq> CHR '']''"
      using False first_char [of "hd vs"] by (cases vs; cases "tl vs") auto
    have "read_value n (writeCanonical (JArr vs) @ r) = Some (jnorm (JArr vs), r)"
      if len: "length (writeCanonical (JArr vs)) \<le> n" for n r
    proof -
      obtain m where m: "n = Suc m" "length (join '','' (map writeCanonical vs)) < m"
        using len by (cases n) auto
      have "read_elems m (c # t @ CHR '']'' # r) = Some (map jnorm vs, r)"
        using read_elems_back [OF False all m(2)] c(1) by simp
      then show ?thesis using c by (simp add: m(1))
    qed
    then show ?thesis by (simp add: reads_back_def)
  qed
next
  case (JObj kvs)
  have all: "\<forall>m \<in> set (members kvs). reads_back (snd m)"
    using JObj members_subset by (fastforce simp: list_all_iff)
  show ?case
  proof (cases "members kvs = []")
    case True
    have "read_value n (writeCanonical (JObj kvs) @ r) = Some (jnorm (JObj kvs), r)"
      if "length (writeCanonical (JObj kvs)) \<le> n" for n r
      using that unfolding writeCanonical_members jnorm_members by (cases n) (simp_all add: True)
    then show ?thesis by (simp add: reads_back_def)
  next
    case False
    obtain t where t: "join '','' (map member_text (members kvs)) = CHR 0x22 # t"
      using False by (cases "members kvs"; cases "tl (members kvs)") (auto simp: member_text_def quote_text_def)
    have "read_value n (writeCanonical (JObj kvs) @ r) = Some (jnorm (JObj kvs), r)"
      if len: "length (writeCanonical (JObj kvs)) \<le> n" for n r
    proof -
      obtain m where m: "n = Suc m" "length (join '','' (map member_text (members kvs))) < m"
        using len unfolding writeCanonical_members by (cases n) auto
      have "read_members m (CHR 0x22 # t @ CHR ''}'' # r) = Some (map (apsnd jnorm) (members kvs), r)"
        using read_members_back [OF False all m(2)] t by simp
      then show ?thesis unfolding writeCanonical_members jnorm_members m(1) by (simp add: t)
    qed
    then show ?thesis by (simp add: reads_back_def)
  qed
qed (rule reads_backI; auto simp: literal_def quote_text_def read_quoted is_ws_def)+

text \<open>
  C31: reading the canonical text of a payload gives back the payload, as a Go
  value: so the signature covers the whole request, two requests with the same
  signed text carry the same values, and the text never confuses a string, a
  number, a member or a nesting with another.
\<close>
theorem canonical_roundtrip:
  assumes "decimals v"
  shows "\<exists>w. Unmarshal (writeCanonical v) = Some w \<and> value_of w = value_of v"
proof -
  have "read_value (length (writeCanonical v)) (writeCanonical v @ []) = Some (jnorm v, [])"
    using reads_back_all [OF assms] unfolding reads_back_def by (metis delimited_punct(4) order_refl)
  then have "Unmarshal (writeCanonical v) = Some (jnorm v)"
    by (simp add: Unmarshal_def skip_ws_def)
  then show ?thesis using value_of_jnorm by blast
qed

theorem canonical_roundtrip_witness:
  "\<exists>w. Unmarshal (writeCanonical (JObj [(''ref'', JStr ''a<b''), (''amount'', JNum 250), (''n'', JArr [JNull, JBool True])])) = Some w
     \<and> value_of w = value_of (JObj [(''ref'', JStr ''a<b''), (''amount'', JNum 250), (''n'', JArr [JNull, JBool True])])"
  by (rule canonical_roundtrip) (simp add: decimal_def upt_rec)

end
