(* ===== verification/Helpers.thy ===== *)
theory Helpers
  imports Calendar JsonText Http "HOL-Library.Word"
begin

text \<open>
  internal/common/helpers.go: the identifiers the gateway generates, from the
  instant of the call and the process-wide 32-bit counter, and the readers that
  pick codes and ids out of the bank's answers.  A struct is decoded as
  encoding/json does: a name matches without regard to case, repeated
  objects merge, and a member of another type leaves its field unset.
\<close>

definition GenerateSTAN :: "time \<Rightarrow> string \<Rightarrow> string" where
  "GenerateSTAN now sourceApp =
     (let n = length sourceApp;
          suffix = (if n \<ge> 4 then drop (n - 4) sourceApp
                    else if n > 0 then Repeat ''0'' (4 - n) @ sourceApp else ''0000'')
      in suffix @ fmt_clock now @ pad 2 (nanosecond_of now div 10000000))"

definition NewRequestID :: "time \<Rightarrow> 32 word \<Rightarrow> string \<times> 32 word" where
  "NewRequestID now requestSeq =
     (let next = requestSeq + 1; n = unat next mod 1000
      in (''REQ-'' @ fmt_date now @ fmt_clock now @ ''-''
            @ pad 3 (nanosecond_of now div 1000000) @ pad 3 (int n), next))"

definition is_alnum_upper :: "char \<Rightarrow> bool" where
  "is_alnum_upper c \<longleftrightarrow> c \<in> set upper_letters \<or> c \<in> set digits"

definition sanitizeAlphaNumUpper :: "string \<Rightarrow> string" where
  "sanitizeAlphaNumUpper s = (if blank s then [] else filter is_alnum_upper (ToUpper (TrimSpace s)))"

definition NewBFSOrderNo :: "time \<Rightarrow> string \<Rightarrow> string" where
  "NewBFSOrderNo now reference =
     (let trimmed = TrimSpace reference; n = length trimmed;
          suffix = sanitizeAlphaNumUpper (if n \<ge> 6 then drop (n - 6) trimmed else trimmed);
          suffix = (if suffix = [] then int_text (now div second mod 1000000) else suffix)
      in ''BFS-'' @ drop 2 (fmt_date now) @ fmt_clock now @ ''-'' @ suffix)"

section \<open>Decoding answers\<close>

definition sub_object :: "string \<Rightarrow> (string \<times> json) list \<Rightarrow> (string \<times> json) list" where
  "sub_object name kvs = concat (map (\<lambda>(k, v). if EqualFold k name then (case v of JObj ms \<Rightarrow> ms | _ \<Rightarrow> []) else []) kvs)"

definition root_object :: "string \<Rightarrow> (string \<times> json) list" where
  "root_object raw = (case Unmarshal raw of Some (JObj kvs) \<Rightarrow> kvs | _ \<Rightarrow> [])"

definition or_else :: "string \<Rightarrow> string \<Rightarrow> string" where
  "or_else a b = (if TrimSpace a \<noteq> [] then TrimSpace a else TrimSpace b)"

definition ExtractResponseCode :: "string \<Rightarrow> string \<times> string" where
  "ExtractResponseCode raw =
     (let res = root_object raw; inner = sub_object ''response'' res;
          code = or_else (field ''response_code'' res) (field ''response_code'' inner);
          msg = or_else (field ''response_message'' res) (field ''response_message'' inner);
          desc = or_else (field ''response_description'' res) (field ''response_description'' inner)
      in (code, if msg = [] then desc else msg))"

definition ExtractBFSTxnID :: "string \<Rightarrow> string" where
  "ExtractBFSTxnID raw =
     (let res = root_object raw in
      or_else (field ''bfs_txn_id'' (sub_object ''response_data'' res))
        (field ''bfs_txn_id'' (sub_object ''response_data'' (sub_object ''response'' res))))"

definition ExtractBFSOrderNo :: "string \<Rightarrow> string" where
  "ExtractBFSOrderNo raw =
     (let res = root_object raw; d = sub_object ''response_data'' res;
          d2 = sub_object ''response_data'' (sub_object ''response'' res);
          v = or_else (field ''bfs_orderNo'' d) (field ''bfs_order_no'' d)
      in if v \<noteq> [] then v else or_else (field ''bfs_orderNo'' d2) (field ''bfs_order_no'' d2))"

section \<open>Facts\<close>

lemma or_else_trimmed [simp]: "TrimSpace (or_else a b) = or_else a b"
  by (simp add: or_else_def)

lemma ExtractBFSTxnID_trimmed: "TrimSpace (ExtractBFSTxnID raw) = ExtractBFSTxnID raw"
  by (simp add: ExtractBFSTxnID_def Let_def)

text \<open>
  A generated STAN always has 12 characters: the last four of the source app,
  padded with zeros, and eight digits of the time of day.
\<close>
lemma stan_has_twelve_characters:
  "length (GenerateSTAN now app) = 12 \<and> drop 4 (GenerateSTAN now app) = fmt_clock now @ pad 2 (nanosecond_of now div 10000000)"
proof -
  have "length (fmt_clock now) = 6"
    using clock_bounds [of now] by (simp add: fmt_clock_def pad_two)
  moreover have "length (pad 2 (nanosecond_of now div 10000000)) = 2"
    using clock_bounds(4) [of now] by (intro pad_two) linarith+
  ultimately show ?thesis
    by (auto simp: GenerateSTAN_def Let_def Repeat_def)
qed

lemma sanitizeAlphaNumUpper_set: "\<forall>c \<in> set (sanitizeAlphaNumUpper s). is_alnum_upper c"
  by (simp add: sanitizeAlphaNumUpper_def)

end
