(* ===== verification/PaymentStore.thy ===== *)
theory PaymentStore
  imports RoutingSteps Sql Helpers Strings
begin

text \<open>
  The transaction tables of internal/storage/repository.go and
  internal/storage/transaction_routing.go.  A table is the list of its rows in
  the order of insertion; now() is an argument.  The unique index on app and order
  id and the foreign key of the credential identity, both of
  migrations_merchant_routing.go, and the unique index on the inquiry id of
  internal/storage/db.go decide when an insert fails; the other
  constraints of the base table are not part of the sources.  The CHECK on
  routing_mode cannot fail after validateMerchantRouting.  Connections that
  break are not modelled.
\<close>

section \<open>Rows\<close>

record merchant_link =
  ml_ExternalAppID :: string
  ml_ExternalMerchantReference :: string
  ml_RecipientID :: string
  ml_GatewayProvider :: string
  ml_CredentialID :: string
  ml_CredentialVersion :: int
  ml_RoutingMode :: string

record PullPaymentRecord = merchant_link +
  pp_OrderID :: string
  pp_InquiryID :: string
  pp_STAN :: string
  pp_BFSTxnID :: string
  pp_BFSRequestID :: string
  pp_BFSOrderNo :: string
  pp_Amount :: rat
  pp_TransactionFee :: rat
  pp_RemitterAccount :: string
  pp_RemitterName :: string
  pp_RemitterPhone :: string
  pp_EmailID :: string
  pp_RemitterBank :: string
  pp_BeneficiaryAccount :: string
  pp_TransactionDatetime :: time
  pp_PaymentDesc :: string
  pp_Currency :: string
  pp_Status :: string
  pp_ErrorCode :: string
  pp_ErrorMessage :: string
  pp_CreatedAt :: time

record payment_row = PullPaymentRecord +
  pt_ID :: int
  pt_UpdatedAt :: time
  pt_CompletedAt :: "time option"

record IntraInquiryRecord = merchant_link +
  iq_InquiryID :: string
  iq_OrderID :: string
  iq_BeneficiaryAccount :: string
  iq_Amount :: rat
  iq_Status :: string
  iq_ErrorCode :: string
  iq_ErrorMessage :: string

record payment_db =
  pd_routing :: routing_db
  pd_payments :: "payment_row list"
  pd_inquiries :: "IntraInquiryRecord list"
  pd_next_id :: int

datatype store_error = ErrNoRows | StoreError string

section \<open>Merchant routing of a new row\<close>

definition validateMerchantRouting :: "'a merchant_link_scheme \<Rightarrow> string option" where
  "validateMerchantRouting l =
     (if ml_RoutingMode l \<noteq> ''merchant'' then Some ''new payment transactions must use merchant routing''
      else if blank (ml_ExternalAppID l) \<or> blank (ml_ExternalMerchantReference l) \<or> blank (ml_RecipientID l)
         \<or> blank (ml_GatewayProvider l) \<or> blank (ml_CredentialID l) \<or> ml_CredentialVersion l \<le> 0
      then Some ''merchant routing metadata is incomplete''
      else None)"

text \<open>The casts to uuid of an insert, and the foreign key of the credential identity.\<close>

definition cast_link :: "routing_db \<Rightarrow> 'a merchant_link_scheme \<Rightarrow> 'a merchant_link_scheme option" where
  "cast_link db l = (case (uuid_of db (ml_RecipientID l), uuid_of db (ml_CredentialID l)) of
     (Some r, Some c) \<Rightarrow> Some (l\<lparr>ml_RecipientID := r, ml_CredentialID := c\<rparr>)
   | _ \<Rightarrow> None)"

definition link_of :: "'a merchant_link_scheme \<Rightarrow> string \<times> string \<times> string \<times> string \<times> string \<times> int" where
  "link_of l = (ml_ExternalAppID l, ml_ExternalMerchantReference l, ml_RecipientID l, ml_GatewayProvider l,
     ml_CredentialID l, ml_CredentialVersion l)"

definition links_credential :: "'a merchant_link_scheme \<Rightarrow> GatewayCredentialConfiguration \<Rightarrow> bool" where
  "links_credential l c \<longleftrightarrow> gc_ID c = ml_CredentialID l \<and> gc_RecipientID c = ml_RecipientID l
     \<and> gc_Provider c = ml_GatewayProvider l \<and> gc_Version c = ml_CredentialVersion l"

definition credential_exists :: "routing_db \<Rightarrow> 'a merchant_link_scheme \<Rightarrow> bool" where
  "credential_exists db l \<longleftrightarrow> (\<exists>c \<in> set (credentials db). links_credential l c)"

text \<open>
  An INSERT with these constraints: the row with its uuids in canonical form, or
  the text of the error; taken says that the unique index has the key already.
\<close>

definition insert_link :: "routing_db \<Rightarrow> string \<Rightarrow> bool \<Rightarrow> 'a merchant_link_scheme \<Rightarrow> string + 'a merchant_link_scheme" where
  "insert_link db index taken l = (case validateMerchantRouting l of
     Some e \<Rightarrow> Inl e
   | None \<Rightarrow> (case cast_link db l of
       None \<Rightarrow> Inl invalid_uuid
     | Some l' \<Rightarrow>
         if taken then Inl (unique_violation index)
         else if \<not> credential_exists db l' then Inl foreign_key_violation
         else Inr l'))"

section \<open>Payments\<close>

definition payment_key :: "payment_row \<Rightarrow> string \<times> string" where
  "payment_key p = (ml_ExternalAppID p, pp_OrderID p)"

definition payment_row_of :: "time \<Rightarrow> int \<Rightarrow> PullPaymentRecord \<Rightarrow> payment_row" where
  "payment_row_of now i p = PullPaymentRecord.extend (p\<lparr>pp_CreatedAt := now\<rparr>)
     (payment_row.fields i now None)"

definition CreatePullPayment :: "time \<Rightarrow> PullPaymentRecord \<Rightarrow> payment_db \<Rightarrow> (store_error + unit) \<times> payment_db" where
  "CreatePullPayment now p db =
     (case insert_link (pd_routing db) ''payment_transactions_app_order_id_uniq''
             ((ml_ExternalAppID p, pp_OrderID p) \<in> set (map payment_key (pd_payments db))) p of
        Inl e \<Rightarrow> (Inl (StoreError e), db)
      | Inr p' \<Rightarrow> (Inr (), db\<lparr>pd_payments := pd_payments db @ [payment_row_of now (pd_next_id db) p'],
                            pd_next_id := pd_next_id db + 1\<rparr>))"

definition requireOneAffectedRow :: "nat \<Rightarrow> store_error + unit" where
  "requireOneAffectedRow affected = (if affected \<noteq> 1 then Inl ErrNoRows else Inr ())"

text \<open>UPDATE of every row of an app and a STAN; the STAN is not unique.\<close>

definition at_stan :: "string \<Rightarrow> string \<Rightarrow> payment_row \<Rightarrow> bool" where
  "at_stan appID stan p \<longleftrightarrow> ml_ExternalAppID p = appID \<and> pp_STAN p = stan"

definition update_payments :: "(payment_row \<Rightarrow> bool) \<Rightarrow> (payment_row \<Rightarrow> payment_row) \<Rightarrow> payment_db
    \<Rightarrow> (store_error + unit) \<times> payment_db" where
  "update_payments P f db =
     (requireOneAffectedRow (length (filter P (pd_payments db))),
      db\<lparr>pd_payments := map (\<lambda>p. if P p then f p else p) (pd_payments db)\<rparr>)"

definition UpdatePullPaymentStatus :: "time \<Rightarrow> string \<Rightarrow> string \<Rightarrow> string \<Rightarrow> string \<Rightarrow> string \<Rightarrow> payment_db
    \<Rightarrow> (store_error + unit) \<times> payment_db" where
  "UpdatePullPaymentStatus now appID stan st errorCode errorMessage =
     update_payments (at_stan appID stan) (\<lambda>p. p\<lparr>pp_Status := st, pp_ErrorCode := errorCode, pp_ErrorMessage := errorMessage,
       pt_UpdatedAt := now,
       pt_CompletedAt := (if st \<in> {''COMPLETED'', ''FAILED''} then Some now else pt_CompletedAt p)\<rparr>)"

definition UpdateBFSTxnID :: "time \<Rightarrow> string \<Rightarrow> string \<Rightarrow> string \<Rightarrow> payment_db \<Rightarrow> (store_error + unit) \<times> payment_db" where
  "UpdateBFSTxnID now appID stan bfsTxnID =
     update_payments (at_stan appID stan) (\<lambda>p. p\<lparr>pp_BFSTxnID := bfsTxnID, pt_UpdatedAt := now\<rparr>)"

definition UpdateBFSOrderNo :: "time \<Rightarrow> string \<Rightarrow> string \<Rightarrow> string \<Rightarrow> payment_db \<Rightarrow> (store_error + unit) \<times> payment_db" where
  "UpdateBFSOrderNo now appID stan bfsOrderNo =
     update_payments (at_stan appID stan) (\<lambda>p. p\<lparr>pp_BFSOrderNo := bfsOrderNo, pt_UpdatedAt := now\<rparr>)"

definition UpdateConfirmMeta :: "time \<Rightarrow> string \<Rightarrow> string \<Rightarrow> string \<Rightarrow> string \<Rightarrow> payment_db
    \<Rightarrow> (store_error + unit) \<times> payment_db" where
  "UpdateConfirmMeta now appID stan requestID orderNo =
     update_payments (at_stan appID stan)
       (\<lambda>p. p\<lparr>pp_BFSRequestID := requestID, pp_BFSOrderNo := orderNo, pt_UpdatedAt := now\<rparr>)"

definition UpdateOrderIDStatus :: "time \<Rightarrow> string \<Rightarrow> string \<Rightarrow> string \<Rightarrow> string \<Rightarrow> payment_db \<Rightarrow> payment_db" where
  "UpdateOrderIDStatus now orderID st errorCode errorMessage db =
     (if blank orderID then db
      else snd (update_payments (\<lambda>p. pp_OrderID p = orderID)
        (\<lambda>p. p\<lparr>pp_Status := st, pp_ErrorCode := errorCode, pp_ErrorMessage := errorMessage, pt_UpdatedAt := now\<rparr>) db))"

section \<open>Look-ups\<close>

definition first_row :: "'a option \<Rightarrow> store_error + 'a" where
  "first_row r = (case r of None \<Rightarrow> Inl ErrNoRows | Some x \<Rightarrow> Inr x)"

definition GetBFSTxnIDBySTAN :: "string \<Rightarrow> payment_db \<Rightarrow> store_error + string" where
  "GetBFSTxnIDBySTAN stan db = first_row (map_option pp_BFSTxnID (find (\<lambda>p. pp_STAN p = stan) (pd_payments db)))"

definition GetBFSOrderNoBySTAN :: "string \<Rightarrow> payment_db \<Rightarrow> store_error + string" where
  "GetBFSOrderNoBySTAN stan db = first_row (map_option pp_BFSOrderNo (find (\<lambda>p. pp_STAN p = stan) (pd_payments db)))"

definition newest :: "(payment_row \<Rightarrow> bool) \<Rightarrow> payment_db \<Rightarrow> payment_row option" where
  "newest P db = latest pp_CreatedAt (filter P (pd_payments db))"

definition GetBFSTxnIDByOrderID :: "string \<Rightarrow> payment_db \<Rightarrow> store_error + string" where
  "GetBFSTxnIDByOrderID orderID db = first_row (map_option pp_BFSTxnID (newest (\<lambda>p. pp_OrderID p = orderID) db))"

definition GetSTANByOrderID :: "string \<Rightarrow> payment_db \<Rightarrow> store_error + string" where
  "GetSTANByOrderID orderID db = first_row (map_option pp_STAN (newest (\<lambda>p. pp_OrderID p = orderID) db))"

definition OrderIDExists :: "string \<Rightarrow> payment_db \<Rightarrow> bool" where
  "OrderIDExists orderID db \<longleftrightarrow> \<not> blank orderID \<and> (\<exists>p \<in> set (pd_payments db). pp_OrderID p = orderID)"

definition OrderIDExistsForApp :: "string \<Rightarrow> string \<Rightarrow> payment_db \<Rightarrow> bool" where
  "OrderIDExistsForApp appID orderID db \<longleftrightarrow> \<not> blank appID \<and> \<not> blank orderID
     \<and> (TrimSpace appID, TrimSpace orderID) \<in> set (map payment_key (pd_payments db))"

definition IsDuplicateOrderIDError :: "store_error \<Rightarrow> bool" where
  "IsDuplicateOrderIDError e = (case e of
     ErrNoRows \<Rightarrow> False
   | StoreError msg \<Rightarrow> Contains msg ''payment_transactions_order_id_uniq''
       \<or> Contains msg ''duplicate key value'' \<and> Contains msg ''order_id'')"

record TransactionGatewayRouting =
  tr_ExternalAppID :: string
  tr_ExternalMerchantReference :: string
  tr_RecipientID :: string
  tr_GatewayProvider :: string
  tr_CredentialID :: string
  tr_CredentialVersion :: int
  tr_OrderID :: string
  tr_STAN :: string
  tr_BFSTxnID :: string
  tr_BFSOrderNo :: string

definition routing_of :: "payment_row \<Rightarrow> TransactionGatewayRouting" where
  "routing_of p =
     \<lparr> tr_ExternalAppID = ml_ExternalAppID p, tr_ExternalMerchantReference = ml_ExternalMerchantReference p,
       tr_RecipientID = ml_RecipientID p, tr_GatewayProvider = ml_GatewayProvider p,
       tr_CredentialID = ml_CredentialID p, tr_CredentialVersion = ml_CredentialVersion p,
       tr_OrderID = pp_OrderID p, tr_STAN = pp_STAN p, tr_BFSTxnID = pp_BFSTxnID p, tr_BFSOrderNo = pp_BFSOrderNo p \<rparr>"

definition getTransactionRouting :: "(payment_row \<Rightarrow> string) \<Rightarrow> string \<Rightarrow> string \<Rightarrow> payment_db
    \<Rightarrow> store_error + TransactionGatewayRouting" where
  "getTransactionRouting selector appID v db = first_row (map_option routing_of
     (newest (\<lambda>p. ml_ExternalAppID p = TrimSpace appID \<and> selector p = TrimSpace v) db))"

definition GetTransactionRoutingBySTAN :: "string \<Rightarrow> string \<Rightarrow> payment_db \<Rightarrow> store_error + TransactionGatewayRouting" where
  "GetTransactionRoutingBySTAN = getTransactionRouting pp_STAN"
definition GetTransactionRoutingByOrderID :: "string \<Rightarrow> string \<Rightarrow> payment_db \<Rightarrow> store_error + TransactionGatewayRouting" where
  "GetTransactionRoutingByOrderID = getTransactionRouting pp_OrderID"
definition GetTransactionRoutingByBFSTxnID :: "string \<Rightarrow> string \<Rightarrow> payment_db \<Rightarrow> store_error + TransactionGatewayRouting" where
  "GetTransactionRoutingByBFSTxnID = getTransactionRouting pp_BFSTxnID"

section \<open>Inquiries\<close>

definition inquiry_key :: "IntraInquiryRecord \<Rightarrow> string \<times> string" where
  "inquiry_key q = (ml_ExternalAppID q, iq_OrderID q)"

text \<open>strconv.FormatInt(n, 36) of a number that is not negative.\<close>

fun base36 :: "nat \<Rightarrow> string" where
  "base36 n = (let d = (digits @ lower_letters) ! (n mod 36) in if n < 36 then [d] else base36 (n div 36) @ [d])"

declare base36.simps [simp del]

text \<open>
  The table has two unique indexes: on the inquiry id, of RunMigrations in
  internal/storage/db.go, and on app and order id.  The older one is checked first.
\<close>

definition CreateIntraInquiry :: "time \<Rightarrow> IntraInquiryRecord \<Rightarrow> payment_db \<Rightarrow> (store_error + unit) \<times> payment_db" where
  "CreateIntraInquiry now q db =
     (let q = (if iq_InquiryID q = [] then q\<lparr>iq_InquiryID := ''FAILED-'' @ base36 (nat now)\<rparr> else q);
          same_id = (iq_InquiryID q \<in> set (map iq_InquiryID (pd_inquiries db)));
          same_order = (inquiry_key q \<in> set (map inquiry_key (pd_inquiries db)))
      in case insert_link (pd_routing db)
             (if same_id then ''intra_inquiries_inquiry_id_key'' else ''intra_inquiries_app_order_id_uniq'')
             (same_id \<or> same_order) q of
        Inl e \<Rightarrow> (Inl (StoreError e), db)
      | Inr q' \<Rightarrow> (Inr (), db\<lparr>pd_inquiries := pd_inquiries db @ [q']\<rparr>))"

definition IntraInquiryOrderIDExistsForApp :: "string \<Rightarrow> string \<Rightarrow> payment_db \<Rightarrow> bool" where
  "IntraInquiryOrderIDExistsForApp appID orderID db \<longleftrightarrow> \<not> blank appID \<and> \<not> blank orderID
     \<and> (TrimSpace appID, TrimSpace orderID) \<in> set (map inquiry_key (pd_inquiries db))"

definition IsDuplicateIntraInquiryOrderIDError :: "store_error \<Rightarrow> bool" where
  "IsDuplicateIntraInquiryOrderIDError e = (case e of
     ErrNoRows \<Rightarrow> False
   | StoreError msg \<Rightarrow> Contains (ToLower msg) ''intra_inquiries_order_id_uniq''
       \<or> Contains (ToLower msg) ''duplicate key value'' \<and> Contains (ToLower msg) ''order_id'')"

definition GetIntraInquiryOrderID :: "string \<Rightarrow> payment_db \<Rightarrow> store_error + string" where
  "GetIntraInquiryOrderID inquiryID db =
     first_row (map_option iq_OrderID (find (\<lambda>q. iq_InquiryID q = inquiryID) (pd_inquiries db)))"

section \<open>Facts\<close>

lemma insert_link_Inr:
  assumes "insert_link db index taken l = Inr l'"
  shows "\<not> taken \<and> credential_exists db l' \<and> ml_ExternalAppID l' = ml_ExternalAppID l
    \<and> ml_ExternalMerchantReference l' = ml_ExternalMerchantReference l \<and> ml_GatewayProvider l' = ml_GatewayProvider l
    \<and> ml_CredentialVersion l' = ml_CredentialVersion l
    \<and> uuid_of db (ml_CredentialID l) = Some (ml_CredentialID l')
    \<and> uuid_of db (ml_RecipientID l) = Some (ml_RecipientID l')
    \<and> (\<exists>r c. l' = l\<lparr>ml_RecipientID := r, ml_CredentialID := c\<rparr>)"
  using assms by (auto simp: insert_link_def cast_link_def split: option.splits if_splits)

lemma insert_link_taken:
  assumes "validateMerchantRouting l = None" "cast_link db l \<noteq> None" "taken"
  shows "insert_link db index taken l = Inl (unique_violation index)"
  using assms by (auto simp: insert_link_def)

lemma cast_link_canonical:
  "uuid_of db (ml_RecipientID l) = Some (ml_RecipientID l) \<Longrightarrow> uuid_of db (ml_CredentialID l) = Some (ml_CredentialID l)
    \<Longrightarrow> cast_link db l = Some l"
  by (simp add: cast_link_def)

lemma payment_row_of_simps [simp]:
  "pt_ID (payment_row_of now i p) = i" "payment_key (payment_row_of now i p) = (ml_ExternalAppID p, pp_OrderID p)"
  "ml_ExternalAppID (payment_row_of now i p) = ml_ExternalAppID p" "pp_STAN (payment_row_of now i p) = pp_STAN p"
  "pp_OrderID (payment_row_of now i p) = pp_OrderID p" "pp_Status (payment_row_of now i p) = pp_Status p"
  "pp_Amount (payment_row_of now i p) = pp_Amount p" "pp_BFSTxnID (payment_row_of now i p) = pp_BFSTxnID p"
  "pp_BeneficiaryAccount (payment_row_of now i p) = pp_BeneficiaryAccount p"
  "ml_CredentialID (payment_row_of now i p) = ml_CredentialID p"
  "ml_RecipientID (payment_row_of now i p) = ml_RecipientID p"
  "ml_RoutingMode (payment_row_of now i p) = ml_RoutingMode p"
  "link_of (payment_row_of now i p) = link_of p" "credential_exists db (payment_row_of now i p) = credential_exists db p"
  by (simp_all add: payment_row_of_def payment_row.defs PullPaymentRecord.defs payment_key_def link_of_def
      credential_exists_def links_credential_def)

text \<open>The terms a payment was opened with.\<close>

definition terms_of :: "payment_row \<Rightarrow> (string \<times> string \<times> string \<times> string \<times> string \<times> int) \<times> int \<times> string \<times> string \<times> rat \<times> string" where
  "terms_of p = (link_of p, pt_ID p, pp_OrderID p, pp_STAN p, pp_Amount p, pp_BeneficiaryAccount p)"

definition keeps_terms :: "(payment_row \<Rightarrow> payment_row) \<Rightarrow> bool" where
  "keeps_terms f \<longleftrightarrow> (\<forall>p. terms_of (f p) = terms_of p \<and> ml_RoutingMode (f p) = ml_RoutingMode p)"

definition payments_ok :: "payment_db \<Rightarrow> bool" where
  "payments_ok db \<longleftrightarrow> distinct (map payment_key (pd_payments db))
     \<and> distinct (map pt_ID (pd_payments db)) \<and> (\<forall>p \<in> set (pd_payments db). pt_ID p < pd_next_id db)
     \<and> (\<forall>p \<in> set (pd_payments db). ml_RoutingMode p = ''merchant'' \<longrightarrow> credential_exists (pd_routing db) p)
     \<and> distinct (map inquiry_key (pd_inquiries db))"

lemma keeps_termsD:
  assumes "keeps_terms f"
  shows "payment_key (f p) = payment_key p" "pt_ID (f p) = pt_ID p" "ml_RoutingMode (f p) = ml_RoutingMode p"
    "credential_exists db (f p) = credential_exists db p" "terms_of (f p) = terms_of p"
    "ml_ExternalAppID (f p) = ml_ExternalAppID p"
proof -
  have t: "terms_of (f p) = terms_of p" and m: "ml_RoutingMode (f p) = ml_RoutingMode p"
    using assms by (simp_all add: keeps_terms_def)
  then show "payment_key (f p) = payment_key p" "pt_ID (f p) = pt_ID p"
    "credential_exists db (f p) = credential_exists db p" "ml_ExternalAppID (f p) = ml_ExternalAppID p"
    by (simp_all add: terms_of_def payment_key_def credential_exists_def links_credential_def link_of_def)
  show "terms_of (f p) = terms_of p" "ml_RoutingMode (f p) = ml_RoutingMode p" by (fact t, fact m)
qed

lemma update_payments_ok:
  assumes "payments_ok db" "keeps_terms f"
  shows "payments_ok (snd (update_payments P f db))"
proof -
  let ?g = "\<lambda>p. if P p then f p else p"
  have m: "map payment_key (map ?g xs) = map payment_key xs" "map pt_ID (map ?g xs) = map pt_ID xs" for xs
    using keeps_termsD [OF assms(2)] by (induction xs) auto
  show ?thesis
    using assms(1) keeps_termsD [OF assms(2)] unfolding payments_ok_def update_payments_def snd_conv
    by (simp del: map_map set_map add: m) (auto simp: image_iff)
qed

lemma update_payments_terms:
  assumes "keeps_terms f"
  shows "terms_of ` set (pd_payments (snd (update_payments P f db))) = terms_of ` set (pd_payments db)"
proof -
  have "terms_of (if P p then f p else p) = terms_of p" for p
    using keeps_termsD(5) [OF assms] by simp
  then have "map terms_of (pd_payments (snd (update_payments P f db))) = map terms_of (pd_payments db)"
    by (simp add: update_payments_def)
  then show ?thesis by (metis set_map)
qed

lemma update_payments_foreign:
  assumes "keeps_terms f" "\<And>p. P p \<Longrightarrow> ml_ExternalAppID p \<noteq> b"
  shows "filter (\<lambda>p. ml_ExternalAppID p = b) (pd_payments (snd (update_payments P f db)))
    = filter (\<lambda>p. ml_ExternalAppID p = b) (pd_payments db)"
proof -
  have "filter (\<lambda>p. ml_ExternalAppID p = b) (map (\<lambda>p. if P p then f p else p) xs)
      = filter (\<lambda>p. ml_ExternalAppID p = b) xs" for xs
    using assms(2) keeps_termsD(6) [OF assms(1)] by (induction xs) auto
  then show ?thesis by (simp add: update_payments_def)
qed

lemma update_payments_rest [simp]:
  "pd_routing (snd (update_payments P f db)) = pd_routing db"
  "pd_inquiries (snd (update_payments P f db)) = pd_inquiries db"
  "pd_next_id (snd (update_payments P f db)) = pd_next_id db"
  by (simp_all add: update_payments_def)

lemma CreatePullPayment_ok:
  assumes "payments_ok db"
  shows "payments_ok (snd (CreatePullPayment now p db))"
proof (cases "CreatePullPayment now p db")
  case (Pair r db')
  show ?thesis
  proof (cases r)
    case (Inl e)
    then show ?thesis using assms Pair by (auto simp: CreatePullPayment_def split: sum.splits)
  next
    case (Inr u)
    obtain p' where p': "insert_link (pd_routing db) ''payment_transactions_app_order_id_uniq''
             ((ml_ExternalAppID p, pp_OrderID p) \<in> set (map payment_key (pd_payments db))) p = Inr p'"
        "db' = db\<lparr>pd_payments := pd_payments db @ [payment_row_of now (pd_next_id db) p'], pd_next_id := pd_next_id db + 1\<rparr>"
      using Pair Inr by (auto simp: CreatePullPayment_def split: sum.splits)
    note i = insert_link_Inr [OF p'(1)]
    then have "pp_OrderID p' = pp_OrderID p" "ml_ExternalAppID p' = ml_ExternalAppID p" by auto
    then show ?thesis
      using assms i unfolding Pair p'(2) payments_ok_def by (auto simp: image_iff)
  qed
qed

lemma CreateIntraInquiry_Inr:
  assumes "CreateIntraInquiry now q db = (Inr (), db')"
  shows "\<exists>q'. db' = db\<lparr>pd_inquiries := pd_inquiries db @ [q']\<rparr> \<and> inquiry_key q' = inquiry_key q
    \<and> iq_InquiryID q' = (if iq_InquiryID q = [] then ''FAILED-'' @ base36 (nat now) else iq_InquiryID q)
    \<and> inquiry_key q' \<notin> set (map inquiry_key (pd_inquiries db)) \<and> iq_InquiryID q' \<notin> set (map iq_InquiryID (pd_inquiries db))"
proof -
  define q0 where "q0 = (if iq_InquiryID q = [] then q\<lparr>iq_InquiryID := ''FAILED-'' @ base36 (nat now)\<rparr> else q)"
  define same_id where "same_id = (iq_InquiryID q0 \<in> set (map iq_InquiryID (pd_inquiries db)))"
  define same_order where "same_order = (inquiry_key q0 \<in> set (map inquiry_key (pd_inquiries db)))"
  obtain q' where q': "insert_link (pd_routing db)
      (if same_id then ''intra_inquiries_inquiry_id_key'' else ''intra_inquiries_app_order_id_uniq'') (same_id \<or> same_order) q0 = Inr q'"
      "db' = db\<lparr>pd_inquiries := pd_inquiries db @ [q']\<rparr>"
    using assms by (auto simp: CreateIntraInquiry_def Let_def q0_def same_id_def same_order_def split: sum.splits)
  note i = insert_link_Inr [OF q'(1)]
  have "inquiry_key q' = inquiry_key q0" "iq_InquiryID q' = iq_InquiryID q0" using i by (auto simp: inquiry_key_def)
  moreover have "\<not> same_id" "\<not> same_order" using i by auto
  ultimately show ?thesis
    using q'(2) by (intro exI [of _ q']) (simp add: same_id_def same_order_def q0_def inquiry_key_def)
qed

lemma CreateIntraInquiry_refused:
  "CreateIntraInquiry now q db = (Inl er, db') \<Longrightarrow> db' = db"
  by (auto simp: CreateIntraInquiry_def Let_def split: sum.splits)

lemma CreateIntraInquiry_ok:
  assumes "payments_ok db"
  shows "payments_ok (snd (CreateIntraInquiry now q db))"
proof (cases "CreateIntraInquiry now q db")
  case (Pair r db')
  then show ?thesis
    using assms CreateIntraInquiry_refused [of now q db] CreateIntraInquiry_Inr [of now q db db']
    by (cases r) (auto simp: payments_ok_def)
qed

text \<open>The ids of the stored inquiries are distinct, generated ones included.\<close>

lemma CreateIntraInquiry_ids:
  assumes "distinct (map iq_InquiryID (pd_inquiries db))"
  shows "distinct (map iq_InquiryID (pd_inquiries (snd (CreateIntraInquiry now q db))))"
proof (cases "CreateIntraInquiry now q db")
  case (Pair r db')
  then show ?thesis
    using assms CreateIntraInquiry_refused [of now q db] CreateIntraInquiry_Inr [of now q db db']
    by (cases r) auto
qed

lemma CreateIntraInquiry_payments [simp]:
  "pd_payments (snd (CreateIntraInquiry now q db)) = pd_payments db"
  "pd_routing (snd (CreateIntraInquiry now q db)) = pd_routing db"
  by (simp_all add: CreateIntraInquiry_def Let_def split: sum.splits)

lemma keeps_terms_updates [simp]:
  "keeps_terms (\<lambda>p. p\<lparr>pp_Status := a p, pp_ErrorCode := b p, pp_ErrorMessage := c p, pt_UpdatedAt := d p, pt_CompletedAt := e p\<rparr>)"
  "keeps_terms (\<lambda>p. p\<lparr>pp_BFSTxnID := a p, pt_UpdatedAt := d p\<rparr>)"
  "keeps_terms (\<lambda>p. p\<lparr>pp_BFSOrderNo := a p, pt_UpdatedAt := d p\<rparr>)"
  "keeps_terms (\<lambda>p. p\<lparr>pp_BFSRequestID := a p, pp_BFSOrderNo := b p, pt_UpdatedAt := d p\<rparr>)"
  by (simp_all add: keeps_terms_def terms_of_def link_of_def)

text \<open>Credentials are never lost, so the foreign keys of the payments hold for ever.\<close>

lemma credential_exists_step:
  assumes "routing_inv db" "routing_step db db'" "credential_exists db l"
  shows "credential_exists db' l"
proof -
  obtain c where c: "c \<in> set (credentials db)" "links_credential l c" using assms(3) by (auto simp: credential_exists_def)
  have "find_credential (gc_ID c) db = Some c"
    using c(1) assms(1) find_credential_unique unfolding routing_inv_def routing_ok_def by metis
  moreover have u: "uuid_of db (gc_ID c) = Some (gc_ID c)"
    using assms(1) c(1) by (simp add: routing_inv_def canonical_def)
  moreover from u have "TrimSpace (gc_ID c) = gc_ID c"
    using assms(1) unfolding routing_inv_def canonical_def uuid_law_def by blast
  ultimately have "GetCredential (gc_ID c) db = Inr c" by (simp add: GetCredential_def)
  then obtain c' where c': "GetCredential (gc_ID c) db' = Inr c'" "core c' = core c"
    using credential_kept [OF assms(1) r_into_rtranclp [of routing_step, OF assms(2)]] by blast
  then have "c' \<in> set (credentials db')" "links_credential l c'"
    using c(2) by (auto simp: GetCredential_def find_credential_def links_credential_def core_def find_Some_iff split: option.splits)
  then show ?thesis by (auto simp: credential_exists_def)
qed

lemma newest_Some:
  "newest P db = Some p \<Longrightarrow> p \<in> set (pd_payments db) \<and> P p"
  using latest_Some [of pp_CreatedAt "filter P (pd_payments db)"] by (auto simp: newest_def)

lemma getTransactionRouting_Inr:
  "getTransactionRouting sel appID v db = Inr r \<Longrightarrow> \<exists>p \<in> set (pd_payments db). r = routing_of p
     \<and> ml_ExternalAppID p = TrimSpace appID \<and> sel p = TrimSpace v"
  by (auto simp: getTransactionRouting_def first_row_def split: option.splits dest!: newest_Some)

end
