(* ===== verification/Logs.thy ===== *)
theory Logs
  imports Sql Calendar "HOL-Library.Word" Strings
begin

text \<open>
  The pipeline of API logs, internal/storage/logs.go: entries are classified,
  queued in two bounded channels, written by two workers, spilled to a file
  when the first channel is full or the database fails, and replayed from it.
  The channels, the file and the table are lists; which operations of the
  database and the file system fail is an argument of every definition.  The
  goroutines interleave in Steps below, one channel operation, insert or replay
  at a time.
\<close>

record LogEntry =
  le_ID :: int
  le_Method :: string
  le_Path :: string
  le_Status :: int
  le_Duration :: int
  le_IP :: string
  le_RequestID :: string
  le_ActorID :: string
  le_APISurface :: string
  le_Route :: string
  le_AuthResult :: string
  le_RequestBody :: string
  le_ResponseBody :: string
  le_CreatedAt :: string

datatype logWriteTier = T1 | T2

record queuedLogRecord =
  q_Entry :: LogEntry
  q_ReqBody :: string
  q_ResBody :: string
  q_CreatedAt :: "time option"

text \<open>
  A line of the fallback file: one JSON record with its reason, a line that does
  not decode, or a line longer than the scanner's buffer of 2 MiB.
\<close>

datatype fallback_line = Line string queuedLogRecord | Undecodable | TooLong

record log_repo =
  t1Queue :: "queuedLogRecord list"
  t2Queue :: "queuedLogRecord list"
  fallback :: "fallback_line list"
  api_logs :: "queuedLogRecord list"
  next_id :: int
  droppedLogsTotal :: "64 word"
  closed :: bool

definition logQueueBufferSize :: nat where "logQueueBufferSize = 500"
definition logInternalRetentionInterval :: dur where "logInternalRetentionInterval = 365 * 24 * hour"

definition lower_trim :: "string \<Rightarrow> string" where "lower_trim s = TrimSpace (ToLower s)"

definition payment_path :: "string \<Rightarrow> bool" where
  "payment_path p \<longleftrightarrow> HasPrefix p ''/api/business/'' \<or> HasPrefix p ''/api/v1/''"

definition classifyLogTier :: "LogEntry \<Rightarrow> logWriteTier" where
  "classifyLogTier e =
     (if lower_trim (le_APISurface e) = ''business'' then T1
      else if payment_path (lower_trim (le_Route e)) \<or> payment_path (lower_trim (le_Path e)) then T1
      else T2)"

definition recordT2Drop :: "log_repo \<Rightarrow> log_repo" where
  "recordT2Drop r = r\<lparr>droppedLogsTotal := droppedLogsTotal r + 1\<rparr>"

text \<open>
  insertSync; a zero CreatedAt is replaced by the time of the insert, and the row
  gets the next id of the table's sequence.
\<close>

definition row_of :: "time \<Rightarrow> int \<Rightarrow> queuedLogRecord \<Rightarrow> queuedLogRecord" where
  "row_of now i rec = rec\<lparr>q_Entry := (q_Entry rec)\<lparr>le_ID := i\<rparr>,
     q_CreatedAt := Some (case q_CreatedAt rec of None \<Rightarrow> now | Some t \<Rightarrow> t)\<rparr>"

definition insertSync :: "time \<Rightarrow> bool \<Rightarrow> queuedLogRecord \<Rightarrow> log_repo \<Rightarrow> bool \<times> log_repo" where
  "insertSync now ok rec r =
     (if ok then (True, r\<lparr>api_logs := api_logs r @ [row_of now (next_id r) rec], next_id := next_id r + 1\<rparr>)
      else (False, r))"

definition appendToFallback :: "bool \<Rightarrow> string \<Rightarrow> queuedLogRecord \<Rightarrow> log_repo \<Rightarrow> bool \<times> log_repo" where
  "appendToFallback disk reason rec r =
     (if disk then (True, r\<lparr>fallback := fallback r @ [Line reason rec]\<rparr>) else (False, r))"

text \<open>
  enqueue: done says that the request's context has ended, pick which of the two
  ready branches of the select runs.  The answer False is the error of the
  fallback file.
\<close>

definition enqueue :: "bool \<Rightarrow> bool \<Rightarrow> bool \<Rightarrow> queuedLogRecord \<Rightarrow> log_repo \<Rightarrow> bool \<times> log_repo" where
  "enqueue disk ctx_done pick rec r = (case classifyLogTier (q_Entry rec) of
     T1 \<Rightarrow> if length (t1Queue r) < logQueueBufferSize then (True, r\<lparr>t1Queue := t1Queue r @ [rec]\<rparr>)
           else appendToFallback disk ''t1_queue_full'' rec r
   | T2 \<Rightarrow> if length (t2Queue r) < logQueueBufferSize \<and> (\<not> ctx_done \<or> pick)
           then (True, r\<lparr>t2Queue := t2Queue r @ [rec]\<rparr>)
           else (True, recordT2Drop r))"

definition new_record :: "time \<Rightarrow> LogEntry \<Rightarrow> string \<Rightarrow> string \<Rightarrow> queuedLogRecord" where
  "new_record now e req res = \<lparr> q_Entry = e, q_ReqBody = req, q_ResBody = res, q_CreatedAt = Some now \<rparr>"

definition Insert :: "time \<Rightarrow> bool \<Rightarrow> bool \<Rightarrow> bool \<Rightarrow> LogEntry \<Rightarrow> string \<Rightarrow> string \<Rightarrow> log_repo \<Rightarrow> bool \<times> log_repo" where
  "Insert now disk ctx_done pick e req res r =
     (if closed r then (False, r) else enqueue disk ctx_done pick (new_record now e req res) r)"

definition insertT1WithRetry :: "time \<Rightarrow> bool \<times> bool \<Rightarrow> queuedLogRecord \<Rightarrow> log_repo \<Rightarrow> bool \<times> log_repo" where
  "insertT1WithRetry now oks rec r = (case insertSync now (fst oks) rec r of
     (True, r') \<Rightarrow> (True, r')
   | (False, r') \<Rightarrow> insertSync now (snd oks) rec r')"

text \<open>One record through the T1 worker; the outcomes are two inserts and the file.\<close>

definition t1_write :: "time \<Rightarrow> string \<Rightarrow> (bool \<times> bool) \<times> bool \<Rightarrow> queuedLogRecord \<Rightarrow> log_repo \<Rightarrow> log_repo" where
  "t1_write now reason out rec r = (case insertT1WithRetry now (fst out) rec r of
     (True, r') \<Rightarrow> r'
   | (False, r') \<Rightarrow> snd (appendToFallback (snd out) reason rec r'))"

definition t1_receive :: "time \<Rightarrow> (bool \<times> bool) \<times> bool \<Rightarrow> log_repo \<Rightarrow> log_repo" where
  "t1_receive now out r = (case t1Queue r of
     [] \<Rightarrow> r
   | rec # q \<Rightarrow> t1_write now ''t1_insert_failed'' out rec (r\<lparr>t1Queue := q\<rparr>))"

fun drain_t1 :: "time \<Rightarrow> (nat \<Rightarrow> (bool \<times> bool) \<times> bool) \<Rightarrow> queuedLogRecord list \<Rightarrow> log_repo \<Rightarrow> log_repo" where
  "drain_t1 now out [] r = r"
| "drain_t1 now out (rec # q) r =
     drain_t1 now (\<lambda>n. out (Suc n)) q (t1_write now ''t1_drain_insert_failed'' (out 0) rec (r\<lparr>t1Queue := q\<rparr>))"

definition drainT1Queue :: "time \<Rightarrow> (nat \<Rightarrow> (bool \<times> bool) \<times> bool) \<Rightarrow> log_repo \<Rightarrow> log_repo" where
  "drainT1Queue now out r = drain_t1 now out (t1Queue r) r"

definition t2_write :: "time \<Rightarrow> bool \<Rightarrow> queuedLogRecord \<Rightarrow> log_repo \<Rightarrow> log_repo" where
  "t2_write now ok rec r = (case insertSync now ok rec r of (True, r') \<Rightarrow> r' | (False, r') \<Rightarrow> recordT2Drop r')"

definition t2_receive :: "time \<Rightarrow> bool \<Rightarrow> log_repo \<Rightarrow> log_repo" where
  "t2_receive now ok r = (case t2Queue r of [] \<Rightarrow> r | rec # q \<Rightarrow> t2_write now ok rec (r\<lparr>t2Queue := q\<rparr>))"

fun drain_t2 :: "time \<Rightarrow> (nat \<Rightarrow> bool) \<Rightarrow> queuedLogRecord list \<Rightarrow> log_repo \<Rightarrow> log_repo" where
  "drain_t2 now out [] r = r"
| "drain_t2 now out (rec # q) r = drain_t2 now (\<lambda>n. out (Suc n)) q (t2_write now (out 0) rec (r\<lparr>t2Queue := q\<rparr>))"

definition drainT2Queue :: "time \<Rightarrow> (nat \<Rightarrow> bool) \<Rightarrow> log_repo \<Rightarrow> log_repo" where
  "drainT2Queue now out r = drain_t2 now out (t2Queue r) r"

text \<open>
  replayFallback scans the file line by line: a record is inserted or kept in
  pending, a line that does not decode is skipped, and a line that is too long
  ends the scan with an error, which leaves the file as it was.
\<close>

fun scan_fallback :: "time \<Rightarrow> (nat \<Rightarrow> bool) \<Rightarrow> fallback_line list \<Rightarrow> log_repo \<Rightarrow> fallback_line list option \<times> log_repo" where
  "scan_fallback now out [] r = (Some [], r)"
| "scan_fallback now out (TooLong # ls) r = (None, r)"
| "scan_fallback now out (Undecodable # ls) r = scan_fallback now (\<lambda>n. out (Suc n)) ls r"
| "scan_fallback now out (Line why rec # ls) r =
     (case insertSync now (out 0) rec r of
        (True, r') \<Rightarrow> scan_fallback now (\<lambda>n. out (Suc n)) ls r'
      | (False, r') \<Rightarrow> apfst (map_option ((#) (Line why rec))) (scan_fallback now (\<lambda>n. out (Suc n)) ls r'))"

text \<open>disk: the file can be opened; swap: removing or replacing it succeeds.\<close>

definition replayFallback :: "time \<Rightarrow> bool \<Rightarrow> bool \<Rightarrow> (nat \<Rightarrow> bool) \<Rightarrow> log_repo \<Rightarrow> log_repo" where
  "replayFallback now disk swap out r =
     (if \<not> disk then r
      else case scan_fallback now out (fallback r) r of
        (None, r') \<Rightarrow> r'
      | (Some pending, r') \<Rightarrow> if swap then r'\<lparr>fallback := pending\<rparr> else r')"

definition runRetentionMaintenance :: "time \<Rightarrow> bool \<Rightarrow> bool \<Rightarrow> log_repo \<Rightarrow> log_repo" where
  "runRetentionMaintenance now ok1 ok2 r =
     (let expired = (\<lambda>rec. (case q_CreatedAt rec of None \<Rightarrow> False | Some t \<Rightarrow> t < now - logInternalRetentionInterval)
                        \<and> le_APISurface (q_Entry rec) = ''internal'');
          noise = (\<lambda>rec. le_Path (q_Entry rec) \<in> set [''/api/health'', ''/api/hello'', ''/dashboard'', ''/login'', ''/'']
                        \<or> like ''/api/debug/%'' (le_Path (q_Entry rec)));
          r1 = (if ok1 then r\<lparr>api_logs := filter (\<lambda>rec. \<not> expired rec) (api_logs r)\<rparr> else r)
      in if ok2 then r1\<lparr>api_logs := filter (\<lambda>rec. \<not> noise rec) (api_logs r1)\<rparr> else r1)"


definition logs_List :: "(time \<Rightarrow> string) \<Rightarrow> int \<Rightarrow> int \<Rightarrow> int \<Rightarrow> string \<Rightarrow> string \<Rightarrow> string \<Rightarrow> log_repo \<Rightarrow> LogEntry list" where
  "logs_List created_text n offset status meth path search r =
     (let n = (if n \<le> 0 then 50 else n);
          offset = (if offset < 0 then 0 else offset);
          pats = (\<lambda>s rec. let e = q_Entry rec; p = contains_pattern s in
             ilike (le_Path e) p \<or> ilike (le_Route e) p \<or> ilike (le_IP e) p \<or> ilike (le_RequestID e) p
             \<or> ilike (le_ActorID e) p \<or> ilike (le_APISurface e) p \<or> ilike (le_AuthResult e) p
             \<or> ilike (q_ReqBody rec) p \<or> ilike (q_ResBody rec) p);
          keep = (\<lambda>rec. let e = q_Entry rec in
             (status > 0 \<longrightarrow> le_Status e = status)
             \<and> (meth \<noteq> [] \<longrightarrow> ToUpper (le_Method e) = ToUpper (TrimSpace meth))
             \<and> (path \<noteq> [] \<longrightarrow> ilike (le_Path e) (contains_pattern path))
             \<and> (search \<noteq> [] \<longrightarrow> pats search rec));
          found = order_desc (\<lambda>rec. case q_CreatedAt rec of None \<Rightarrow> 0 | Some t \<Rightarrow> t) (filter keep (api_logs r))
      in map (\<lambda>rec. (q_Entry rec)\<lparr>le_RequestBody := take 500 (q_ReqBody rec), le_ResponseBody := take 500 (q_ResBody rec),
                le_CreatedAt := (case q_CreatedAt rec of None \<Rightarrow> [] | Some t \<Rightarrow> created_text t)\<rparr>)
           (limit_to n (drop (nat offset) found)))"

section \<open>Partitions\<close>

text \<open>The start of a month is its year and month.\<close>

type_synonym month_start = "int \<times> int"

definition monthStartUTC :: "time \<Rightarrow> time option \<Rightarrow> month_start" where
  "monthStartUTC now t = (let c = civil_of (case t of None \<Rightarrow> now | Some t \<Rightarrow> t) in (year c, month c))"

definition next_month :: "month_start \<Rightarrow> month_start" where
  "next_month m = (if snd m = 12 then (fst m + 1, 1) else (fst m, snd m + 1))"

definition month_index :: "month_start \<Rightarrow> int" where
  "month_index m = 12 * fst m + snd m"

lemma month_index_next [simp]: "month_index (next_month m) = month_index m + 1"
  by (simp add: month_index_def next_month_def)

function months_upto :: "month_start \<Rightarrow> month_start \<Rightarrow> month_start list" where
  "months_upto t to = (if month_index to < month_index t then [] else t # months_upto (next_month t) to)"
  by auto

termination
  by (relation "measure (\<lambda>(t, to). nat (month_index to + 1 - month_index t))") auto

declare months_upto.simps [simp del]

definition monthStartsBetween :: "month_start \<Rightarrow> month_start \<Rightarrow> month_start list" where
  "monthStartsBetween a b = (if month_index b < month_index a then months_upto b a else months_upto a b)"

definition month_key :: "month_start \<Rightarrow> string" where
  "month_key m = pad 4 (fst m) @ ''-'' @ pad 2 (snd m)"

definition uniqueMonthStarts :: "month_start list \<Rightarrow> month_start list" where
  "uniqueMonthStarts ms = map snd (members (map (\<lambda>m. (month_key m, m)) ms))"

definition normalizeAPILogSurface :: "string \<Rightarrow> string" where
  "normalizeAPILogSurface surface =
     (let s = lower_trim surface in
      if s = ''business'' then ''business'' else if s = ''internal'' then ''internal'' else ''unknown'')"

record apiLogPartitionSpec =
  Surface :: string
  RootTable :: string
  LeafTable :: string
  MonthStart :: month_start
  MonthEnd :: month_start
  AutoDrop :: bool
  ArchiveRequired :: bool

definition makeAPILogPartitionSpec :: "string \<Rightarrow> month_start \<Rightarrow> apiLogPartitionSpec" where
  "makeAPILogPartitionSpec surface m =
     (let surface = normalizeAPILogSurface surface in
      \<lparr> Surface = surface,
        RootTable = (if surface = ''business'' then ''api_logs_business''
                     else if surface = ''internal'' then ''api_logs_internal'' else ''api_logs_unknown''),
        LeafTable = ''api_logs_'' @ surface @ ''_'' @ pad 4 (fst m) @ pad 2 (snd m),
        MonthStart = m, MonthEnd = next_month m,
        AutoDrop = (surface = ''internal''), ArchiveRequired = (surface = ''business'') \<rparr>)"

record partition_row =
  pr_Spec :: apiLogPartitionSpec
  pr_DroppedAt :: "time option"

record partitions =
  registry :: "partition_row list"
  leaves :: "string list"
  partitionWarned :: bool

definition upsertAPILogPartitionRegistry :: "apiLogPartitionSpec \<Rightarrow> partitions \<Rightarrow> partitions" where
  "upsertAPILogPartitionRegistry spec p =
     (if LeafTable spec \<in> set (map (LeafTable \<circ> pr_Spec) (registry p))
      then p\<lparr>registry := map (\<lambda>row. if LeafTable (pr_Spec row) = LeafTable spec then row\<lparr>pr_Spec := spec\<rparr> else row) (registry p)\<rparr>
      else p\<lparr>registry := registry p @ [\<lparr> pr_Spec = spec, pr_DroppedAt = None \<rparr>]\<rparr>)"

definition ensure_partition :: "apiLogPartitionSpec \<Rightarrow> partitions \<Rightarrow> partitions" where
  "ensure_partition spec p = upsertAPILogPartitionRegistry spec
     (p\<lparr>leaves := (if LeafTable spec \<in> set (leaves p) then leaves p else leaves p @ [LeafTable spec])\<rparr>)"

definition ensureAPILogMonthlyPartitions :: "month_start list \<Rightarrow> partitions \<Rightarrow> partitions" where
  "ensureAPILogMonthlyPartitions months p =
     fold ensure_partition
       (concat (map (\<lambda>m. map (\<lambda>s. makeAPILogPartitionSpec s m) [''business'', ''internal'', ''unknown''])
          (uniqueMonthStarts months))) p"

text \<open>month_end < cutoff::date: the first of the month against a date.\<close>

definition before_date :: "month_start \<Rightarrow> civil \<Rightarrow> bool" where
  "before_date m c \<longleftrightarrow> fst m < year c \<or> (fst m = year c \<and> (snd m < month c \<or> (snd m = month c \<and> 1 < day c)))"

definition drop_partition :: "time \<Rightarrow> string \<Rightarrow> partitions \<Rightarrow> partitions" where
  "drop_partition now name p =
     (if name = [] then p
      else p\<lparr>leaves := filter (\<lambda>l. l \<noteq> name) (leaves p),
             registry := map (\<lambda>row. if LeafTable (pr_Spec row) = name then row\<lparr>pr_DroppedAt := Some now\<rparr> else row) (registry p)\<rparr>)"

definition dropExpiredInternalAPILogPartitions :: "time \<Rightarrow> time \<Rightarrow> partitions \<Rightarrow> partitions" where
  "dropExpiredInternalAPILogPartitions now cutoff p =
     (let expired = filter (\<lambda>row. Surface (pr_Spec row) = ''internal'' \<and> AutoDrop (pr_Spec row)
                      \<and> pr_DroppedAt row = None \<and> before_date (MonthEnd (pr_Spec row)) (civil_of cutoff)) (registry p)
      in fold (drop_partition now)
           (map (\<lambda>row. TrimSpace (LeafTable (pr_Spec row))) (sort_key (month_index \<circ> MonthStart \<circ> pr_Spec) expired)) p)"

definition days_in_month :: "month_start \<Rightarrow> int" where
  "days_in_month m =
     (if snd m = 2 then (if fst m mod 4 = 0 \<and> (fst m mod 100 \<noteq> 0 \<or> fst m mod 400 = 0) then 29 else 28)
      else if snd m \<in> set [4, 6, 9, 11] then 30 else 31)"

text \<open>The month of now.AddDate(0, 1, 0), which normalises 31 January to a day of March.\<close>

definition month_after :: "time \<Rightarrow> month_start" where
  "month_after now = (let c = civil_of now; m = next_month (year c, month c) in
     if day c > days_in_month m then next_month m else m)"

text \<open>
  runPartitionMaintenance: check is the answer of isPartitionedTable, None when the
  query fails.  On a table without partitions every run after the first one goes
  on to the DDL, which then fails at its first statement.
\<close>

definition runPartitionMaintenance :: "bool option \<Rightarrow> time \<Rightarrow> partitions \<Rightarrow> partitions" where
  "runPartitionMaintenance check now p = (case check of
     None \<Rightarrow> p\<lparr>partitionWarned := True\<rparr>
   | Some False \<Rightarrow> p\<lparr>partitionWarned := True\<rparr>
   | Some True \<Rightarrow> dropExpiredInternalAPILogPartitions now (now - logInternalRetentionInterval)
             (ensureAPILogMonthlyPartitions
                (monthStartsBetween (monthStartUTC now (Some now)) (month_after now)) p))"

section \<open>Histories of the pipeline\<close>

text \<open>
  A request handler passes the check of closed (Admit) and then sends (Send); the
  workers receive, replay and, once the pipeline is closed, drain and stop.
\<close>

record pipeline =
  repo :: log_repo
  inflight :: "queuedLogRecord list"
  t1_running :: bool
  t2_running :: bool
  accepted :: "queuedLogRecord list"

type_synonym outcome = "(bool \<times> bool) \<times> bool"

datatype log_event =
    Admit queuedLogRecord
  | Send bool bool bool queuedLogRecord
  | T1Work time outcome
  | Replay time bool bool "nat \<Rightarrow> bool"
  | T1Stop time "nat \<Rightarrow> outcome" bool bool "nat \<Rightarrow> bool"
  | T2Work time bool
  | T2Stop time "nat \<Rightarrow> bool"
  | Close
  | Retain time bool bool

fun apply_event :: "log_event \<Rightarrow> pipeline \<Rightarrow> pipeline" where
  "apply_event (Admit rec) p = (if closed (repo p) then p else p\<lparr>inflight := rec # inflight p\<rparr>)"
| "apply_event (Send disk cd pick rec) p =
     (if rec \<notin> set (inflight p) then p
      else case enqueue disk cd pick rec (repo p) of (ok, r) \<Rightarrow>
        p\<lparr>repo := r, inflight := remove1 rec (inflight p),
          accepted := (if ok then rec # accepted p else accepted p)\<rparr>)"
| "apply_event (T1Work now out) p = (if t1_running p then p\<lparr>repo := t1_receive now out (repo p)\<rparr> else p)"
| "apply_event (Replay now disk swap out) p =
     (if t1_running p then p\<lparr>repo := replayFallback now disk swap out (repo p)\<rparr> else p)"
| "apply_event (T1Stop now outs disk swap out) p =
     (if t1_running p \<and> closed (repo p)
      then p\<lparr>repo := replayFallback now disk swap out (drainT1Queue now outs (repo p)), t1_running := False\<rparr> else p)"
| "apply_event (T2Work now ok) p = (if t2_running p then p\<lparr>repo := t2_receive now ok (repo p)\<rparr> else p)"
| "apply_event (T2Stop now outs) p =
     (if t2_running p \<and> closed (repo p) then p\<lparr>repo := drainT2Queue now outs (repo p), t2_running := False\<rparr> else p)"
| "apply_event Close p = p\<lparr>repo := (repo p)\<lparr>closed := True\<rparr>\<rparr>"
| "apply_event (Retain now ok1 ok2) p = p\<lparr>repo := runRetentionMaintenance now ok1 ok2 (repo p)\<rparr>"

definition run_log :: "log_event list \<Rightarrow> pipeline \<Rightarrow> pipeline" where
  "run_log es p = fold apply_event es p"

definition start_pipeline :: pipeline where
  "start_pipeline = \<lparr> repo = \<lparr> t1Queue = [], t2Queue = [], fallback = [], api_logs = [], next_id = 1,
       droppedLogsTotal = 0, closed = False \<rparr>,
     inflight = [], t1_running = True, t2_running = True, accepted = [] \<rparr>"

text \<open>The fallback file can be written whenever the worker needs it.\<close>

fun file_writable :: "log_event \<Rightarrow> bool" where
  "file_writable (T1Work now out) = snd out"
| "file_writable (T1Stop now outs disk swap out) = (\<forall>n. snd (outs n))"
| "file_writable _ = True"

section \<open>Records of payments are kept\<close>

definition kept_row :: "queuedLogRecord \<Rightarrow> queuedLogRecord \<Rightarrow> bool" where
  "kept_row rec row \<longleftrightarrow> q_ReqBody row = q_ReqBody rec \<and> q_ResBody row = q_ResBody rec
     \<and> (\<exists>i. q_Entry row = (q_Entry rec)\<lparr>le_ID := i\<rparr>)
     \<and> (\<forall>t. q_CreatedAt rec = Some t \<longrightarrow> q_CreatedAt row = Some t)"

definition held :: "queuedLogRecord \<Rightarrow> log_repo \<Rightarrow> bool" where
  "held rec r \<longleftrightarrow> rec \<in> set (t1Queue r) \<or> (\<exists>why. Line why rec \<in> set (fallback r))
     \<or> (\<exists>row \<in> set (api_logs r). kept_row rec row)"

definition payment_record :: "queuedLogRecord \<Rightarrow> bool" where
  "payment_record rec \<longleftrightarrow> payment_path (le_Path (q_Entry rec)) \<and> le_APISurface (q_Entry rec) \<noteq> ''internal''"

lemma kept_row_row_of [simp]: "kept_row rec (row_of now i rec)"
  by (auto simp: kept_row_def row_of_def)

lemma insertSync_held:
  assumes "insertSync now ok rec r = (b, r')"
  shows "t1Queue r' = t1Queue r" "fallback r' = fallback r" "set (api_logs r) \<subseteq> set (api_logs r')"
    "b \<longrightarrow> held rec r'" "closed r' = closed r"
  using assms by (auto simp: insertSync_def held_def split: if_splits)

lemma insertT1WithRetry_once: "insertT1WithRetry now oks rec r = insertSync now (fst oks \<or> snd oks) rec r"
  by (simp add: insertT1WithRetry_def insertSync_def)

lemma t1_write_held:
  assumes "snd out"
  shows "held rec (t1_write now why out rec r)" "held x r \<Longrightarrow> held x (t1_write now why out rec r)"
    "t1Queue (t1_write now why out rec r) = t1Queue r" "closed (t1_write now why out rec r) = closed r"
proof -
  obtain b r' where i: "insertSync now (fst (fst out) \<or> snd (fst out)) rec r = (b, r')" by force
  note h = insertSync_held [OF i]
  have w: "t1_write now why out rec r = (if b then r' else r'\<lparr>fallback := fallback r' @ [Line why rec]\<rparr>)"
    using assms by (simp add: t1_write_def insertT1WithRetry_once i appendToFallback_def split: bool.splits)
  show "t1Queue (t1_write now why out rec r) = t1Queue r" "closed (t1_write now why out rec r) = closed r"
    using h by (simp_all add: w)
  show "held rec (t1_write now why out rec r)"
    using h by (cases b) (auto simp: w held_def)
  show "held x r \<Longrightarrow> held x (t1_write now why out rec r)"
    using h(1-3) by (cases b) (auto simp: w held_def)
qed

lemma held_pop:
  assumes "t1Queue r = rec # q" "held x r" "snd out"
  shows "held x (t1_write now why out rec (r\<lparr>t1Queue := q\<rparr>))"
proof (cases "x = rec")
  case False
  then have "held x (r\<lparr>t1Queue := q\<rparr>)" using assms(1,2) by (auto simp: held_def)
  then show ?thesis using t1_write_held(2) [OF assms(3)] by blast
qed (use t1_write_held(1) [OF assms(3)] in simp)

lemma t1_receive_held: "held x r \<Longrightarrow> snd out \<Longrightarrow> held x (t1_receive now out r)"
  using held_pop by (auto simp: t1_receive_def split: list.splits)

lemma drain_t1_held:
  "t1Queue r = q \<Longrightarrow> held x r \<Longrightarrow> \<forall>n. snd (out n) \<Longrightarrow> held x (drain_t1 now out q r)"
proof (induction q arbitrary: out r)
  case (Cons rec q)
  have "held x (t1_write now ''t1_drain_insert_failed'' (out 0) rec (r\<lparr>t1Queue := q\<rparr>))"
    using held_pop Cons.prems by blast
  then show ?case using Cons.prems by (simp add: Cons.IH t1_write_held(3))
qed simp

lemma scan_fallback_held:
  assumes "scan_fallback now out ls r = (res, r')"
  shows "set (api_logs r) \<subseteq> set (api_logs r') \<and> t1Queue r' = t1Queue r \<and> fallback r' = fallback r \<and> closed r' = closed r
    \<and> (\<forall>pending. res = Some pending \<longrightarrow> (\<forall>why rec. Line why rec \<in> set ls \<longrightarrow>
        Line why rec \<in> set pending \<or> (\<exists>row \<in> set (api_logs r'). kept_row rec row)))"
  using assms
proof (induction now out ls r arbitrary: res r' rule: scan_fallback.induct)
  case (4 now out why rec ls r)
  show ?case
  proof (cases "out 0")
    case True
    let ?r1 = "snd (insertSync now True rec r)"
    have i: "insertSync now (out 0) rec r = (True, ?r1)" using True by (simp add: insertSync_def)
    have row: "row_of now (next_id r) rec \<in> set (api_logs ?r1)" "set (api_logs r) \<subseteq> set (api_logs ?r1)"
      "t1Queue ?r1 = t1Queue r" "fallback ?r1 = fallback r" "closed ?r1 = closed r"
      by (auto simp: insertSync_def)
    have s: "scan_fallback now (\<lambda>n. out (Suc n)) ls ?r1 = (res, r')"
      using 4(3) by (simp add: i)
    show ?thesis
      using 4(1) [OF i [symmetric] refl s] row by (auto intro: bexI [of _ "row_of now (next_id r) rec"])
  next
    case False
    then have i: "insertSync now (out 0) rec r = (False, r)" by (simp add: insertSync_def)
    obtain res1 where s: "scan_fallback now (\<lambda>n. out (Suc n)) ls r = (res1, r')" "res = map_option ((#) (Line why rec)) res1"
      using 4(3) i by (cases "scan_fallback now (\<lambda>n. out (Suc n)) ls r") auto
    show ?thesis
      using 4(2) [OF i [symmetric] refl s(1)] s(2) by (auto; blast)
  qed
qed auto


lemma replayFallback_held: "held x r \<Longrightarrow> held x (replayFallback now disk swap out r)"
proof -
  assume h: "held x r"
  obtain res r' where s: "scan_fallback now out (fallback r) r = (res, r')" by force
  note k = scan_fallback_held [OF s]
  show ?thesis
  proof (cases res)
    case None
    then show ?thesis using h k by (auto simp: replayFallback_def s held_def)
  next
    case (Some pending)
    have "held x (r'\<lparr>fallback := pending\<rparr>)" "held x r'"
      using h k Some by (auto simp: held_def; blast)+
    then show ?thesis using h Some by (simp add: replayFallback_def s)
  qed
qed

lemma payment_path_not_noise:
  "payment_path p \<Longrightarrow> p \<notin> set [''/api/health'', ''/api/hello'', ''/dashboard'', ''/login'', ''/''] \<and> \<not> like ''/api/debug/%'' p"
  by (auto simp: payment_path_def HasPrefix_iff)

lemma retention_held:
  assumes "payment_record x" "held x r"
  shows "held x (runRetentionMaintenance now ok1 ok2 r)"
proof -
  have "payment_record row" if "kept_row x row" for row
    using assms(1) that by (auto simp: kept_row_def payment_record_def)
  then have n: "le_APISurface (q_Entry row) \<noteq> ''internal''"
    "le_Path (q_Entry row) \<notin> set [''/api/health'', ''/api/hello'', ''/dashboard'', ''/login'', ''/'']"
    "\<not> like ''/api/debug/%'' (le_Path (q_Entry row))" if "kept_row x row" for row
    using that payment_path_not_noise by (auto simp: payment_record_def)
  have "row \<in> set (api_logs (runRetentionMaintenance now ok1 ok2 r))" if "kept_row x row" "row \<in> set (api_logs r)" for row
    using that(2) n [OF that(1)] by (simp add: runRetentionMaintenance_def Let_def)
  moreover have "t1Queue (runRetentionMaintenance now ok1 ok2 r) = t1Queue r"
    "fallback (runRetentionMaintenance now ok1 ok2 r) = fallback r"
    by (simp_all add: runRetentionMaintenance_def Let_def)
  ultimately show ?thesis using assms(2) by (auto simp: held_def)
qed

lemma t2_write_held: "held x r \<Longrightarrow> held x (t2_write now ok rec r)"
  by (auto simp: t2_write_def insertSync_def recordT2Drop_def held_def split: prod.splits bool.splits)

lemma held_t2Queue [simp]: "held x (r\<lparr>t2Queue := q\<rparr>) = held x r"
  by (simp add: held_def)

lemma drain_t2_held: "held x r \<Longrightarrow> held x (drain_t2 now out q r)"
  by (induction now out q r rule: drain_t2.induct) (simp_all add: t2_write_held)

lemma enqueue_held:
  assumes "enqueue disk cd pick rec r = (ok, r')"
  shows "held x r \<Longrightarrow> held x r'" "classifyLogTier (q_Entry rec) = T1 \<Longrightarrow> ok \<Longrightarrow> held rec r'"
  using assms
  by (auto simp: enqueue_def appendToFallback_def recordT2Drop_def held_def split: logWriteTier.splits if_splits)

lemma payment_record_T1: "payment_path (lower_trim (le_Path e)) \<Longrightarrow> classifyLogTier e = T1"
  by (simp add: classifyLogTier_def)

lemma apply_event_held:
  assumes "payment_record x" "held x (repo p)" "file_writable e"
  shows "held x (repo (apply_event e p))"
proof (cases e)
  case (Send disk cd pick rec)
  then show ?thesis using assms enqueue_held(1) [of disk cd pick rec "repo p"] by (auto split: prod.splits)
next
  case (T1Stop now outs disk swap out)
  then show ?thesis using assms drain_t1_held [of "repo p"] by (auto simp: drainT1Queue_def intro: replayFallback_held)
next
  case (T2Work now ok)
  then show ?thesis using assms by (auto simp: t2_receive_def intro: t2_write_held split: list.splits)
qed (use assms in \<open>auto simp: t1_receive_held replayFallback_held retention_held drainT2Queue_def drain_t2_held\<close>,
     auto simp: held_def)

lemma accepted_payment_held:
  assumes "\<forall>e \<in> set es. file_writable e"
    and "rec \<in> set (accepted (run_log es start_pipeline))"
    and "payment_record rec" "payment_path (lower_trim (le_Path (q_Entry rec)))"
  shows "held rec (repo (run_log es start_pipeline))"
proof -
  have T1: "classifyLogTier (q_Entry rec) = T1" by (rule payment_record_T1 [OF assms(4)])
  have step: "rec \<in> set (accepted (apply_event e p)) \<longrightarrow> held rec (repo (apply_event e p))"
    if "rec \<in> set (accepted p) \<longrightarrow> held rec (repo p)" "file_writable e" for e p
  proof (cases "rec \<in> set (accepted p)")
    case True
    then show ?thesis using that apply_event_held [OF assms(3)] by blast
  next
    case False
    have "held rec r" if "enqueue disk cd pick rec (repo p) = (True, r)" for disk cd pick r
      using enqueue_held(2) [OF that T1] by simp
    then show ?thesis using False by (cases e) (auto split: prod.splits if_splits)
  qed
  have "rec \<in> set (accepted (fold apply_event es p)) \<longrightarrow> held rec (repo (fold apply_event es p))"
    if "rec \<in> set (accepted p) \<longrightarrow> held rec (repo p)" "\<forall>e \<in> set es. file_writable e" for p
    using that
  proof (induction es arbitrary: p)
    case (Cons e es)
    then show ?case using step [of p e] by simp
  qed simp
  from this [of start_pipeline] assms(1,2) show ?thesis
    by (simp add: run_log_def start_pipeline_def)
qed

text \<open>
  No accepted record of a payment is lost while the gateway runs.  In every
  interleaving of requests, workers, replays, retention and shutdown, with
  whatever failing inserts, as long as the fallback file can be written: a
  record under a payment path for which Insert returned no error is in the
  channel of the first tier, in the fallback file, or a row of api_logs.
\<close>
lemma accepted_payment_logs_kept:
  assumes "\<forall>e \<in> set es. file_writable e"
    and "rec \<in> set (accepted (run_log es start_pipeline))"
    and "payment_record rec" "payment_path (lower_trim (le_Path (q_Entry rec)))"
  shows "held rec (repo (run_log es start_pipeline))"
  by (rule accepted_payment_held [OF assms])

definition demo_entry :: LogEntry where
  "demo_entry = \<lparr> le_ID = 0, le_Method = ''POST'', le_Path = ''/api/business/pull/initiate'', le_Status = 200,
     le_Duration = 3, le_IP = [], le_RequestID = ''r1'', le_ActorID = [], le_APISurface = ''business'',
     le_Route = [], le_AuthResult = [], le_RequestBody = [], le_ResponseBody = [], le_CreatedAt = [] \<rparr>"

definition demo_record :: queuedLogRecord where "demo_record = new_record 7 demo_entry [] []"

lemma demo_record_path:
  "payment_record demo_record" "payment_path (lower_trim (le_Path (q_Entry demo_record)))"
  "classifyLogTier (q_Entry demo_record) = T1"
  by code_simp+

theorem accepted_payment_logs_kept_witness:
  "held demo_record (repo (run_log [Admit demo_record, Send True False True demo_record, Close,
      T1Work 8 ((False, False), True), T1Stop 9 (\<lambda>_. ((False, False), True)) True True (\<lambda>_. False)] start_pipeline))"
proof (rule accepted_payment_logs_kept)
  show "demo_record \<in> set (accepted (run_log [Admit demo_record, Send True False True demo_record, Close,
      T1Work 8 ((False, False), True), T1Stop 9 (\<lambda>_. ((False, False), True)) True True (\<lambda>_. False)] start_pipeline))"
    by (simp add: run_log_def start_pipeline_def enqueue_def demo_record_path(3) logQueueBufferSize_def)
qed (simp_all add: demo_record_path)

lemma run_log_append: "run_log (xs @ ys) p = run_log ys (run_log xs p)"
  by (simp add: run_log_def)

lemma apply_event_stranded:
  assumes "\<not> t1_running p" "rec \<in> set (t1Queue (repo p))" "api_logs (repo p) = []" "fallback (repo p) = []"
    "t2Queue (repo p) = []" "inflight p = []" "closed (repo p)"
  shows "let q = apply_event e p in \<not> t1_running q \<and> rec \<in> set (t1Queue (repo q)) \<and> api_logs (repo q) = []
    \<and> fallback (repo q) = [] \<and> t2Queue (repo q) = [] \<and> inflight q = [] \<and> closed (repo q)"
  using assms by (cases e) (auto simp: Let_def t2_receive_def drainT2Queue_def runRetentionMaintenance_def)

text \<open>
  A shutdown can strand a payment record.  Insert tests closed and enqueues
  later; when Close and the worker's last drain run in between, Insert still
  returns no error, and no later event ever writes the record to the table or
  the file.
\<close>
lemma shutdown_strands_record:
  assumes "classifyLogTier (q_Entry rec) = T1"
  shows "let p = run_log ([Admit rec, Close, T1Stop now (\<lambda>_. ((True, True), True)) True True (\<lambda>_. True),
        Send True False True rec] @ es) start_pipeline
     in rec \<in> set (accepted p) \<and> rec \<in> set (t1Queue (repo p)) \<and> api_logs (repo p) = [] \<and> fallback (repo p) = []"
proof -
  let ?p = "run_log [Admit rec, Close, T1Stop now (\<lambda>_. ((True, True), True)) True True (\<lambda>_. True),
        Send True False True rec] start_pipeline"
  have p: "?p = start_pipeline\<lparr>repo := (repo start_pipeline)\<lparr>closed := True, t1Queue := [rec]\<rparr>,
      t1_running := False, accepted := [rec]\<rparr>"
    by (simp add: run_log_def start_pipeline_def drainT1Queue_def replayFallback_def enqueue_def assms logQueueBufferSize_def)
  have acc: "rec \<in> set (accepted p) \<Longrightarrow> rec \<in> set (accepted (apply_event e p))" for e p
    by (cases e) (auto split: prod.splits)
  have "let q = fold apply_event es p in rec \<in> set (accepted q) \<and> rec \<in> set (t1Queue (repo q))
      \<and> api_logs (repo q) = [] \<and> fallback (repo q) = []"
    if "\<not> t1_running p" "rec \<in> set (t1Queue (repo p))" "api_logs (repo p) = []" "fallback (repo p) = []"
      "t2Queue (repo p) = []" "inflight p = []" "closed (repo p)" "rec \<in> set (accepted p)" for p
    using that
  proof (induction es arbitrary: p)
    case (Cons e es)
    then show ?case using apply_event_stranded [of p rec e] acc [of p e] by (simp add: Let_def)
  qed simp
  from this [of ?p] have "let q = run_log es ?p in rec \<in> set (accepted q) \<and> rec \<in> set (t1Queue (repo q))
      \<and> api_logs (repo q) = [] \<and> fallback (repo q) = []"
    unfolding p run_log_def [of es] by (simp add: start_pipeline_def)
  then show ?thesis unfolding run_log_append .
qed

theorem shutdown_strands_record_witness:
  "let p = run_log ([Admit demo_record, Close, T1Stop 9 (\<lambda>_. ((True, True), True)) True True (\<lambda>_. True),
        Send True False True demo_record] @ [Replay 10 True True (\<lambda>_. True), T1Work 11 ((True, True), True)]) start_pipeline
   in demo_record \<in> set (accepted p) \<and> demo_record \<in> set (t1Queue (repo p)) \<and> api_logs (repo p) = [] \<and> fallback (repo p) = []"
  by (rule shutdown_strands_record) (rule demo_record_path(3))

section \<open>Months and partitions\<close>

lemma months_upto_index:
  "map month_index (months_upto a b) = map (\<lambda>i. month_index a + int i) [0..<nat (month_index b + 1 - month_index a)]"
proof (induction a b rule: months_upto.induct)
  case (1 t to)
  show ?case
  proof (cases "month_index to < month_index t")
    case True
    then show ?thesis by (simp add: months_upto.simps [of t to])
  next
    case False
    let ?n = "nat (month_index to - month_index t)"
    have n: "nat (month_index to + 1 - month_index t) = Suc ?n" using False by simp
    have "map month_index (months_upto t to) = month_index t # map (\<lambda>i. month_index t + 1 + int i) [0..<?n]"
      using False 1 [OF False] by (simp add: months_upto.simps [of t to])
    also have "\<dots> = map (\<lambda>i. month_index t + int i) [0..<Suc ?n]"
      by (simp add: upt_conv_Cons map_Suc_upt [symmetric] comp_def algebra_simps del: upt_Suc)
    finally show ?thesis by (simp only: n)
  qed
qed

text \<open>
  MonthStartsBetween ends and lists every month between its two bounds once,
  in order, both included, whichever of them is the later one.
\<close>
lemma months_between_complete:
  "map month_index (monthStartsBetween a b) =
     map (\<lambda>i. min (month_index a) (month_index b) + int i) [0..<nat (\<bar>month_index b - month_index a\<bar> + 1)]"
  by (auto simp: monthStartsBetween_def months_upto_index abs_if algebra_simps)

end
