(* ===== verification/Outbound.thy ===== *)
theory Outbound
  imports Helpers Logs
begin

text \<open>
  Calls of the two payment providers.  A provider is a function from requests to
  answers: the transport's error, or a status with the text of the body; a body
  that cannot be read counts as a transport error.  The body of a request is
  the form or the JSON document that it encodes.
\<close>

record http_request =
  hq_method :: string
  hq_url :: string
  hq_headers :: "(string \<times> string) list"
  hq_form :: "(string \<times> string) list"
  hq_body :: json

type_synonym upstream = "http_request \<Rightarrow> string + (nat \<times> string)"

text \<open>What a client hands to LogRepository.Insert: the entry, the request and the response body.\<close>

type_synonym call_log = "(LogEntry \<times> string \<times> string) list"

definition success_status :: "nat \<Rightarrow> bool" where "success_status st \<longleftrightarrow> 200 \<le> st \<and> st < 300"

text \<open>json.Unmarshal into a struct: the members of the object, null giving none; other values are an error.\<close>

definition struct_members :: "string \<Rightarrow> (string \<times> json) list option" where
  "struct_members raw = (case Unmarshal raw of
     Some (JObj kvs) \<Rightarrow> Some kvs
   | Some JNull \<Rightarrow> Some []
   | _ \<Rightarrow> None)"

definition object_ok :: "string \<Rightarrow> (string \<times> json) list \<Rightarrow> bool" where
  "object_ok name kvs \<longleftrightarrow> list_all (\<lambda>(k, v). EqualFold k name \<longrightarrow>
      (case v of JObj _ \<Rightarrow> True | JNull \<Rightarrow> True | _ \<Rightarrow> False)) kvs"

text \<open>A signed 64-bit integer: time.Duration arithmetic wraps around.\<close>

definition int64 :: "int \<Rightarrow> int" where "int64 x = (x + 2 ^ 63) mod 2 ^ 64 - 2 ^ 63"

lemma int64_id: "- (2 ^ 63) \<le> x \<Longrightarrow> x < 2 ^ 63 \<Longrightarrow> int64 x = x"
  by (simp add: int64_def)

end
