(* ===== verification/StripeClient.thy ===== *)
theory StripeClient
  imports Outbound
begin

text \<open>
  The client of the card gateway, internal/stripe/client.go.  The gateway is an
  argument of type upstream, which also answers for a request that cannot be
  built.  The stdout log lines have no bodies and are left out; the record that a
  validation error leaves in the log repository is an output.
\<close>

record stripe_client =
  sc_baseURL :: string
  sc_apiKey :: string

record CheckoutSessionResponse =
  cs_ResponseCode :: string
  cs_ResponseMessage :: string
  cs_ResponseDescription :: string
  cs_SessionID :: string
  cs_SessionURL :: string

record ApplicationStatusResponse =
  as_ResponseCode :: string
  as_ResponseMessage :: string
  as_ResponseDescription :: string
  as_ResponseData :: bool

definition stripe_NewClient :: "string \<Rightarrow> string \<Rightarrow> stripe_client" where
  "stripe_NewClient baseURL apiKey = \<lparr> sc_baseURL = TrimRight {CHR ''/''} baseURL, sc_apiKey = apiKey \<rparr>"

text \<open>A boolean field: a member of another type is an error.\<close>

definition bool_field :: "string \<Rightarrow> (string \<times> json) list \<Rightarrow> bool option" where
  "bool_field name kvs = foldl (\<lambda>cur (k, v). if EqualFold k name
      then (case v of JBool b \<Rightarrow> map_option (\<lambda>_. b) cur | JNull \<Rightarrow> cur | _ \<Rightarrow> None) else cur) (Some False) kvs"

definition response_texts :: "string list" where
  "response_texts = [''response_code'', ''response_message'', ''response_description'']"

definition parse_checkout :: "string \<Rightarrow> CheckoutSessionResponse option" where
  "parse_checkout raw = (case struct_members raw of
     None \<Rightarrow> None
   | Some kvs \<Rightarrow> let d = sub_object ''response_data'' kvs in
       if list_all (\<lambda>n. field_ok n kvs) response_texts \<and> object_ok ''response_data'' kvs
          \<and> field_ok ''session_id'' d \<and> field_ok ''session_url'' d
       then Some \<lparr> cs_ResponseCode = field ''response_code'' kvs, cs_ResponseMessage = field ''response_message'' kvs,
                  cs_ResponseDescription = field ''response_description'' kvs,
                  cs_SessionID = field ''session_id'' d, cs_SessionURL = field ''session_url'' d \<rparr>
       else None)"

definition parse_application_status :: "string \<Rightarrow> ApplicationStatusResponse option" where
  "parse_application_status raw = (case struct_members raw of
     None \<Rightarrow> None
   | Some kvs \<Rightarrow> (case bool_field ''response_data'' kvs of
       None \<Rightarrow> None
     | Some b \<Rightarrow>
       if list_all (\<lambda>n. field_ok n kvs) response_texts
       then Some \<lparr> as_ResponseCode = field ''response_code'' kvs, as_ResponseMessage = field ''response_message'' kvs,
                  as_ResponseDescription = field ''response_description'' kvs, as_ResponseData = b \<rparr>
       else None))"

definition checkout_request :: "stripe_client \<Rightarrow> json \<Rightarrow> http_request" where
  "checkout_request c payload =
     \<lparr> hq_method = ''POST'', hq_url = sc_baseURL c @ ''/checkout'',
       hq_headers = [(''Content-Type'', ''application/json''), (''X-Gravitee-Api-Key'', sc_apiKey c)],
       hq_form = [], hq_body = payload \<rparr>"

definition CreateCheckoutSession :: "upstream \<Rightarrow> stripe_client \<Rightarrow> json \<Rightarrow> string + CheckoutSessionResponse" where
  "CreateCheckoutSession http c payload = (case http (checkout_request c payload) of
     Inl e \<Rightarrow> Inl (''request failed: '' @ e)
   | Inr (st, raw) \<Rightarrow>
       if \<not> success_status st then Inl (''stripe API error: status='' @ nat_text st @ '' body='' @ raw)
       else (case parse_checkout raw of
         None \<Rightarrow> Inl ''failed to parse response''
       | Some resp \<Rightarrow>
           if cs_ResponseCode resp \<noteq> ''0000''
           then Inl (''stripe error: code='' @ cs_ResponseCode resp @ '' message='' @ cs_ResponseMessage resp)
           else Inr resp))"

definition application_status_request :: "stripe_client \<Rightarrow> string \<Rightarrow> http_request" where
  "application_status_request c applicationNo =
     \<lparr> hq_method = ''GET'', hq_url = sc_baseURL c @ ''/check-application-status?application_no='' @ applicationNo,
       hq_headers = [(''X-Gravitee-Api-Key'', sc_apiKey c)], hq_form = [], hq_body = JNull \<rparr>"

definition logValidationErrorToDB :: "string \<Rightarrow> ApplicationStatusResponse \<Rightarrow> string \<Rightarrow> nat \<Rightarrow> call_log" where
  "logValidationErrorToDB applicationNo resp rawBody httpStatus =
     [(\<lparr> le_ID = 0, le_Method = ''GET'', le_Path = ''/check-application-status'', le_Status = int httpStatus,
         le_Duration = 0, le_IP = [], le_RequestID = applicationNo, le_ActorID = [], le_APISurface = ''stripe'',
         le_Route = ''stripe:/check-application-status'', le_AuthResult = as_ResponseCode resp,
         le_RequestBody = [], le_ResponseBody = [], le_CreatedAt = [] \<rparr>, [], rawBody)]"

definition CheckApplicationStatus ::
    "upstream \<Rightarrow> stripe_client \<Rightarrow> string \<Rightarrow> (string + ApplicationStatusResponse) \<times> call_log" where
  "CheckApplicationStatus http c applicationNo = (case http (application_status_request c applicationNo) of
     Inl e \<Rightarrow> (Inl (''request failed: '' @ e), [])
   | Inr (st, raw) \<Rightarrow> (case parse_application_status raw of
       None \<Rightarrow> (Inl ''failed to parse response'', [])
     | Some resp \<Rightarrow> (Inr resp,
         if as_ResponseCode resp \<in> {''4000'', ''4001'', ''4002''}
         then logValidationErrorToDB (TrimSpace applicationNo) resp raw st else [])))"

lemma CreateCheckoutSession_ok:
  "CreateCheckoutSession http c payload = Inr resp \<Longrightarrow> cs_ResponseCode resp = ''0000''
     \<and> (\<exists>st raw. http (checkout_request c payload) = Inr (st, raw) \<and> success_status st \<and> parse_checkout raw = Some resp)"
  by (auto simp: CreateCheckoutSession_def split: sum.splits option.splits if_splits)

text \<open>The HTTP status of the answer plays no role for the status check.\<close>

lemma CheckApplicationStatus_any_status:
  assumes "http (application_status_request c n) = Inr (st, raw)" "http' (application_status_request c n) = Inr (st', raw)"
  shows "fst (CheckApplicationStatus http c n) = fst (CheckApplicationStatus http' c n)"
  using assms by (simp add: CheckApplicationStatus_def split: option.splits)

end
