(* ===== verification/RoutingResolve.thy ===== *)
theory RoutingResolve
  imports RoutingSteps
begin

text \<open>
  Which configuration a payment resolves to: ResolveActive as a relation
  between the tables and its answer, and the effect of rotations, status
  changes and deactivations on it.
\<close>

definition route :: "string \<Rightarrow> string \<Rightarrow> string \<Rightarrow> routing_db \<Rightarrow> IntegrationRecipientMapping
    \<Rightarrow> PaymentRecipient \<Rightarrow> GatewayCredentialConfiguration \<Rightarrow> bool" where
  "route app ref provider db m r c \<longleftrightarrow>
     m \<in> set (mappings db) \<and> r \<in> set (recipients db) \<and> c \<in> set (credentials db)
     \<and> im_key m = (app, ref) \<and> im_IsActive m
     \<and> pr_ID r = im_RecipientID m \<and> pr_IsActive r
     \<and> gc_key c = (pr_ID r, provider) \<and> gc_active c"

definition resolved_of :: "IntegrationRecipientMapping \<Rightarrow> PaymentRecipient \<Rightarrow> GatewayCredentialConfiguration
    \<Rightarrow> ResolvedGatewayConfiguration" where
  "resolved_of m r c = \<lparr> rg_ExternalAppID = im_ExternalAppID m,
     rg_ExternalMerchantReference = im_ExternalMerchantReference m,
     rg_RecipientID = pr_ID r, rg_RecipientName = pr_Name r, rg_Credential = c \<rparr>"

lemma set_routes:
  "x \<in> set (routes app ref p db) \<longleftrightarrow> (\<exists>m r c. route app ref p db m r c \<and> x = resolved_of m r c)"
  unfolding routes_def route_def resolved_of_def im_key_def gc_key_def by fastforce

lemma unique_by: "distinct (map f (filter P xs)) \<Longrightarrow> x \<in> set xs \<Longrightarrow> y \<in> set xs \<Longrightarrow> P x \<Longrightarrow> P y \<Longrightarrow> f x = f y \<Longrightarrow> x = y"
  by (auto simp: distinct_map inj_on_def)

lemma route_unique:
  assumes "routing_ok db" "route app ref p db m r c" "route app ref p db m' r' c'"
  shows "m = m' \<and> r = r' \<and> c = c'"
proof -
  have d: "distinct (map pr_ID (recipients db))" "distinct (map gc_key (filter gc_active (credentials db)))"
    "distinct (map im_key (filter im_IsActive (mappings db)))"
    using assms(1) unfolding routing_ok_def by blast+
  have m: "m = m'" using unique_by [OF d(3), of m m'] assms(2,3) unfolding route_def by metis
  have r: "r = r'" using unique_by [of pr_ID "\<lambda>_. True" "recipients db" r r'] d(1) assms(2,3) m
    unfolding route_def by simp
  have "c = c'" using unique_by [OF d(2), of c c'] assms(2,3) r unfolding route_def by metis
  with m r show ?thesis by simp
qed

lemma ResolveActive_iff:
  assumes "routing_ok db"
  shows "ResolveActive app ref p db = Inr x \<longleftrightarrow>
     (\<exists>m r c. route (TrimSpace app) (TrimSpace ref) (TrimSpace p) db m r c \<and> x = resolved_of m r c)"
proof -
  have one: "\<And>x y. x \<in> set (routes (TrimSpace app) (TrimSpace ref) (TrimSpace p) db) \<Longrightarrow>
      y \<in> set (routes (TrimSpace app) (TrimSpace ref) (TrimSpace p) db) \<Longrightarrow> x = y"
    unfolding set_routes using route_unique [OF assms] by metis
  show ?thesis
  proof (cases "routes (TrimSpace app) (TrimSpace ref) (TrimSpace p) db")
    case Nil
    then show ?thesis
      using set_routes [of _ "TrimSpace app" "TrimSpace ref" "TrimSpace p" db]
      by (auto simp: ResolveActive_def)
  next
    case (Cons y ys)
    then have "ResolveActive app ref p db = Inr x \<longleftrightarrow> x \<in> set (routes (TrimSpace app) (TrimSpace ref) (TrimSpace p) db)"
      using one [of y x] by (auto simp: ResolveActive_def)
    then show ?thesis unfolding set_routes .
  qed
qed

text \<open>
  C24: routing never crosses tenants or recipients.  In every state with the
  invariant, ResolveActive answers with a configuration exactly when the app has
  an active mapping of the merchant reference to an active recipient
  that has an active credential of the provider, and then the answer is that
  recipient's and that credential, which are unique.
\<close>
theorem resolve_active_spec:
  assumes "routing_ok db"
  shows "ResolveActive app ref p db = Inr x \<longleftrightarrow>
     (\<exists>!(m, r, c). route (TrimSpace app) (TrimSpace ref) (TrimSpace p) db m r c)
     \<and> (\<forall>m r c. route (TrimSpace app) (TrimSpace ref) (TrimSpace p) db m r c \<longrightarrow> x = resolved_of m r c)"
  unfolding ResolveActive_iff [OF assms]
  using route_unique [OF assms] by (auto; metis)

theorem resolve_active_spec_witness:
  "\<exists>x. ResolveActive ''A'' ''hotel'' ''dkpg'' demo_db = Inr x \<and> gc_ID (rg_Credential x) = ''c1''"
proof -
  have ok: "routing_ok demo_db" using demo_inv by (simp add: routing_inv_def)
  have t: "TrimSpace ''A'' = ''A''" "TrimSpace ''hotel'' = ''hotel''" by (simp_all add: TrimSpace_def is_space_def)
  let ?m = "hd (mappings demo_db)" and ?r = "hd (recipients demo_db)"
  have r: "route ''A'' ''hotel'' ''dkpg'' demo_db ?m ?r demo_credential"
    by (simp add: route_def demo_db_def demo_credential_def im_key_def gc_key_def gc_active_def)
  have "ResolveActive ''A'' ''hotel'' ''dkpg'' demo_db = Inr (resolved_of ?m ?r demo_credential)"
    unfolding resolve_active_spec [OF ok] t demo_eval
    using r route_unique [OF ok r] by blast
  then show ?thesis by (auto simp: resolved_of_def demo_credential_def)
qed

text \<open>Activating a credential, by rotation or by status change.\<close>

lemma route_cong:
  assumes "mappings db' = mappings db" "recipients db' = recipients db"
    and "\<And>c. gc_active c \<Longrightarrow> gc_key c = key \<Longrightarrow> c \<in> set (credentials db') \<longleftrightarrow> P c"
    and "\<And>c. gc_active c \<Longrightarrow> gc_key c \<noteq> key \<Longrightarrow> c \<in> set (credentials db') \<longleftrightarrow> c \<in> set (credentials db)"
  shows "route app ref p db' m r c \<longleftrightarrow>
    (if gc_key c = key
     then m \<in> set (mappings db) \<and> r \<in> set (recipients db) \<and> P c \<and> im_key m = (app, ref) \<and> im_IsActive m
       \<and> pr_ID r = im_RecipientID m \<and> pr_IsActive r \<and> gc_key c = (pr_ID r, p) \<and> gc_active c
     else route app ref p db m r c)"
proof (cases "gc_active c")
  case True
  then show ?thesis
    using assms(3) [of c] assms(4) [of c] unfolding route_def assms(1,2)
    by (cases "gc_key c = key") (simp_all del: split_paired_All)
qed (simp add: route_def)

definition activate :: "time \<Rightarrow> string \<Rightarrow> string \<times> string \<Rightarrow> routing_db \<Rightarrow> routing_db" where
  "activate now k key db = set_status now k ''active'' (retire_active now key db)"

lemma activate_members:
  assumes "c0 \<in> set (credentials db)" "gc_ID c0 = k" "gc_key c0 = key" "distinct (map gc_ID (credentials db))"
    and "gc_active c"
  shows "c \<in> set (credentials (activate now k key db)) \<longleftrightarrow>
    (if gc_key c = key then c = status1 now k ''active'' (retire1 now key c0) else c \<in> set (credentials db))"
proof -
  have u: "x = c0" if "x \<in> set (credentials db)" "gc_ID x = k" for x
    using that assms(1,2,4) by (auto simp: distinct_map inj_on_def)
  have mem: "c \<in> set (credentials (activate now k key db)) \<longleftrightarrow>
      (\<exists>x \<in> set (credentials db). c = status1 now k ''active'' (retire1 now key x))"
    by (auto simp: activate_def set_status_map retire_active_map)
  show ?thesis
  proof (cases "gc_key c = key")
    case True
    have "x = c0" if x: "x \<in> set (credentials db)" "c = status1 now k ''active'' (retire1 now key x)" for x
    proof (rule u [OF x(1)], rule ccontr)
      assume ne: "gc_ID x \<noteq> k"
      have "gc_key x = key" using True x(2) by simp
      with ne have "\<not> gc_active c" by (simp add: x(2) status1_active retire1_active)
      then show False using assms(5) by simp
    qed
    then show ?thesis unfolding mem using True assms(1) by (metis (no_types, lifting))
  next
    case False
    have id: "status1 now k ''active'' (retire1 now key x) = x"
      if x: "x \<in> set (credentials db)" "gc_key x \<noteq> key" for x
    proof -
      have "gc_ID x \<noteq> k" using x u assms(3) by blast
      with x(2) show ?thesis by (simp add: status1_def retire1_def)
    qed
    have "c \<in> set (credentials (activate now k key db)) \<longleftrightarrow> c \<in> set (credentials db)"
    proof
      assume "c \<in> set (credentials (activate now k key db))"
      then obtain x where x: "x \<in> set (credentials db)" "c = status1 now k ''active'' (retire1 now key x)"
        using mem by blast
      then have "gc_key x \<noteq> key" using False by simp
      with x id show "c \<in> set (credentials db)" by simp
    next
      assume c: "c \<in> set (credentials db)"
      from id [OF c False] c show "c \<in> set (credentials (activate now k key db))"
        unfolding mem by metis
    qed
    with False show ?thesis by simp
  qed
qed

lemma resolve_after_activate:
  assumes ok: "routing_ok db" and ok': "routing_ok (activate now k key db)"
    and c0: "c0 \<in> set (credentials db)" "gc_ID c0 = k" "gc_key c0 = key"
  shows "ResolveActive app ref p (activate now k key db) = Inr x \<longleftrightarrow>
    (if gc_key (rg_Credential x) = key
     then \<exists>m r. m \<in> set (mappings db) \<and> r \<in> set (recipients db)
        \<and> im_key m = (TrimSpace app, TrimSpace ref) \<and> im_IsActive m \<and> pr_ID r = im_RecipientID m \<and> pr_IsActive r
        \<and> key = (pr_ID r, TrimSpace p) \<and> x = resolved_of m r (status1 now k ''active'' (retire1 now key c0))
     else ResolveActive app ref p db = Inr x)"
proof -
  let ?db' = "activate now k key db" and ?c = "status1 now k ''active'' (retire1 now key c0)"
  have d: "distinct (map gc_ID (credentials db))" using ok unfolding routing_ok_def by blast
  have act: "gc_active ?c" "gc_key ?c = key" using c0 by (simp_all add: status1_active)
  have same: "mappings ?db' = mappings db" "recipients ?db' = recipients db" by (simp_all add: activate_def)
  have rc: "route a f q ?db' m r c \<longleftrightarrow>
    (if gc_key c = key
     then m \<in> set (mappings db) \<and> r \<in> set (recipients db) \<and> c = ?c \<and> im_key m = (a, f) \<and> im_IsActive m
       \<and> pr_ID r = im_RecipientID m \<and> pr_IsActive r \<and> gc_key c = (pr_ID r, q) \<and> gc_active c
     else route a f q db m r c)" for a f q m r c
    by (rule route_cong [OF same]) (simp_all add: activate_members [OF c0 d])
  have cr: "rg_Credential (resolved_of m r c) = c" for m r c by (simp add: resolved_of_def)
  show ?thesis
  proof (cases "gc_key (rg_Credential x) = key")
    case True
    have "(\<exists>m r c. route (TrimSpace app) (TrimSpace ref) (TrimSpace p) ?db' m r c \<and> x = resolved_of m r c)
      \<longleftrightarrow> (\<exists>m r. m \<in> set (mappings db) \<and> r \<in> set (recipients db)
        \<and> im_key m = (TrimSpace app, TrimSpace ref) \<and> im_IsActive m \<and> pr_ID r = im_RecipientID m \<and> pr_IsActive r
        \<and> key = (pr_ID r, TrimSpace p) \<and> x = resolved_of m r ?c)"
    proof (intro iffI; elim exE conjE)
      fix m r c assume h: "route (TrimSpace app) (TrimSpace ref) (TrimSpace p) ?db' m r c" "x = resolved_of m r c"
      then have "gc_key c = key" using True cr by metis
      with h rc show "\<exists>m r. m \<in> set (mappings db) \<and> r \<in> set (recipients db)
        \<and> im_key m = (TrimSpace app, TrimSpace ref) \<and> im_IsActive m \<and> pr_ID r = im_RecipientID m \<and> pr_IsActive r
        \<and> key = (pr_ID r, TrimSpace p) \<and> x = resolved_of m r ?c" by metis
    next
      fix m r assume h: "m \<in> set (mappings db)" "r \<in> set (recipients db)"
        "im_key m = (TrimSpace app, TrimSpace ref)" "im_IsActive m" "pr_ID r = im_RecipientID m" "pr_IsActive r"
        "key = (pr_ID r, TrimSpace p)" "x = resolved_of m r ?c"
      have "route (TrimSpace app) (TrimSpace ref) (TrimSpace p) ?db' m r ?c"
        using rc [of "TrimSpace app" "TrimSpace ref" "TrimSpace p" m r ?c] act h(1-7) by metis
      with h(8) show "\<exists>m r c. route (TrimSpace app) (TrimSpace ref) (TrimSpace p) ?db' m r c \<and> x = resolved_of m r c"
        by blast
    qed
    with True show ?thesis unfolding ResolveActive_iff [OF ok'] by simp
  next
    case False
    then show ?thesis
      unfolding ResolveActive_iff [OF ok'] ResolveActive_iff [OF ok] by (simp only: if_False) (metis cr rc)
  qed
qed

lemma resolve_append_inactive:
  assumes "routing_ok db" "routing_ok db1" "db1 = db\<lparr>credentials := credentials db @ [row]\<rparr>" "\<not> gc_active row"
  shows "ResolveActive a f p db1 = Inr x \<longleftrightarrow> ResolveActive a f p db = Inr x"
proof -
  have "route a f p db1 m r c \<longleftrightarrow> route a f p db m r c" for a f p m r c
    using assms(4) by (auto simp: route_def assms(3))
  then show ?thesis
    unfolding ResolveActive_iff [OF assms(1)] ResolveActive_iff [OF assms(2)] by simp
qed

text \<open>
  Rotating a credential moves exactly its own traffic.  After a successful
  rotation every route to that recipient and provider answers with the new
  configuration, whose version is above every earlier one, routes to
  anything else answer as before, and no route is lost.
\<close>
lemma rotation_switches_traffic:
  assumes "routing_inv db" "RotateCredential now rnd cid keyID encrypt db = (Inr c, db')"
  shows "(\<forall>a f p x. gc_key (rg_Credential x) \<noteq> gc_key c \<longrightarrow>
            (ResolveActive a f p db' = Inr x \<longleftrightarrow> ResolveActive a f p db = Inr x))
    \<and> (\<forall>a f p x. ResolveActive a f p db' = Inr x \<and> gc_key (rg_Credential x) = gc_key c \<longrightarrow>
            gc_ID (rg_Credential x) = gc_ID c \<and> gc_Version (rg_Credential x) = gc_Version c
            \<and> gc_EncryptedCredentials (rg_Credential x) = gc_EncryptedCredentials c)
    \<and> (\<forall>a f p x. ResolveActive a f p db = Inr x \<and> gc_key (rg_Credential x) = gc_key c \<longrightarrow>
            (\<exists>x'. ResolveActive a f p db' = Inr x' \<and> rg_RecipientID x' = rg_RecipientID x
               \<and> gc_key (rg_Credential x') = gc_key c))
    \<and> (\<forall>v \<in> set (versions (gc_key c) db). v < gc_Version c)"
proof -
  have ok: "routing_ok db" "canonical db" using assms(1) by (simp_all add: routing_inv_def)
  obtain old row where r: "routing_ok db'"
    "db' = set_status now rnd ''active'' (retire_active now (gc_key old) (db\<lparr>credentials := credentials db @ [row]\<rparr>))"
    "gc_ID row = rnd" "gc_key row = gc_key old" "gc_Status row = ''draft''"
    "gc_Version row = int (Suc (length (versions (gc_key old) db)))"
    "gc_Version c = gc_Version row" "gc_ID c = rnd" "gc_EncryptedCredentials c = gc_EncryptedCredentials row"
    "gc_key c = gc_key old" "routing_ok (db\<lparr>credentials := credentials db @ [row]\<rparr>)"
    by (rule Rotate_Inr [OF assms(2) ok(1) canonical_recipient [OF ok(2)]]) blast+
  let ?db1 = "db\<lparr>credentials := credentials db @ [row]\<rparr>" and ?key = "gc_key old"
  have db': "db' = activate now rnd ?key ?db1" by (simp add: r(2) activate_def)
  have old: "ResolveActive a f p ?db1 = Inr x \<longleftrightarrow> ResolveActive a f p db = Inr x" for a f p x
    using resolve_append_inactive [OF ok(1) r(11) refl] r(5) by (simp add: gc_active_def)
  let ?c = "status1 now rnd ''active'' (retire1 now ?key row)"
  have new: "ResolveActive a f p db' = Inr x \<longleftrightarrow>
    (if gc_key (rg_Credential x) = ?key
     then \<exists>m r. m \<in> set (mappings db) \<and> r \<in> set (recipients db)
        \<and> im_key m = (TrimSpace a, TrimSpace f) \<and> im_IsActive m \<and> pr_ID r = im_RecipientID m \<and> pr_IsActive r
        \<and> ?key = (pr_ID r, TrimSpace p) \<and> x = resolved_of m r ?c
     else ResolveActive a f p db = Inr x)" for a f p x
    using resolve_after_activate [OF r(11), of now rnd ?key row a f p x] r(1,3,4)
    unfolding db' old by simp
  have cc: "core ?c = core row" by simp
  have "\<forall>a f p x. ResolveActive a f p db' = Inr x \<and> gc_key (rg_Credential x) = gc_key c \<longrightarrow>
            gc_ID (rg_Credential x) = gc_ID c \<and> gc_Version (rg_Credential x) = gc_Version c
            \<and> gc_EncryptedCredentials (rg_Credential x) = gc_EncryptedCredentials c"
    using cc r(3,7,8,9) unfolding new r(10) by (auto simp: resolved_of_def core_def)
  moreover have "\<forall>a f p x. ResolveActive a f p db = Inr x \<and> gc_key (rg_Credential x) = gc_key c \<longrightarrow>
            (\<exists>x'. ResolveActive a f p db' = Inr x' \<and> rg_RecipientID x' = rg_RecipientID x
               \<and> gc_key (rg_Credential x') = gc_key c)"
  proof (intro allI impI, elim conjE)
    fix a f p x assume x: "ResolveActive a f p db = Inr x" "gc_key (rg_Credential x) = gc_key c"
    then obtain m q d where m: "route (TrimSpace a) (TrimSpace f) (TrimSpace p) db m q d" "x = resolved_of m q d"
      unfolding ResolveActive_iff [OF ok(1)] by blast
    then have "?key = (pr_ID q, TrimSpace p)"
      using x(2) r(10) by (simp add: route_def resolved_of_def)
    moreover have "gc_key ?c = ?key" using r(4) by simp
    ultimately have "gc_key (rg_Credential (resolved_of m q ?c)) = ?key" "?key = (pr_ID q, TrimSpace p)"
      by (simp_all add: resolved_of_def)
    then have "ResolveActive a f p db' = Inr (resolved_of m q ?c)"
      unfolding new using m(1) [unfolded route_def]
      by (subst if_P) (blast intro: exI [of _ m] exI [of _ q])+
    then show "\<exists>x'. ResolveActive a f p db' = Inr x' \<and> rg_RecipientID x' = rg_RecipientID x
               \<and> gc_key (rg_Credential x') = gc_key c"
      using m(2) r(4,10) by (intro exI [of _ "resolved_of m q ?c"]) (simp add: resolved_of_def)
  qed
  moreover have "v < gc_Version c" if v: "v \<in> set (versions (gc_key c) db)" for v
  proof -
    have "v \<in> set (counting (length (versions ?key db)))"
      using v ok_versions [OF ok(1), of ?key] r(10) by metis
    then show ?thesis using r(6,7) by (auto simp: counting_def)
  qed
  moreover have "\<forall>a f p x. gc_key (rg_Credential x) \<noteq> gc_key c \<longrightarrow>
            (ResolveActive a f p db' = Inr x \<longleftrightarrow> ResolveActive a f p db = Inr x)"
    unfolding new r(10) by simp
  ultimately show ?thesis by blast
qed

theorem rotation_switches_traffic_witness:
  "\<exists>c db'. RotateCredential 5 ''c2'' ''c1'' ''env'' (\<lambda>c. Inr (JStr ''p2'')) demo_db = (Inr c, db')
     \<and> (\<forall>v \<in> set (versions (gc_key c) demo_db). v < gc_Version c)"
  using demo_rotate rotation_switches_traffic [OF demo_inv] by blast

lemma ResolveActive_route:
  "ResolveActive a f p db = Inr x \<Longrightarrow>
     \<exists>m r c. route (TrimSpace a) (TrimSpace f) (TrimSpace p) db m r c \<and> x = resolved_of m r c"
  using set_routes [of x "TrimSpace a" "TrimSpace f" "TrimSpace p" db]
  by (auto simp: ResolveActive_def split: list.splits)

lemma ResolveActive_Inl: "(\<And>x. ResolveActive a f p db \<noteq> Inr x) \<Longrightarrow> ResolveActive a f p db = Inl RecipientMappingNotFound"
proof (cases "routes (TrimSpace a) (TrimSpace f) (TrimSpace p) db")
  case (Cons y ys)
  assume "\<And>x. ResolveActive a f p db \<noteq> Inr x"
  moreover have "ResolveActive a f p db = Inr y" using Cons by (simp add: ResolveActive_def)
  ultimately show ?thesis by blast
qed (simp add: ResolveActive_def)

text \<open>
  The kill switches.  After a credential is disabled no route answers with it;
  after a mapping is deactivated its app and reference resolve to nothing, for
  any provider; after a recipient is deactivated no route answers with it.
\<close>
lemma deactivation_stops_routing:
  assumes "routing_inv db"
  shows "(SetCredentialStatus now i ''disabled'' db = (Inr (), db') \<longrightarrow>
            (\<forall>a f p x. ResolveActive a f p db' = Inr x \<longrightarrow> uuid_of db (TrimSpace i) \<noteq> Some (gc_ID (rg_Credential x))))
    \<and> (SetMappingActive now i False db = (Inr (), db') \<longrightarrow>
            (\<forall>m \<in> set (mappings db). \<forall>a f p. uuid_of db (TrimSpace i) = Some (im_ID m) \<and> im_IsActive m
               \<and> im_key m = (TrimSpace a, TrimSpace f) \<longrightarrow> ResolveActive a f p db' = Inl RecipientMappingNotFound))
    \<and> (SetRecipientActive now i False db = (Inr (), db') \<longrightarrow>
            (\<forall>a f p x. ResolveActive a f p db' = Inr x \<longrightarrow> uuid_of db (TrimSpace i) \<noteq> Some (rg_RecipientID x)))"
proof (intro conjI impI allI ballI)
  fix a f p x
  assume s: "SetCredentialStatus now i ''disabled'' db = (Inr (), db')" and x: "ResolveActive a f p db' = Inr x"
  obtain k where k: "uuid_of db (TrimSpace i) = Some k" "db' = set_status now k ''disabled'' db"
    using s by (auto simp: SetCredentialStatus_def Let_def split: option.splits if_splits)
  from ResolveActive_route [OF x] obtain m r c where c: "c \<in> set (credentials db')" "gc_active c" "rg_Credential x = c"
    by (auto simp: route_def resolved_of_def)
  then obtain y where "c = status1 now k ''disabled'' y" by (auto simp: k(2) set_status_map)
  then have "gc_ID c \<noteq> k" using c(2) by (auto simp: status1_active)
  then show "uuid_of db (TrimSpace i) \<noteq> Some (gc_ID (rg_Credential x))"
    using k(1) c(3) by simp
next
  fix m a f p
  assume s: "SetMappingActive now i False db = (Inr (), db')" and m: "m \<in> set (mappings db)"
    "uuid_of db (TrimSpace i) = Some (im_ID m) \<and> im_IsActive m \<and> im_key m = (TrimSpace a, TrimSpace f)"
  have ms: "mappings db' = map (\<lambda>x. if im_ID x = im_ID m then x\<lparr>im_IsActive := False, im_UpdatedAt := now\<rparr> else x) (mappings db)"
    using s m by (auto simp: SetMappingActive_def split: option.splits)
  show "ResolveActive a f p db' = Inl RecipientMappingNotFound"
  proof (rule ResolveActive_Inl, rule notI)
    fix x assume "ResolveActive a f p db' = Inr x"
    from ResolveActive_route [OF this] obtain m' where
      m': "m' \<in> set (mappings db')" "im_IsActive m'" "im_key m' = (TrimSpace a, TrimSpace f)"
      by (auto simp: route_def)
    then have "m' \<in> set (mappings db)" "im_ID m' \<noteq> im_ID m" by (auto simp: ms split: if_splits)
    moreover have "m' = m"
      using unique_by [OF routing_invD(3) [OF assms], of m' m] calculation(1) m m' by simp
    ultimately show False by simp
  qed
next
  fix a f p x
  assume s: "SetRecipientActive now i False db = (Inr (), db')" and x: "ResolveActive a f p db' = Inr x"
  obtain k where k: "uuid_of db (TrimSpace i) = Some k"
    "recipients db' = map (\<lambda>r. if pr_ID r = k then r\<lparr>pr_IsActive := False, pr_UpdatedAt := now\<rparr> else r) (recipients db)"
    using s by (auto simp: SetRecipientActive_def split: option.splits if_splits)
  from ResolveActive_route [OF x] obtain r where
    r: "r \<in> set (recipients db')" "pr_IsActive r" "rg_RecipientID x = pr_ID r"
    by (auto simp: route_def resolved_of_def)
  then obtain q where "r = (if pr_ID q = k then q\<lparr>pr_IsActive := False, pr_UpdatedAt := now\<rparr> else q)"
    unfolding k(2) set_map by (elim imageE) blast
  then have "pr_ID r \<noteq> k" using r(2) by (simp split: if_splits)
  then show "uuid_of db (TrimSpace i) \<noteq> Some (rg_RecipientID x)"
    using k(1) r(3) by simp
qed

theorem deactivation_stops_routing_witness:
  "\<exists>db'. SetCredentialStatus 9 ''c1'' ''disabled'' demo_db = (Inr (), db')
     \<and> (\<forall>a f p x. ResolveActive a f p db' = Inr x \<longrightarrow> ''c1'' \<noteq> gc_ID (rg_Credential x))"
proof -
  have "lockRecipientForCredentialChange ''r1'' demo_db = None"
    by (simp add: lockRecipientForCredentialChange_def find_recipient_def demo_db_def demo_uuid_def TrimSpace_def is_space_def)
  then obtain db' where "SetCredentialStatus 9 ''c1'' ''disabled'' demo_db = (Inr (), db')"
    by (simp add: SetCredentialStatus_def demo_credential_def statuses_def)
  with deactivation_stops_routing [OF demo_inv, of 9 "''c1''" db'] show ?thesis by auto
qed

end
