(* ===== verification/Cipher.thy ===== *)
theory Cipher
  imports Http Base64
begin

text \<open>
  Encryption of credential payloads, internal/credentials/cipher.go.  AES-GCM is
  an argument: new_gcm builds from a key of 32 bytes an AEAD with its Seal and
  Open.  The law the code relies on is aead_law: Open returns p for a nonce, a
  ciphertext and additional data exactly when the ciphertext is what Seal makes
  of p with them.  GCM's Open panics on a nonce of the wrong length, which is a
  branch of Decrypt here.  The random nonce is an argument, None when the random
  source fails.  The JSON text of an envelope is the document it parses to.
\<close>

record aead =
  Seal :: "string \<Rightarrow> string \<Rightarrow> string \<Rightarrow> string"
  Open :: "string \<Rightarrow> string \<Rightarrow> string \<Rightarrow> string option"

definition NonceSize :: nat where "NonceSize = 12"

definition aead_law :: "aead \<Rightarrow> bool" where
  "aead_law g \<longleftrightarrow> (\<forall>n c a p. length n = NonceSize \<longrightarrow> (Open g n c a = Some p \<longleftrightarrow> c = Seal g n p a))"

datatype cipher_error =
    NotConfigured | NonceSourceFailed | BadEnvelope | UnsupportedVersion | BadNonce
  | BadCiphertext | OpenFailed | NoncePanic | BadKeyText | BadKeyLength

definition encryptionVersion :: int where "encryptionVersion = 1"

definition NewFromBase64 :: "(string \<Rightarrow> aead) \<Rightarrow> string \<Rightarrow> cipher_error + aead" where
  "NewFromBase64 new_gcm encodedKey = (case StdDecode (TrimSpace encodedKey) of
     None \<Rightarrow> Inl BadKeyText
   | Some key \<Rightarrow> if length key \<noteq> 32 then Inl BadKeyLength else Inr (new_gcm key))"

definition Encrypt :: "string option \<Rightarrow> aead option \<Rightarrow> string \<Rightarrow> string \<Rightarrow> cipher_error + json" where
  "Encrypt rnd c plaintext additionalData = (case c of
     None \<Rightarrow> Inl NotConfigured
   | Some g \<Rightarrow> (case rnd of
       None \<Rightarrow> Inl NonceSourceFailed
     | Some nonce \<Rightarrow>
         Inr (JObj [(''version'', jint encryptionVersion),
                    (''nonce'', JStr (StdEncode nonce)),
                    (''ciphertext'', JStr (StdEncode (Seal g nonce plaintext additionalData)))])))"

text \<open>Decoding of the envelope struct.\<close>

definition decode_envelope :: "json option \<Rightarrow> (int \<times> string \<times> string) option" where
  "decode_envelope doc = (case doc of
     Some JNull \<Rightarrow> Some (0, [], [])
   | Some (JObj kvs) \<Rightarrow> (case int_field ''version'' kvs of
       None \<Rightarrow> None
     | Some v \<Rightarrow> if field_ok ''nonce'' kvs \<and> field_ok ''ciphertext'' kvs
                 then Some (v, field ''nonce'' kvs, field ''ciphertext'' kvs) else None)
   | _ \<Rightarrow> None)"

definition Decrypt :: "aead option \<Rightarrow> json option \<Rightarrow> string \<Rightarrow> cipher_error + string" where
  "Decrypt c encoded additionalData = (case c of
     None \<Rightarrow> Inl NotConfigured
   | Some g \<Rightarrow> (case decode_envelope encoded of
       None \<Rightarrow> Inl BadEnvelope
     | Some (version, n64, c64) \<Rightarrow>
         if version \<noteq> encryptionVersion then Inl UnsupportedVersion
         else (case StdDecode n64 of
           None \<Rightarrow> Inl BadNonce
         | Some nonce \<Rightarrow> (case StdDecode c64 of
             None \<Rightarrow> Inl BadCiphertext
           | Some ciphertext \<Rightarrow>
               if length nonce \<noteq> NonceSize then Inl NoncePanic
               else (case Open g nonce ciphertext additionalData of
                 None \<Rightarrow> Inl OpenFailed
               | Some p \<Rightarrow> Inr p)))))"

lemma decode_envelope_Encrypt:
  "decode_envelope (Some (JObj [(''version'', jint encryptionVersion), (''nonce'', JStr a), (''ciphertext'', JStr b)]))
     = Some (encryptionVersion, a, b)"
  by (simp add: decode_envelope_def int_field_def field_ok_def field_def jint_def encryptionVersion_def
      EqualFold_def ToLower_def lower_char_def upper_letters_def lower_letters_def quotient_of_int)

text \<open>
  C29: what Encrypt stores, Decrypt returns, under the same additional data, for
  every payload, whatever the base64 coding of nonce and ciphertext contains;
  and no other plaintext than the one sealed for exactly this additional
  data is ever returned for the stored envelope.
\<close>
theorem decrypt_encrypt:
  assumes "aead_law g" "length nonce = NonceSize"
    and "Encrypt (Some nonce) (Some g) plaintext ad = Inr doc"
  shows "Decrypt (Some g) (Some doc) ad = Inr plaintext
    \<and> (\<forall>ad' p. Decrypt (Some g) (Some doc) ad' = Inr p \<longrightarrow> Seal g nonce p ad' = Seal g nonce plaintext ad)"
proof -
  have doc: "doc = JObj [(''version'', jint encryptionVersion), (''nonce'', JStr (StdEncode nonce)),
      (''ciphertext'', JStr (StdEncode (Seal g nonce plaintext ad)))]"
    using assms(3) by (simp add: Encrypt_def)
  have d: "Decrypt (Some g) (Some doc) ad' = (case Open g nonce (Seal g nonce plaintext ad) ad' of
      None \<Rightarrow> Inl OpenFailed | Some p \<Rightarrow> Inr p)" for ad'
    unfolding doc Decrypt_def by (simp add: decode_envelope_Encrypt assms(2))
  show ?thesis
  proof (intro conjI allI impI)
    have "Open g nonce (Seal g nonce plaintext ad) ad = Some plaintext"
      using assms(1,2) by (simp add: aead_law_def)
    then show "Decrypt (Some g) (Some doc) ad = Inr plaintext" by (simp add: d)
  next
    fix ad' p
    assume "Decrypt (Some g) (Some doc) ad' = Inr p"
    then have "Open g nonce (Seal g nonce plaintext ad) ad' = Some p"
      by (simp add: d split: option.splits)
    then show "Seal g nonce p ad' = Seal g nonce plaintext ad"
      using assms(1,2) unfolding aead_law_def by metis
  qed
qed

text \<open>A toy AEAD with the law, for the witnesses: the tag is the data itself.\<close>

definition tag :: "string \<Rightarrow> string \<Rightarrow> string" where
  "tag n a = n @ StdEncode a @ [CHR 0x0A]"

definition toy_aead :: aead where
  "toy_aead = \<lparr> Seal = (\<lambda>n p a. tag n a @ p),
     Open = (\<lambda>n c a. if take (length (tag n a)) c = tag n a then Some (drop (length (tag n a)) c) else None) \<rparr>"

lemma split_prefix: "(if take (length t) c = t then Some (drop (length t) c) else None) = Some p \<longleftrightarrow> c = t @ p"
  by (metis append_eq_conv_conj option.distinct(1) option.inject)

lemma toy_aead_law: "aead_law toy_aead"
  by (simp only: aead_law_def toy_aead_def aead.select_convs split_prefix simp_thms)

theorem decrypt_encrypt_witness:
  "Decrypt (Some toy_aead) (Some (JObj [(''version'', jint 1),
     (''nonce'', JStr (StdEncode ''abcdefghijkl'')),
     (''ciphertext'', JStr (StdEncode (Seal toy_aead ''abcdefghijkl'' ''secret'' ''aad'')))])) ''aad''
   = Inr ''secret''"
  by (rule decrypt_encrypt [THEN conjunct1, OF toy_aead_law, of "''abcdefghijkl''"])
     (simp_all add: NonceSize_def Encrypt_def encryptionVersion_def)

text \<open>
  A stored envelope whose nonce does not have 12 bytes makes Decrypt panic
  instead of returning an error, whatever the key and the additional data.
\<close>
lemma decrypt_short_nonce_panics:
  assumes "length nonce \<noteq> NonceSize"
  shows "Decrypt (Some g) (Some (JObj [(''version'', jint encryptionVersion),
      (''nonce'', JStr (StdEncode nonce)), (''ciphertext'', JStr (StdEncode ct))])) ad = Inl NoncePanic"
  using assms by (simp add: Decrypt_def decode_envelope_Encrypt)

theorem decrypt_short_nonce_panics_witness:
  "Decrypt (Some toy_aead) (Some (JObj [(''version'', jint encryptionVersion),
      (''nonce'', JStr (StdEncode ''x'')), (''ciphertext'', JStr (StdEncode ''y''))])) ''ad'' = Inl NoncePanic"
  by (rule decrypt_short_nonce_panics) (simp add: NonceSize_def)

end
