(* ===== verification/Config.thy ===== *)
theory Config
  imports JsonText
begin

text \<open>
  Configuration from the environment, config/config.go: the readers getenv,
  atoi, atoiMin, parseBool, normalizePath and Load.  The record Config is built
  in steps, one group of its fields after the other.  The environment is a function from names to values, absent names
  giving the empty string as os.Getenv does.
\<close>

record service_config = 
  AppName :: string
  Port :: string

record dkpg_config = service_config +
  DKPGBaseURL :: string
  DKPGAPIKey :: string
  DKPGUsername :: string
  DKPGPassword :: string
  DKPGClientID :: string
  DKPGClientSecret :: string
  DKPGScopes :: string
  DKPGSourceApp :: string
  DKPGPrivateKey :: string

record db_config = dkpg_config +
  DatabaseURL :: string
  DBHost :: string
  DBPort :: string
  DBUser :: string
  DBPass :: string
  DBName :: string
  DBSSLMode :: string
  DBTimezone :: string

record admin_config = db_config +
  AdminUsername :: string
  AdminPassword :: string
  AdminPasswordHash :: string
  AdminSignupRoute :: string
  AdminSignupKey :: string
  JWTSecret :: string
  JWTTTLMinutes :: int
  JWTIssuer :: string
  JWTAudience :: string
  AuthCookieName :: string

record login_config = admin_config +
  LoginMaxAttempts :: int
  LoginWindowMinutes :: int
  LoginLockMinutes :: int
  LoginCaptchaSiteKey :: string
  LoginCaptchaSecret :: string
  LoginCaptchaAfterFailures :: int
  LoginCaptchaTimeoutSeconds :: int
  APIKeyAuthMaxConcurrent :: int
  APIKeyAuthInvalidCacheSeconds :: int
  APIKeyAuthBusyRetryAfterSeconds :: int

record limits_config = login_config +
  BizRateLimitMax :: int
  BizRateLimitWindowSeconds :: int
  OTPRateLimitMax :: int
  OTPRateLimitWindowSeconds :: int
  DKPGRateLimitMax :: int
  DKPGRateLimitWindowSeconds :: int
  AdminWriteRateLimitMax :: int
  AdminWriteRateLimitWindowSeconds :: int
  AppCreateRateLimitMax :: int
  AppCreateRateLimitWindowSeconds :: int

record stripe_config = limits_config +
  StripeAPIKey :: string
  StripeBaseURL :: string
  StripeAgencyName :: string
  StripeSuccessURL :: string
  StripeCancelURL :: string
  StripeCurrency :: string

record headers_config = stripe_config +
  PaymentCredentialMasterKey :: string
  PlatformBaseURL :: string
  PlatformAPIKey :: string
  SecurityHeadersEnabled :: bool
  CSPEnabled :: bool
  CSPPolicy :: string
  CSPReportOnly :: bool
  CSPReportURI :: string
  HTTPSRedirectEnabled :: bool
  CSRFCookieName :: string

record config = headers_config +
  ServerReadTimeoutSeconds :: int
  ServerWriteTimeoutSeconds :: int
  ServerIdleTimeoutSeconds :: int
  ServerConcurrency :: int
  ServerMaxConnsPerIP :: int
  ServerReadBufferBytes :: int

type_synonym environment = "string \<Rightarrow> string"

definition getenv :: "environment \<Rightarrow> string \<Rightarrow> string \<Rightarrow> string" where
  "getenv env key fallback = (let value = TrimSpace (env key) in if value = [] then fallback else value)"

text \<open>strconv.Atoi: an optional sign and decimal digits, within the range of int64.\<close>

definition Atoi :: "string \<Rightarrow> int option" where
  "Atoi s =
     (let (sg, ds) = (case s of c # t \<Rightarrow> if c = CHR ''-'' then (-1, t) else if c = CHR ''+'' then (1, t) else (1, s)
                      | [] \<Rightarrow> (1, []));
          v = sg * int (digits_val ds)
      in if ds = [] \<or> \<not> list_all is_digit ds then None
         else if v < - (2 ^ 63) \<or> v > 2 ^ 63 - 1 then None
         else Some v)"

definition atoi :: "string \<Rightarrow> int \<Rightarrow> int" where
  "atoi s fallback = (case Atoi (TrimSpace s) of None \<Rightarrow> fallback | Some v \<Rightarrow> v)"

definition atoiMin :: "string \<Rightarrow> int \<Rightarrow> int \<Rightarrow> int" where
  "atoiMin s fallback mn = (let v = atoi s fallback in if v < mn then mn else v)"

definition ParseBool :: "string \<Rightarrow> bool option" where
  "ParseBool s =
     (if s \<in> set [''1'', ''t'', ''T'', ''TRUE'', ''true'', ''True''] then Some True
      else if s \<in> set [''0'', ''f'', ''F'', ''FALSE'', ''false'', ''False''] then Some False
      else None)"

definition parseBool :: "string \<Rightarrow> bool \<Rightarrow> bool" where
  "parseBool s fallback = (case ParseBool (TrimSpace s) of None \<Rightarrow> fallback | Some b \<Rightarrow> b)"

fun one_of :: "string \<Rightarrow> string list \<Rightarrow> string option" where
  "one_of s [] = None"
| "one_of s (v # vs) = (if s = v then Some s else one_of s vs)"

definition normalizeMode :: "string \<Rightarrow> string \<Rightarrow> string list \<Rightarrow> string" where
  "normalizeMode s fallback allowed =
     (let s = ToLower (TrimSpace s) in
      if s = [] then fallback else (case one_of s allowed of Some v \<Rightarrow> v | None \<Rightarrow> fallback))"

definition normalizePath :: "string \<Rightarrow> string" where
  "normalizePath path =
     (let path = TrimSpace path in
      if path = [] then []
      else if take 1 path \<noteq> ''/'' then CHR ''/'' # path else path)"

text \<open>The signup route derived from the JWT secret; sha_hex is hex(sha256(.)).\<close>

definition derivedSignupRoute :: "(string \<Rightarrow> string) \<Rightarrow> string \<Rightarrow> string" where
  "derivedSignupRoute sha_hex seed =
     (let seed = TrimSpace seed in
      if seed = [] then ''/api/_internal/admin-signup/disabled''
      else ''/api/_internal/admin-signup/'' @ sha_hex (seed @ '':admin-signup-route-v1''))"

definition AdminSignupRoute_of :: "(string \<Rightarrow> string) \<Rightarrow> environment \<Rightarrow> string" where
  "AdminSignupRoute_of sha_hex env =
     (let r = normalizePath (getenv env ''ADMIN_SIGNUP_ROUTE'' [])
      in if r = [] then derivedSignupRoute sha_hex (getenv env ''JWT_SECRET'' []) else r)"

definition Load :: "(string \<Rightarrow> string) \<Rightarrow> string \<Rightarrow> environment \<Rightarrow> config" where
  "Load sha_hex privateKey env =
     \<lparr> AppName = getenv env ''APP_NAME'' ''DK Payment Gateway Backend'',
       Port = getenv env ''PORT'' ''5001'',
       DKPGBaseURL = getenv env ''DKPG_BASE_URL'' ''https://internal-gateway.uat.digitalkidu.bt/api/dkpg'',
       DKPGAPIKey = getenv env ''DKPG_API_KEY'' [],
       DKPGUsername = getenv env ''DKPG_USERNAME'' [],
       DKPGPassword = getenv env ''DKPG_PASSWORD'' [],
       DKPGClientID = getenv env ''DKPG_CLIENT_ID'' [],
       DKPGClientSecret = getenv env ''DKPG_CLIENT_SECRET'' [],
       DKPGScopes = getenv env ''DKPG_SCOPES'' ''keys:read'',
       DKPGSourceApp = getenv env ''DKPG_SOURCE_APP'' ''SRC_AVS_0201'',
       DKPGPrivateKey = privateKey,
       DatabaseURL = getenv env ''DATABASE_URL'' [],
       DBHost = getenv env ''DB_HOST'' [],
       DBPort = getenv env ''DB_PORT'' ''5432'',
       DBUser = getenv env ''DB_USER'' [],
       DBPass = getenv env ''DB_PASS'' [],
       DBName = getenv env ''DB_NAME'' [],
       DBSSLMode = getenv env ''DB_SSLMODE'' ''disable'',
       DBTimezone = getenv env ''DB_TIMEZONE'' [],
       AdminUsername = getenv env ''ADMIN_USERNAME'' ''admin'',
       AdminPassword = getenv env ''ADMIN_PASSWORD'' [],
       AdminPasswordHash = getenv env ''ADMIN_PASSWORD_HASH'' [],
       AdminSignupRoute = AdminSignupRoute_of sha_hex env,
       AdminSignupKey = getenv env ''ADMIN_SIGNUP_KEY'' [],
       JWTSecret = getenv env ''JWT_SECRET'' [],
       JWTTTLMinutes = atoi (getenv env ''JWT_TTL_MINUTES'' ''60'') 60,
       JWTIssuer = getenv env ''JWT_ISSUER'' ''dk-gateway-admin'',
       JWTAudience = getenv env ''JWT_AUDIENCE'' ''dk-gateway-admin'',
       AuthCookieName = getenv env ''AUTH_COOKIE_NAME'' ''admin_session'',
       LoginMaxAttempts = atoi (getenv env ''LOGIN_MAX_ATTEMPTS'' ''5'') 5,
       LoginWindowMinutes = atoi (getenv env ''LOGIN_WINDOW_MINUTES'' ''15'') 15,
       LoginLockMinutes = atoi (getenv env ''LOGIN_LOCK_MINUTES'' ''15'') 15,
       LoginCaptchaSiteKey = getenv env ''LOGIN_CAPTCHA_SITE_KEY'' [],
       LoginCaptchaSecret = getenv env ''LOGIN_CAPTCHA_SECRET'' [],
       LoginCaptchaAfterFailures = atoi (getenv env ''LOGIN_CAPTCHA_AFTER_FAILURES'' ''0'') 0,
       LoginCaptchaTimeoutSeconds = atoi (getenv env ''LOGIN_CAPTCHA_TIMEOUT_SECONDS'' ''3'') 3,
       APIKeyAuthMaxConcurrent = atoi (getenv env ''API_KEY_AUTH_MAX_CONCURRENT'' ''16'') 16,
       APIKeyAuthInvalidCacheSeconds = atoi (getenv env ''API_KEY_AUTH_INVALID_CACHE_SECONDS'' ''2'') 2,
       APIKeyAuthBusyRetryAfterSeconds = atoi (getenv env ''API_KEY_AUTH_BUSY_RETRY_AFTER_SECONDS'' ''1'') 1,
       BizRateLimitMax = atoi (getenv env ''BIZ_RATE_LIMIT_MAX'' ''60'') 60,
       BizRateLimitWindowSeconds = atoi (getenv env ''BIZ_RATE_LIMIT_WINDOW_SECONDS'' ''60'') 60,
       OTPRateLimitMax = atoi (getenv env ''OTP_RATE_LIMIT_MAX'' ''10'') 10,
       OTPRateLimitWindowSeconds = atoi (getenv env ''OTP_RATE_LIMIT_WINDOW_SECONDS'' ''60'') 60,
       DKPGRateLimitMax = atoi (getenv env ''DKPG_RATE_LIMIT_MAX'' ''30'') 30,
       DKPGRateLimitWindowSeconds = atoi (getenv env ''DKPG_RATE_LIMIT_WINDOW_SECONDS'' ''60'') 60,
       AdminWriteRateLimitMax = atoi (getenv env ''ADMIN_WRITE_RATE_LIMIT_MAX'' ''20'') 20,
       AdminWriteRateLimitWindowSeconds = atoi (getenv env ''ADMIN_WRITE_RATE_LIMIT_WINDOW_SECONDS'' ''60'') 60,
       AppCreateRateLimitMax = atoi (getenv env ''APP_CREATE_RATE_LIMIT_MAX'' ''5'') 5,
       AppCreateRateLimitWindowSeconds = atoi (getenv env ''APP_CREATE_RATE_LIMIT_WINDOW_SECONDS'' ''60'') 60,
       StripeAPIKey = getenv env ''STRIPE_API_KEY'' [],
       StripeBaseURL = getenv env ''STRIPE_BASE_URL'' ''https://internal-gateway.sit.digitalkidu.bt:8082/uat/stripe/'',
       StripeAgencyName = getenv env ''STRIPE_AGENCY_NAME'' [],
       StripeSuccessURL = getenv env ''STRIPE_SUCCESS_URL'' [],
       StripeCancelURL = getenv env ''STRIPE_CANCEL_URL'' [],
       StripeCurrency = ToUpper (getenv env ''STRIPE_CURRENCY'' ''USD''),
       PaymentCredentialMasterKey = getenv env ''PAYMENT_CREDENTIALS_MASTER_KEY_B64'' [],
       PlatformBaseURL = getenv env ''PLATFORM_BASE_URL'' [],
       PlatformAPIKey = getenv env ''PLATFORM_API_KEY'' [],
       SecurityHeadersEnabled = parseBool (getenv env ''SECURITY_HEADERS_ENABLED'' ''true'') True,
       CSPEnabled = parseBool (getenv env ''CSP_ENABLED'' ''true'') True,
       CSPPolicy = getenv env ''CSP_POLICY'' [],
       CSPReportOnly = parseBool (getenv env ''CSP_REPORT_ONLY'' ''false'') False,
       CSPReportURI = getenv env ''CSP_REPORT_URI'' [],
       HTTPSRedirectEnabled = parseBool (getenv env ''HTTPS_REDIRECT_ENABLED'' ''true'') True,
       CSRFCookieName = getenv env ''CSRF_COOKIE_NAME'' ''csrf_token'',
       ServerReadTimeoutSeconds = atoiMin (getenv env ''SERVER_READ_TIMEOUT_SECONDS'' ''10'') 10 1,
       ServerWriteTimeoutSeconds = atoiMin (getenv env ''SERVER_WRITE_TIMEOUT_SECONDS'' ''30'') 30 1,
       ServerIdleTimeoutSeconds = atoiMin (getenv env ''SERVER_IDLE_TIMEOUT_SECONDS'' ''60'') 60 1,
       ServerConcurrency = atoiMin (getenv env ''SERVER_CONCURRENCY'' ''4096'') 4096 1,
       ServerMaxConnsPerIP = atoiMin (getenv env ''SERVER_MAX_CONNS_PER_IP'' ''0'') 0 0,
       ServerReadBufferBytes = atoiMin (getenv env ''SERVER_READ_BUFFER_BYTES'' ''8192'') 8192 1024 \<rparr>"

text \<open>
  ResolvedDatabaseURL; url_text stands for the rendering of a net/url URL from user,
  password, host, path and query.
\<close>

definition ResolvedDatabaseURL :: "(string \<Rightarrow> string \<Rightarrow> string \<Rightarrow> string \<Rightarrow> (string \<times> string) list \<Rightarrow> string)
    \<Rightarrow> config \<Rightarrow> string" where
  "ResolvedDatabaseURL url_text c =
     (if TrimSpace (DatabaseURL c) \<noteq> [] then DatabaseURL c
      else if TrimSpace (DBHost c) = [] \<or> TrimSpace (DBUser c) = [] \<or> TrimSpace (DBName c) = [] then []
      else url_text (DBUser c) (DBPass c) (DBHost c @ '':'' @ DBPort c) (DBName c)
        ((if DBSSLMode c \<noteq> [] then [(''sslmode'', DBSSLMode c)] else [])
         @ (if DBTimezone c \<noteq> [] then [(''timezone'', DBTimezone c)] else [])))"

section \<open>Facts\<close>

lemma getenv_trimmed: "getenv env k fb = fb \<or> (getenv env k fb = TrimSpace (env k) \<and> \<not> blank (env k))"
  by (simp add: getenv_def blank_def Let_def)

lemma atoiMin_ge: "mn \<le> atoiMin s fb mn"
  by (simp add: atoiMin_def Let_def)

lemma one_of_mem: "one_of s vs = Some v \<Longrightarrow> v = s \<and> v \<in> set vs"
  by (induction s vs rule: one_of.induct) (auto split: if_splits)

lemma normalizeMode_range: "normalizeMode s fb allowed \<in> insert fb (set allowed)"
  by (auto simp: normalizeMode_def Let_def dest: one_of_mem split: option.splits)

lemma normalizePath_shape: "normalizePath p = [] \<or> hd (normalizePath p) = CHR ''/''"
  by (cases "TrimSpace p") (auto simp: normalizePath_def Let_def)

lemma normalizePath_idem: "normalizePath (normalizePath p) = normalizePath p"
proof (cases "TrimSpace p")
  case (Cons c t)
  have t: "TrimSpace (c # t) = c # t" using TrimSpace_idem [of p] by (simp add: Cons)
  then have s: "TrimSpace (CHR ''/'' # c # t) = CHR ''/'' # c # t"
    by (simp add: TrimSpace_fixed is_space_def)
  show ?thesis
  proof (cases "c = CHR ''/''")
    case True
    then show ?thesis using t by (simp add: normalizePath_def Cons Let_def)
  next
    case False
    then show ?thesis using s by (simp add: normalizePath_def Cons Let_def)
  qed
qed (simp add: normalizePath_def Let_def)

end
