(* ===== verification/Dkpg.thy ===== *)
theory Dkpg
  imports Outbound Base64
begin

text \<open>
  The client of the bank, internal/dkpg/client.go: the cached access token, the
  signing key, and the signed request.  The bank, the parser of PEM keys and
  the RS256 signature are arguments (dkpg_world); one instant stands for the calls
  of time.Now during an exchange.  Every exchange leaves an entry for the log
  repository; the stdout copy, which has no bodies, is left out.
\<close>

record dkpg_client =
  dc_baseURL :: string
  dc_apiKey :: string
  dc_sourceApp :: string
  dc_username :: string
  dc_password :: string
  dc_clientID :: string
  dc_clientSecret :: string
  dc_scopes :: string
  dc_privateKeyPEM :: string
  dc_token :: string
  dc_tokenExpiry :: time
  dc_privateKey :: "string option"

record dkpg_world =
  dw_http :: upstream
  dw_now :: time
  dw_parse_key :: "string \<Rightarrow> string + string"
  dw_sign :: "string \<Rightarrow> json \<Rightarrow> string + string"

definition dkpg_NewClient :: "string \<Rightarrow> string \<Rightarrow> string \<Rightarrow> string \<Rightarrow> string \<Rightarrow> string \<Rightarrow> string \<Rightarrow> string \<Rightarrow> string
    \<Rightarrow> dkpg_client" where
  "dkpg_NewClient baseURL apiKey sourceApp username password clientID clientSecret scopes pem =
     \<lparr> dc_baseURL = TrimRight {CHR ''/''} baseURL, dc_apiKey = apiKey, dc_sourceApp = sourceApp,
       dc_username = username, dc_password = password, dc_clientID = clientID,
       dc_clientSecret = clientSecret, dc_scopes = scopes, dc_privateKeyPEM = TrimSpace pem,
       dc_token = [], dc_tokenExpiry = 0, dc_privateKey = None \<rparr>"

definition newRequestID :: "time \<Rightarrow> string" where
  "newRequestID now = filter (\<lambda>c. c \<noteq> CHR ''-'') (int_text now @ ''-'' @ int_text (now div second))"

definition newNonce :: "time \<Rightarrow> string" where
  "newNonce now = filter (\<lambda>c. c \<noteq> CHR ''-'') (newRequestID now)"

text \<open>The payload is an object, or any other value; its body is the same document.\<close>

definition extractRequestID :: "json \<Rightarrow> string" where
  "extractRequestID payload = (case payload of
     JObj kvs \<Rightarrow> (case jget kvs ''request_id'' of Some (JStr s) \<Rightarrow> TrimSpace s | _ \<Rightarrow> [])
   | _ \<Rightarrow> [])"

definition dk_log_entry :: "string \<Rightarrow> string \<Rightarrow> string \<Rightarrow> nat \<Rightarrow> LogEntry" where
  "dk_log_entry meth path requestID st =
     \<lparr> le_ID = 0, le_Method = meth, le_Path = TrimSpace path, le_Status = int st, le_Duration = 0, le_IP = [],
       le_RequestID = TrimSpace requestID, le_ActorID = ''dkpg-client'', le_APISurface = ''internal'',
       le_Route = TrimSpace path, le_AuthResult = ''authenticated'', le_RequestBody = [], le_ResponseBody = [],
       le_CreatedAt = [] \<rparr>"

definition dk_logInternalCall :: "string \<Rightarrow> string \<Rightarrow> string \<Rightarrow> string \<Rightarrow> nat \<Rightarrow> call_log" where
  "dk_logInternalCall meth path requestID resBody st =
     [(dk_log_entry meth path requestID st, [], if Contains (TrimSpace path) ''/status'' then resBody else [])]"

type_synonym 'a dk = "(string + 'a) \<times> dkpg_client \<times> call_log"

text \<open>One exchange with its log entry.\<close>

definition dk_do :: "dkpg_world \<Rightarrow> http_request \<Rightarrow> string \<Rightarrow> string \<Rightarrow> (string + (nat \<times> string)) \<times> call_log" where
  "dk_do w req path requestID = (case dw_http w req of
     Inl e \<Rightarrow> (Inl e, dk_logInternalCall (hq_method req) path requestID e 0)
   | Inr (st, raw) \<Rightarrow> (Inr (st, raw), dk_logInternalCall (hq_method req) path requestID raw st))"

definition token_request :: "time \<Rightarrow> dkpg_client \<Rightarrow> http_request" where
  "token_request now c =
     \<lparr> hq_method = ''POST'', hq_url = dc_baseURL c @ ''/v1/auth/token'',
       hq_headers = [(''Content-Type'', ''application/x-www-form-urlencoded''), (''X-gravitee-api-key'', dc_apiKey c)],
       hq_form = [(''username'', dc_username c), (''password'', dc_password c), (''client_id'', dc_clientID c),
         (''client_secret'', dc_clientSecret c), (''grant_type'', ''password''), (''scopes'', dc_scopes c),
         (''source_app'', dc_sourceApp c), (''request_id'', newRequestID now)],
       hq_body = JNull \<rparr>"

text \<open>The token and its lifetime out of the token response, None when it does not decode.\<close>

definition token_response :: "string \<Rightarrow> (string \<times> int) option" where
  "token_response raw = (case struct_members raw of
     None \<Rightarrow> None
   | Some kvs \<Rightarrow> let d = sub_object ''response_data'' kvs in
       if list_all (\<lambda>n. field_ok n kvs) [''response_code'', ''response_massage'', ''response_description'']
          \<and> object_ok ''response_data'' kvs
          \<and> field_ok ''access_token'' d \<and> field_ok ''token_type'' d
       then (case int_field ''expires_in'' d of
               None \<Rightarrow> None
             | Some n \<Rightarrow> if int64 n = n then Some (field ''access_token'' d, n) else None)
       else None)"

definition ensureToken :: "dkpg_world \<Rightarrow> dkpg_client \<Rightarrow> string dk" where
  "ensureToken w c =
     (if dc_token c \<noteq> [] \<and> dw_now w < dc_tokenExpiry c - 30 * second then (Inr (dc_token c), c, [])
      else case dk_do w (token_request (dw_now w) c) ''/v1/auth/token'' (newRequestID (dw_now w)) of
        (Inl e, logs) \<Rightarrow> (Inl e, c, logs)
      | (Inr (st, raw), logs) \<Rightarrow>
          if \<not> success_status st then (Inl (''token request failed: status='' @ nat_text st @ '' body='' @ raw), c, logs)
          else (case token_response raw of
            None \<Rightarrow> (Inl ''token response does not decode'', c, logs)
          | Some (tok, expiresIn) \<Rightarrow>
              if tok = [] then (Inl ''missing access token'', c, logs)
              else (Inr tok, c\<lparr>dc_token := tok, dc_tokenExpiry := dw_now w + int64 (expiresIn * second)\<rparr>, logs)))"

definition FetchPrivateKey :: "dkpg_world \<Rightarrow> string \<Rightarrow> dkpg_client \<Rightarrow> string dk" where
  "FetchPrivateKey w requestID c = (case ensureToken w c of
     (Inl e, c1, logs) \<Rightarrow> (Inl e, c1, logs)
   | (Inr tok, c1, logs) \<Rightarrow>
       let requestID = (if blank requestID then newRequestID (dw_now w) else requestID);
           req = \<lparr> hq_method = ''POST'', hq_url = dc_baseURL c1 @ ''/v1/sign/key'',
                   hq_headers = [(''Content-Type'', ''application/json''), (''X-gravitee-api-key'', dc_apiKey c1),
                                 (''Authorization'', ''Bearer '' @ tok)],
                   hq_form = [],
                   hq_body = JObj [(''request_id'', JStr requestID), (''source_app'', JStr (dc_sourceApp c1))] \<rparr>
       in (case dk_do w req ''/v1/sign/key'' requestID of
             (Inl e, logs2) \<Rightarrow> (Inl e, c1, logs @ logs2)
           | (Inr (st, raw), logs2) \<Rightarrow> (Inr raw, c1, logs @ logs2)))"

definition ensurePrivateKey :: "dkpg_world \<Rightarrow> dkpg_client \<Rightarrow> string dk" where
  "ensurePrivateKey w c = (case dc_privateKey c of
     Some key \<Rightarrow> (Inr key, c, [])
   | None \<Rightarrow>
       (case (if TrimSpace (dc_privateKeyPEM c) \<noteq> [] then (Inr (TrimSpace (dc_privateKeyPEM c)), c, [])
              else FetchPrivateKey w (newRequestID (dw_now w)) c) of
          (Inl e, c1, logs) \<Rightarrow> (Inl e, c1, logs)
        | (Inr pem, c1, logs) \<Rightarrow> (case dw_parse_key w pem of
            Inl e \<Rightarrow> (Inl e, c1, logs)
          | Inr key \<Rightarrow> (Inr key, c1\<lparr>dc_privateKey := Some key\<rparr>, logs))))"

definition signature_claims :: "dkpg_world \<Rightarrow> json \<Rightarrow> json" where
  "signature_claims w payload =
     JObj [(''data'', JStr (StdEncode (writeCanonical payload))), (''timestamp'', JStr (RFC3339 (dw_now w))),
           (''nonce'', JStr (newNonce (dw_now w)))]"

definition signed_request :: "dkpg_world \<Rightarrow> dkpg_client \<Rightarrow> string \<Rightarrow> json \<Rightarrow> string \<Rightarrow> string \<Rightarrow> http_request" where
  "signed_request w c path payload tok sgn_text =
     \<lparr> hq_method = ''POST'', hq_url = dc_baseURL c @ path,
       hq_headers = [(''Content-Type'', ''application/json''), (''X-gravitee-api-key'', dc_apiKey c),
         (''Authorization'', ''Bearer '' @ tok), (''DK-Timestamp'', RFC3339 (dw_now w)),
         (''DK-Nonce'', newNonce (dw_now w)), (''DK-Signature'', ''DKSignature '' @ sgn_text),
         (''source_app'', dc_sourceApp c)],
       hq_form = [], hq_body = payload \<rparr>"

definition signedPost :: "dkpg_world \<Rightarrow> string \<Rightarrow> json \<Rightarrow> dkpg_client \<Rightarrow> string dk" where
  "signedPost w path payload c = (case ensureToken w c of
     (Inl e, c1, logs1) \<Rightarrow> (Inl e, c1, logs1)
   | (Inr tok, c1, logs1) \<Rightarrow> (case ensurePrivateKey w c1 of
       (Inl e, c2, logs2) \<Rightarrow> (Inl e, c2, logs1 @ logs2)
     | (Inr key, c2, logs2) \<Rightarrow> (case dw_sign w key (signature_claims w payload) of
         Inl e \<Rightarrow> (Inl e, c2, logs1 @ logs2)
       | Inr sgn_text \<Rightarrow>
           (case dk_do w (signed_request w c2 path payload tok sgn_text) path (extractRequestID payload) of
              (Inl e, logs3) \<Rightarrow> (Inl e, c2, logs1 @ logs2 @ logs3)
            | (Inr (st, raw), logs3) \<Rightarrow> (Inr raw, c2, logs1 @ logs2 @ logs3)))))"

definition AccountAuthPullPayment :: "dkpg_world \<Rightarrow> json \<Rightarrow> dkpg_client \<Rightarrow> string dk" where
  "AccountAuthPullPayment w = signedPost w ''/v1/account_auth/pull-payment''"
definition DebitRequestPullPayment :: "dkpg_world \<Rightarrow> json \<Rightarrow> dkpg_client \<Rightarrow> string dk" where
  "DebitRequestPullPayment w = signedPost w ''/v1/debit_request/pull-payment''"
definition BeneficiaryAccountInquiry :: "dkpg_world \<Rightarrow> json \<Rightarrow> dkpg_client \<Rightarrow> string dk" where
  "BeneficiaryAccountInquiry w = signedPost w ''/v1/beneficiary/account_inquiry''"
definition InitiateTransaction :: "dkpg_world \<Rightarrow> json \<Rightarrow> dkpg_client \<Rightarrow> string dk" where
  "InitiateTransaction w = signedPost w ''/v1/initiate/transaction''"
definition TransactionStatus :: "dkpg_world \<Rightarrow> json \<Rightarrow> dkpg_client \<Rightarrow> string dk" where
  "TransactionStatus w = signedPost w ''/v1/transaction/status''"
definition TransactionsStatus :: "dkpg_world \<Rightarrow> json \<Rightarrow> dkpg_client \<Rightarrow> string dk" where
  "TransactionsStatus w = signedPost w ''/v1/transactions/status''"
definition IntraTransactionStatus :: "dkpg_world \<Rightarrow> json \<Rightarrow> dkpg_client \<Rightarrow> string dk" where
  "IntraTransactionStatus w = signedPost w ''/v1/intra-transaction/status''"

section \<open>What the client guarantees\<close>

definition discreet :: "call_log \<Rightarrow> bool" where
  "discreet logs \<longleftrightarrow> (\<forall>(e, req, resp) \<in> set logs. req = [] \<and> (resp = [] \<or> Contains (le_Path e) ''/status''))"

lemma discreet_append [simp]: "discreet (xs @ ys) \<longleftrightarrow> discreet xs \<and> discreet ys"
  unfolding discreet_def set_append ball_Un ..

lemma discreet_Nil [simp]: "discreet []"
  by (simp add: discreet_def)

lemma discreet_exchange [simp]: "discreet (dk_logInternalCall meth path rid resBody st)"
  by (simp add: discreet_def dk_logInternalCall_def dk_log_entry_def)

lemma dk_do_logs: "dk_do w req path rid = (res, logs) \<Longrightarrow> discreet logs \<and> length logs = 1"
  by (auto simp: dk_do_def dk_logInternalCall_def split: sum.splits prod.splits)
    (simp_all add: discreet_def dk_log_entry_def)

lemma secret_paths [simp]:
  "\<not> Contains (TrimSpace ''/v1/auth/token'') ''/status''" "\<not> Contains (TrimSpace ''/v1/sign/key'') ''/status''"
  by code_simp+

lemma dk_do_secret:
  assumes "dk_do w req path rid = (res, logs)" "\<not> Contains (TrimSpace path) ''/status''"
  shows "\<forall>(e, rq, rs) \<in> set logs. rs = []"
  using assms by (auto simp: dk_do_def dk_logInternalCall_def split: sum.splits prod.splits)

lemma ensureToken_logs:
  assumes "ensureToken w c = (res, c', logs)"
  shows "discreet logs \<and> (\<forall>(e, req, resp) \<in> set logs. resp = []) \<and> length logs \<le> 1"
proof (cases "dc_token c \<noteq> [] \<and> dw_now w < dc_tokenExpiry c - 30 * second")
  case True
  then show ?thesis using assms by (simp add: ensureToken_def)
next
  case False
  obtain out l where d: "dk_do w (token_request (dw_now w) c) ''/v1/auth/token'' (newRequestID (dw_now w)) = (out, l)"
    by (rule prod.exhaust)
  then have "logs = l" using assms False
    by (cases out) (auto simp: ensureToken_def split: if_splits option.splits prod.splits)
  then show ?thesis using dk_do_logs [OF d] dk_do_secret [OF d] by auto
qed

lemma ensureToken_ok:
  assumes "ensureToken w c = (Inr tok, c', logs)"
  shows "dc_token c' = tok \<and> tok \<noteq> []"
  using assms by (auto simp: ensureToken_def dk_do_def split: if_splits option.splits prod.splits sum.splits)

lemma ensureToken_key: "ensureToken w c = (res, c', logs) \<Longrightarrow> dc_privateKey c' = dc_privateKey c"
  by (auto simp: ensureToken_def dk_do_def split: if_splits option.splits prod.splits sum.splits)

lemma ensureToken_cached:
  "dc_token c \<noteq> [] \<Longrightarrow> dw_now w < dc_tokenExpiry c - 30 * second \<Longrightarrow> ensureToken w c = (Inr (dc_token c), c, [])"
  by (simp add: ensureToken_def)

lemma FetchPrivateKey_logs:
  assumes "FetchPrivateKey w rid c = (res, c', logs)"
  shows "discreet logs \<and> (\<forall>(e, req, resp) \<in> set logs. resp = [])"
proof -
  obtain out c1 l1 where e: "ensureToken w c = (out, c1, l1)" using prod_cases3 by blast
  note t = ensureToken_logs [OF e]
  show ?thesis
  proof (cases out)
    case (Inl x)
    then show ?thesis using assms e t by (simp add: FetchPrivateKey_def)
  next
    case (Inr tok)
    then obtain req r l2 rid2 where d: "dk_do w req ''/v1/sign/key'' rid2 = (r, l2)" "logs = l1 @ l2"
      using assms e by (auto simp: FetchPrivateKey_def Let_def split: prod.splits sum.splits)
    then show ?thesis using t dk_do_logs [OF d(1)] dk_do_secret [OF d(1)] by auto
  qed
qed

lemma ensurePrivateKey_logs:
  assumes "ensurePrivateKey w c = (res, c', logs)"
  shows "discreet logs \<and> (\<forall>(e, req, resp) \<in> set logs. resp = [])"
proof -
  obtain r c1 l where f: "FetchPrivateKey w (newRequestID (dw_now w)) c = (r, c1, l)" using prod_cases3 by blast
  then have "logs = [] \<or> logs = l"
    using assms by (auto simp: ensurePrivateKey_def split: option.splits if_splits sum.splits)
  then show ?thesis using FetchPrivateKey_logs [OF f] by auto
qed

lemma FetchPrivateKey_token:
  assumes "FetchPrivateKey w rid c = (res, c', logs)" "ensureToken w c = (Inr tok, c, [])"
  shows "c' = c"
  using assms by (auto simp: FetchPrivateKey_def Let_def split: prod.splits sum.splits)

lemma ensurePrivateKey_ok:
  assumes "ensurePrivateKey w c = (Inr key, c', logs)"
  shows "dc_privateKey c' = Some key"
  using assms by (auto simp: ensurePrivateKey_def split: option.splits prod.splits sum.splits if_splits)

text \<open>
  Neither a token nor a signing key ever reaches the log table.  Whatever the
  bank answers, the entries a signed request leaves have no request body, and
  a response body only under the path of a status request; the path of
  the token and of the key is never one.
\<close>
lemma dk_logs_discreet:
  assumes "signedPost w path payload c = (res, c', logs)"
  shows "\<forall>(e, req, resp) \<in> set logs. req = [] \<and> (resp = [] \<or>
      Contains (le_Path e) ''/status'' \<and> le_Path e = TrimSpace path)"
proof -
  obtain t c1 l1 where e: "ensureToken w c = (t, c1, l1)" using prod_cases3 by blast
  obtain k c2 l2 where k: "ensurePrivateKey w c1 = (k, c2, l2)" using prod_cases3 by blast
  have quiet: "\<forall>(e, req, resp) \<in> set (l1 @ l2). req = [] \<and> resp = []"
    using ensureToken_logs [OF e] ensurePrivateKey_logs [OF k] by (auto simp: discreet_def)
  consider "logs = l1" | "logs = l1 @ l2" | req rid r l3 where "logs = l1 @ l2 @ l3" "dk_do w req path rid = (r, l3)"
    using assms e k by (auto simp: signedPost_def split: sum.splits prod.splits)
  then show ?thesis
  proof cases
    case (3 req rid r l3)
    have "\<forall>(e, rq, rs) \<in> set l3. rq = [] \<and> (rs = [] \<or> Contains (le_Path e) ''/status'' \<and> le_Path e = TrimSpace path)"
      using 3(2) by (cases "Contains (TrimSpace path) ''/status''")
        (auto simp: dk_do_def dk_logInternalCall_def dk_log_entry_def split: sum.splits prod.splits)
    moreover have "\<forall>(e, rq, rs) \<in> set (l1 @ l2). rq = [] \<and> (rs = [] \<or> Contains (le_Path e) ''/status'' \<and> le_Path e = TrimSpace path)"
      using quiet by fast
    ultimately show ?thesis unfolding 3(1) set_append ball_Un by simp
  qed (use quiet in fastforce)+
qed

text \<open>
  After a signed request that got an answer, the next ones make a single
  exchange each, with the same token and the same key, until 30 seconds before
  the token expires: the client is unchanged by them.
\<close>
lemma token_and_key_reused:
  assumes "signedPost w path payload c = (Inr raw, c1, logs)"
    and "dw_now w' < dc_tokenExpiry c1 - 30 * second"
  shows "\<exists>res logs'. signedPost w' path' payload' c1 = (res, c1, logs') \<and> length logs' \<le> 1"
proof -
  obtain tok c0 l1 where e: "ensureToken w c = (Inr tok, c0, l1)"
    using assms(1) by (auto simp: signedPost_def split: sum.splits prod.splits)
  obtain key l2 where k: "ensurePrivateKey w c0 = (Inr key, c1, l2)"
    using assms(1) e by (auto simp: signedPost_def split: sum.splits prod.splits)
  have "dc_token c1 \<noteq> []"
  proof -
    have 0: "dc_token c0 \<noteq> []" using ensureToken_ok [OF e] by simp
    have "ensureToken w c0 = (r, c', l) \<Longrightarrow> dc_token c' \<noteq> []" for r c' l
      using 0 by (auto simp: ensureToken_def dk_do_def split: if_splits option.splits prod.splits sum.splits)
    then have "FetchPrivateKey w rid c0 = (r, c', l) \<Longrightarrow> dc_token c' \<noteq> []" for r c' l rid
      by (auto simp: FetchPrivateKey_def Let_def split: prod.splits sum.splits)
    then show ?thesis
      using k 0 by (auto simp: ensurePrivateKey_def split: option.splits prod.splits sum.splits if_splits)
  qed
  moreover have "dc_privateKey c1 = Some key" by (rule ensurePrivateKey_ok [OF k])
  ultimately have c1: "ensureToken w' c1 = (Inr (dc_token c1), c1, [])" "ensurePrivateKey w' c1 = (Inr key, c1, [])"
    using ensureToken_cached [of c1 w'] assms(2) by (simp_all add: ensurePrivateKey_def)
  show ?thesis
  proof (cases "dw_sign w' key (signature_claims w' payload')")
    case (Inl x)
    then show ?thesis by (simp add: signedPost_def c1)
  next
    case (Inr sg)
    obtain r l where d: "dk_do w' (signed_request w' c1 path' payload' (dc_token c1) sg) path' (extractRequestID payload') = (r, l)"
      by (rule prod.exhaust)
    then show ?thesis using dk_do_logs [OF d] by (cases r) (auto simp: signedPost_def c1 Inr)
  qed
qed

definition demo_client :: dkpg_client where
  "demo_client = (dkpg_NewClient ''https://dk/'' ''k'' ''SRC1'' ''u'' ''p'' ''id'' ''s'' [] [])
     \<lparr>dc_token := ''T1'', dc_tokenExpiry := hour\<rparr>"

definition demo_bank :: "time \<Rightarrow> dkpg_world" where
  "demo_bank now = \<lparr> dw_http = (\<lambda>q. Inr (200, ''PEM'')), dw_now = now, dw_parse_key = Inr, dw_sign = (\<lambda>_ _. Inr ''sig'') \<rparr>"

lemma demo_exchange:
  "signedPost (demo_bank 7) ''/v1/transaction/status'' (JObj []) demo_client =
     (Inr ''PEM'', demo_client\<lparr>dc_privateKey := Some ''PEM''\<rparr>,
      [(dk_log_entry ''POST'' ''/v1/sign/key'' (newRequestID 7) 200, [], []),
       (dk_log_entry ''POST'' ''/v1/transaction/status'' [] 200, [], ''PEM'')])"
proof -
  have c: "Contains (TrimSpace ''/v1/transaction/status'') ''/status''" by code_simp
  have t: "ensureToken (demo_bank 7) demo_client = (Inr ''T1'', demo_client, [])"
    by (simp add: ensureToken_def demo_bank_def demo_client_def hour_def minute_def second_def)
  have b: "\<not> blank (newRequestID 7)" by code_simp
  have f: "FetchPrivateKey (demo_bank 7) (newRequestID (dw_now (demo_bank 7))) demo_client
      = (Inr ''PEM'', demo_client, [(dk_log_entry ''POST'' ''/v1/sign/key'' (newRequestID 7) 200, [], [])])"
    using b by (simp add: FetchPrivateKey_def t dk_do_def Let_def) (simp add: demo_bank_def dk_logInternalCall_def)
  have k: "ensurePrivateKey (demo_bank 7) demo_client = (Inr ''PEM'', demo_client\<lparr>dc_privateKey := Some ''PEM''\<rparr>,
      [(dk_log_entry ''POST'' ''/v1/sign/key'' (newRequestID 7) 200, [], [])])"
  proof -
    have "dc_privateKey demo_client = None" "TrimSpace (dc_privateKeyPEM demo_client) = []" "dw_parse_key (demo_bank 7) = Inr"
      by (simp_all add: demo_client_def dkpg_NewClient_def demo_bank_def TrimSpace_def)
    then show ?thesis by (simp add: ensurePrivateKey_def f)
  qed
  have s: "dw_sign (demo_bank 7) k p = Inr ''sig''" "dw_http (demo_bank 7) q = Inr (200, ''PEM'')" for k p q
    by (simp_all add: demo_bank_def)
  show ?thesis
    using c by (simp add: signedPost_def t k s dk_do_def dk_logInternalCall_def signed_request_def extractRequestID_def)
qed

theorem dk_logs_discreet_witness:
  "\<exists>res c' logs. signedPost (demo_bank 7) ''/v1/transaction/status'' (JObj []) demo_client = (res, c', logs) \<and> length logs = 2
     \<and> (\<forall>(e, req, resp) \<in> set logs. req = [] \<and> (resp = [] \<or>
         Contains (le_Path e) ''/status'' \<and> le_Path e = TrimSpace ''/v1/transaction/status''))"
proof -
  note ex = demo_exchange
  show ?thesis
    by (intro exI conjI) (rule ex, simp, rule dk_logs_discreet [OF ex])
qed

theorem token_and_key_reused_witness:
  "\<exists>res l. signedPost (demo_bank 8) ''/b'' JNull (demo_client\<lparr>dc_privateKey := Some ''PEM''\<rparr>)
       = (res, demo_client\<lparr>dc_privateKey := Some ''PEM''\<rparr>, l) \<and> length l \<le> 1"
  by (rule token_and_key_reused [OF demo_exchange])
    (simp add: demo_bank_def demo_client_def hour_def minute_def second_def)

end
