(* ===== verification/Resolver.thy ===== *)
theory Resolver
  imports RoutingResolve Cipher Config Dkpg StripeClient
begin

text \<open>
  The gateway resolver, controllers/gateway_resolver.go: from an app and a merchant
  reference, or from the credential recorded with a payment, to the
  decrypted settings of the recipient and to a client of the provider.  The
  contract credential_source states what the payment flows rely on; the
  routing tables provide it.
\<close>

record gateway_resolver =
  gr_Cipher :: "aead option"
  gr_Cfg :: config

record ResolvedGateway =
  rv_Routing :: ResolvedGatewayConfiguration
  rv_Values :: "string \<Rightarrow> string"

datatype gateway_error =
    MerchantNotConfigured
  | GatewayNotConfigured
  | ResolveMerchantFailed
  | StoreFailed db_error
  | DecryptGatewayFailed cipher_error
  | DecodeGatewayFailed
  | CredentialIncomplete string

text \<open>Decoding into map[string]string: every member must be a string or null.\<close>

definition string_map :: "json option \<Rightarrow> (string \<Rightarrow> string) option" where
  "string_map doc = (case doc of
     Some JNull \<Rightarrow> Some (\<lambda>_. [])
   | Some (JObj kvs) \<Rightarrow>
       if list_all (\<lambda>(k, v). case v of JStr _ \<Rightarrow> True | JNull \<Rightarrow> True | _ \<Rightarrow> False) kvs
       then Some (\<lambda>k. case jget kvs k of Some (JStr s) \<Rightarrow> s | _ \<Rightarrow> [])
       else None
   | _ \<Rightarrow> None)"

definition gr_additional_data :: "GatewayCredentialConfiguration \<Rightarrow> string" where
  "gr_additional_data c =
     CredentialAdditionalData (gc_ID c) (gc_RecipientID c) (gc_Provider c) (gc_Version c)"

definition gr_decrypt :: "gateway_resolver \<Rightarrow> ResolvedGatewayConfiguration \<Rightarrow> gateway_error + ResolvedGateway" where
  "gr_decrypt r routing =
     (case Decrypt (gr_Cipher r) (Some (gc_EncryptedCredentials (rg_Credential routing)))
             (gr_additional_data (rg_Credential routing)) of
        Inl e \<Rightarrow> Inl (DecryptGatewayFailed e)
      | Inr plaintext \<Rightarrow> (case string_map (Unmarshal plaintext) of
          None \<Rightarrow> Inl DecodeGatewayFailed
        | Some values \<Rightarrow> Inr \<lparr> rv_Routing = routing, rv_Values = values \<rparr>))"

definition gr_Resolve :: "gateway_resolver \<Rightarrow> routing_db \<Rightarrow> string \<Rightarrow> string \<Rightarrow> string \<Rightarrow> gateway_error + ResolvedGateway" where
  "gr_Resolve r db appID ref provider =
     (if gr_Cipher r = None then Inl MerchantNotConfigured
      else if TrimSpace appID = [] \<or> TrimSpace ref = [] then Inl MerchantNotConfigured
      else case ResolveActive appID ref provider db of
        Inl e \<Rightarrow> if e = RecipientMappingNotFound \<or> e = CredentialNotConfigured
                 then Inl MerchantNotConfigured else Inl ResolveMerchantFailed
      | Inr routing \<Rightarrow> gr_decrypt r routing)"

definition gr_ResolveCredential :: "gateway_resolver \<Rightarrow> routing_db \<Rightarrow> string \<Rightarrow> gateway_error + ResolvedGateway" where
  "gr_ResolveCredential r db cid =
     (if gr_Cipher r = None \<or> TrimSpace cid = [] then Inl MerchantNotConfigured
      else case GetCredential cid db of
        Inl e \<Rightarrow> Inl (StoreFailed e)
      | Inr c \<Rightarrow> gr_decrypt r \<lparr> rg_ExternalAppID = [], rg_ExternalMerchantReference = [],
            rg_RecipientID = gc_RecipientID c, rg_RecipientName = [], rg_Credential = c \<rparr>)"

definition requireEnv :: "string list \<Rightarrow> gateway_error option" where
  "requireEnv values = (if \<exists>v \<in> set values. TrimSpace v = [] then Some GatewayNotConfigured else None)"

definition gr_SourceApp :: "gateway_resolver \<Rightarrow> string" where
  "gr_SourceApp r = TrimSpace (DKPGSourceApp (gr_Cfg r))"

definition gr_AgencyName :: "gateway_resolver \<Rightarrow> string" where
  "gr_AgencyName r = TrimSpace (StripeAgencyName (gr_Cfg r))"

definition gr_Value :: "ResolvedGateway \<Rightarrow> string \<Rightarrow> string" where
  "gr_Value g key = TrimSpace (rv_Values g key)"

definition first_blank :: "ResolvedGateway \<Rightarrow> string list \<Rightarrow> string option" where
  "first_blank g keys = find (\<lambda>k. TrimSpace (rv_Values g k) = []) keys"

definition gr_DKPGClient :: "gateway_resolver \<Rightarrow> ResolvedGateway \<Rightarrow> gateway_error + dkpg_client" where
  "gr_DKPGClient r g =
     (if gc_Provider (rg_Credential (rv_Routing g)) \<noteq> ''dkpg'' then Inl MerchantNotConfigured
      else case first_blank g [''beneficiary_account'', ''beneficiary_name'', ''beneficiary_bank''] of
        Some key \<Rightarrow> Inl (CredentialIncomplete key)
      | None \<Rightarrow> let cfg = gr_Cfg r in
          (case requireEnv [DKPGBaseURL cfg, DKPGAPIKey cfg, DKPGUsername cfg, DKPGPassword cfg,
                            DKPGClientID cfg, DKPGClientSecret cfg, DKPGSourceApp cfg] of
             Some e \<Rightarrow> Inl e
           | None \<Rightarrow> Inr (dkpg_NewClient (DKPGBaseURL cfg) (DKPGAPIKey cfg) (DKPGSourceApp cfg) (DKPGUsername cfg)
               (DKPGPassword cfg) (DKPGClientID cfg) (DKPGClientSecret cfg) (DKPGScopes cfg) (DKPGPrivateKey cfg))))"

definition gr_StripeClient :: "gateway_resolver \<Rightarrow> ResolvedGateway \<Rightarrow> gateway_error + stripe_client" where
  "gr_StripeClient r g =
     (if gc_Provider (rg_Credential (rv_Routing g)) \<noteq> ''stripe'' then Inl MerchantNotConfigured
      else if TrimSpace (rv_Values g ''submerchant_id'') = [] \<or> TrimSpace (rv_Values g ''dk_account'') = []
      then Inl (CredentialIncomplete ''submerchant_id and dk_account'')
      else case requireEnv [StripeBaseURL (gr_Cfg r), StripeAPIKey (gr_Cfg r), StripeAgencyName (gr_Cfg r)] of
        Some e \<Rightarrow> Inl e
      | None \<Rightarrow> Inr (stripe_NewClient (StripeBaseURL (gr_Cfg r)) (StripeAPIKey (gr_Cfg r))))"


section \<open>What the payment flows rely on\<close>

text \<open>
  A source of gateway credentials: resolving a route hands out a credential
  that its id fetches, and no step of the source loses a credential or changes
  its settings.
\<close>

locale credential_source =
  fixes inv :: "'s \<Rightarrow> bool"
    and step :: "'s \<Rightarrow> 's \<Rightarrow> bool"
    and get :: "string \<Rightarrow> 's \<Rightarrow> 'c option"
    and resolve :: "string \<Rightarrow> string \<Rightarrow> string \<Rightarrow> 's \<Rightarrow> 'c option"
    and ident :: "'c \<Rightarrow> string"
    and settings :: "'c \<Rightarrow> 'p"
  assumes inv_step: "inv s \<Longrightarrow> step s s' \<Longrightarrow> inv s'"
    and get_step: "inv s \<Longrightarrow> step s s' \<Longrightarrow> get k s = Some c \<Longrightarrow> \<exists>c'. get k s' = Some c' \<and> settings c' = settings c"
    and resolve_get: "inv s \<Longrightarrow> resolve a r p s = Some c \<Longrightarrow> get (ident c) s = Some c \<and> \<not> blank (ident c)"
begin

lemma get_later:
  assumes "step\<^sup>*\<^sup>* s s'" "inv s" "get k s = Some c"
  shows "inv s' \<and> (\<exists>c'. get k s' = Some c' \<and> settings c' = settings c)"
  using assms
proof (induction rule: rtranclp_induct)
  case (step y z)
  then obtain c' where "inv y" "get k y = Some c'" "settings c' = settings c" by blast
  then show ?case using inv_step get_step step(2) by metis
qed blast

lemma resolved_stays_available:
  assumes "inv s" "resolve a r p s = Some c" "step\<^sup>*\<^sup>* s s'"
  shows "\<exists>c'. get (ident c) s' = Some c' \<and> settings c' = settings c \<and> \<not> blank (ident c)"
  using get_later [OF assms(3,1)] resolve_get [OF assms(1,2)] by blast

end

fun okay :: "'e + 'a \<Rightarrow> 'a option" where
  "okay (Inl _) = None"
| "okay (Inr x) = Some x"

lemma okay_Some [simp]: "okay r = Some x \<longleftrightarrow> r = Inr x"
  by (cases r) simp_all

lemma ResolveActive_GetCredential:
  assumes "routing_inv db" "ResolveActive a ref p db = Inr x"
  shows "GetCredential (gc_ID (rg_Credential x)) db = Inr (rg_Credential x) \<and> \<not> blank (gc_ID (rg_Credential x))"
proof -
  have ok: "routing_ok db" and can: "canonical db" using assms(1) by (simp_all add: routing_inv_def)
  obtain m r c where "route (TrimSpace a) (TrimSpace ref) (TrimSpace p) db m r c" "x = resolved_of m r c"
    using assms(2) ResolveActive_iff [OF ok] by blast
  then have c: "c \<in> set (credentials db)" "rg_Credential x = c"
    by (simp_all add: route_def resolved_of_def)
  then have u: "uuid_of db (gc_ID c) = Some (gc_ID c)" using can by (simp add: canonical_def)
  then have t: "TrimSpace (gc_ID c) = gc_ID c" "gc_ID c \<noteq> []"
    using can by (simp_all add: canonical_def uuid_law_def)
  have "find_credential (gc_ID c) db = Some c"
    using c(1) ok find_credential_unique unfolding routing_ok_def by metis
  then show ?thesis using u t c(2) by (simp add: GetCredential_def blank_def)
qed

interpretation cs: credential_source routing_inv routing_step
  "\<lambda>k db. okay (GetCredential k db)" "\<lambda>a r p db. map_option rg_Credential (okay (ResolveActive a r p db))" gc_ID core
proof unfold_locales
  show "\<And>s s'. routing_inv s \<Longrightarrow> routing_step s s' \<Longrightarrow> routing_inv s'"
    using routing_step_inv by blast
  show "\<And>s s' k c. routing_inv s \<Longrightarrow> routing_step s s' \<Longrightarrow> okay (GetCredential k s) = Some c \<Longrightarrow>
      \<exists>c'. okay (GetCredential k s') = Some c' \<and> core c' = core c"
    using credential_kept [OF _ r_into_rtranclp] by simp
  show "\<And>s a r p c. routing_inv s \<Longrightarrow> map_option rg_Credential (okay (ResolveActive a r p s)) = Some c \<Longrightarrow>
      okay (GetCredential (gc_ID c) s) = Some c \<and> \<not> blank (gc_ID c)"
    using ResolveActive_GetCredential by auto
qed

lemma gr_decrypt_core:
  assumes "core (rg_Credential x) = core (rg_Credential y)" "gr_decrypt g x = Inr v"
  shows "\<exists>w. gr_decrypt g y = Inr w \<and> rv_Values w = rv_Values v \<and> rv_Routing w = y"
  using assms by (auto simp: gr_decrypt_def gr_additional_data_def core_def split: sum.splits option.splits)

lemma recorded_settles:
  assumes "routing_inv db" "gr_Resolve g db app ref p = Inr v" "routing_step\<^sup>*\<^sup>* db db'"
  shows "\<exists>w. gr_ResolveCredential g db' (gc_ID (rg_Credential (rv_Routing v))) = Inr w
    \<and> rv_Values w = rv_Values v
    \<and> gc_key (rg_Credential (rv_Routing w)) = gc_key (rg_Credential (rv_Routing v))"
proof -
  obtain x where x: "ResolveActive app ref p db = Inr x" "gr_decrypt g x = Inr v" "gr_Cipher g \<noteq> None"
    using assms(2) by (auto simp: gr_Resolve_def split: if_splits sum.splits)
  then have v: "rv_Routing v = x" by (auto simp: gr_decrypt_def split: sum.splits option.splits)
  obtain c where c: "GetCredential (gc_ID (rg_Credential x)) db' = Inr c" "core c = core (rg_Credential x)"
      "\<not> blank (gc_ID (rg_Credential x))"
    using cs.resolved_stays_available [OF assms(1) _ assms(3), of app ref p "rg_Credential x"] x(1) by auto
  let ?y = "\<lparr> rg_ExternalAppID = [], rg_ExternalMerchantReference = [],
            rg_RecipientID = gc_RecipientID c, rg_RecipientName = [], rg_Credential = c \<rparr>"
  obtain w where w: "gr_decrypt g ?y = Inr w" "rv_Values w = rv_Values v" "rv_Routing w = ?y"
    using gr_decrypt_core [of x ?y g v] x(2) c(2) by auto
  moreover have "gr_ResolveCredential g db' (gc_ID (rg_Credential x)) = Inr w"
    using x(3) c(1,3) w(1) by (simp add: gr_ResolveCredential_def blank_def)
  moreover have "gc_key c = gc_key (rg_Credential x)" using c(2) by (simp add: core_def gc_key_def)
  ultimately show ?thesis by (simp add: v)
qed

lemma ResolveCredential_step:
  assumes "routing_inv db" "routing_step db db'" "gr_ResolveCredential g db cid = Inr w"
  shows "\<exists>w'. gr_ResolveCredential g db' cid = Inr w' \<and> rv_Values w' = rv_Values w
    \<and> gc_Provider (rg_Credential (rv_Routing w')) = gc_Provider (rg_Credential (rv_Routing w))"
proof -
  let ?y = "\<lambda>c. \<lparr> rg_ExternalAppID = [], rg_ExternalMerchantReference = [],
            rg_RecipientID = gc_RecipientID c, rg_RecipientName = [], rg_Credential = c \<rparr>"
  obtain c where c: "GetCredential cid db = Inr c" "gr_decrypt g (?y c) = Inr w" "\<not> (gr_Cipher g = None \<or> TrimSpace cid = [])"
    using assms(3) by (auto simp: gr_ResolveCredential_def split: sum.splits if_splits)
  obtain c' where c': "GetCredential cid db' = Inr c'" "core c' = core c"
    using credential_kept [OF assms(1) r_into_rtranclp [of routing_step, OF assms(2)] c(1)] by blast
  obtain w' where w': "gr_decrypt g (?y c') = Inr w'" "rv_Values w' = rv_Values w" "rv_Routing w' = ?y c'"
    using gr_decrypt_core [of "?y c" "?y c'" g w] c(2) c'(2) by auto
  have "rv_Routing w = ?y c" using c(2) by (auto simp: gr_decrypt_def split: sum.splits option.splits)
  then have "gc_Provider (rg_Credential (rv_Routing w')) = gc_Provider (rg_Credential (rv_Routing w))"
    using w'(3) c'(2) by (simp add: core_def)
  moreover have "gr_ResolveCredential g db' cid = Inr w'" using c(3) c'(1) w'(1) by (simp add: gr_ResolveCredential_def)
  ultimately show ?thesis using w'(2) by blast
qed

text \<open>
  C9: a payment is settled under the configuration it was opened with.  What
  Resolve answers for a new payment, ResolveCredential answers for the credential id
  recorded with it, in every later state of the routing tables: the same
  decrypted settings, beneficiary account included, for the same recipient
  and provider, whatever was rotated, retired, disabled or remapped in between.
\<close>
theorem recorded_credential_settles:
  assumes "routing_inv db" "gr_Resolve g db app ref p = Inr v" "routing_step\<^sup>*\<^sup>* db db'"
  shows "\<exists>w. gr_ResolveCredential g db' (gc_ID (rg_Credential (rv_Routing v))) = Inr w
    \<and> rv_Values w = rv_Values v
    \<and> gc_key (rg_Credential (rv_Routing w)) = gc_key (rg_Credential (rv_Routing v))"
  by (rule recorded_settles [OF assms])

definition sealed :: json where
  "sealed = JObj [(''version'', jint encryptionVersion), (''nonce'', JStr (StdEncode ''abcdefghijkl'')),
     (''ciphertext'', JStr (StdEncode (Seal toy_aead ''abcdefghijkl'' ''{}'' ''c1:r1:dkpg:1'')))]"

definition sealed_db :: routing_db where
  "sealed_db = demo_db\<lparr>credentials := [demo_credential\<lparr>gc_EncryptedCredentials := sealed\<rparr>]\<rparr>"

lemma sealed_inv: "routing_inv sealed_db"
proof -
  have "versions key sealed_db = versions key demo_db" for key
    by (simp add: sealed_db_def versions_def demo_db_def gc_key_def)
  moreover have "routing_inv demo_db" by (rule demo_inv)
  ultimately show ?thesis
    unfolding routing_inv_def routing_ok_def canonical_def
    by (simp add: sealed_db_def) (simp add: demo_db_def gc_key_def gc_active_def)
qed

lemma sealed_opens:
  "Decrypt (Some toy_aead) (Some sealed) ''c1:r1:dkpg:1'' = Inr ''{}''"
proof -
  have "Open toy_aead ''abcdefghijkl'' (Seal toy_aead ''abcdefghijkl'' ''{}'' ''c1:r1:dkpg:1'') ''c1:r1:dkpg:1'' = Some ''{}''"
    using toy_aead_law by (simp add: aead_law_def NonceSize_def)
  then show ?thesis by (simp add: sealed_def Decrypt_def decode_envelope_Encrypt NonceSize_def)
qed

lemma sealed_resolves:
  "\<exists>v. gr_Resolve \<lparr>gr_Cipher = Some toy_aead, gr_Cfg = cfg\<rparr> sealed_db ''A'' ''hotel'' ''dkpg'' = Inr v
     \<and> gc_ID (rg_Credential (rv_Routing v)) = ''c1''"
proof -
  have aad: "gr_additional_data (demo_credential\<lparr>gc_EncryptedCredentials := sealed\<rparr>) = ''c1:r1:dkpg:1''"
    by code_simp
  have cid: "gc_ID demo_credential = ''c1''" by (simp add: demo_credential_def)
  have "Unmarshal ''{}'' = Some (JObj [])" by code_simp
  then have v: "string_map (Unmarshal ''{}'') \<noteq> None" by (simp add: string_map_def)
  have "ResolveActive ''A'' ''hotel'' ''dkpg'' sealed_db = Inr
     (resolved_of (hd (mappings demo_db)) (hd (recipients demo_db)) (demo_credential\<lparr>gc_EncryptedCredentials := sealed\<rparr>))"
    by (simp add: ResolveActive_def routes_def sealed_db_def demo_db_def resolved_of_def gc_active_def
        demo_credential_def TrimSpace_def is_space_def)
  then show ?thesis
    using v cid by (auto simp: gr_Resolve_def gr_decrypt_def resolved_of_def sealed_opens aad TrimSpace_def is_space_def)
qed

theorem recorded_credential_settles_witness:
  "\<exists>v db' w. SetCredentialStatus 9 ''c1'' ''disabled'' sealed_db = (Inr (), db')
     \<and> gr_Resolve \<lparr>gr_Cipher = Some toy_aead, gr_Cfg = Load id [] (\<lambda>_. [])\<rparr> sealed_db ''A'' ''hotel'' ''dkpg'' = Inr v
     \<and> gr_ResolveCredential \<lparr>gr_Cipher = Some toy_aead, gr_Cfg = Load id [] (\<lambda>_. [])\<rparr> db' ''c1'' = Inr w \<and> rv_Values w = rv_Values v"
proof -
  obtain v where v: "gr_Resolve \<lparr>gr_Cipher = Some toy_aead, gr_Cfg = Load id [] (\<lambda>_. [])\<rparr> sealed_db ''A'' ''hotel'' ''dkpg'' = Inr v"
      "gc_ID (rg_Credential (rv_Routing v)) = ''c1''"
    using sealed_resolves by blast
  obtain db' where s: "SetCredentialStatus 9 ''c1'' ''disabled'' sealed_db = (Inr (), db')"
    by (auto simp: SetCredentialStatus_def sealed_db_def demo_db_def demo_credential_def demo_uuid_def find_credential_def
        find_recipient_def lockRecipientForCredentialChange_def statuses_def TrimSpace_def is_space_def)
  then have "routing_step\<^sup>*\<^sup>* sealed_db db'" using set_status by blast
  from recorded_credential_settles [OF sealed_inv v(1) this] v s show ?thesis by auto
qed

end
