(* ===== verification/Inputs.thy ===== *)
theory Inputs
  imports JsonText Calendar Http
begin

text \<open>
  The readers of dynamic request fields of controllers/business_controller.go, and
  what they use of strconv and time: ParseFloat on decimal notation (its hexadecimal,
  infinite and NaN spellings are read as a syntax error here), FormatFloat with two
  decimals, and time.Parse for the RFC 3339 layout.  A float64 is the
  exact rational that its decimal literal denotes.
\<close>

definition ParseFloat :: "string \<Rightarrow> rat option" where
  "ParseFloat s =
     (let (sg, t) = (case s of c # u \<Rightarrow> if c = CHR ''-'' then (-1, u) else if c = CHR ''+'' then (1, u) else (1, s)
                     | [] \<Rightarrow> (1, []));
          ds = takeWhile is_digit t; u = dropWhile is_digit t;
          (fs, w) = (case u of c # v \<Rightarrow> if c = CHR ''.'' then (takeWhile is_digit v, dropWhile is_digit v) else ([], u)
                     | [] \<Rightarrow> ([], []))
      in if ds @ fs = [] then None
         else case read_exp w of
           Some (e, []) \<Rightarrow> Some (sg * scale (of_nat (digits_val (ds @ fs)) / 10 ^ length fs) e)
         | _ \<Rightarrow> None)"

definition round_even :: "rat \<Rightarrow> int" where
  "round_even q = (let f = floor q; r = q - of_int f in
     if r < 1 / 2 then f else if r > 1 / 2 then f + 1 else if even f then f else f + 1)"

definition FormatFloat2 :: "rat \<Rightarrow> string" where
  "FormatFloat2 q = (let n = round_even (abs q * 100) in
     (if q < 0 then ''-'' else []) @ int_text (n div 100) @ ''.'' @ pad 2 (n mod 100))"

definition readString :: "(string \<times> json) list \<Rightarrow> string \<Rightarrow> string" where
  "readString m key = (case jget m key of
     None \<Rightarrow> []
   | Some JNull \<Rightarrow> []
   | Some (JStr s) \<Rightarrow> TrimSpace s
   | Some v \<Rightarrow> TrimSpace (writeCanonical v))"

definition readFloat :: "(string \<times> json) list \<Rightarrow> string \<Rightarrow> rat" where
  "readFloat m key = (case jget m key of
     Some (JNum q) \<Rightarrow> q
   | Some (JStr s) \<Rightarrow> (case ParseFloat (TrimSpace s) of Some q \<Rightarrow> q | None \<Rightarrow> 0)
   | _ \<Rightarrow> 0)"

fun firstNonZero :: "rat list \<Rightarrow> rat" where
  "firstNonZero [] = 0"
| "firstNonZero (v # vs) = (if v > 0 then v else firstNonZero vs)"

lemma firstNonZero_nonneg: "0 \<le> firstNonZero vs"
  by (induction vs) auto

lemma readString_trimmed [simp]: "TrimSpace (readString m k) = readString m k"
  by (simp add: readString_def split: option.splits json.splits)

section \<open>Time stamps\<close>

text \<open>An instant and the offset of its zone in seconds.\<close>

type_synonym stamp = "time \<times> int"

definition days_of_civil :: "int \<Rightarrow> int \<Rightarrow> int \<Rightarrow> int" where
  "days_of_civil y m d =
     (let y' = (if m \<le> 2 then y - 1 else y); era = y' div 400; yoe = y' mod 400;
          doy = (153 * (if m > 2 then m - 3 else m + 9) + 2) div 5 + d - 1;
          doe = yoe * 365 + yoe div 4 - yoe div 100 + doy
      in era * 146097 + doe - 719468)"

definition leap_year :: "int \<Rightarrow> bool" where
  "leap_year y \<longleftrightarrow> y mod 4 = 0 \<and> (y mod 100 \<noteq> 0 \<or> y mod 400 = 0)"

definition daysIn :: "int \<Rightarrow> int \<Rightarrow> int" where
  "daysIn m y = (if m = 2 then (if leap_year y then 29 else 28) else if m \<in> {4, 6, 9, 11} then 30 else 31)"

text \<open>Exactly n digits, and one or two digits (the hour of a layout).\<close>

definition take_digits :: "nat \<Rightarrow> string \<Rightarrow> (int \<times> string) option" where
  "take_digits n s = (if length s \<ge> n \<and> list_all is_digit (take n s)
     then Some (int (digits_val (take n s)), drop n s) else None)"

definition take_hour :: "string \<Rightarrow> (int \<times> string) option" where
  "take_hour s = (case take_digits 2 s of Some r \<Rightarrow> Some r | None \<Rightarrow> take_digits 1 s)"

definition take_lit :: "char \<Rightarrow> string \<Rightarrow> string option" where
  "take_lit c s = (case s of d # t \<Rightarrow> if d = c then Some t else None | [] \<Rightarrow> None)"

definition take_fraction :: "string \<Rightarrow> int \<times> string" where
  "take_fraction s = (case s of
     c # t \<Rightarrow> if (c = CHR ''.'' \<or> c = CHR '','') \<and> t \<noteq> [] \<and> is_digit (hd t)
              then (let ds = takeWhile is_digit t in
                (int (digits_val (take 9 ds)) * 10 ^ (9 - length (take 9 ds)), dropWhile is_digit t))
              else (0, s)
   | [] \<Rightarrow> (0, []))"

definition take_zone :: "string \<Rightarrow> int option" where
  "take_zone s = (case s of
     c # t \<Rightarrow>
       if c = CHR ''Z'' then (if t = [] then Some 0 else None)
       else if c = CHR ''+'' \<or> c = CHR ''-'' then
         Option.bind (take_digits 2 t) (\<lambda>(hh, u). Option.bind (take_lit CHR '':'' u) (\<lambda>v.
           Option.bind (take_digits 2 v) (\<lambda>(mm, w).
             if w = [] \<and> hh \<le> 24 \<and> mm \<le> 60 then Some ((if c = CHR ''-'' then -1 else 1) * (hh * 3600 + mm * 60)) else None)))
       else None
   | [] \<Rightarrow> None)"

definition take_date :: "string \<Rightarrow> (int \<times> string) option" where
  "take_date s =
     Option.bind (take_digits 4 s) (\<lambda>(y, s1). Option.bind (take_lit CHR ''-'' s1) (\<lambda>s2.
     Option.bind (take_digits 2 s2) (\<lambda>(m, s3). Option.bind (take_lit CHR ''-'' s3) (\<lambda>s4.
     Option.bind (take_digits 2 s4) (\<lambda>(d, s5).
       if 1 \<le> m \<and> m \<le> 12 \<and> 1 \<le> d \<and> d \<le> daysIn m y then Some (days_of_civil y m d, s5) else None)))))"

definition take_clock :: "string \<Rightarrow> (int \<times> string) option" where
  "take_clock s =
     Option.bind (take_hour s) (\<lambda>(h, s1). Option.bind (take_lit CHR '':'' s1) (\<lambda>s2.
     Option.bind (take_digits 2 s2) (\<lambda>(m, s3). Option.bind (take_lit CHR '':'' s3) (\<lambda>s4.
     Option.bind (take_digits 2 s4) (\<lambda>(sec, s5).
       if h < 24 \<and> m < 60 \<and> sec < 60
       then (let (ns, s6) = take_fraction s5 in Some (h * hour + m * minute + sec * second + ns, s6)) else None)))))"

definition ParseRFC3339 :: "string \<Rightarrow> stamp option" where
  "ParseRFC3339 s =
     Option.bind (take_date s) (\<lambda>(days, t). Option.bind (take_lit CHR ''T'' t) (\<lambda>u.
     Option.bind (take_clock u) (\<lambda>(tod, v). Option.bind (take_zone v) (\<lambda>off.
       Some (days * (24 * hour) + tod - off * second, off)))))"

definition format_stamp :: "stamp \<Rightarrow> string" where
  "format_stamp st = (let (t, off) = st; text = RFC3339 (t + off * second) in
     if off = 0 then text
     else butlast text @ (if off < 0 then ''-'' else ''+'') @ pad 2 (abs off div 60 div 60) @ '':'' @ pad 2 (abs off div 60 mod 60))"

end
