(* ===== verification/Business.thy ===== *)
theory Business
  imports Resolver PaymentStore Inputs
begin

text \<open>
  The merchant payment API, controllers/business_controller.go: the two legs of a
  pull payment, the inquiry of an intra-bank transfer and the three status
  queries.  A handler gets the app id that the API key middleware stored, and
  runs on the payment tables, the process-wide request counter and the log;
  bs_sent is a ghost: the app, the operation and the payload of every signed
  request that a handler asked the client to make.  A request's instant is dw_now.
\<close>

record business_state =
  bs_db :: payment_db
  bs_seq :: "32 word"
  bs_logs :: call_log
  bs_sent :: "(string \<times> string \<times> (string \<times> json) list) list"

text \<open>What a handler depends on: the resolver and the bank.\<close>

record business_env =
  be_resolver :: gateway_resolver
  be_world :: dkpg_world

abbreviation be_now :: "business_env \<Rightarrow> time" where "be_now e \<equiv> dw_now (be_world e)"

section \<open>Reading the answers of the bank\<close>

definition parseDKResponse :: "string \<Rightarrow> string \<times> string \<times> (string \<times> json) list" where
  "parseDKResponse raw = (case Unmarshal raw of
     Some (JObj doc) \<Rightarrow>
       (let source = (case jget doc ''response'' of Some (JObj w) \<Rightarrow> w | _ \<Rightarrow> doc) in
        (readString source ''response_code'',
         firstNonEmpty [readString source ''response_message'', readString source ''response_description''],
         case jget source ''response_data'' of Some (JObj d) \<Rightarrow> d | _ \<Rightarrow> []))
   | _ \<Rightarrow> ([], [], []))"

definition extractInquiryID :: "string \<Rightarrow> string" where
  "extractInquiryID raw = TrimSpace (field ''inquiry_id'' (sub_object ''response_data'' (root_object raw)))"

definition extractTransactionStatus :: "string \<Rightarrow> string" where
  "extractTransactionStatus raw = (let d = snd (snd (parseDKResponse raw)) in
     firstNonEmpty (map (readString d)
       [''transaction_status'', ''status'', ''txn_status'', ''payment_status'', ''transaction_state'', ''state'']))"

section \<open>Answers\<close>

definition sendSanitizedUpstreamError :: response where
  "sendSanitizedUpstreamError = send 502 [(''success'', JBool False), (''code'', JStr ''UPSTREAM_UNAVAILABLE''),
     (''message'', JStr ''Payment service is temporarily unavailable. Please try again.'')]"

definition sendSanitizedInternalError :: response where
  "sendSanitizedInternalError = send 500 [(''success'', JBool False), (''code'', JStr ''INTERNAL_ERROR''),
     (''message'', JStr ''Request could not be processed at this time.'')]"

definition business_codes :: "(string \<times> string) list" where
  "business_codes = [(''0000'', ''SUCCESS''), (''2002'', ''GATEWAY_TIMEOUT''), (''2011'', ''BANK_REJECTED''),
     (''4001'', ''INVALID_REQUEST''), (''5001'', ''UPSTREAM_ERROR''), (''2008'', ''RESTRICTED''),
     (''2006'', ''DUPLICATE_REQUEST''), ([], ''UNKNOWN_ERROR'')]"

definition sanitizeBusinessCode :: "string \<Rightarrow> string" where
  "sanitizeBusinessCode upstreamCode = (case map_of business_codes (TrimSpace upstreamCode) of
     Some c \<Rightarrow> c | None \<Rightarrow> ''OPERATION_FAILED'')"

definition business_messages :: "(string \<times> string) list" where
  "business_messages = [(''2002'', ''Payment gateway timeout. Please try again.''),
     (''2011'', ''Payment rejected by your bank. Please check account details.''),
     (''4001'', ''Invalid payment details. Please check and retry.''),
     (''5001'', ''System error. Please contact support.''),
     (''2008'', ''Transaction restricted. Please contact support.''),
     (''2006'', ''Duplicate transaction. Please retry later.'')]"

definition mapErrorToUserMessage :: "string \<Rightarrow> string \<Rightarrow> string" where
  "mapErrorToUserMessage code fb = (case map_of business_messages code of
     Some msg \<Rightarrow> msg
   | None \<Rightarrow> if TrimSpace fb \<noteq> [] then fb else ''Request could not be completed at this time.'')"

definition sanitizeBusinessMessage :: "string \<Rightarrow> string" where
  "sanitizeBusinessMessage upstreamCode =
     (if TrimSpace upstreamCode = ''0000'' then ''Request processed successfully.''
      else mapErrorToUserMessage upstreamCode [])"

definition sendSanitizedDKResponse :: "string \<Rightarrow> (string \<times> json) list \<Rightarrow> response" where
  "sendSanitizedDKResponse raw data = (let upstreamCode = fst (parseDKResponse raw) in
     send 200 ([(''success'', JBool (TrimSpace upstreamCode = ''0000'')),
                (''code'', JStr (sanitizeBusinessCode upstreamCode)),
                (''message'', JStr (sanitizeBusinessMessage upstreamCode))]
               @ (if data = [] then [] else [(''data'', JObj data)])))"

definition merchantConfigurationErrorFor :: "gateway_error \<Rightarrow> response" where
  "merchantConfigurationErrorFor e =
     (if e = GatewayNotConfigured
      then send 503 [(''success'', JBool False), (''code'', JStr ''GATEWAY_NOT_CONFIGURED''),
        (''message'', JStr ''this gateway is not configured to reach the payment provider; no payment was attempted'')]
      else send 400 [(''success'', JBool False), (''code'', JStr ''MERCHANT_NOT_CONFIGURED''),
        (''message'', JStr ''merchant_reference is missing or not configured for this integration'')])"

definition merchantConfigurationError :: response where
  "merchantConfigurationError = merchantConfigurationErrorFor MerchantNotConfigured"

definition invalid_json :: response where "invalid_json = send_error 400 ''invalid JSON''"
definition reference_used :: response where "reference_used = send_error 409 ''external_reference already used''"

section \<open>Clients\<close>

definition resolveDKPGForMerchant :: "business_env \<Rightarrow> payment_db \<Rightarrow> string \<Rightarrow> string
    \<Rightarrow> gateway_error + (ResolvedGateway \<times> dkpg_client)" where
  "resolveDKPGForMerchant e db appID ref = (case gr_Resolve (be_resolver e) (pd_routing db) appID ref ''dkpg'' of
     Inl er \<Rightarrow> Inl er
   | Inr v \<Rightarrow> (case gr_DKPGClient (be_resolver e) v of Inl er \<Rightarrow> Inl er | Inr c \<Rightarrow> Inr (v, c)))"

definition resolveDKPGForRecordedCredential :: "business_env \<Rightarrow> payment_db \<Rightarrow> string \<Rightarrow> gateway_error + dkpg_client" where
  "resolveDKPGForRecordedCredential e db cid = (case gr_ResolveCredential (be_resolver e) (pd_routing db) cid of
     Inl er \<Rightarrow> Inl er
   | Inr v \<Rightarrow> gr_DKPGClient (be_resolver e) v)"

text \<open>One signed request of a client that lives as long as the HTTP request.\<close>

definition ask_bank :: "(dkpg_world \<Rightarrow> json \<Rightarrow> dkpg_client \<Rightarrow> string dk) \<Rightarrow> string \<Rightarrow> string \<Rightarrow> business_env \<Rightarrow> dkpg_client
    \<Rightarrow> (string \<times> json) list \<Rightarrow> business_state \<Rightarrow> (string + string) \<times> business_state" where
  "ask_bank op name appID e client payload s = (case op (be_world e) (JObj payload) client of
     (r, _, logs) \<Rightarrow> (r, s\<lparr>bs_logs := bs_logs s @ logs, bs_sent := bs_sent s @ [(appID, name, payload)]\<rparr>))"

definition on_db :: "(payment_db \<Rightarrow> 'a \<times> payment_db) \<Rightarrow> business_state \<Rightarrow> business_state" where
  "on_db f s = s\<lparr>bs_db := snd (f (bs_db s))\<rparr>"

definition next_request_id :: "business_env \<Rightarrow> business_state \<Rightarrow> string \<times> business_state" where
  "next_request_id e s = (let (rid, n) = NewRequestID (be_now e) (bs_seq s) in (rid, s\<lparr>bs_seq := n\<rparr>))"

section \<open>PullPaymentInitiate\<close>

record initiate_fields =
  in_MerchantReference :: string
  in_Reference :: string
  in_Amount :: rat
  in_TransactionFee :: rat
  in_Purpose :: string
  in_EmailID :: string
  in_RemitterAccountNumber :: string
  in_RemitterAccountName :: string
  in_CustomerPhone :: string
  in_RemitterBankCode :: string

definition read_initiate :: "(string \<times> json) list \<Rightarrow> initiate_fields" where
  "read_initiate raw =
     \<lparr> in_MerchantReference = readString raw ''merchant_reference'',
       in_Reference = firstNonEmpty [readString raw ''external_reference'', readString raw ''order_id''],
       in_Amount = firstNonZero [readFloat raw ''transaction_amount'', readFloat raw ''amount''],
       in_TransactionFee = readFloat raw ''transaction_fee'',
       in_Purpose = firstNonEmpty [readString raw ''purpose'', readString raw ''payment_desc'', readString raw ''description''],
       in_EmailID = readString raw ''email_id'',
       in_RemitterAccountNumber = readString raw ''remitter_account_number'',
       in_RemitterAccountName = readString raw ''remitter_account_name'',
       in_CustomerPhone = firstNonEmpty [readString raw ''customer_phone'', readString raw ''phone_number'',
          readString raw ''remitter_phone''],
       in_RemitterBankCode = firstNonEmpty [readString raw ''remitter_bank_code'', readString raw ''remitter_bank_id''] \<rparr>"

definition transaction_time :: "time \<Rightarrow> (string \<times> json) list \<Rightarrow> stamp" where
  "transaction_time now raw = (let dt = readString raw ''transaction_datetime'' in
     if dt = [] then (now, 0) else case ParseRFC3339 dt of Some st \<Rightarrow> st | None \<Rightarrow> (now, 0))"

definition default_member :: "string \<Rightarrow> bool \<Rightarrow> json \<Rightarrow> (string \<times> json) list \<Rightarrow> (string \<times> json) list" where
  "default_member k wanted v kvs = (if jget kvs k = None \<and> wanted then jput k v kvs else kvs)"

text \<open>The payload for the bank: the client's own fields, and over them the fields the server owns.\<close>

definition initiate_payload :: "gateway_resolver \<Rightarrow> ResolvedGateway \<Rightarrow> initiate_fields \<Rightarrow> string \<Rightarrow> string \<Rightarrow> stamp \<Rightarrow> string
    \<Rightarrow> (string \<times> json) list \<Rightarrow> (string \<times> json) list" where
  "initiate_payload g v req requestID stan dt bankID raw =
     (let p = jdel ''external_app_id'' (jdel ''merchant_reference'' raw);
          p = jput ''request_id'' (JStr requestID) p;
          p = jput ''transaction_datetime'' (JStr (format_stamp dt)) p;
          p = jput ''stan_number'' (JStr stan) p;
          p = jput ''account_number'' (JStr (gr_Value v ''beneficiary_account'')) p;
          p = jput ''account_name'' (JStr (gr_Value v ''beneficiary_name'')) p;
          p = jput ''remitter_bank_id'' (JStr bankID) p;
          p = jput ''source_app'' (JStr (gr_SourceApp g)) p;
          p = jdel ''remitter_bank_code'' p;
          p = default_member ''transaction_amount'' (in_Amount req > 0) (JNum (in_Amount req)) p;
          p = default_member ''purpose'' (in_Purpose req \<noteq> []) (JStr (in_Purpose req)) p;
          p = jput ''payment_desc'' (JStr (in_Purpose req)) p;
          p = default_member ''customer_phone'' (in_CustomerPhone req \<noteq> []) (JStr (in_CustomerPhone req)) p;
          p = jput ''phone_number'' (JStr (in_CustomerPhone req)) p;
          p = jput ''external_reference'' (JStr (in_Reference req)) p
      in jput ''order_id'' (JStr (in_Reference req)) p)"

definition initiate_record :: "string \<Rightarrow> ResolvedGateway \<Rightarrow> initiate_fields \<Rightarrow> string \<Rightarrow> stamp \<Rightarrow> string \<Rightarrow> PullPaymentRecord" where
  "initiate_record appID v req stan dt bankID =
     \<lparr> ml_ExternalAppID = appID, ml_ExternalMerchantReference = in_MerchantReference req,
       ml_RecipientID = rg_RecipientID (rv_Routing v), ml_GatewayProvider = gc_Provider (rg_Credential (rv_Routing v)),
       ml_CredentialID = gc_ID (rg_Credential (rv_Routing v)),
       ml_CredentialVersion = gc_Version (rg_Credential (rv_Routing v)), ml_RoutingMode = ''merchant'',
       pp_OrderID = in_Reference req, pp_InquiryID = [], pp_STAN = stan, pp_BFSTxnID = [], pp_BFSRequestID = [],
       pp_BFSOrderNo = [], pp_Amount = in_Amount req, pp_TransactionFee = in_TransactionFee req,
       pp_RemitterAccount = in_RemitterAccountNumber req, pp_RemitterName = in_RemitterAccountName req,
       pp_RemitterPhone = in_CustomerPhone req, pp_EmailID = in_EmailID req, pp_RemitterBank = bankID,
       pp_BeneficiaryAccount = gr_Value v ''beneficiary_account'', pp_TransactionDatetime = fst dt,
       pp_PaymentDesc = in_Purpose req, pp_Currency = ''BTN'', pp_Status = ''PENDING'', pp_ErrorCode = [],
       pp_ErrorMessage = [], pp_CreatedAt = 0 \<rparr>"

text \<open>What follows the bank's answer to an initiation, and to a confirmation.\<close>

definition initiate_answered :: "business_env \<Rightarrow> string \<Rightarrow> string \<Rightarrow> string \<Rightarrow> string \<Rightarrow> business_state \<Rightarrow> response \<times> business_state" where
  "initiate_answered e appID stan ref resBytes s =
     (let bfsTxnID = ExtractBFSTxnID resBytes;
          (code, msg) = ExtractResponseCode resBytes;
          st = (if code \<noteq> [] \<and> code \<noteq> ''0000'' then ''FAILED'' else ''OTP_SENT'');
          s = (if bfsTxnID \<noteq> [] then on_db (UpdateBFSTxnID (be_now e) appID stan bfsTxnID) s else s);
          bfsOrderNo = ExtractBFSOrderNo resBytes;
          s = (if bfsOrderNo \<noteq> [] then on_db (UpdateBFSOrderNo (be_now e) appID stan bfsOrderNo) s else s);
          s = on_db (UpdatePullPaymentStatus (be_now e) appID stan st code msg) s
      in (sendSanitizedDKResponse resBytes
            [(''transaction_id'', JStr stan), (''external_reference'', JStr ref), (''status'', JStr st),
             (''next_step'', JStr ''confirm_otp'')], s))"

definition initiate_send :: "business_env \<Rightarrow> string \<Rightarrow> dkpg_client \<Rightarrow> (string \<times> json) list \<Rightarrow> string \<Rightarrow> string
    \<Rightarrow> business_state \<Rightarrow> response \<times> business_state" where
  "initiate_send e appID client payload stan ref s =
     (case ask_bank AccountAuthPullPayment ''AccountAuthPullPayment'' appID e client payload s of
        (Inl err, s') \<Rightarrow>
          (sendSanitizedUpstreamError, on_db (UpdatePullPaymentStatus (be_now e) appID stan ''FAILED'' [] err) s')
      | (Inr resBytes, s') \<Rightarrow> initiate_answered e appID stan ref resBytes s')"

definition initiate_resolved :: "business_env \<Rightarrow> string \<Rightarrow> ResolvedGateway \<Rightarrow> dkpg_client \<Rightarrow> initiate_fields
    \<Rightarrow> (string \<times> json) list \<Rightarrow> business_state \<Rightarrow> response \<times> business_state" where
  "initiate_resolved e appID v client req raw s =
     (let g = be_resolver e; bankID = firstNonEmpty [in_RemitterBankCode req, gr_Value v ''beneficiary_bank''] in
      if gr_Value v ''beneficiary_account'' = [] \<or> gr_Value v ''beneficiary_name'' = []
      then (send_error 500 ''server beneficiary configuration is missing'', s)
      else if bankID = [] then (send_error 400 ''remitter_bank_code is required'', s)
      else
        let (requestID, s) = next_request_id e s;
            stan = firstNonEmpty [readString raw ''stan_number'', GenerateSTAN (be_now e) (gr_SourceApp g)];
            dt = transaction_time (be_now e) raw;
            payload = initiate_payload g v req requestID stan dt bankID raw
        in (case CreatePullPayment (be_now e) (initiate_record appID v req stan dt bankID) (bs_db s) of
              (Inl er, _) \<Rightarrow> (if IsDuplicateOrderIDError er then reference_used else sendSanitizedInternalError, s)
            | (Inr _, db') \<Rightarrow> initiate_send e appID client payload stan (in_Reference req) (s\<lparr>bs_db := db'\<rparr>)))"

definition PullPaymentInitiate :: "business_env \<Rightarrow> string \<Rightarrow> request \<Rightarrow> business_state \<Rightarrow> response \<times> business_state" where
  "PullPaymentInitiate e appID r s = (case BodyParser r of
     None \<Rightarrow> (invalid_json, s)
   | Some raw \<Rightarrow>
       let req = read_initiate raw;
           (req, s) = (if in_Reference req = []
             then (let (rid, s) = next_request_id e s in (req\<lparr>in_Reference := ''REF-'' @ rid\<rparr>, s)) else (req, s))
       in (case resolveDKPGForMerchant e (bs_db s) appID (in_MerchantReference req) of
             Inl er \<Rightarrow> (merchantConfigurationErrorFor er, s)
           | Inr (v, client) \<Rightarrow>
               if OrderIDExistsForApp appID (in_Reference req) (bs_db s) then (reference_used, s)
               else initiate_resolved e appID v client req raw s))"

section \<open>PullPaymentConfirm\<close>

record confirm_fields =
  co_Reference :: string
  co_OTP :: string

definition read_confirm :: "(string \<times> json) list \<Rightarrow> confirm_fields" where
  "read_confirm raw =
     \<lparr> co_Reference = firstNonEmpty [readString raw ''transaction_id'', readString raw ''reference'', readString raw ''stan_number''],
       co_OTP = firstNonEmpty [readString raw ''otp'', readString raw ''bfs_remitter_Otp''] \<rparr>"

definition confirm_payload :: "string \<Rightarrow> string \<Rightarrow> string \<Rightarrow> string \<Rightarrow> (string \<times> json) list" where
  "confirm_payload requestID bfsTxnID otp bfsOrderNo =
     [(''request_id'', JStr requestID), (''bfs_TxnId'', JStr bfsTxnID), (''bfs_remitter_Otp'', JStr otp)]
     @ (if bfsOrderNo \<noteq> [] then [(''bfs_orderNo'', JStr bfsOrderNo)] else [])"

definition confirm_answered :: "business_env \<Rightarrow> string \<Rightarrow> string \<Rightarrow> string \<Rightarrow> string \<Rightarrow> string \<Rightarrow> business_state
    \<Rightarrow> response \<times> business_state" where
  "confirm_answered e appID stan requestID bfsOrderNo resBytes s =
     (let (code, msg) = ExtractResponseCode resBytes;
          st = (if code \<noteq> [] \<and> code \<noteq> ''0000'' then ''FAILED'' else ''COMPLETED'');
          s = on_db (UpdateConfirmMeta (be_now e) appID stan requestID bfsOrderNo) s;
          s = on_db (UpdatePullPaymentStatus (be_now e) appID stan st code msg) s
      in (sendSanitizedDKResponse resBytes [(''transaction_id'', JStr stan), (''status'', JStr st)], s))"

definition confirm_send :: "business_env \<Rightarrow> string \<Rightarrow> dkpg_client \<Rightarrow> confirm_fields \<Rightarrow> string \<Rightarrow> string \<Rightarrow> business_state
    \<Rightarrow> response \<times> business_state" where
  "confirm_send e appID client req bfsTxnID bfsOrderNo s =
     (let (requestID, s) = next_request_id e s in
      case ask_bank DebitRequestPullPayment ''DebitRequestPullPayment'' appID e client
             (confirm_payload requestID bfsTxnID (co_OTP req) bfsOrderNo) s of
        (Inl err, s') \<Rightarrow> (sendSanitizedUpstreamError,
            on_db (UpdatePullPaymentStatus (be_now e) appID (co_Reference req) ''FAILED'' [] err) s')
      | (Inr resBytes, s') \<Rightarrow> confirm_answered e appID (co_Reference req) requestID bfsOrderNo resBytes s')"

definition PullPaymentConfirm :: "business_env \<Rightarrow> string \<Rightarrow> request \<Rightarrow> business_state \<Rightarrow> response \<times> business_state" where
  "PullPaymentConfirm e appID r s = (case BodyParser r of
     None \<Rightarrow> (invalid_json, s)
   | Some raw \<Rightarrow>
       let req = read_confirm raw in
       if co_Reference req = [] \<or> co_OTP req = [] then (send_error 400 ''transaction_id and otp are required'', s)
       else (case GetTransactionRoutingBySTAN appID (co_Reference req) (bs_db s) of
         Inl _ \<Rightarrow> (send_error 404 ''transaction not found'', s)
       | Inr routing \<Rightarrow>
           if tr_CredentialID routing = [] then (send_error 404 ''transaction not found'', s)
           else (case resolveDKPGForRecordedCredential e (bs_db s) (tr_CredentialID routing) of
             Inl er \<Rightarrow> (merchantConfigurationErrorFor er, s)
           | Inr client \<Rightarrow>
               if tr_BFSTxnID routing = [] then (send_error 400 ''missing bfs_txn_id for transaction'', s)
               else confirm_send e appID client req (tr_BFSTxnID routing)
                      (if tr_BFSOrderNo routing = [] then NewBFSOrderNo (be_now e) (co_Reference req)
                       else tr_BFSOrderNo routing) s)))"

section \<open>IntraInquiry\<close>

record inquiry_fields =
  iy_MerchantReference :: string
  iy_Reference :: string
  iy_Amount :: rat
  iy_RemitterAccountNumber :: string

definition read_inquiry :: "(string \<times> json) list \<Rightarrow> inquiry_fields" where
  "read_inquiry raw =
     \<lparr> iy_MerchantReference = readString raw ''merchant_reference'',
       iy_Reference = firstNonEmpty [readString raw ''external_reference'', readString raw ''order_id''],
       iy_Amount = firstNonZero [readFloat raw ''transaction_amount'', readFloat raw ''amount''],
       iy_RemitterAccountNumber = readString raw ''remitter_account_number'' \<rparr>"

definition missing_fields :: "inquiry_fields \<Rightarrow> string list" where
  "missing_fields req =
     (if iy_Reference req = [] then [''external_reference''] else [])
     @ (if iy_Amount req \<le> 0 then [''transaction_amount''] else [])
     @ (if iy_RemitterAccountNumber req = [] then [''remitter_account_number''] else [])"

definition inquiry_payload :: "ResolvedGateway \<Rightarrow> inquiry_fields \<Rightarrow> string \<Rightarrow> (string \<times> json) list \<Rightarrow> (string \<times> json) list" where
  "inquiry_payload v req requestID raw =
     [(''request_id'', JStr requestID), (''amount'', JStr (FormatFloat2 (iy_Amount req))), (''currency'', JStr ''BTN''),
      (''bene_bank_code'', JStr (gr_Value v ''beneficiary_bank'')),
      (''bene_account_number'', JStr (gr_Value v ''beneficiary_account'')),
      (''source_account_name'', JStr (firstNonEmpty [readString raw ''source_account_name'',
          readString raw ''remitter_account_name'', gr_Value v ''source_account_name''])),
      (''soure_account_number'', JStr (iy_RemitterAccountNumber req))]"

definition inquiry_record :: "string \<Rightarrow> ResolvedGateway \<Rightarrow> inquiry_fields \<Rightarrow> string \<Rightarrow> string \<Rightarrow> string \<Rightarrow> string
    \<Rightarrow> IntraInquiryRecord" where
  "inquiry_record appID v req inquiryID st code msg =
     \<lparr> ml_ExternalAppID = appID, ml_ExternalMerchantReference = iy_MerchantReference req,
       ml_RecipientID = rg_RecipientID (rv_Routing v), ml_GatewayProvider = gc_Provider (rg_Credential (rv_Routing v)),
       ml_CredentialID = gc_ID (rg_Credential (rv_Routing v)),
       ml_CredentialVersion = gc_Version (rg_Credential (rv_Routing v)), ml_RoutingMode = ''merchant'',
       iq_InquiryID = inquiryID, iq_OrderID = iy_Reference req,
       iq_BeneficiaryAccount = gr_Value v ''beneficiary_account'', iq_Amount = iy_Amount req,
       iq_Status = st, iq_ErrorCode = code, iq_ErrorMessage = msg \<rparr>"

definition inquiry_answered :: "business_env \<Rightarrow> string \<Rightarrow> ResolvedGateway \<Rightarrow> inquiry_fields \<Rightarrow> string \<Rightarrow> business_state
    \<Rightarrow> response \<times> business_state" where
  "inquiry_answered e appID v req resBytes s =
     (let inquiryID = extractInquiryID resBytes;
          (code, msg) = ExtractResponseCode resBytes;
          st = (if code \<noteq> ''0000'' then ''FAILED'' else ''SUCCESS'')
      in (case CreateIntraInquiry (be_now e) (inquiry_record appID v req inquiryID st code msg) (bs_db s) of
            (Inl er, _) \<Rightarrow> (if IsDuplicateIntraInquiryOrderIDError er then reference_used else sendSanitizedInternalError, s)
          | (Inr _, db') \<Rightarrow>
              (if inquiryID = []
               then send 502 [(''success'', JBool False), (''code'', JStr ''INVALID_UPSTREAM_RESPONSE''),
                 (''message'', JStr ''Inquiry could not be completed at this time.'')]
               else sendSanitizedDKResponse resBytes
                 [(''inquiry_id'', JStr inquiryID), (''external_reference'', JStr (iy_Reference req)), (''status'', JStr st)],
               s\<lparr>bs_db := db'\<rparr>)))"

definition IntraInquiry :: "business_env \<Rightarrow> string \<Rightarrow> request \<Rightarrow> business_state \<Rightarrow> response \<times> business_state" where
  "IntraInquiry e appID r s = (case BodyParser r of
     None \<Rightarrow> (invalid_json, s)
   | Some raw \<Rightarrow>
       let req = read_inquiry raw in
       if missing_fields req \<noteq> []
       then (send 400 [(''error'', JStr ''missing required fields''), (''missing_fields'', JArr (map JStr (missing_fields req)))], s)
       else (case resolveDKPGForMerchant e (bs_db s) appID (iy_MerchantReference req) of
         Inl er \<Rightarrow> (merchantConfigurationErrorFor er, s)
       | Inr (v, client) \<Rightarrow>
           if OrderIDExistsForApp appID (iy_Reference req) (bs_db s) then (reference_used, s)
           else if IntraInquiryOrderIDExistsForApp appID (iy_Reference req) (bs_db s) then (reference_used, s)
           else
             let (requestID, s) = next_request_id e s in
             (case ask_bank BeneficiaryAccountInquiry ''BeneficiaryAccountInquiry'' appID e client
                    (inquiry_payload v req requestID raw) s of
                (Inl err, s') \<Rightarrow> (sendSanitizedUpstreamError,
                   on_db (CreateIntraInquiry (be_now e) (inquiry_record appID v req [] ''FAILED'' ''network_error'' err)) s')
              | (Inr resBytes, s') \<Rightarrow> inquiry_answered e appID v req resBytes s')))"

section \<open>Status queries\<close>

text \<open>
  The row that a status query is about, and the id that the bank knows it by; the
  client names the row by its external reference or by that id.
\<close>

definition status_routing :: "(TransactionGatewayRouting \<Rightarrow> string) \<Rightarrow> (payment_row \<Rightarrow> string) \<Rightarrow> string \<Rightarrow> string \<Rightarrow> string \<Rightarrow> string
    \<Rightarrow> payment_db \<Rightarrow> response + (string \<times> TransactionGatewayRouting)" where
  "status_routing pick selector what appID externalReference ident db =
     (if externalReference \<noteq> [] then
        (case GetTransactionRoutingByOrderID appID externalReference db of
           Inl ErrNoRows \<Rightarrow> Inl (send_error 404 ''external_reference not found'')
         | Inl _ \<Rightarrow> Inl sendSanitizedInternalError
         | Inr routing \<Rightarrow>
             if blank (pick routing) then Inl (send_error 400 (what @ '' not available yet for this external_reference''))
             else Inr (pick routing, routing))
      else (case getTransactionRouting selector appID ident db of
         Inl _ \<Rightarrow> Inl (send_error 404 ''transaction not found'')
       | Inr routing \<Rightarrow> if blank ident then Inl (send_error 400 (what @ '' could not be resolved'')) else Inr (ident, routing)))"

definition status_client :: "business_env \<Rightarrow> payment_db \<Rightarrow> string \<Rightarrow> response + (dkpg_client \<times> string)" where
  "status_client e db cid = (case gr_ResolveCredential (be_resolver e) (pd_routing db) cid of
     Inl _ \<Rightarrow> Inl merchantConfigurationError
   | Inr v \<Rightarrow>
       if gc_Provider (rg_Credential (rv_Routing v)) \<noteq> ''dkpg'' then Inl merchantConfigurationError
       else (case gr_DKPGClient (be_resolver e) v of
         Inl er \<Rightarrow> Inl (merchantConfigurationErrorFor er)
       | Inr client \<Rightarrow>
           if gr_Value v ''beneficiary_account'' = []
           then Inl (send_error 500 ''server beneficiary account configuration is missing'')
           else Inr (client, gr_Value v ''beneficiary_account'')))"

text \<open>The request to the bank with its id and date fields, and the answer with the given data.\<close>

definition status_ask :: "(dkpg_world \<Rightarrow> json \<Rightarrow> dkpg_client \<Rightarrow> string dk) \<Rightarrow> string \<Rightarrow> string \<Rightarrow> business_env \<Rightarrow> string
    \<Rightarrow> (string \<times> json) list \<Rightarrow> (string \<times> json) list \<Rightarrow> business_state \<Rightarrow> response \<times> business_state" where
  "status_ask op name appID e cid query data s = (case status_client e (bs_db s) cid of
     Inl resp \<Rightarrow> (resp, s)
   | Inr (client, bene) \<Rightarrow>
       let (requestID, s) = next_request_id e s in
       (case ask_bank op name appID e client ((''request_id'', JStr requestID) # query @ [(''bene_account_number'', JStr bene)]) s of
          (Inl _, s') \<Rightarrow> (sendSanitizedUpstreamError, s')
        | (Inr resBytes, s') \<Rightarrow>
            let st = extractTransactionStatus resBytes in
            (sendSanitizedDKResponse resBytes (data @ (if st \<noteq> [] then [(''transaction_status'', JStr st)] else [])), s')))"

definition external_reference :: "(string \<times> json) list \<Rightarrow> string" where
  "external_reference raw = firstNonEmpty [readString raw ''external_reference'', readString raw ''order_id'']"

definition StatusSameDay :: "business_env \<Rightarrow> string \<Rightarrow> request \<Rightarrow> business_state \<Rightarrow> response \<times> business_state" where
  "StatusSameDay e appID r s = (case BodyParser r of
     None \<Rightarrow> (invalid_json, s)
   | Some raw \<Rightarrow>
       let transactionID = readString raw ''transaction_id''; ref = external_reference raw in
       if transactionID = [] \<and> ref = [] then (send_error 400 ''external_reference (or transaction_id) is required'', s)
       else (case status_routing tr_BFSTxnID pp_BFSTxnID ''transaction_id'' appID ref transactionID (bs_db s) of
         Inl resp \<Rightarrow> (resp, s)
       | Inr (ident, routing) \<Rightarrow>
           status_ask TransactionStatus ''TransactionStatus'' appID e (tr_CredentialID routing)
             [(''transaction_id'', JStr ident)] [(''transaction_id'', JStr ident)] s))"

definition StatusLater :: "business_env \<Rightarrow> string \<Rightarrow> request \<Rightarrow> business_state \<Rightarrow> response \<times> business_state" where
  "StatusLater e appID r s = (case BodyParser r of
     None \<Rightarrow> (invalid_json, s)
   | Some raw \<Rightarrow>
       let transactionID = readString raw ''transaction_id''; ref = external_reference raw;
           date = firstNonEmpty [readString raw ''transaction_date'', readString raw ''trasnaction_date''] in
       if date = [] then (send_error 400 ''transaction_date is required'', s)
       else if transactionID = [] \<and> ref = [] then (send_error 400 ''external_reference (or transaction_id) is required'', s)
       else (case status_routing tr_BFSTxnID pp_BFSTxnID ''transaction_id'' appID ref transactionID (bs_db s) of
         Inl resp \<Rightarrow> (resp, s)
       | Inr (ident, routing) \<Rightarrow>
           status_ask TransactionsStatus ''TransactionsStatus'' appID e (tr_CredentialID routing)
             [(''transaction_id'', JStr ident), (''transaction_date'', JStr date)]
             [(''transaction_id'', JStr ident), (''transaction_date'', JStr date)] s))"

definition StatusIntra :: "business_env \<Rightarrow> string \<Rightarrow> request \<Rightarrow> business_state \<Rightarrow> response \<times> business_state" where
  "StatusIntra e appID r s = (case BodyParser r of
     None \<Rightarrow> (invalid_json, s)
   | Some raw \<Rightarrow>
       let referenceNo = readString raw ''reference_no''; ref = external_reference raw;
           date = readString raw ''transaction_date'' in
       if date = [] then (send_error 400 ''transaction_date is required'', s)
       else if referenceNo = [] \<and> ref = [] then (send_error 400 ''external_reference (or reference_no) is required'', s)
       else (case status_routing tr_STAN pp_STAN ''reference_no'' appID ref referenceNo (bs_db s) of
         Inl resp \<Rightarrow> (resp, s)
       | Inr (ident, routing) \<Rightarrow>
           status_ask IntraTransactionStatus ''IntraTransactionStatus'' appID e (tr_CredentialID routing)
             [(''reference_no'', JStr ident), (''transaction_date'', JStr date)]
             ([(''reference_no'', JStr ident), (''transaction_date'', JStr date)]
              @ (if ref \<noteq> [] then [(''external_reference'', JStr ref)] else [])) s))"

end
