(* ===== verification/Ledger.thy ===== *)
theory Ledger
  imports Main
begin

text \<open>
  The contract between a table of payments and the operations on it that many
  tenants share: an operation of one tenant leaves the rows of the others as they
  are, and no operation loses a row or changes the terms it was opened
  with.  What follows for whole histories is proved once here; the tables of bank
  and card payments both provide it.
\<close>

locale ledger =
  fixes inv :: "'s \<Rightarrow> bool"
    and step :: "'o option \<Rightarrow> 's \<Rightarrow> 's \<Rightarrow> bool"
    and rows :: "'s \<Rightarrow> 'r list"
    and owner :: "'r \<Rightarrow> 'o"
    and terms :: "'r \<Rightarrow> 't"
  assumes inv_step: "inv s \<Longrightarrow> step a s s' \<Longrightarrow> inv s'"
    and foreign: "inv s \<Longrightarrow> step a s s' \<Longrightarrow> a \<noteq> Some b \<Longrightarrow>
      filter (\<lambda>r. owner r = b) (rows s') = filter (\<lambda>r. owner r = b) (rows s)"
    and kept: "inv s \<Longrightarrow> step a s s' \<Longrightarrow> terms ` set (rows s) \<subseteq> terms ` set (rows s')"
begin

definition history :: "('o option \<Rightarrow> bool) \<Rightarrow> 's \<Rightarrow> 's \<Rightarrow> bool" where
  "history P = (\<lambda>s s'. \<exists>a. P a \<and> step a s s')\<^sup>*\<^sup>*"

lemma history_inv: "history P s s' \<Longrightarrow> inv s \<Longrightarrow> inv s'"
  unfolding history_def by (induction rule: rtranclp_induct) (auto intro: inv_step)

lemma isolation:
  assumes "history (\<lambda>a. a \<noteq> Some b) s s'" "inv s"
  shows "filter (\<lambda>r. owner r = b) (rows s') = filter (\<lambda>r. owner r = b) (rows s)"
  using assms(1) [unfolded history_def]
proof (induction rule: rtranclp_induct)
  case (step t u)
  have "inv t" using history_inv [unfolded history_def, OF step(1) assms(2)] .
  moreover obtain a where "a \<noteq> Some b" "step a t u" using step(2) by blast
  ultimately show ?case using foreign step(3) by metis
qed simp

lemma persistence:
  assumes "history P s s'" "inv s" "r \<in> set (rows s)"
  shows "\<exists>r' \<in> set (rows s'). terms r' = terms r"
proof -
  have "terms ` set (rows s) \<subseteq> terms ` set (rows s')"
    using assms(1) [unfolded history_def]
  proof (induction rule: rtranclp_induct)
    case (step t u)
    have "inv t" using history_inv [unfolded history_def, OF step(1) assms(2)] .
    moreover obtain a where "step a t u" using step(2) by blast
    ultimately have "terms ` set (rows t) \<subseteq> terms ` set (rows u)" using kept by blast
    with step(3) show ?case by blast
  qed simp
  then show ?thesis using assms(3) by (metis image_iff subset_iff)
qed

end

end
