(* ===== verification/BusinessLaws.thy ===== *)
theory BusinessLaws
  imports Business Ledger
begin

text \<open>
  What the merchant payment API guarantees over whole histories: every handler is a
  sequence of operations of its own app on the payment tables, so that the
  tables are a ledger in the sense of the locale.
\<close>

section \<open>Operations of one app\<close>

inductive payment_op :: "string \<Rightarrow> payment_db \<Rightarrow> payment_db \<Rightarrow> bool" where
  create: "ml_ExternalAppID p = a \<Longrightarrow> payment_op a db (snd (CreatePullPayment now p db))"
| update: "keeps_terms f \<Longrightarrow> payment_op a db (snd (update_payments (at_stan a stan) f db))"
| inquire: "ml_ExternalAppID q = a \<Longrightarrow> payment_op a db (snd (CreateIntraInquiry now q db))"

abbreviation ops :: "string \<Rightarrow> payment_db \<Rightarrow> payment_db \<Rightarrow> bool" where
  "ops a \<equiv> (payment_op a)\<^sup>*\<^sup>*"

text \<open>Operations that open no payment.\<close>

definition quiet :: "string \<Rightarrow> payment_db \<Rightarrow> payment_db \<Rightarrow> bool" where
  "quiet a db db' \<longleftrightarrow> ops a db db' \<and> terms_of ` set (pd_payments db') = terms_of ` set (pd_payments db)"

lemma quiet_refl [simp]: "quiet a db db"
  by (simp add: quiet_def)

lemma quiet_ops: "quiet a db db' \<Longrightarrow> ops a db db'"
  by (simp add: quiet_def)

lemma CreatePullPayment_rest:
  "pd_routing (snd (CreatePullPayment now p db)) = pd_routing db"
  "set (pd_payments db) \<subseteq> set (pd_payments (snd (CreatePullPayment now p db)))"
  "ml_ExternalAppID p \<noteq> b \<Longrightarrow> filter (\<lambda>p. ml_ExternalAppID p = b) (pd_payments (snd (CreatePullPayment now p db)))
     = filter (\<lambda>p. ml_ExternalAppID p = b) (pd_payments db)"
  by (auto simp: CreatePullPayment_def split: sum.splits dest!: insert_link_Inr)

lemma payment_op_laws:
  assumes "payment_op a db db'"
  shows "payments_ok db \<Longrightarrow> payments_ok db'" "pd_routing db' = pd_routing db"
    "terms_of ` set (pd_payments db) \<subseteq> terms_of ` set (pd_payments db')"
    "a \<noteq> b \<Longrightarrow> filter (\<lambda>p. ml_ExternalAppID p = b) (pd_payments db') = filter (\<lambda>p. ml_ExternalAppID p = b) (pd_payments db)"
  using assms
  by (cases; auto simp: CreatePullPayment_ok CreatePullPayment_rest update_payments_ok update_payments_terms
      CreateIntraInquiry_ok at_stan_def intro!: update_payments_foreign dest: subsetD [OF CreatePullPayment_rest(2)])+

lemma ops_laws:
  assumes "ops a db db'"
  shows "(payments_ok db \<longrightarrow> payments_ok db') \<and> pd_routing db' = pd_routing db
    \<and> terms_of ` set (pd_payments db) \<subseteq> terms_of ` set (pd_payments db')
    \<and> (a \<noteq> b \<longrightarrow> filter (\<lambda>p. ml_ExternalAppID p = b) (pd_payments db') = filter (\<lambda>p. ml_ExternalAppID p = b) (pd_payments db))"
  using assms
proof (induction rule: rtranclp_induct)
  case (step x y)
  note l = payment_op_laws [OF step.hyps(2)]
  have "payments_ok db \<longrightarrow> payments_ok y" using l(1) step.IH by blast
  moreover have "pd_routing y = pd_routing db" using l(2) step.IH by metis
  moreover have "terms_of ` set (pd_payments db) \<subseteq> terms_of ` set (pd_payments y)" using l(3) step.IH by blast
  moreover have "a \<noteq> b \<longrightarrow> filter (\<lambda>p. ml_ExternalAppID p = b) (pd_payments y) = filter (\<lambda>p. ml_ExternalAppID p = b) (pd_payments db)"
    using l(4) step.IH by metis
  ultimately show ?case by blast
qed simp

lemma bs_db_on_db [simp]: "bs_db (on_db f s) = snd (f (bs_db s))" "bs_sent (on_db f s) = bs_sent s"
  by (simp_all add: on_db_def)

lemma quiet_updates:
  assumes "quiet a db db1" "keeps_terms f"
  shows "quiet a db (snd (update_payments (at_stan a stan) f db1))"
  using assms update [OF assms(2), of a db1 stan] by (auto simp: quiet_def update_payments_terms intro: rtranclp.rtrancl_into_rtrancl)

lemma quiet_update:
  "quiet a db (bs_db s) \<Longrightarrow> quiet a db (bs_db (on_db (UpdatePullPaymentStatus now a stan st c m) s))"
  "quiet a db (bs_db s) \<Longrightarrow> quiet a db (bs_db (on_db (UpdateBFSTxnID now a stan x) s))"
  "quiet a db (bs_db s) \<Longrightarrow> quiet a db (bs_db (on_db (UpdateBFSOrderNo now a stan x) s))"
  "quiet a db (bs_db s) \<Longrightarrow> quiet a db (bs_db (on_db (UpdateConfirmMeta now a stan x y) s))"
  unfolding UpdatePullPaymentStatus_def UpdateBFSTxnID_def UpdateBFSOrderNo_def UpdateConfirmMeta_def bs_db_on_db
  by (erule quiet_updates, simp)+

lemma ops_create:
  "ml_ExternalAppID p = a \<Longrightarrow> CreatePullPayment now p db = (r, db') \<Longrightarrow> ops a db db'"
  using create [of p a db now] by (auto intro: rtranclp.rtrancl_into_rtrancl)

lemma quiet_inquire:
  "ml_ExternalAppID q = a \<Longrightarrow> CreateIntraInquiry now q db = (r, db') \<Longrightarrow> quiet a db db'"
  using inquire [of q a db now] CreateIntraInquiry_payments(1) [of now q db]
  by (auto simp: quiet_def simp del: CreateIntraInquiry_payments)

lemma quiet_if: "quiet a db (bs_db x) \<Longrightarrow> quiet a db (bs_db y) \<Longrightarrow> quiet a db (bs_db (if c then x else y))"
  by simp

lemma ask_bank_db: "ask_bank op name b e client payload s = (r, s') \<Longrightarrow> bs_db s' = bs_db s"
  by (auto simp: ask_bank_def split: prod.splits)

lemma ask_bank_sent: "ask_bank op name b e client payload s = (r, s') \<Longrightarrow> bs_sent s' = bs_sent s @ [(b, name, payload)]"
  by (auto simp: ask_bank_def split: prod.splits)

lemma next_request_id_rest:
  "next_request_id e s = (rid, s') \<Longrightarrow> bs_db s' = bs_db s \<and> bs_sent s' = bs_sent s"
  by (auto simp: next_request_id_def split: prod.splits)

lemma app_of_records [simp]:
  "ml_ExternalAppID (initiate_record a v req stan dt bank) = a"
  "ml_ExternalAppID (inquiry_record a v rq i st c m) = a"
  by (simp_all add: initiate_record_def inquiry_record_def)

section \<open>Handlers\<close>

lemma initiate_answered_ops:
  assumes "quiet a db (bs_db s)" "initiate_answered e a stan ref res s = (resp, s')"
  shows "quiet a db (bs_db s')"
proof -
  obtain code msg where c: "ExtractResponseCode res = (code, msg)" by (rule prod.exhaust)
  define s1 where "s1 = (if ExtractBFSTxnID res \<noteq> [] then on_db (UpdateBFSTxnID (be_now e) a stan (ExtractBFSTxnID res)) s else s)"
  define s2 where "s2 = (if ExtractBFSOrderNo res \<noteq> [] then on_db (UpdateBFSOrderNo (be_now e) a stan (ExtractBFSOrderNo res)) s1 else s1)"
  have "s' = on_db (UpdatePullPaymentStatus (be_now e) a stan
      (if code \<noteq> [] \<and> code \<noteq> ''0000'' then ''FAILED'' else ''OTP_SENT'') code msg) s2"
    using assms(2) unfolding initiate_answered_def c s1_def s2_def Let_def prod.case by blast
  moreover have "quiet a db (bs_db s1)" unfolding s1_def by (rule quiet_if [OF quiet_update(2) [OF assms(1)] assms(1)])
  then have "quiet a db (bs_db s2)" unfolding s2_def by (intro quiet_if quiet_update(3))
  ultimately show ?thesis using quiet_update(1) by metis
qed

lemma initiate_send_ops:
  assumes "initiate_send e a client payload stan ref s = (resp, s')"
  shows "quiet a (bs_db s) (bs_db s')"
proof -
  obtain r s1 where b: "ask_bank AccountAuthPullPayment ''AccountAuthPullPayment'' a e client payload s = (r, s1)"
    by (rule prod.exhaust)
  note d = ask_bank_db [OF b]
  show ?thesis
  proof (cases r)
    case (Inl err)
    then have "s' = on_db (UpdatePullPaymentStatus (be_now e) a stan ''FAILED'' [] err) s1"
      using assms b by (simp add: initiate_send_def)
    then show ?thesis using d by (metis quiet_update(1) quiet_refl)
  next
    case (Inr res)
    then show ?thesis using assms b d initiate_answered_ops [of a "bs_db s" s1] by (simp add: initiate_send_def)
  qed
qed

lemma confirm_answered_ops:
  assumes "quiet a db (bs_db s)" "confirm_answered e a stan rid ono res s = (resp, s')"
  shows "quiet a db (bs_db s')"
proof -
  obtain code msg where c: "ExtractResponseCode res = (code, msg)" by (rule prod.exhaust)
  have "s' = on_db (UpdatePullPaymentStatus (be_now e) a stan (if code \<noteq> [] \<and> code \<noteq> ''0000'' then ''FAILED'' else ''COMPLETED'')
      code msg) (on_db (UpdateConfirmMeta (be_now e) a stan rid ono) s)"
    using assms(2) by (simp add: confirm_answered_def Let_def c)
  then show ?thesis using quiet_update(1) [OF quiet_update(4) [OF assms(1)]] by metis
qed

lemma confirm_send_ops:
  assumes "confirm_send e a client req txn ono s = (resp, s')"
  shows "quiet a (bs_db s) (bs_db s')"
proof -
  obtain rid s1 where n: "next_request_id e s = (rid, s1)" by (rule prod.exhaust)
  obtain r s2 where b: "ask_bank DebitRequestPullPayment ''DebitRequestPullPayment'' a e client
      (confirm_payload rid txn (co_OTP req) ono) s1 = (r, s2)"
    by (rule prod.exhaust)
  have d: "bs_db s2 = bs_db s" using next_request_id_rest [OF n] ask_bank_db [OF b] by simp
  show ?thesis
  proof (cases r)
    case (Inl err)
    then have "s' = on_db (UpdatePullPaymentStatus (be_now e) a (co_Reference req) ''FAILED'' [] err) s2"
      using assms b n by (simp add: confirm_send_def)
    then show ?thesis using d by (metis quiet_update(1) quiet_refl)
  next
    case (Inr res)
    then show ?thesis using assms b n d confirm_answered_ops [of a "bs_db s" s2] by (simp add: confirm_send_def)
  qed
qed

lemma PullPaymentConfirm_ops:
  assumes "PullPaymentConfirm e a r s = (resp, s')"
  shows "quiet a (bs_db s) (bs_db s')"
proof -
  from assms consider "s' = s" | client req txn ono where "confirm_send e a client req txn ono s = (resp, s')"
    by (auto simp: PullPaymentConfirm_def Let_def split: if_splits sum.splits option.splits)
  then show ?thesis
  proof cases
    case 2
    show ?thesis by (rule confirm_send_ops [OF 2])
  qed simp
qed

lemma inquiry_answered_ops:
  assumes "inquiry_answered e a v req res s = (resp, s')"
  shows "quiet a (bs_db s) (bs_db s')"
proof -
  obtain code msg where c: "ExtractResponseCode res = (code, msg)" by (rule prod.exhaust)
  obtain r db' where d: "CreateIntraInquiry (be_now e) (inquiry_record a v req (extractInquiryID res)
      (if code \<noteq> ''0000'' then ''FAILED'' else ''SUCCESS'') code msg) (bs_db s) = (r, db')"
    by (rule prod.exhaust)
  then have "s' = s \<or> bs_db s' = db'"
    using assms by (cases r) (auto simp: inquiry_answered_def Let_def c)
  then show ?thesis using quiet_inquire [OF _ d] by auto
qed

lemma IntraInquiry_ops:
  assumes "IntraInquiry e a r s = (resp, s')"
  shows "quiet a (bs_db s) (bs_db s')"
proof -
  obtain rid s1 where n: "next_request_id e s = (rid, s1)" by (rule prod.exhaust)
  have d: "bs_db s1 = bs_db s" using next_request_id_rest [OF n] by simp
  from assms n consider "s' = s"
    | client payload v req err s2 where "ask_bank BeneficiaryAccountInquiry ''BeneficiaryAccountInquiry'' a e client payload s1 = (Inl err, s2)"
        "s' = on_db (CreateIntraInquiry (be_now e) (inquiry_record a v req [] ''FAILED'' ''network_error'' err)) s2"
    | client payload v req res s2 where "ask_bank BeneficiaryAccountInquiry ''BeneficiaryAccountInquiry'' a e client payload s1 = (Inr res, s2)"
        "inquiry_answered e a v req res s2 = (resp, s')"
    by (auto simp: IntraInquiry_def Let_def split: if_splits sum.splits option.splits prod.splits)
  then show ?thesis
  proof cases
    case 2
    then show ?thesis using ask_bank_db [OF 2(1)] d quiet_inquire [of "inquiry_record a v req [] ''FAILED'' ''network_error'' err" a]
      by (metis app_of_records(2) bs_db_on_db(1) prod.collapse)
  next
    case 3
    then show ?thesis using ask_bank_db [OF 3(1)] d inquiry_answered_ops [OF 3(2)] by simp
  qed simp
qed

lemma status_ask_db: "status_ask op name a e cid query data s = (resp, s') \<Longrightarrow> bs_db s' = bs_db s"
  by (auto simp: status_ask_def Let_def split: sum.splits prod.splits dest!: ask_bank_db next_request_id_rest)

lemma status_handlers_db:
  "StatusSameDay e a r s = (resp, s') \<Longrightarrow> bs_db s' = bs_db s"
  "StatusLater e a r s = (resp, s') \<Longrightarrow> bs_db s' = bs_db s"
  "StatusIntra e a r s = (resp, s') \<Longrightarrow> bs_db s' = bs_db s"
  by (auto simp: StatusSameDay_def StatusLater_def StatusIntra_def Let_def split: option.splits if_splits sum.splits prod.splits
      dest: status_ask_db)

section \<open>What is sent, and for which row\<close>

lemma jget_default [tbl]:
  "jget (default_member k w v kvs) k' = (if k' = k \<and> jget kvs k = None \<and> w then Some v else jget kvs k')"
  by (simp add: default_member_def tbl)

lemma initiate_payload_server_fields:
  "jget (initiate_payload g v req rid stan dt bank raw) ''account_number'' = Some (JStr (gr_Value v ''beneficiary_account''))"
  "jget (initiate_payload g v req rid stan dt bank raw) ''account_name'' = Some (JStr (gr_Value v ''beneficiary_name''))"
  "jget (initiate_payload g v req rid stan dt bank raw) ''source_app'' = Some (JStr (gr_SourceApp g))"
  "jget (initiate_payload g v req rid stan dt bank raw) ''stan_number'' = Some (JStr stan)"
  "jget (initiate_payload g v req rid stan dt bank raw) ''order_id'' = Some (JStr (in_Reference req))"
  "jget (initiate_payload g v req rid stan dt bank raw) ''merchant_reference'' = None"
  "jget (initiate_payload g v req rid stan dt bank raw) ''external_app_id'' = None"
  by (simp_all add: initiate_payload_def Let_def tbl)

lemma initiate_answered_sent: "initiate_answered e a stan ref res s = (resp, s') \<Longrightarrow> bs_sent s' = bs_sent s"
  by (auto simp: initiate_answered_def Let_def split: prod.splits)

lemma confirm_answered_sent: "confirm_answered e a stan rid ono res s = (resp, s') \<Longrightarrow> bs_sent s' = bs_sent s"
  by (auto simp: confirm_answered_def Let_def split: prod.splits)

lemma inquiry_answered_sent: "inquiry_answered e a v req res s = (resp, s') \<Longrightarrow> bs_sent s' = bs_sent s"
  by (auto simp: inquiry_answered_def Let_def split: prod.splits sum.splits)

lemma initiate_send_sent:
  assumes "initiate_send e a client payload stan ref s = (resp, s')"
  shows "bs_sent s' = bs_sent s @ [(a, ''AccountAuthPullPayment'', payload)]"
proof -
  obtain r s1 where b: "ask_bank AccountAuthPullPayment ''AccountAuthPullPayment'' a e client payload s = (r, s1)"
    by (rule prod.exhaust)
  show ?thesis using assms ask_bank_sent [OF b] initiate_answered_sent [of e a stan ref _ s1 resp s'] b
    by (cases r) (auto simp: initiate_send_def)
qed

text \<open>An initiation sends nothing, or it stores the payment first.\<close>

lemma initiate_resolved_cases:
  assumes "initiate_resolved e a v client req raw s = (resp, s')"
  obtains "bs_sent s' = bs_sent s" "bs_db s' = bs_db s"
  | rid stan dt bank db' where
      "CreatePullPayment (be_now e) (initiate_record a v req stan dt bank) (bs_db s) = (Inr (), db')"
      "quiet a db' (bs_db s')"
      "bs_sent s' = bs_sent s @ [(a, ''AccountAuthPullPayment'', initiate_payload (be_resolver e) v req rid stan dt bank raw)]"
      "stan = firstNonEmpty [readString raw ''stan_number'', GenerateSTAN (be_now e) (gr_SourceApp (be_resolver e))]"
proof -
  obtain rid s1 where n: "next_request_id e s = (rid, s1)" by (rule prod.exhaust)
  have d: "bs_db s1 = bs_db s" "bs_sent s1 = bs_sent s" using next_request_id_rest [OF n] by simp_all
  define stan where "stan = firstNonEmpty [readString raw ''stan_number'', GenerateSTAN (be_now e) (gr_SourceApp (be_resolver e))]"
  define dt where "dt = transaction_time (be_now e) raw"
  define bank where "bank = firstNonEmpty [in_RemitterBankCode req, gr_Value v ''beneficiary_bank'']"
  obtain r1 db' where c: "CreatePullPayment (be_now e) (initiate_record a v req stan dt bank) (bs_db s1) = (r1, db')"
    by (rule prod.exhaust)
  note eqs = initiate_resolved_def Let_def bank_def [symmetric] stan_def [symmetric] dt_def [symmetric]
  show thesis
  proof (cases "gr_Value v ''beneficiary_account'' = [] \<or> gr_Value v ''beneficiary_name'' = [] \<or> bank = []")
    case True
    then have "s' = s" using assms by (auto simp: eqs simp del: firstNonEmpty.simps split: if_splits)
    then show thesis using that(1) by simp
  next
    case False
    show thesis
    proof (cases r1)
      case (Inl er)
      then have "s' = s1" using assms False n c by (simp add: eqs del: firstNonEmpty.simps)
      then show thesis using d that(1) by simp
    next
      case (Inr u)
      then have i: "initiate_send e a client (initiate_payload (be_resolver e) v req rid stan dt bank raw) stan
          (in_Reference req) (s1\<lparr>bs_db := db'\<rparr>) = (resp, s')"
        using assms False n c by (simp add: eqs del: firstNonEmpty.simps)
      show thesis
        using that(2) [of stan dt bank db' rid] c Inr d initiate_send_ops [OF i] initiate_send_sent [OF i] stan_def
        by (simp del: firstNonEmpty.simps)
    qed
  qed
qed

lemma initiate_resolved_ops:
  assumes "initiate_resolved e a v client req raw s = (resp, s')"
  shows "ops a (bs_db s) (bs_db s')"
  using assms
proof (cases rule: initiate_resolved_cases)
  case (2 rid stan dt bank db')
  have "ops a (bs_db s) db'" using ops_create [OF _ 2(1)] by simp
  then show ?thesis using quiet_ops [OF 2(2)] by simp
qed simp

text \<open>The request as it reaches the second half: with the reference it was given, or a generated one.\<close>

lemma PullPaymentInitiate_cases:
  assumes "PullPaymentInitiate e a r s = (resp, s')"
  obtains "bs_sent s' = bs_sent s" "bs_db s' = bs_db s"
  | raw v client req s0 where "BodyParser r = Some raw"
      "gr_Resolve (be_resolver e) (pd_routing (bs_db s)) a (readString raw ''merchant_reference'') ''dkpg'' = Inr v"
      "gr_DKPGClient (be_resolver e) v = Inr client"
      "in_Reference (read_initiate raw) \<noteq> [] \<Longrightarrow> in_Reference req = in_Reference (read_initiate raw)"
      "in_MerchantReference req = readString raw ''merchant_reference''"
      "\<not> OrderIDExistsForApp a (in_Reference req) (bs_db s)"
      "bs_db s0 = bs_db s" "bs_sent s0 = bs_sent s"
      "initiate_resolved e a v client req raw s0 = (resp, s')"
proof (cases "BodyParser r")
  case None
  then show thesis using assms that(1) by (simp add: PullPaymentInitiate_def)
next
  case (Some raw)
  obtain rid s1 where n: "next_request_id e s = (rid, s1)" by (rule prod.exhaust)
  define req s0 where "req = (if in_Reference (read_initiate raw) = [] then (read_initiate raw)\<lparr>in_Reference := ''REF-'' @ rid\<rparr> else read_initiate raw)"
    and "s0 = (if in_Reference (read_initiate raw) = [] then s1 else s)"
  have d: "bs_db s0 = bs_db s" "bs_sent s0 = bs_sent s" using next_request_id_rest [OF n] by (simp_all add: s0_def)
  have m: "in_MerchantReference req = readString raw ''merchant_reference''" by (simp add: req_def read_initiate_def)
  have split: "(if in_Reference (read_initiate raw) = []
      then (let (rid, s) = next_request_id e s in ((read_initiate raw)\<lparr>in_Reference := ''REF-'' @ rid\<rparr>, s))
      else (read_initiate raw, s)) = (req, s0)"
    by (simp add: req_def s0_def n)
  have eq: "(case resolveDKPGForMerchant e (bs_db s0) a (in_MerchantReference req) of
             Inl er \<Rightarrow> (merchantConfigurationErrorFor er, s0)
           | Inr (v, client) \<Rightarrow>
               if OrderIDExistsForApp a (in_Reference req) (bs_db s0) then (reference_used, s0)
               else initiate_resolved e a v client req raw s0) = (resp, s')"
    using assms unfolding PullPaymentInitiate_def Some option.case Let_def [of "read_initiate raw"] split Let_def [of "(req, s0)"] prod.case .
  show thesis
  proof (cases "resolveDKPGForMerchant e (bs_db s0) a (in_MerchantReference req)")
    case (Inl er)
    then show thesis using eq that(1) d by simp
  next
    case (Inr vc)
    obtain v client where vc: "vc = (v, client)" by (rule prod.exhaust)
    show thesis
    proof (cases "OrderIDExistsForApp a (in_Reference req) (bs_db s0)")
      case True
      then show thesis using eq Inr vc that(1) d by simp
    next
      case False
      have "gr_Resolve (be_resolver e) (pd_routing (bs_db s)) a (readString raw ''merchant_reference'') ''dkpg'' = Inr v"
        "gr_DKPGClient (be_resolver e) v = Inr client"
        using Inr d(1) by (auto simp: resolveDKPGForMerchant_def vc m split: sum.splits)
      then show thesis using that(2) [OF Some, of v client req s0] eq Inr vc False d m by (simp add: req_def)
    qed
  qed
qed

lemma PullPaymentInitiate_ops:
  assumes "PullPaymentInitiate e a r s = (resp, s')"
  shows "ops a (bs_db s) (bs_db s')"
  using assms
proof (cases rule: PullPaymentInitiate_cases)
  case (2 raw v client req s0)
  show ?thesis using initiate_resolved_ops [OF 2(9)] 2(7) by simp
qed simp

end
