(* ===== verification/BusinessHistory.thy ===== *)
theory BusinessHistory
  imports BusinessLaws
begin

text \<open>
  Histories of the merchant payment API under one resolver, the invariant of their
  states, and the properties of the payment flows.  The routing tables may
  change between any two requests.
\<close>

section \<open>Steps and invariant\<close>

inductive business_step :: "gateway_resolver \<Rightarrow> string option \<Rightarrow> business_state \<Rightarrow> business_state \<Rightarrow> bool" where
  initiate: "be_resolver e = g \<Longrightarrow> PullPaymentInitiate e a r s = (resp, s') \<Longrightarrow> business_step g (Some a) s s'"
| confirm: "be_resolver e = g \<Longrightarrow> PullPaymentConfirm e a r s = (resp, s') \<Longrightarrow> business_step g (Some a) s s'"
| inquiry: "be_resolver e = g \<Longrightarrow> IntraInquiry e a r s = (resp, s') \<Longrightarrow> business_step g (Some a) s s'"
| same_day: "be_resolver e = g \<Longrightarrow> StatusSameDay e a r s = (resp, s') \<Longrightarrow> business_step g (Some a) s s'"
| later: "be_resolver e = g \<Longrightarrow> StatusLater e a r s = (resp, s') \<Longrightarrow> business_step g (Some a) s s'"
| intra: "be_resolver e = g \<Longrightarrow> StatusIntra e a r s = (resp, s') \<Longrightarrow> business_step g (Some a) s s'"
| routing: "routing_step (pd_routing (bs_db s)) rt \<Longrightarrow> business_step g None s (s\<lparr>bs_db := (bs_db s)\<lparr>pd_routing := rt\<rparr>\<rparr>)"

inductive_cases business_stepE: "business_step g a s s'"

text \<open>Every payment's recorded credential opens, and names the account the payment was opened for.\<close>

definition account_of :: "gateway_resolver \<Rightarrow> routing_db \<Rightarrow> string \<Rightarrow> string option" where
  "account_of g rt cid = map_option (\<lambda>v. gr_Value v ''beneficiary_account'') (okay (gr_ResolveCredential g rt cid))"

definition term_credential :: "(string \<times> string \<times> string \<times> string \<times> string \<times> int) \<times> int \<times> string \<times> string \<times> rat \<times> string \<Rightarrow> string" where
  "term_credential t = (case t of ((_, _, _, _, c, _), _) \<Rightarrow> c)"

definition term_account :: "(string \<times> string \<times> string \<times> string \<times> string \<times> int) \<times> int \<times> string \<times> string \<times> rat \<times> string \<Rightarrow> string" where
  "term_account t = (case t of (_, _, _, _, _, b) \<Rightarrow> b)"

lemma terms_fields [simp]:
  "term_credential (terms_of p) = ml_CredentialID p" "term_account (terms_of p) = pp_BeneficiaryAccount p"
  by (simp_all add: terms_of_def link_of_def term_credential_def term_account_def)

definition accounts_ok :: "gateway_resolver \<Rightarrow> payment_db \<Rightarrow> bool" where
  "accounts_ok g db \<longleftrightarrow> (\<forall>t \<in> terms_of ` set (pd_payments db). term_credential t \<noteq> [] \<longrightarrow>
     account_of g (pd_routing db) (term_credential t) = Some (term_account t))"

definition business_inv :: "gateway_resolver \<Rightarrow> business_state \<Rightarrow> bool" where
  "business_inv g s \<longleftrightarrow> payments_ok (bs_db s) \<and> routing_inv (pd_routing (bs_db s)) \<and> accounts_ok g (bs_db s)"

lemma account_of_step:
  "routing_inv rt \<Longrightarrow> routing_step rt rt' \<Longrightarrow> account_of g rt cid = Some b \<Longrightarrow> account_of g rt' cid = Some b"
  using ResolveCredential_step [of rt rt' g cid] by (auto simp: account_of_def gr_Value_def)

lemma accounts_ok_quiet:
  "quiet a db db' \<Longrightarrow> accounts_ok g db \<Longrightarrow> accounts_ok g db'"
  using ops_laws [of a db db'] by (simp add: quiet_def accounts_ok_def)

lemma accounts_ok_created:
  assumes c: "CreatePullPayment now (initiate_record a v req stan dt bank) db = (Inr (), db')"
    and v: "gr_Resolve g (pd_routing db) a ref ''dkpg'' = Inr v"
    and i: "routing_inv (pd_routing db)" "accounts_ok g db"
  shows "accounts_ok g db'"
proof -
  let ?c = "rg_Credential (rv_Routing v)"
  obtain p where p: "insert_link (pd_routing db) ''payment_transactions_app_order_id_uniq''
             ((a, in_Reference req) \<in> set (map payment_key (pd_payments db))) (initiate_record a v req stan dt bank) = Inr p"
      "db' = db\<lparr>pd_payments := pd_payments db @ [payment_row_of now (pd_next_id db) p], pd_next_id := pd_next_id db + 1\<rparr>"
    using c by (auto simp: CreatePullPayment_def initiate_record_def split: sum.splits)
  obtain w where w: "gr_ResolveCredential g (pd_routing db) (gc_ID ?c) = Inr w" "rv_Values w = rv_Values v"
    using recorded_settles [OF i(1) v rtranclp.rtrancl_refl] by blast
  have "uuid_of (pd_routing db) (gc_ID ?c) = Some (ml_CredentialID p)"
    using insert_link_Inr [OF p(1)] by (simp add: initiate_record_def)
  moreover obtain x where x: "ResolveActive a ref ''dkpg'' (pd_routing db) = Inr x" "rv_Routing v = x"
    using v by (auto simp: gr_Resolve_def gr_decrypt_def split: if_splits sum.splits option.splits)
  have "uuid_of (pd_routing db) (gc_ID ?c) = Some (gc_ID ?c)"
  proof -
    have "GetCredential (gc_ID ?c) (pd_routing db) = Inr ?c" using ResolveActive_GetCredential [OF i(1) x(1)] x(2) by simp
    then have "?c \<in> set (credentials (pd_routing db))"
      by (auto simp: GetCredential_def find_credential_def find_Some_iff split: option.splits)
    then show ?thesis using i(1) by (simp add: routing_inv_def canonical_def)
  qed
  ultimately have "ml_CredentialID p = gc_ID ?c" by simp
  moreover have "pp_BeneficiaryAccount p = gr_Value v ''beneficiary_account''"
  proof -
    obtain r c where "p = (initiate_record a v req stan dt bank)\<lparr>ml_RecipientID := r, ml_CredentialID := c\<rparr>"
      using insert_link_Inr [OF p(1)] by blast
    then show ?thesis by (simp add: initiate_record_def)
  qed
  ultimately have "account_of g (pd_routing db) (ml_CredentialID p) = Some (pp_BeneficiaryAccount p)"
    using w by (simp add: account_of_def gr_Value_def)
  then show ?thesis using i(2) by (simp add: p(2) accounts_ok_def)
qed

lemma initiate_accounts:
  assumes "PullPaymentInitiate e a r s = (resp, s')" "be_resolver e = g" "business_inv g s"
  shows "accounts_ok g (bs_db s')"
  using assms(1)
proof (cases rule: PullPaymentInitiate_cases)
  case 1
  then show ?thesis using assms(3) by (simp add: business_inv_def)
next
  case (2 raw v client req s0)
  show ?thesis
    using 2(9)
  proof (cases rule: initiate_resolved_cases)
    case 1
    then show ?thesis using assms(3) 2(7) by (simp add: business_inv_def)
  next
    case (2 rid stan dt bank db')
    have "accounts_ok g db'"
      using accounts_ok_created [OF 2(1)] assms(2,3) \<open>bs_db s0 = bs_db s\<close>
        \<open>gr_Resolve (be_resolver e) (pd_routing (bs_db s)) a (readString raw ''merchant_reference'') ''dkpg'' = Inr v\<close>
      by (auto simp: business_inv_def)
    then show ?thesis using accounts_ok_quiet [OF 2(2)] by simp
  qed
qed

lemma business_step_app:
  assumes "business_step g (Some a) s s'" "business_inv g s"
  shows "ops a (bs_db s) (bs_db s') \<and> accounts_ok g (bs_db s')"
  using assms(1)
proof (cases rule: business_step.cases)
  case (initiate e r resp)
  then show ?thesis using PullPaymentInitiate_ops initiate_accounts [OF _ _ assms(2)] by metis
next
  case (confirm e r resp)
  then have "quiet a (bs_db s) (bs_db s')" using PullPaymentConfirm_ops by metis
  then show ?thesis using quiet_ops accounts_ok_quiet assms(2) unfolding business_inv_def by metis
next
  case (inquiry e r resp)
  then have "quiet a (bs_db s) (bs_db s')" using IntraInquiry_ops by metis
  then show ?thesis using quiet_ops accounts_ok_quiet assms(2) unfolding business_inv_def by metis
next
  case (same_day e r resp)
  then show ?thesis using status_handlers_db(1) [OF same_day(2)] assms(2) by (simp add: business_inv_def)
next
  case (later e r resp)
  then show ?thesis using status_handlers_db(2) [OF later(2)] assms(2) by (simp add: business_inv_def)
next
  case (intra e r resp)
  then show ?thesis using status_handlers_db(3) [OF intra(2)] assms(2) by (simp add: business_inv_def)
qed

lemma payments_ok_routing:
  assumes "payments_ok db" "routing_inv (pd_routing db)" "routing_step (pd_routing db) rt"
  shows "payments_ok (db\<lparr>pd_routing := rt\<rparr>)"
proof -
  have "credential_exists rt p" if "credential_exists (pd_routing db) p" for p :: payment_row
    using credential_exists_step [OF assms(2,3) that] .
  then show ?thesis using assms(1) by (simp add: payments_ok_def)
qed

lemma business_inv_routing:
  assumes "business_inv g s" "routing_step (pd_routing (bs_db s)) rt"
  shows "business_inv g (s\<lparr>bs_db := (bs_db s)\<lparr>pd_routing := rt\<rparr>\<rparr>)"
proof -
  have "accounts_ok g ((bs_db s)\<lparr>pd_routing := rt\<rparr>)"
    using assms account_of_step [OF _ assms(2)] by (simp add: business_inv_def accounts_ok_def)
  then show ?thesis
    using assms payments_ok_routing [OF _ _ assms(2)] routing_step_inv [OF assms(2)] by (simp add: business_inv_def)
qed

interpretation bank: ledger "business_inv g" "business_step g" "\<lambda>s. pd_payments (bs_db s)" ml_ExternalAppID terms_of for g
proof unfold_locales
  fix s a s' assume i: "business_inv g s" and st: "business_step g a s s'"
  show "business_inv g s'"
  proof (cases a)
    case None
    from st [unfolded None] show ?thesis by (cases rule: business_step.cases) (use i business_inv_routing in simp)
  next
    case (Some x)
    note l = business_step_app [OF st [unfolded Some] i]
    then show ?thesis using i ops_laws [of x "bs_db s" "bs_db s'"] by (simp add: business_inv_def)
  qed
  show "terms_of ` set (pd_payments (bs_db s)) \<subseteq> terms_of ` set (pd_payments (bs_db s'))"
  proof (cases a)
    case None
    from st [unfolded None] show ?thesis by (cases rule: business_step.cases) auto
  next
    case (Some x)
    then show ?thesis using ops_laws [of x "bs_db s" "bs_db s'"] business_step_app [OF st [unfolded Some] i] by simp
  qed
  fix b assume "a \<noteq> Some b"
  then show "filter (\<lambda>r. ml_ExternalAppID r = b) (pd_payments (bs_db s')) = filter (\<lambda>r. ml_ExternalAppID r = b) (pd_payments (bs_db s))"
  proof (cases a)
    case None
    from st [unfolded None] show ?thesis by (cases rule: business_step.cases) auto
  next
    case (Some x)
    then show ?thesis using ops_laws [of x "bs_db s" "bs_db s'" b] business_step_app [OF st [unfolded Some] i] \<open>a \<noteq> Some b\<close> by simp
  qed
qed

end
