(* ===== verification/BusinessDemo.thy ===== *)
theory BusinessDemo
  imports BusinessHistory
begin

text \<open>
  The example the witnesses of the payment API run on: the app A with the merchant
  reference hotel, whose stored bank configuration is sealed under the toy
  cipher, and a bank that cannot be reached.
\<close>

definition pay_values :: json where
  "pay_values = JObj [(''beneficiary_account'', JStr ''100''), (''beneficiary_bank'', JStr ''1010''), (''beneficiary_name'', JStr ''Hotel'')]"

definition pay_sealed :: json where
  "pay_sealed = JObj [(''version'', jint encryptionVersion), (''nonce'', JStr (StdEncode ''abcdefghijkl'')),
     (''ciphertext'', JStr (StdEncode (Seal toy_aead ''abcdefghijkl'' (writeCanonical pay_values) ''c1:r1:dkpg:1'')))]"

definition pay_credential :: GatewayCredentialConfiguration where
  "pay_credential = demo_credential\<lparr>gc_EncryptedCredentials := pay_sealed\<rparr>"

definition pay_routing :: routing_db where
  "pay_routing = demo_db\<lparr>credentials := [pay_credential]\<rparr>"

definition pay_resolver :: gateway_resolver where
  "pay_resolver = \<lparr> gr_Cipher = Some toy_aead,
     gr_Cfg = (Load id [] (\<lambda>_. []))\<lparr>DKPGBaseURL := ''https://dk'', DKPGAPIKey := ''k'', DKPGUsername := ''u'',
       DKPGPassword := ''p'', DKPGClientID := ''id'', DKPGClientSecret := ''s'', DKPGSourceApp := ''SRC1''\<rparr> \<rparr>"

definition pay_env :: business_env where
  "pay_env = \<lparr> be_resolver = pay_resolver,
     be_world = \<lparr> dw_http = (\<lambda>_. Inl ''down''), dw_now = 7, dw_parse_key = Inr, dw_sign = (\<lambda>_ _. Inr ''sig'') \<rparr> \<rparr>"

definition pay_start :: business_state where
  "pay_start = \<lparr> bs_db = \<lparr> pd_routing = pay_routing, pd_payments = [], pd_inquiries = [], pd_next_id = 1 \<rparr>,
     bs_seq = 0, bs_logs = [], bs_sent = [] \<rparr>"

definition pay_body :: "(string \<times> json) list" where
  "pay_body = [(''merchant_reference'', JStr ''hotel''), (''order_id'', JStr ''o1''), (''amount'', JNum 5),
     (''account_number'', JStr ''666''), (''stan_number'', JStr ''S1'')]"

definition pay_request :: request where
  "pay_request = \<lparr> r_method = ''POST'', r_path = ''/api/business/pull/initiate'', r_protocol = ''https'', r_hostname = ''gw'',
     r_ip = ''1.2.3.4'', r_header = (\<lambda>_. []), r_cookie = (\<lambda>_. []), r_body = Some (JObj pay_body) \<rparr>"

lemma pay_inv: "routing_inv pay_routing"
proof -
  have "versions key pay_routing = versions key demo_db" for key
    by (simp add: pay_routing_def pay_credential_def versions_def demo_db_def gc_key_def)
  moreover have "routing_inv demo_db" by (rule demo_inv)
  ultimately show ?thesis
    unfolding routing_inv_def routing_ok_def canonical_def
    by (simp add: pay_routing_def pay_credential_def) (simp add: demo_db_def gc_key_def gc_active_def)
qed

lemma pay_business_inv: "business_inv g pay_start"
  using pay_inv by (simp add: business_inv_def pay_start_def payments_ok_def accounts_ok_def)

lemma pay_credential_simps [simp]:
  "gc_ID pay_credential = ''c1''" "gc_RecipientID pay_credential = ''r1''" "gc_Provider pay_credential = ''dkpg''"
  "gc_Version pay_credential = 1" "gc_Status pay_credential = ''active''" "gc_EncryptedCredentials pay_credential = pay_sealed"
  by (simp_all add: pay_credential_def demo_credential_def)

lemma pay_decrypt: "Decrypt (Some toy_aead) (Some pay_sealed) ''c1:r1:dkpg:1'' = Inr (writeCanonical pay_values)"
proof -
  have "Open toy_aead ''abcdefghijkl'' (Seal toy_aead ''abcdefghijkl'' (writeCanonical pay_values) ''c1:r1:dkpg:1'') ''c1:r1:dkpg:1''
      = Some (writeCanonical pay_values)"
    using toy_aead_law by (simp add: aead_law_def NonceSize_def)
  then show ?thesis by (simp add: pay_sealed_def Decrypt_def decode_envelope_Encrypt NonceSize_def)
qed

lemma pay_unmarshal: "Unmarshal (writeCanonical pay_values) = Some pay_values"
  by code_simp

definition pay_gateway :: "string \<Rightarrow> string" where
  "pay_gateway = (\<lambda>k. case jget [(''beneficiary_account'', JStr ''100''), (''beneficiary_bank'', JStr ''1010''), (''beneficiary_name'', JStr ''Hotel'')] k
     of Some (JStr s) \<Rightarrow> s | _ \<Rightarrow> [])"

lemma pay_string_map: "string_map (Some pay_values) = Some pay_gateway"
  by (simp add: string_map_def pay_values_def pay_gateway_def)

lemma pay_opens:
  assumes "rg_Credential x = pay_credential"
  shows "gr_decrypt pay_resolver x = Inr \<lparr> rv_Routing = x, rv_Values = pay_gateway \<rparr>"
proof -
  have "gr_additional_data pay_credential = ''c1:r1:dkpg:1''"
    by (simp add: gr_additional_data_def CredentialAdditionalData_def int_text_def nat_text.simps digit_char_def digits_def
        TrimSpace_def is_space_def)
  then show ?thesis
    by (simp add: gr_decrypt_def assms pay_resolver_def pay_decrypt pay_unmarshal pay_string_map)
qed

definition pay_route :: ResolvedGatewayConfiguration where
  "pay_route = \<lparr> rg_ExternalAppID = ''A'', rg_ExternalMerchantReference = ''hotel'', rg_RecipientID = ''r1'',
     rg_RecipientName = ''Hotel'', rg_Credential = pay_credential \<rparr>"

definition pay_resolved :: ResolvedGateway where
  "pay_resolved = \<lparr> rv_Routing = pay_route, rv_Values = pay_gateway \<rparr>"

lemma pay_resolves: "gr_Resolve pay_resolver pay_routing ''A'' ''hotel'' ''dkpg'' = Inr pay_resolved"
proof -
  have "ResolveActive ''A'' ''hotel'' ''dkpg'' pay_routing = Inr pay_route"
    by (simp add: ResolveActive_def routes_def pay_routing_def demo_db_def pay_route_def gc_active_def TrimSpace_def is_space_def)
  moreover have "gr_Cipher pay_resolver \<noteq> None" by (simp add: pay_resolver_def)
  ultimately show ?thesis
    using pay_opens [of pay_route] by (simp add: gr_Resolve_def pay_route_def pay_resolved_def TrimSpace_def is_space_def)
qed

lemma pay_values_at [simp]:
  "gr_Value pay_resolved ''beneficiary_account'' = ''100''" "gr_Value pay_resolved ''beneficiary_name'' = ''Hotel''"
  "gr_Value pay_resolved ''beneficiary_bank'' = ''1010''"
  by (simp_all add: gr_Value_def pay_resolved_def pay_gateway_def jget_def TrimSpace_def is_space_def)

lemma pay_client: "\<exists>c. gr_DKPGClient pay_resolver v = Inr c" if "rg_Credential (rv_Routing v) = pay_credential" "rv_Values v = pay_gateway"
proof -
  have "requireEnv [''https://dk'', ''k'', ''u'', ''p'', ''id'', ''s'', ''SRC1''] = None"
    by (simp add: requireEnv_def TrimSpace_def is_space_def)
  moreover have "first_blank v [''beneficiary_account'', ''beneficiary_name'', ''beneficiary_bank''] = None"
    by (simp add: first_blank_def that(2) pay_gateway_def jget_def TrimSpace_def is_space_def)
  ultimately show ?thesis
    by (simp add: gr_DKPGClient_def that(1) pay_resolver_def)
qed

lemma pay_fields:
  "in_Reference (read_initiate pay_body) = ''o1''" "in_MerchantReference (read_initiate pay_body) = ''hotel''"
  "readString pay_body ''stan_number'' = ''S1''" "readString pay_body ''merchant_reference'' = ''hotel''"
  by code_simp+

text \<open>The initiation reaches the bank: the payment is stored and its payload sent.\<close>

lemma pay_initiates:
  obtains resp s' where "PullPaymentInitiate pay_env ''A'' pay_request pay_start = (resp, s')" "bs_sent s' \<noteq> bs_sent pay_start"
proof -
  have b: "BodyParser pay_request = Some pay_body" by (simp add: BodyParser_def pay_request_def)
  obtain client where cl: "gr_DKPGClient pay_resolver pay_resolved = Inr client"
    using pay_client [of pay_resolved] by (auto simp: pay_resolved_def pay_route_def)
  have m: "resolveDKPGForMerchant pay_env (bs_db pay_start) ''A'' ''hotel'' = Inr (pay_resolved, client)"
    using pay_resolves cl by (simp add: resolveDKPGForMerchant_def pay_env_def pay_start_def)
  have x: "\<not> OrderIDExistsForApp ''A'' ''o1'' (bs_db pay_start)"
    by (simp add: OrderIDExistsForApp_def pay_start_def)
  have i: "PullPaymentInitiate pay_env ''A'' pay_request pay_start
      = initiate_resolved pay_env ''A'' pay_resolved client (read_initiate pay_body) pay_body pay_start"
    using m x by (simp add: PullPaymentInitiate_def b pay_fields Let_def)
  obtain resp s' where r: "initiate_resolved pay_env ''A'' pay_resolved client (read_initiate pay_body) pay_body pay_start = (resp, s')"
    by (rule prod.exhaust)
  obtain rid s1 where n: "next_request_id pay_env pay_start = (rid, s1)" by (rule prod.exhaust)
  define bank where "bank = firstNonEmpty [in_RemitterBankCode (read_initiate pay_body), ''1010'']"
  define stan where "stan = firstNonEmpty [''S1'', GenerateSTAN (be_now pay_env) (gr_SourceApp (be_resolver pay_env))]"
  define dt where "dt = transaction_time (be_now pay_env) pay_body"
  let ?q = "initiate_record ''A'' pay_resolved (read_initiate pay_body) stan dt bank"
  have bank: "bank \<noteq> []" by (simp add: bank_def TrimSpace_def is_space_def)
  have "insert_link (pd_routing (bs_db pay_start)) t False ?q = Inr ?q" for t
  proof -
    have "validateMerchantRouting ?q = None"
      by (simp add: validateMerchantRouting_def initiate_record_def pay_fields pay_resolved_def pay_route_def blank_def TrimSpace_def is_space_def)
    moreover have "cast_link (pd_routing (bs_db pay_start)) ?q = Some ?q"
      by (simp add: cast_link_def initiate_record_def pay_resolved_def pay_route_def pay_start_def pay_routing_def demo_db_def demo_uuid_def)
    moreover have "credential_exists (pd_routing (bs_db pay_start)) ?q"
      by (simp add: credential_exists_def links_credential_def initiate_record_def pay_resolved_def pay_route_def pay_start_def pay_routing_def)
    ultimately show ?thesis by (simp add: insert_link_def)
  qed
  moreover have "pd_payments (bs_db pay_start) = []" by (simp add: pay_start_def)
  ultimately obtain db' where c: "CreatePullPayment (be_now pay_env) ?q (bs_db pay_start) = (Inr (), db')"
    by (simp add: CreatePullPayment_def initiate_record_def)
  have "initiate_send pay_env ''A'' client (initiate_payload (be_resolver pay_env) pay_resolved (read_initiate pay_body) rid stan dt bank pay_body)
      stan (in_Reference (read_initiate pay_body)) (s1\<lparr>bs_db := db'\<rparr>) = (resp, s')"
    using r n c bank next_request_id_rest [OF n]
    by (simp add: initiate_resolved_def Let_def bank_def [symmetric] stan_def [symmetric] dt_def [symmetric] pay_fields
        del: firstNonEmpty.simps)
  then have "bs_sent s' \<noteq> bs_sent pay_start"
    using initiate_send_sent next_request_id_rest [OF n] by fastforce
  then show thesis using that r i by simp
qed

text \<open>A stored payment with its OTP sent.\<close>

definition pay_row :: payment_row where
  "pay_row = \<lparr> ml_ExternalAppID = ''A'', ml_ExternalMerchantReference = ''hotel'', ml_RecipientID = ''r1'',
     ml_GatewayProvider = ''dkpg'', ml_CredentialID = ''c1'', ml_CredentialVersion = 1, ml_RoutingMode = ''merchant'',
     pp_OrderID = ''o1'', pp_InquiryID = [], pp_STAN = ''S1'', pp_BFSTxnID = ''T9'', pp_BFSRequestID = [],
     pp_BFSOrderNo = ''N1'', pp_Amount = 5, pp_TransactionFee = 0, pp_RemitterAccount = [], pp_RemitterName = [],
     pp_RemitterPhone = [], pp_EmailID = [], pp_RemitterBank = ''1010'', pp_BeneficiaryAccount = ''100'',
     pp_TransactionDatetime = 5, pp_PaymentDesc = [], pp_Currency = ''BTN'', pp_Status = ''OTP_SENT'', pp_ErrorCode = [],
     pp_ErrorMessage = [], pp_CreatedAt = 5, pt_ID = 1, pt_UpdatedAt = 5, pt_CompletedAt = None \<rparr>"

definition pay_paid :: business_state where
  "pay_paid = pay_start\<lparr>bs_db := \<lparr> pd_routing = pay_routing, pd_payments = [pay_row], pd_inquiries = [], pd_next_id = 2 \<rparr>\<rparr>"

definition pay_ask :: "(string \<times> json) list \<Rightarrow> request" where
  "pay_ask doc = pay_request\<lparr>r_body := Some (JObj doc)\<rparr>"

definition confirm_body :: "(string \<times> json) list" where
  "confirm_body = [(''transaction_id'', JStr ''S1''), (''otp'', JStr ''123456'')]"

definition status_body :: "(string \<times> json) list" where
  "status_body = [(''order_id'', JStr ''o1''), (''transaction_date'', JStr ''2026-01-02'')]"

lemma pay_row_simps [simp]:
  "ml_ExternalAppID pay_row = ''A''" "ml_CredentialID pay_row = ''c1''" "pp_STAN pay_row = ''S1''" "pp_OrderID pay_row = ''o1''"
  "pp_BFSTxnID pay_row = ''T9''" "pp_BFSOrderNo pay_row = ''N1''" "pp_BeneficiaryAccount pay_row = ''100''"
  "payment_key pay_row = (''A'', ''o1'')" "pt_ID pay_row = 1"
  by (simp_all add: pay_row_def payment_key_def)

lemma pay_recorded: "\<exists>w. gr_ResolveCredential pay_resolver pay_routing ''c1'' = Inr w
    \<and> rg_Credential (rv_Routing w) = pay_credential \<and> rv_Values w = pay_gateway"
proof -
  have "GetCredential ''c1'' pay_routing = Inr pay_credential"
    by (simp add: GetCredential_def pay_routing_def find_credential_def demo_db_def demo_uuid_def TrimSpace_def is_space_def)
  moreover have "gr_Cipher pay_resolver \<noteq> None" by (simp add: pay_resolver_def)
  ultimately show ?thesis by (simp add: gr_ResolveCredential_def pay_opens TrimSpace_def is_space_def)
qed

lemma pay_paid_inv: "business_inv pay_resolver pay_paid"
proof -
  have "credential_exists pay_routing pay_row"
    by (simp add: credential_exists_def links_credential_def pay_routing_def pay_row_def)
  moreover have "account_of pay_resolver pay_routing ''c1'' = Some ''100''"
    using pay_recorded by (auto simp: account_of_def gr_Value_def pay_gateway_def jget_def TrimSpace_def is_space_def)
  ultimately show ?thesis
    using pay_inv by (simp add: business_inv_def pay_paid_def payments_ok_def accounts_ok_def)
qed

lemma pay_confirms:
  obtains resp s' where "PullPaymentConfirm pay_env ''A'' (pay_ask confirm_body) pay_paid = (resp, s')" "s' \<noteq> pay_paid"
proof -
  have b: "BodyParser (pay_ask confirm_body) = Some confirm_body" by (simp add: BodyParser_def pay_ask_def pay_request_def)
  have f: "co_Reference (read_confirm confirm_body) = ''S1''" "co_OTP (read_confirm confirm_body) = ''123456''"
    by code_simp+
  have db: "pd_payments (bs_db pay_paid) = [pay_row]" "pd_routing (bs_db pay_paid) = pay_routing" by (simp_all add: pay_paid_def)
  have g: "GetTransactionRoutingBySTAN ''A'' ''S1'' (bs_db pay_paid) = Inr (routing_of pay_row)"
    by (simp add: GetTransactionRoutingBySTAN_def getTransactionRouting_def newest_def db latest_single first_row_def
        TrimSpace_def is_space_def)
  obtain w client where w: "gr_ResolveCredential pay_resolver pay_routing ''c1'' = Inr w" "gr_DKPGClient pay_resolver w = Inr client"
    using pay_recorded pay_client by metis
  have c: "resolveDKPGForRecordedCredential pay_env (bs_db pay_paid) ''c1'' = Inr client"
    by (simp add: resolveDKPGForRecordedCredential_def db pay_env_def w)
  have "PullPaymentConfirm pay_env ''A'' (pay_ask confirm_body) pay_paid
      = confirm_send pay_env ''A'' client (read_confirm confirm_body) ''T9'' ''N1'' pay_paid"
    using g c by (simp add: PullPaymentConfirm_def b Let_def f routing_of_def)
  moreover obtain resp s' where r: "confirm_send pay_env ''A'' client (read_confirm confirm_body) ''T9'' ''N1'' pay_paid = (resp, s')"
    by (rule prod.exhaust)
  moreover have "bs_sent s' \<noteq> bs_sent pay_paid"
  proof -
    obtain rid s1 where n: "next_request_id pay_env pay_paid = (rid, s1)" by (rule prod.exhaust)
    obtain x s2 where a: "ask_bank DebitRequestPullPayment ''DebitRequestPullPayment'' ''A'' pay_env client
        (confirm_payload rid ''T9'' ''123456'' ''N1'') s1 = (x, s2)" by (rule prod.exhaust)
    have "bs_sent s' = bs_sent s2"
      using r n a f by (cases x) (auto simp: confirm_send_def confirm_answered_def Let_def split: prod.splits)
    then show ?thesis using ask_bank_sent [OF a] next_request_id_rest [OF n] by simp
  qed
  ultimately show thesis using that by metis
qed

text \<open>After the initiation the table holds this payment only, opened with the payload that was sent.\<close>

lemma pay_stored:
  assumes "PullPaymentInitiate pay_env ''A'' pay_request pay_start = (resp, s')" "bs_sent s' \<noteq> bs_sent pay_start"
  obtains p payload where "p \<in> set (pd_payments (bs_db s'))" "pd_routing (bs_db s') = pay_routing"
    "bs_sent s' = [(''A'', ''AccountAuthPullPayment'', payload)]" "jget payload ''account_number'' = Some (JStr ''100'')"
    "\<forall>q \<in> set (pd_payments (bs_db s')). ml_ExternalAppID q = ''A'' \<and> pp_OrderID q = ''o1'' \<and> pp_STAN q = ''S1'' \<and> ml_CredentialID q = ''c1''"
  using assms(1)
proof (cases rule: PullPaymentInitiate_cases)
  case 1
  then show thesis using assms(2) by simp
next
  case (2 raw v client req s0)
  note s0 = 2(7,8)
  have st: "bs_sent pay_start = []" "pd_payments (bs_db pay_start) = []" "pd_routing (bs_db pay_start) = pay_routing"
    by (simp_all add: pay_start_def)
  have raw: "raw = pay_body" using 2(1) by (simp add: BodyParser_def pay_request_def)
  then have v: "v = pay_resolved" using 2(2) pay_resolves by (simp add: pay_fields pay_env_def st)
  have ref: "in_Reference req = ''o1''" using 2(4) raw by (simp add: pay_fields)
  show thesis using 2(9)
  proof (cases rule: initiate_resolved_cases)
    case 1
    then show thesis using assms(2) s0 by simp
  next
    case (2 rid stan dt bank db')
    obtain p where p: "insert_link pay_routing ''payment_transactions_app_order_id_uniq'' False (initiate_record ''A'' v req stan dt bank) = Inr p"
        "pd_payments db' = [payment_row_of (be_now pay_env) (pd_next_id (bs_db pay_start)) p]" "pd_routing db' = pay_routing"
      using 2(1) s0(1) st by (auto simp: CreatePullPayment_def initiate_record_def split: sum.splits)
    have cid: "ml_CredentialID p = ''c1''"
      using insert_link_Inr [OF p(1)] by (simp add: initiate_record_def v pay_resolved_def pay_route_def pay_routing_def demo_db_def demo_uuid_def)
    have pe: "ml_ExternalAppID p = ''A''" "pp_OrderID p = ''o1''" "pp_STAN p = stan"
      using insert_link_Inr [OF p(1)] ref by (auto simp: initiate_record_def)
    have t: "terms_of ` set (pd_payments (bs_db s')) = {terms_of (payment_row_of (be_now pay_env) (pd_next_id (bs_db pay_start)) p)}"
      using 2(2) p(2) by (simp add: quiet_def)
    then obtain q where q: "q \<in> set (pd_payments (bs_db s'))" by force
    have "ml_ExternalAppID q = ''A'' \<and> pp_OrderID q = ''o1'' \<and> pp_STAN q = stan \<and> ml_CredentialID q = ''c1''"
      if "q \<in> set (pd_payments (bs_db s'))" for q
    proof -
      have "terms_of q = terms_of (payment_row_of (be_now pay_env) (pd_next_id (bs_db pay_start)) p)" using t that by blast
      then show ?thesis using pe cid by (simp add: terms_of_def link_of_def)
    qed
    moreover have "pd_routing (bs_db s') = pay_routing" using ops_laws [OF quiet_ops [OF 2(2)]] p(3) by simp
    moreover have "stan = ''S1''" using 2(4) by (simp add: raw pay_fields TrimSpace_def is_space_def)
    moreover have "bs_sent s' = [(''A'', ''AccountAuthPullPayment'', initiate_payload (be_resolver pay_env) v req rid stan dt bank raw)]"
      using 2(3) s0(2) st(1) by simp
    moreover have "jget (initiate_payload (be_resolver pay_env) v req rid stan dt bank raw) ''account_number'' = Some (JStr ''100'')"
      by (simp add: initiate_payload_server_fields v)
    ultimately show thesis using that [OF q] by blast
  qed
qed

text \<open>A status query about the payment reaches the bank.\<close>

lemma pay_asks_status:
  assumes "p \<in> set (pd_payments (bs_db s))" "pd_routing (bs_db s) = pay_routing"
    and "\<forall>q \<in> set (pd_payments (bs_db s)). ml_ExternalAppID q = ''A'' \<and> pp_OrderID q = ''o1'' \<and> pp_STAN q = ''S1'' \<and> ml_CredentialID q = ''c1''"
  obtains resp s' where "StatusIntra pay_env ''A'' (pay_ask status_body) s = (resp, s')" "bs_sent s' \<noteq> bs_sent s"
proof -
  have b: "BodyParser (pay_ask status_body) = Some status_body" by (simp add: BodyParser_def pay_ask_def pay_request_def)
  have f: "external_reference status_body = ''o1''" "readString status_body ''transaction_date'' = ''2026-01-02''" by code_simp+
  let ?P = "\<lambda>p. ml_ExternalAppID p = TrimSpace ''A'' \<and> pp_OrderID p = TrimSpace ''o1''"
  have t: "TrimSpace ''A'' = ''A''" "TrimSpace ''o1'' = ''o1''" by code_simp+
  then have "filter ?P (pd_payments (bs_db s)) \<noteq> []" using assms(1,3) by (auto simp: filter_empty_conv)
  then obtain q where q: "newest ?P (bs_db s) = Some q" unfolding newest_def using latest_ex by blast
  have qs: "pp_STAN q = ''S1''" "ml_CredentialID q = ''c1''" using newest_Some [OF q] assms(3) by auto
  have g: "GetTransactionRoutingByOrderID ''A'' ''o1'' (bs_db s) = Inr (routing_of q)"
    by (simp add: GetTransactionRoutingByOrderID_def getTransactionRouting_def q first_row_def)
  have sr: "status_routing tr_STAN pp_STAN ''reference_no'' ''A'' ''o1'' ref (bs_db s) = Inr (''S1'', routing_of q)" for ref
    by (simp add: status_routing_def g) (simp add: routing_of_def qs blank_def TrimSpace_def is_space_def)
  obtain w client where w: "gr_ResolveCredential pay_resolver pay_routing ''c1'' = Inr w" "gr_DKPGClient pay_resolver w = Inr client"
      "rg_Credential (rv_Routing w) = pay_credential" "rv_Values w = pay_gateway"
    using pay_recorded pay_client by metis
  have "gr_Value w ''beneficiary_account'' = ''100''"
    by (simp add: gr_Value_def w(4) pay_gateway_def jget_def TrimSpace_def is_space_def)
  then have c: "status_client pay_env (bs_db s) ''c1'' = Inr (client, ''100'')"
    using w by (simp add: status_client_def assms(2) pay_env_def)
  obtain rid s1 where n: "next_request_id pay_env s = (rid, s1)" by (rule prod.exhaust)
  obtain x s2 where a: "ask_bank IntraTransactionStatus ''IntraTransactionStatus'' ''A'' pay_env client
      [(''request_id'', JStr rid), (''reference_no'', JStr ''S1''), (''transaction_date'', JStr ''2026-01-02''),
       (''bene_account_number'', JStr ''100'')] s1 = (x, s2)"
    by (rule prod.exhaust)
  have "\<exists>resp. StatusIntra pay_env ''A'' (pay_ask status_body) s = (resp, s2)"
    using n a by (cases x) (simp_all add: StatusIntra_def b Let_def f sr status_ask_def c routing_of_def qs)
  then show thesis using that ask_bank_sent [OF a] next_request_id_rest [OF n] by auto
qed

end
