(* ===== verification/BusinessProps.thy ===== *)
theory BusinessProps
  imports BusinessDemo
begin

text \<open>Properties of the merchant payment API, with the example their witnesses run on.\<close>

section \<open>What each handler sends\<close>

definition initiated :: "business_state \<Rightarrow> (string \<times> json option) list" where
  "initiated s = [(a, jget p ''order_id''). (a, n, p) \<leftarrow> bs_sent s, n = ''AccountAuthPullPayment'']"

lemma confirm_send_cases:
  assumes "confirm_send e a client req txn ono s = (resp, s')"
  obtains rid and s2 :: business_state and st m c where
      "bs_sent s' = bs_sent s @ [(a, ''DebitRequestPullPayment'', confirm_payload rid txn (co_OTP req) ono)]"
      "bs_db s2 = bs_db s \<or> (\<exists>i o'. bs_db s2 = snd (UpdateConfirmMeta (be_now e) a (co_Reference req) i o' (bs_db s)))"
      "bs_db s' = snd (UpdatePullPaymentStatus (be_now e) a (co_Reference req) st c m (bs_db s2))"
      "st \<in> {''COMPLETED'', ''FAILED''}"
proof -
  obtain rid s1 where n: "next_request_id e s = (rid, s1)" by (rule prod.exhaust)
  note d1 = next_request_id_rest [OF n]
  obtain r s2 where b: "ask_bank DebitRequestPullPayment ''DebitRequestPullPayment'' a e client
      (confirm_payload rid txn (co_OTP req) ono) s1 = (r, s2)"
    by (rule prod.exhaust)
  have d: "bs_db s2 = bs_db s" "bs_sent s2 = bs_sent s @ [(a, ''DebitRequestPullPayment'', confirm_payload rid txn (co_OTP req) ono)]"
    using d1 ask_bank_db [OF b] ask_bank_sent [OF b] by simp_all
  show thesis
  proof (cases r)
    case (Inl err)
    then have "s' = on_db (UpdatePullPaymentStatus (be_now e) a (co_Reference req) ''FAILED'' [] err) s2"
      using assms b n by (simp add: confirm_send_def)
    then show thesis using that [of rid s2 "''FAILED''" "[]" err] d by simp
  next
    case (Inr res)
    obtain code msg where c: "ExtractResponseCode res = (code, msg)" by (rule prod.exhaust)
    let ?st = "if code \<noteq> [] \<and> code \<noteq> ''0000'' then ''FAILED'' else ''COMPLETED''"
    let ?s3 = "on_db (UpdateConfirmMeta (be_now e) a (co_Reference req) rid ono) s2"
    have "s' = on_db (UpdatePullPaymentStatus (be_now e) a (co_Reference req) ?st code msg) ?s3"
      using assms b n Inr by (simp add: confirm_send_def confirm_answered_def Let_def c)
    show thesis
    proof (rule that [of rid ?s3 ?st code msg])
      show "bs_sent s' = bs_sent s @ [(a, ''DebitRequestPullPayment'', confirm_payload rid txn (co_OTP req) ono)]"
        using \<open>s' = _\<close> d by simp
      show "bs_db ?s3 = bs_db s \<or> (\<exists>i o'. bs_db ?s3 = snd (UpdateConfirmMeta (be_now e) a (co_Reference req) i o' (bs_db s)))"
        using d by auto
      show "bs_db s' = snd (UpdatePullPaymentStatus (be_now e) a (co_Reference req) ?st code msg (bs_db ?s3))"
        using \<open>s' = _\<close> by simp
    qed simp
  qed
qed

lemma PullPaymentConfirm_cases:
  assumes "PullPaymentConfirm e a r s = (resp, s')"
  obtains "s' = s"
  | raw p client ono where "BodyParser r = Some raw" "p \<in> set (pd_payments (bs_db s))" "ml_ExternalAppID p = TrimSpace a"
      "pp_STAN p = TrimSpace (co_Reference (read_confirm raw))" "co_OTP (read_confirm raw) \<noteq> []"
      "resolveDKPGForRecordedCredential e (bs_db s) (ml_CredentialID p) = Inr client"
      "pp_BFSTxnID p \<noteq> []"
      "confirm_send e a client (read_confirm raw) (pp_BFSTxnID p) ono s = (resp, s')"
proof (cases "BodyParser r")
  case None
  then show thesis using assms that(1) by (simp add: PullPaymentConfirm_def)
next
  case (Some raw)
  let ?req = "read_confirm raw"
  show thesis
  proof (cases "co_Reference ?req = [] \<or> co_OTP ?req = []")
    case True
    then show thesis using assms Some that(1) by (auto simp: PullPaymentConfirm_def Let_def)
  next
    case False
    show thesis
    proof (cases "GetTransactionRoutingBySTAN a (co_Reference ?req) (bs_db s)")
      case (Inl er)
      then show thesis using assms Some False that(1) by (auto simp: PullPaymentConfirm_def Let_def)
    next
      case (Inr routing)
      obtain p where p: "p \<in> set (pd_payments (bs_db s))" "routing = routing_of p" "ml_ExternalAppID p = TrimSpace a"
          "pp_STAN p = TrimSpace (co_Reference ?req)"
        using getTransactionRouting_Inr [OF Inr [unfolded GetTransactionRoutingBySTAN_def]] by blast
      show thesis
        using assms Some False Inr that(1) that(2) [OF Some p(1,3,4)] p(2)
        by (auto simp: PullPaymentConfirm_def Let_def routing_of_def split: if_splits sum.splits)
    qed
  qed
qed

lemma confirm_initiated:
  assumes "PullPaymentConfirm e a r s = (resp, s')"
  shows "initiated s' = initiated s"
  using assms
proof (cases rule: PullPaymentConfirm_cases)
  case (2 raw p client ono)
  then show ?thesis by (elim confirm_send_cases) (simp add: initiated_def)
qed simp

lemma inquiry_initiated:
  assumes "IntraInquiry e a r s = (resp, s')"
  shows "initiated s' = initiated s"
proof -
  obtain rid s1 where n: "next_request_id e s = (rid, s1)" by (rule prod.exhaust)
  from assms n consider "s' = s"
    | client payload v req err s2 where "ask_bank BeneficiaryAccountInquiry ''BeneficiaryAccountInquiry'' a e client payload s1 = (Inl err, s2)"
        "s' = on_db (CreateIntraInquiry (be_now e) (inquiry_record a v req [] ''FAILED'' ''network_error'' err)) s2"
    | client payload v req res s2 where "ask_bank BeneficiaryAccountInquiry ''BeneficiaryAccountInquiry'' a e client payload s1 = (Inr res, s2)"
        "inquiry_answered e a v req res s2 = (resp, s')"
    by (auto simp: IntraInquiry_def Let_def split: if_splits sum.splits option.splits prod.splits)
  then show ?thesis
    using next_request_id_rest [OF n] inquiry_answered_sent
    by cases (auto simp: initiated_def dest!: ask_bank_sent)
qed

lemma status_ask_cases:
  assumes "status_ask op name a e cid query data s = (resp, s')"
  obtains "s' = s"
  | rid client bene where "status_client e (bs_db s) cid = Inr (client, bene)" "bs_db s' = bs_db s"
      "bs_sent s' = bs_sent s @ [(a, name, (''request_id'', JStr rid) # query @ [(''bene_account_number'', JStr bene)])]"
proof (cases "status_client e (bs_db s) cid")
  case (Inl resp)
  then show thesis using assms that(1) by (simp add: status_ask_def)
next
  case (Inr cb)
  obtain client bene where cb: "cb = (client, bene)" by (rule prod.exhaust)
  obtain rid s1 where n: "next_request_id e s = (rid, s1)" by (rule prod.exhaust)
  obtain r s2 where b: "ask_bank op name a e client ((''request_id'', JStr rid) # query @ [(''bene_account_number'', JStr bene)]) s1 = (r, s2)"
    by (rule prod.exhaust)
  have "s' = s2" using assms Inr cb n b by (auto simp: status_ask_def Let_def split: sum.splits)
  then show thesis
    using that(2) [of client bene rid] Inr cb next_request_id_rest [OF n] ask_bank_db [OF b] ask_bank_sent [OF b] by simp
qed

lemma status_initiated:
  "StatusSameDay e a r s = (resp, s') \<Longrightarrow> initiated s' = initiated s"
  "StatusLater e a r s = (resp, s') \<Longrightarrow> initiated s' = initiated s"
  "StatusIntra e a r s = (resp, s') \<Longrightarrow> initiated s' = initiated s"
  by (auto simp: StatusSameDay_def StatusLater_def StatusIntra_def Let_def initiated_def
      split: option.splits if_splits sum.splits prod.splits elim!: status_ask_cases)

lemma initiate_initiated:
  assumes "PullPaymentInitiate e a r s = (resp, s')"
  obtains "initiated s' = initiated s" "bs_db s' = bs_db s"
  | k where "initiated s' = initiated s @ [(a, Some (JStr k))]" "(a, k) \<notin> payment_key ` set (pd_payments (bs_db s))"
      "(a, k) \<in> payment_key ` set (pd_payments (bs_db s'))"
  using assms
proof (cases rule: PullPaymentInitiate_cases)
  case 1
  then show thesis using that(1) by (simp add: initiated_def)
next
  case (2 raw v client req s0)
  note s0 = 2(7,8)
  show thesis using 2(9)
  proof (cases rule: initiate_resolved_cases)
    case 1
    then show thesis using that(1) s0 by (simp add: initiated_def)
  next
    case (2 rid stan dt bank db')
    have c: "(a, in_Reference req) \<notin> payment_key ` set (pd_payments (bs_db s))" "(a, in_Reference req) \<in> payment_key ` set (pd_payments db')"
      using 2(1) s0(1) by (auto simp: CreatePullPayment_def initiate_record_def split: sum.splits dest!: insert_link_Inr)
    have "payment_key p = payment_key q" if "terms_of p = terms_of q" for p q
      using that by (simp add: terms_of_def link_of_def payment_key_def)
    then have "payment_key ` set (pd_payments db') \<subseteq> payment_key ` set (pd_payments (bs_db s'))"
      using 2(2) unfolding quiet_def by (smt (verit, ccfv_threshold) image_iff subsetI)
    with c show thesis
      using that(2) [of "in_Reference req"] 2(3) s0(2) by (auto simp: initiated_def initiate_payload_server_fields)
  qed
qed

lemma initiate_send_once:
  assumes "PullPaymentInitiate e a r s = (resp, s')" "bs_sent s' \<noteq> bs_sent s"
  shows "\<exists>payload. bs_sent s' = bs_sent s @ [(a, ''AccountAuthPullPayment'', payload)]"
  using assms(1)
proof (cases rule: PullPaymentInitiate_cases)
  case (2 raw v client req s0)
  show ?thesis using 2(9) by (cases rule: initiate_resolved_cases) (use 2(8) assms(2) in simp_all)
qed (use assms(2) in simp)

section \<open>Properties\<close>

text \<open>
  C1: money is only ever asked for the merchant that the request names.  When an
  initiation sends anything, it sends one payload; its account, account name
  and source app are those of the gateway and of the recipient's stored
  configuration, whatever the request says, and the payment is already stored
  under the caller's app with the same reference, account and credential.
\<close>
theorem initiate_pays_merchant:
  assumes "PullPaymentInitiate e a r s = (resp, s')" "bs_sent s' \<noteq> bs_sent s"
  shows "\<exists>raw v p payload. BodyParser r = Some raw
    \<and> gr_Resolve (be_resolver e) (pd_routing (bs_db s)) a (readString raw ''merchant_reference'') ''dkpg'' = Inr v
    \<and> bs_sent s' = bs_sent s @ [(a, ''AccountAuthPullPayment'', payload)]
    \<and> jget payload ''account_number'' = Some (JStr (gr_Value v ''beneficiary_account''))
    \<and> jget payload ''account_name'' = Some (JStr (gr_Value v ''beneficiary_name''))
    \<and> jget payload ''source_app'' = Some (JStr (gr_SourceApp (be_resolver e)))
    \<and> p \<in> set (pd_payments (bs_db s')) \<and> ml_ExternalAppID p = a
    \<and> jget payload ''order_id'' = Some (JStr (pp_OrderID p)) \<and> jget payload ''stan_number'' = Some (JStr (pp_STAN p))
    \<and> pp_BeneficiaryAccount p = gr_Value v ''beneficiary_account''
    \<and> uuid_of (pd_routing (bs_db s)) (gc_ID (rg_Credential (rv_Routing v))) = Some (ml_CredentialID p)"
  using assms(1)
proof (cases rule: PullPaymentInitiate_cases)
  case (2 raw v client req s0)
  note g = 2(1,2) and s0 = 2(7,8)
  show ?thesis using 2(9)
  proof (cases rule: initiate_resolved_cases)
    case (2 rid stan dt bank db')
    let ?q = "initiate_record a v req stan dt bank"
    obtain p where p: "insert_link (pd_routing (bs_db s)) ''payment_transactions_app_order_id_uniq''
             ((a, in_Reference req) \<in> set (map payment_key (pd_payments (bs_db s)))) ?q = Inr p"
        "db' = (bs_db s)\<lparr>pd_payments := pd_payments (bs_db s) @ [payment_row_of (be_now e) (pd_next_id (bs_db s)) p],
                pd_next_id := pd_next_id (bs_db s) + 1\<rparr>"
      using 2(1) s0(1) by (auto simp: CreatePullPayment_def initiate_record_def split: sum.splits)
    obtain i c where pe: "p = ?q\<lparr>ml_RecipientID := i, ml_CredentialID := c\<rparr>" using insert_link_Inr [OF p(1)] by blast
    let ?row = "payment_row_of (be_now e) (pd_next_id (bs_db s)) p"
    have "terms_of ?row \<in> terms_of ` set (pd_payments (bs_db s'))"
      using 2(2) by (simp add: quiet_def p(2))
    then obtain p' where p': "p' \<in> set (pd_payments (bs_db s'))" "terms_of p' = terms_of ?row" by auto
    have "ml_ExternalAppID p' = a" "pp_OrderID p' = in_Reference req" "pp_STAN p' = stan"
      "pp_BeneficiaryAccount p' = gr_Value v ''beneficiary_account''" "ml_CredentialID p' = ml_CredentialID p"
      using p'(2) pe by (simp_all add: terms_of_def link_of_def initiate_record_def)
    moreover have "uuid_of (pd_routing (bs_db s)) (gc_ID (rg_Credential (rv_Routing v))) = Some (ml_CredentialID p)"
      using insert_link_Inr [OF p(1)] by (simp add: initiate_record_def)
    ultimately show ?thesis
      using g p'(1) 2(3) s0(2) initiate_payload_server_fields [of "be_resolver e" v req rid stan dt bank raw] by auto
  qed (use assms(2) s0 in simp)
qed (use assms(2) in simp)

lemma initiated_keys:
  assumes "(\<lambda>s s'. \<exists>a. business_step g a s s')\<^sup>*\<^sup>* s s'" "business_inv g s" "bs_sent s = []"
  shows "distinct (initiated s') \<and> (\<forall>(a, k) \<in> set (initiated s'). \<exists>x. k = Some (JStr x) \<and> (a, x) \<in> payment_key ` set (pd_payments (bs_db s')))
    \<and> business_inv g s'"
  using assms(1)
proof (induction rule: rtranclp_induct)
  case base
  then show ?case using assms by (simp add: initiated_def)
next
  case (step y z)
  then obtain a where st: "business_step g a y z" by blast
  have key: "payment_key p = payment_key q" if "terms_of p = terms_of q" for p q
    using that by (simp add: terms_of_def link_of_def payment_key_def)
  have mono: "payment_key ` set (pd_payments (bs_db y)) \<subseteq> payment_key ` set (pd_payments (bs_db z))"
  proof
    fix k assume "k \<in> payment_key ` set (pd_payments (bs_db y))"
    then obtain p where p: "p \<in> set (pd_payments (bs_db y))" "k = payment_key p" by blast
    then have "terms_of p \<in> terms_of ` set (pd_payments (bs_db z))" using bank.kept [OF _ st] step.IH by blast
    then obtain q where "q \<in> set (pd_payments (bs_db z))" "terms_of p = terms_of q" by blast
    then show "k \<in> payment_key ` set (pd_payments (bs_db z))" using key p(2) by blast
  qed
  have inv: "business_inv g z" using bank.inv_step [OF _ st] step.IH by blast
  have quiet: ?case if "initiated z = initiated y" using that step.IH mono inv by fastforce
  show ?case using st
  proof (cases rule: business_step.cases)
    case (initiate e a r resp)
    show ?thesis using initiate(3)
    proof (cases rule: initiate_initiated)
      case 1
      then show ?thesis using quiet by simp
    next
      case (2 k)
      have "(a, Some (JStr k)) \<notin> set (initiated y)" using step.IH 2(2) by auto
      then have "distinct (initiated z)" using step.IH 2(1) by simp
      moreover have "\<forall>(a, k) \<in> set (initiated z). \<exists>x. k = Some (JStr x) \<and> (a, x) \<in> payment_key ` set (pd_payments (bs_db z))"
        using step.IH 2(1,3) mono by fastforce
      ultimately show ?thesis using inv by blast
    qed
  next
    case (routing rt)
    then show ?thesis using quiet by (simp add: initiated_def)
  next
    case (confirm e a r resp)
    show ?thesis by (rule quiet) (rule confirm_initiated [OF confirm(3)])
  next
    case (inquiry e a r resp)
    show ?thesis by (rule quiet) (rule inquiry_initiated [OF inquiry(3)])
  next
    case (same_day e a r resp)
    show ?thesis by (rule quiet) (rule status_initiated(1) [OF same_day(3)])
  next
    case (later e a r resp)
    show ?thesis by (rule quiet) (rule status_initiated(2) [OF later(3)])
  next
    case (intra e a r resp)
    show ?thesis by (rule quiet) (rule status_initiated(3) [OF intra(3)])
  qed
qed

text \<open>
  C2: a reference goes to the bank at most once per app.  In every history, rotations
  and failures included, no two initiations of an app sent the same order
  id, and each one sent belongs to a stored payment of the app.
\<close>
theorem reference_sent_once:
  assumes "(\<lambda>s s'. \<exists>a. business_step g a s s')\<^sup>*\<^sup>* s s'" "business_inv g s" "bs_sent s = []"
  shows "distinct (initiated s') \<and> (\<forall>(a, k) \<in> set (initiated s').
      \<exists>x. k = Some (JStr x) \<and> (a, x) \<in> payment_key ` set (pd_payments (bs_db s')))"
  using initiated_keys [OF assms] by blast

text \<open>
  C12: tenants are isolated.  Whatever the other apps do, and however the routing tables
  change, the payments of an app stay exactly as they are.
\<close>
theorem tenants_isolated:
  assumes "(\<lambda>s s'. \<exists>a. a \<noteq> Some b \<and> business_step g a s s')\<^sup>*\<^sup>* s s'" "business_inv g s"
  shows "filter (\<lambda>p. ml_ExternalAppID p = b) (pd_payments (bs_db s')) = filter (\<lambda>p. ml_ExternalAppID p = b) (pd_payments (bs_db s))"
  by (rule bank.isolation [OF assms [folded bank.history_def [of g "\<lambda>a. a \<noteq> Some b"]]])

text \<open>
  C19: the terms of a payment are fixed.  No history loses a payment or changes
  its tenant, merchant, recipient, credential, order id, STAN, amount or
  beneficiary account.
\<close>
theorem payment_terms_fixed:
  assumes "(\<lambda>s s'. \<exists>a. business_step g a s s')\<^sup>*\<^sup>* s s'" "business_inv g s" "p \<in> set (pd_payments (bs_db s))"
  shows "\<exists>p' \<in> set (pd_payments (bs_db s')). terms_of p' = terms_of p"
proof -
  have "bank.history g (\<lambda>_. True) s s'" using assms(1) by (simp add: bank.history_def)
  then show ?thesis by (rule bank.persistence [OF _ assms(2,3)])
qed

lemma updated_row:
  assumes "q \<in> set (pd_payments (snd (update_payments P f db)))"
  shows "\<exists>p. q = (if P p then f p else p)"
proof -
  have "pd_payments (snd (update_payments P f db)) = map (\<lambda>p. if P p then f p else p) (pd_payments db)"
    by (simp add: update_payments_def)
  then have "q \<in> (\<lambda>p. if P p then f p else p) ` set (pd_payments db)" using assms by (simp only: set_map)
  then show ?thesis by (simp only: image_iff) blast
qed

lemma updated_status:
  assumes "q \<in> set (pd_payments (snd (UpdatePullPaymentStatus now a stan st c m db)))" "at_stan a stan q"
    "st \<in> {''COMPLETED'', ''FAILED''}"
  shows "pp_Status q = st \<and> pt_CompletedAt q = Some now"
proof -
  let ?f = "\<lambda>p. p\<lparr>pp_Status := st, pp_ErrorCode := c, pp_ErrorMessage := m, pt_UpdatedAt := now,
       pt_CompletedAt := (if st \<in> {''COMPLETED'', ''FAILED''} then Some now else pt_CompletedAt p)\<rparr>"
  obtain p where q: "q = (if at_stan a stan p then ?f p else p)"
    using updated_row [OF assms(1) [unfolded UpdatePullPaymentStatus_def]] by blast
  show ?thesis
  proof (cases "at_stan a stan p")
    case True
    then show ?thesis using q assms(3) by simp
  next
    case False
    then show ?thesis using q assms(2) by simp
  qed
qed

text \<open>
  C3: a confirmation concerns a payment of the caller's own app.  When the handler
  changes anything, the app has a payment with the given STAN and a bank
  transaction id; that id is what goes to the bank, through the client of the
  credential recorded with the payment, and afterwards every payment of the app
  with that STAN is COMPLETED or FAILED, with the time of completion.
\<close>
theorem confirm_outcome:
  assumes "PullPaymentConfirm e a r s = (resp, s')" "s' \<noteq> s"
  shows "\<exists>raw p client payload. BodyParser r = Some raw \<and> p \<in> set (pd_payments (bs_db s))
    \<and> ml_ExternalAppID p = TrimSpace a \<and> pp_STAN p = co_Reference (read_confirm raw)
    \<and> resolveDKPGForRecordedCredential e (bs_db s) (ml_CredentialID p) = Inr client
    \<and> bs_sent s' = bs_sent s @ [(a, ''DebitRequestPullPayment'', payload)]
    \<and> jget payload ''bfs_TxnId'' = Some (JStr (pp_BFSTxnID p)) \<and> pp_BFSTxnID p \<noteq> []
    \<and> (\<forall>q \<in> set (pd_payments (bs_db s')). at_stan a (pp_STAN p) q \<longrightarrow>
         pp_Status q \<in> {''COMPLETED'', ''FAILED''} \<and> pt_CompletedAt q = Some (be_now e))"
  using assms(1)
proof (cases rule: PullPaymentConfirm_cases)
  case (2 raw p client ono)
  have stan: "pp_STAN p = co_Reference (read_confirm raw)" using 2(4) by (simp add: read_confirm_def)
  from 2(8) show ?thesis
  proof (cases rule: confirm_send_cases)
    case (1 rid s2 st m c)
    have "jget (confirm_payload rid (pp_BFSTxnID p) (co_OTP (read_confirm raw)) ono) ''bfs_TxnId'' = Some (JStr (pp_BFSTxnID p))"
      by (simp add: confirm_payload_def jget_def)
    moreover have "\<forall>q \<in> set (pd_payments (bs_db s')). at_stan a (pp_STAN p) q \<longrightarrow>
         pp_Status q \<in> {''COMPLETED'', ''FAILED''} \<and> pt_CompletedAt q = Some (be_now e)"
      using updated_status [of _ "be_now e" a "co_Reference (read_confirm raw)" st c m "bs_db s2"] 1(3,4) stan by metis
    ultimately show ?thesis
      using 2(1,2,3,6,7) 1(1) stan
      by (intro exI [of _ raw] exI [of _ p] exI [of _ client]
        exI [of _ "confirm_payload rid (pp_BFSTxnID p) (co_OTP (read_confirm raw)) ono"]) simp
  qed
qed (use assms(2) in simp)

text \<open>
  C20: an answer of the bank that is not JSON, such as the error page of a proxy, completes
  the payment.  The confirmation records COMPLETED for every payment of the
  app with the STAN, while the caller is told that the request did not succeed.
\<close>
theorem completed_without_verdict:
  assumes "Unmarshal res = None"
  shows "case confirm_answered e a stan rid ono res s of (resp, s') \<Rightarrow>
    (\<forall>q \<in> set (pd_payments (bs_db s')). at_stan a stan q \<longrightarrow> pp_Status q = ''COMPLETED'')
    \<and> status resp = 200 \<and> (\<exists>kvs. body resp = JObj kvs \<and> jget kvs ''success'' = Some (JBool False))"
proof -
  have c: "ExtractResponseCode res = ([], [])"
    by (simp add: ExtractResponseCode_def root_object_def assms field_def sub_object_def or_else_def TrimSpace_def Let_def)
  have p: "fst (parseDKResponse res) = []" by (simp add: parseDKResponse_def assms)
  obtain resp s' where r: "confirm_answered e a stan rid ono res s = (resp, s')" by (rule prod.exhaust)
  have "resp = sendSanitizedDKResponse res [(''transaction_id'', JStr stan), (''status'', JStr ''COMPLETED'')]"
    "bs_db s' = snd (UpdatePullPaymentStatus (be_now e) a stan ''COMPLETED'' [] []
       (snd (UpdateConfirmMeta (be_now e) a stan rid ono (bs_db s))))"
    using r by (auto simp: confirm_answered_def c Let_def)
  then show ?thesis
    using updated_status [of _ "be_now e" a stan "''COMPLETED''" "[]" "[]"]
    by (auto simp: r sendSanitizedDKResponse_def p Let_def TrimSpace_def send_def jget_def)
qed

text \<open>
  Every stored payment was opened by a payload that went to the bank: with the app, the
  order id and the account that its row still has.
\<close>

definition opened :: "business_state \<Rightarrow> payment_row \<Rightarrow> bool" where
  "opened s p \<longleftrightarrow> (\<exists>initiation. (ml_ExternalAppID p, ''AccountAuthPullPayment'', initiation) \<in> set (bs_sent s)
     \<and> jget initiation ''order_id'' = Some (JStr (pp_OrderID p))
     \<and> jget initiation ''account_number'' = Some (JStr (pp_BeneficiaryAccount p)))"

lemma opened_terms: "terms_of p = terms_of q \<Longrightarrow> opened s p = opened s q"
  by (simp add: terms_of_def link_of_def opened_def)

lemma opened_more: "opened s p \<Longrightarrow> set (bs_sent s) \<subseteq> set (bs_sent s') \<Longrightarrow> opened s' p"
  unfolding opened_def by blast

lemma confirm_more:
  assumes "PullPaymentConfirm e a r s = (resp, s')"
  shows "set (bs_sent s) \<subseteq> set (bs_sent s')"
  using assms
proof (cases rule: PullPaymentConfirm_cases)
  case (2 raw p client ono)
  then show ?thesis by (elim confirm_send_cases) auto
qed simp

lemma inquiry_more:
  assumes "IntraInquiry e a r s = (resp, s')"
  shows "set (bs_sent s) \<subseteq> set (bs_sent s')"
proof -
  obtain rid s1 where n: "next_request_id e s = (rid, s1)" by (rule prod.exhaust)
  from assms n consider "s' = s"
    | client payload v req err s2 where "ask_bank BeneficiaryAccountInquiry ''BeneficiaryAccountInquiry'' a e client payload s1 = (Inl err, s2)"
        "s' = on_db (CreateIntraInquiry (be_now e) (inquiry_record a v req [] ''FAILED'' ''network_error'' err)) s2"
    | client payload v req res s2 where "ask_bank BeneficiaryAccountInquiry ''BeneficiaryAccountInquiry'' a e client payload s1 = (Inr res, s2)"
        "inquiry_answered e a v req res s2 = (resp, s')"
    by (auto simp: IntraInquiry_def Let_def split: if_splits sum.splits option.splits prod.splits)
  then show ?thesis
    using next_request_id_rest [OF n] inquiry_answered_sent by cases (auto dest!: ask_bank_sent)
qed

text \<open>A status query names a payment of the app, the bank's handle of it, and the account its recorded credential resolves to.\<close>

lemma status_routing_row:
  assumes "status_routing pick sel what a ref v db = Inr (ident, routing)" "TrimSpace v = v" "\<And>p. pick (routing_of p) = sel p"
  obtains p where "p \<in> set (pd_payments db)" "routing = routing_of p" "ml_ExternalAppID p = TrimSpace a" "ident = sel p"
  using assms by (auto simp: status_routing_def GetTransactionRoutingByOrderID_def split: if_splits sum.splits store_error.splits
      dest!: getTransactionRouting_Inr)

definition status_query :: "string \<Rightarrow> payment_row \<Rightarrow> string \<Rightarrow> (string \<times> json) list \<Rightarrow> bool" where
  "status_query name p acct payload \<longleftrightarrow> jget payload ''bene_account_number'' = Some (JStr acct)
     \<and> (name \<in> {''TransactionStatus'', ''TransactionsStatus''} \<and> jget payload ''transaction_id'' = Some (JStr (pp_BFSTxnID p))
        \<or> name = ''IntraTransactionStatus'' \<and> jget payload ''reference_no'' = Some (JStr (pp_STAN p)))"

lemma status_ask_account:
  assumes "status_ask op name a e (ml_CredentialID p) query extra s = (resp, s')" "bs_sent s' \<noteq> bs_sent s"
    and "business_inv (be_resolver e) s" "p \<in> set (pd_payments (bs_db s))"
  shows "\<exists>rid. bs_sent s' = bs_sent s @ [(a, name, (''request_id'', JStr rid) # query @ [(''bene_account_number'', JStr (pp_BeneficiaryAccount p))])]"
  using assms(1)
proof (cases rule: status_ask_cases)
  case (2 rid client bene)
  obtain w where w: "gr_ResolveCredential (be_resolver e) (pd_routing (bs_db s)) (ml_CredentialID p) = Inr w"
      "bene = gr_Value w ''beneficiary_account''"
    using 2(1) by (auto simp: status_client_def split: sum.splits if_splits)
  moreover have "ml_CredentialID p \<noteq> []"
    using w(1) by (auto simp: gr_ResolveCredential_def TrimSpace_def split: if_splits)
  ultimately have "bene = pp_BeneficiaryAccount p"
    using assms(3,4) by (fastforce simp: business_inv_def accounts_ok_def account_of_def)
  then show ?thesis using 2(3) by blast
qed (use assms(2) in simp)


lemma status_asked:
  assumes "StatusSameDay e a r s = (resp, s') \<or> StatusLater e a r s = (resp, s') \<or> StatusIntra e a r s = (resp, s')"
    and "bs_sent s' \<noteq> bs_sent s" "business_inv (be_resolver e) s"
  obtains p name payload where "p \<in> set (pd_payments (bs_db s))" "ml_ExternalAppID p = TrimSpace a"
    "bs_sent s' = bs_sent s @ [(a, name, payload)]" "status_query name p (pp_BeneficiaryAccount p) payload"
  using assms(1)
proof (elim disjE)
  assume h: "StatusSameDay e a r s = (resp, s')"
  then obtain raw where raw: "BodyParser r = Some raw" using assms(2) by (cases "BodyParser r") (auto simp: StatusSameDay_def)
  obtain ident routing where sr: "status_routing tr_BFSTxnID pp_BFSTxnID ''transaction_id'' a (external_reference raw)
      (readString raw ''transaction_id'') (bs_db s) = Inr (ident, routing)"
    and ask: "status_ask TransactionStatus ''TransactionStatus'' a e (tr_CredentialID routing)
             [(''transaction_id'', JStr ident)] [(''transaction_id'', JStr ident)] s = (resp, s')"
    using h assms(2) raw by (auto simp: StatusSameDay_def Let_def split: if_splits sum.splits)
  obtain p where p: "p \<in> set (pd_payments (bs_db s))" "routing = routing_of p" "ml_ExternalAppID p = TrimSpace a" "ident = pp_BFSTxnID p"
    by (rule status_routing_row [OF sr]) (simp_all add: routing_of_def)
  have c: "tr_CredentialID routing = ml_CredentialID p" by (simp add: p(2) routing_of_def)
  from status_ask_account [OF ask [unfolded c] assms(2,3) p(1)] show thesis
    by (elim exE) (rule that [OF p(1,3)], assumption, simp add: status_query_def jget_def p(4))
next
  assume h: "StatusLater e a r s = (resp, s')"
  then obtain raw where raw: "BodyParser r = Some raw" using assms(2) by (cases "BodyParser r") (auto simp: StatusLater_def)
  obtain ident routing date where sr: "status_routing tr_BFSTxnID pp_BFSTxnID ''transaction_id'' a (external_reference raw)
      (readString raw ''transaction_id'') (bs_db s) = Inr (ident, routing)"
    and ask: "status_ask TransactionsStatus ''TransactionsStatus'' a e (tr_CredentialID routing)
             [(''transaction_id'', JStr ident), (''transaction_date'', JStr date)]
             [(''transaction_id'', JStr ident), (''transaction_date'', JStr date)] s = (resp, s')"
    using h assms(2) raw by (auto simp: StatusLater_def Let_def split: if_splits sum.splits)
  obtain p where p: "p \<in> set (pd_payments (bs_db s))" "routing = routing_of p" "ml_ExternalAppID p = TrimSpace a" "ident = pp_BFSTxnID p"
    by (rule status_routing_row [OF sr]) (simp_all add: routing_of_def)
  have c: "tr_CredentialID routing = ml_CredentialID p" by (simp add: p(2) routing_of_def)
  from status_ask_account [OF ask [unfolded c] assms(2,3) p(1)] show thesis
    by (elim exE) (rule that [OF p(1,3)], assumption, simp add: status_query_def jget_def p(4))
next
  assume h: "StatusIntra e a r s = (resp, s')"
  then obtain raw where raw: "BodyParser r = Some raw" using assms(2) by (cases "BodyParser r") (auto simp: StatusIntra_def)
  obtain ident routing date extra where sr: "status_routing tr_STAN pp_STAN ''reference_no'' a (external_reference raw)
      (readString raw ''reference_no'') (bs_db s) = Inr (ident, routing)"
    and ask: "status_ask IntraTransactionStatus ''IntraTransactionStatus'' a e (tr_CredentialID routing)
             [(''reference_no'', JStr ident), (''transaction_date'', JStr date)] extra s = (resp, s')"
    using h assms(2) raw by (auto simp: StatusIntra_def Let_def split: if_splits sum.splits)
  obtain p where p: "p \<in> set (pd_payments (bs_db s))" "routing = routing_of p" "ml_ExternalAppID p = TrimSpace a" "ident = pp_STAN p"
    by (rule status_routing_row [OF sr]) (simp_all add: routing_of_def)
  have c: "tr_CredentialID routing = ml_CredentialID p" by (simp add: p(2) routing_of_def)
  from status_ask_account [OF ask [unfolded c] assms(2,3) p(1)] show thesis
    by (elim exE) (rule that [OF p(1,3)], assumption, simp add: status_query_def jget_def p(4))
qed

lemma status_more:
  "StatusSameDay e a r s = (resp, s') \<Longrightarrow> set (bs_sent s) \<subseteq> set (bs_sent s')"
  "StatusLater e a r s = (resp, s') \<Longrightarrow> set (bs_sent s) \<subseteq> set (bs_sent s')"
  "StatusIntra e a r s = (resp, s') \<Longrightarrow> set (bs_sent s) \<subseteq> set (bs_sent s')"
  by (auto simp: StatusSameDay_def StatusLater_def StatusIntra_def Let_def
      split: option.splits if_splits sum.splits prod.splits elim!: status_ask_cases)

lemma opened_quiet:
  assumes "quiet a (bs_db s) (bs_db s')" "set (bs_sent s) \<subseteq> set (bs_sent s')" "\<forall>p \<in> set (pd_payments (bs_db s)). opened s p"
  shows "\<forall>p \<in> set (pd_payments (bs_db s')). opened s' p"
proof
  fix p assume "p \<in> set (pd_payments (bs_db s'))"
  then have "terms_of p \<in> terms_of ` set (pd_payments (bs_db s))" using assms(1) by (auto simp: quiet_def)
  then obtain q where "q \<in> set (pd_payments (bs_db s))" "terms_of p = terms_of q" by blast
  then show "opened s' p" using opened_terms [of p q s'] opened_more [OF _ assms(2), of q] assms(3) by blast
qed

lemma opened_initiate:
  assumes "PullPaymentInitiate e a r s = (resp, s')" "\<forall>p \<in> set (pd_payments (bs_db s)). opened s p"
  shows "\<forall>p \<in> set (pd_payments (bs_db s')). opened s' p"
  using assms(1)
proof (cases rule: PullPaymentInitiate_cases)
  case 1
  then show ?thesis using assms(2) by (simp add: opened_def)
next
  case (2 raw v client req s0)
  note s0 = 2(7,8)
  show ?thesis using 2(9)
  proof (cases rule: initiate_resolved_cases)
    case 1
    then show ?thesis using assms(2) s0 by (simp add: opened_def)
  next
    case (2 rid stan dt bank db')
    let ?payload = "initiate_payload (be_resolver e) v req rid stan dt bank raw"
    obtain p where p: "insert_link (pd_routing (bs_db s)) ''payment_transactions_app_order_id_uniq''
             ((a, in_Reference req) \<in> set (map payment_key (pd_payments (bs_db s)))) (initiate_record a v req stan dt bank) = Inr p"
        "db' = (bs_db s)\<lparr>pd_payments := pd_payments (bs_db s) @ [payment_row_of (be_now e) (pd_next_id (bs_db s)) p],
                pd_next_id := pd_next_id (bs_db s) + 1\<rparr>"
      using 2(1) s0(1) by (auto simp: CreatePullPayment_def initiate_record_def split: sum.splits)
    obtain i c where pe: "p = (initiate_record a v req stan dt bank)\<lparr>ml_RecipientID := i, ml_CredentialID := c\<rparr>"
      using insert_link_Inr [OF p(1)] by blast
    have sent: "bs_sent s' = bs_sent s @ [(a, ''AccountAuthPullPayment'', ?payload)]" using 2(3) s0(2) by simp
    let ?s = "s'\<lparr>bs_db := db'\<rparr>"
    have "opened ?s q" if "q \<in> set (pd_payments db')" for q
    proof (cases "q \<in> set (pd_payments (bs_db s))")
      case True
      then show ?thesis using opened_more [of s q ?s] assms(2) sent by auto
    next
      case False
      then have "q = payment_row_of (be_now e) (pd_next_id (bs_db s)) p" using that by (simp add: p(2))
      then have "ml_ExternalAppID q = a" "pp_OrderID q = in_Reference req" "pp_BeneficiaryAccount q = gr_Value v ''beneficiary_account''"
        by (simp_all add: pe initiate_record_def)
      then show ?thesis unfolding opened_def
        by (intro exI [of _ ?payload]) (simp add: sent initiate_payload_server_fields(1,5))
    qed
    then show ?thesis using opened_quiet [of a ?s s'] 2(2) by simp
  qed
qed

lemma payments_opened:
  assumes "(\<lambda>s s'. \<exists>a. business_step g a s s')\<^sup>*\<^sup>* s s'" "pd_payments (bs_db s) = []"
  shows "\<forall>p \<in> set (pd_payments (bs_db s')). opened s' p"
  using assms(1)
proof (induction rule: rtranclp_induct)
  case (step y z)
  from step.hyps(2) obtain a where "business_step g a y z" by blast
  then show ?case
  proof (cases rule: business_step.cases)
    case (initiate e a r resp)
    show ?thesis by (rule opened_initiate [OF initiate(3) step.IH])
  next
    case (confirm e a r resp)
    show ?thesis by (rule opened_quiet [OF PullPaymentConfirm_ops [OF confirm(3)] confirm_more [OF confirm(3)] step.IH])
  next
    case (inquiry e a r resp)
    show ?thesis by (rule opened_quiet [OF IntraInquiry_ops [OF inquiry(3)] inquiry_more [OF inquiry(3)] step.IH])
  next
    case (same_day e a r resp)
    show ?thesis
      using opened_quiet [of a y z] status_handlers_db(1) [OF same_day(3)] status_more(1) [OF same_day(3)] step.IH by simp
  next
    case (later e a r resp)
    show ?thesis
      using opened_quiet [of a y z] status_handlers_db(2) [OF later(3)] status_more(2) [OF later(3)] step.IH by simp
  next
    case (intra e a r resp)
    show ?thesis
      using opened_quiet [of a y z] status_handlers_db(3) [OF intra(3)] status_more(3) [OF intra(3)] step.IH by simp
  next
    case (routing rt)
    then show ?thesis using step.IH by (simp add: opened_def)
  qed
qed (simp add: assms(2))

lemma business_inv_start:
  "pd_payments (bs_db s) = [] \<Longrightarrow> pd_inquiries (bs_db s) = [] \<Longrightarrow> routing_inv (pd_routing (bs_db s)) \<Longrightarrow> business_inv g s"
  by (simp add: business_inv_def payments_ok_def accounts_ok_def)

text \<open>
  C4: a status query asks about the account the payment was opened for.  In every history
  of the API that starts without payments, with the routes and credentials changing
  at will, a query of any of the three handlers concerns a stored payment of the
  caller's app: it carries the bank's handle of that payment and the very
  account that the payload opening the payment named to the bank.
\<close>
theorem status_asks_original_account:
  assumes "(\<lambda>s s'. \<exists>a. business_step g a s s')\<^sup>*\<^sup>* s0 s" "be_resolver e = g"
    and "pd_payments (bs_db s0) = []" "pd_inquiries (bs_db s0) = []" "routing_inv (pd_routing (bs_db s0))"
    and "StatusSameDay e a r s = (resp, s') \<or> StatusLater e a r s = (resp, s') \<or> StatusIntra e a r s = (resp, s')"
    and "bs_sent s' \<noteq> bs_sent s"
  shows "\<exists>p name payload initiation account. p \<in> set (pd_payments (bs_db s)) \<and> ml_ExternalAppID p = TrimSpace a
    \<and> (TrimSpace a, ''AccountAuthPullPayment'', initiation) \<in> set (bs_sent s)
    \<and> jget initiation ''order_id'' = Some (JStr (pp_OrderID p)) \<and> jget initiation ''account_number'' = Some (JStr account)
    \<and> bs_sent s' = bs_sent s @ [(a, name, payload)] \<and> jget payload ''bene_account_number'' = Some (JStr account)
    \<and> (name \<in> {''TransactionStatus'', ''TransactionsStatus''} \<and> jget payload ''transaction_id'' = Some (JStr (pp_BFSTxnID p))
       \<or> name = ''IntraTransactionStatus'' \<and> jget payload ''reference_no'' = Some (JStr (pp_STAN p)))"
proof -
  have "bank.history g (\<lambda>_. True) s0 s" using assms(1) by (simp add: bank.history_def)
  then have i: "business_inv (be_resolver e) s"
    unfolding assms(2) by (rule bank.history_inv) (rule business_inv_start [OF assms(3-5)])
  obtain p name payload where p: "p \<in> set (pd_payments (bs_db s))" "ml_ExternalAppID p = TrimSpace a"
      "bs_sent s' = bs_sent s @ [(a, name, payload)]" "status_query name p (pp_BeneficiaryAccount p) payload"
    by (rule status_asked [OF assms(6,7) i])
  have "opened s p" using payments_opened [OF assms(1,3)] p(1) by blast
  then obtain initiation where "(TrimSpace a, ''AccountAuthPullPayment'', initiation) \<in> set (bs_sent s)"
      "jget initiation ''order_id'' = Some (JStr (pp_OrderID p))" "jget initiation ''account_number'' = Some (JStr (pp_BeneficiaryAccount p))"
    unfolding opened_def p(2) by blast
  then show ?thesis
    using p unfolding status_query_def
    by (intro exI [of _ p] exI [of _ name] exI [of _ payload] exI [of _ initiation] exI [of _ "pp_BeneficiaryAccount p"]) simp
qed

text \<open>
  A reference of the app that is taken already is refused with 409 once the merchant
  resolves; in no case is anything sent or stored for it.
\<close>
lemma taken_reference_refused:
  assumes "BodyParser r = Some raw" "in_Reference (read_initiate raw) \<noteq> []" "TrimSpace a = a" "a \<noteq> []"
    and "(a, in_Reference (read_initiate raw)) \<in> payment_key ` set (pd_payments (bs_db s))"
  shows "\<exists>resp. PullPaymentInitiate e a r s = (resp, s) \<and>
    (resp = reference_used \<or> (\<exists>er. resp = merchantConfigurationErrorFor er \<and>
        resolveDKPGForMerchant e (bs_db s) a (readString raw ''merchant_reference'') = Inl er))"
proof -
  let ?req = "read_initiate raw"
  have t: "TrimSpace (in_Reference ?req) = in_Reference ?req" "in_MerchantReference ?req = readString raw ''merchant_reference''"
    by (simp_all add: read_initiate_def)
  then have "OrderIDExistsForApp a (in_Reference ?req) (bs_db s)"
    using assms(2-5) by (simp add: OrderIDExistsForApp_def blank_def)
  then show ?thesis
    using assms(1,2) t(2) by (auto simp: PullPaymentInitiate_def Let_def split: sum.splits)
qed

section \<open>Witnesses\<close>

theorem initiate_pays_merchant_witness:
  "\<exists>resp s' p payload. PullPaymentInitiate pay_env ''A'' pay_request pay_start = (resp, s')
     \<and> bs_sent s' = [(''A'', ''AccountAuthPullPayment'', payload)]
     \<and> jget payload ''account_number'' = Some (JStr ''100'') \<and> jget pay_body ''account_number'' = Some (JStr ''666'')
     \<and> p \<in> set (pd_payments (bs_db s')) \<and> pp_BeneficiaryAccount p = ''100''"
proof -
  obtain resp s' where r: "PullPaymentInitiate pay_env ''A'' pay_request pay_start = (resp, s')" "bs_sent s' \<noteq> bs_sent pay_start"
    by (rule pay_initiates)
  obtain raw v p payload where x: "BodyParser pay_request = Some raw"
      "gr_Resolve (be_resolver pay_env) (pd_routing (bs_db pay_start)) ''A'' (readString raw ''merchant_reference'') ''dkpg'' = Inr v"
      "bs_sent s' = bs_sent pay_start @ [(''A'', ''AccountAuthPullPayment'', payload)]"
      "jget payload ''account_number'' = Some (JStr (gr_Value v ''beneficiary_account''))"
      "p \<in> set (pd_payments (bs_db s'))" "pp_BeneficiaryAccount p = gr_Value v ''beneficiary_account''"
    using initiate_pays_merchant [OF r] by blast
  have "raw = pay_body" using x(1) by (simp add: BodyParser_def pay_request_def)
  then have "v = pay_resolved" using x(2) pay_resolves by (simp add: pay_fields pay_env_def pay_start_def)
  moreover have "bs_sent pay_start = []" by (simp add: pay_start_def)
  moreover have "jget pay_body ''account_number'' = Some (JStr ''666'')" by (simp add: pay_body_def jget_def)
  ultimately show ?thesis using r(1) x(3-6) by auto
qed

lemma pay_one_step:
  assumes "PullPaymentInitiate pay_env ''A'' pay_request pay_start = (resp, s')"
  shows "(\<lambda>s s'. \<exists>a. business_step pay_resolver a s s')\<^sup>*\<^sup>* pay_start s'"
  using business_step.initiate [of pay_env pay_resolver, OF _ assms] by (auto simp: pay_env_def)

theorem reference_sent_once_witness:
  "\<exists>s'. (\<lambda>s s'. \<exists>a. business_step pay_resolver a s s')\<^sup>*\<^sup>* pay_start s' \<and> initiated s' \<noteq> [] \<and> distinct (initiated s')"
proof -
  obtain resp s' where r: "PullPaymentInitiate pay_env ''A'' pay_request pay_start = (resp, s')" "bs_sent s' \<noteq> bs_sent pay_start"
    by (rule pay_initiates)
  obtain payload where "bs_sent s' = bs_sent pay_start @ [(''A'', ''AccountAuthPullPayment'', payload)]"
    using initiate_send_once [OF r] by blast
  then have "initiated s' \<noteq> []" by (simp add: initiated_def)
  moreover have "bs_sent pay_start = []" by (simp add: pay_start_def)
  ultimately show ?thesis
    using reference_sent_once [OF pay_one_step [OF r(1)] pay_business_inv] pay_one_step [OF r(1)] by blast
qed

theorem tenants_isolated_witness:
  "\<exists>resp s'. PullPaymentConfirm pay_env ''B'' (pay_ask confirm_body) pay_paid = (resp, s')
     \<and> filter (\<lambda>p. ml_ExternalAppID p = ''A'') (pd_payments (bs_db s')) = [pay_row]"
proof -
  obtain resp s' where r: "PullPaymentConfirm pay_env ''B'' (pay_ask confirm_body) pay_paid = (resp, s')" by (rule prod.exhaust)
  have "business_step pay_resolver (Some ''B'') pay_paid s'"
    by (rule business_step.confirm [OF _ r]) (simp add: pay_env_def)
  then have "(\<lambda>s s'. \<exists>a. a \<noteq> Some ''A'' \<and> business_step pay_resolver a s s')\<^sup>*\<^sup>* pay_paid s'"
    by (intro r_into_rtranclp exI [of _ "Some ''B''"]) simp
  from tenants_isolated [OF this pay_paid_inv] r show ?thesis by (simp add: pay_paid_def)
qed

theorem payment_terms_fixed_witness:
  "\<exists>resp s' p'. PullPaymentConfirm pay_env ''A'' (pay_ask confirm_body) pay_paid = (resp, s')
     \<and> p' \<in> set (pd_payments (bs_db s')) \<and> terms_of p' = terms_of pay_row"
proof -
  obtain resp s' where r: "PullPaymentConfirm pay_env ''A'' (pay_ask confirm_body) pay_paid = (resp, s')" by (rule prod.exhaust)
  have "business_step pay_resolver (Some ''A'') pay_paid s'"
    by (rule business_step.confirm [OF _ r]) (simp add: pay_env_def)
  then have "(\<lambda>s s'. \<exists>a. business_step pay_resolver a s s')\<^sup>*\<^sup>* pay_paid s'" by (intro r_into_rtranclp) auto
  then show ?thesis using payment_terms_fixed [OF _ pay_paid_inv, of s' pay_row] r by (auto simp: pay_paid_def)
qed

theorem confirm_outcome_witness:
  "\<exists>resp s' payload. PullPaymentConfirm pay_env ''A'' (pay_ask confirm_body) pay_paid = (resp, s')
     \<and> bs_sent s' = bs_sent pay_paid @ [(''A'', ''DebitRequestPullPayment'', payload)]
     \<and> jget payload ''bfs_TxnId'' = Some (JStr ''T9'')"
proof -
  obtain resp s' where r: "PullPaymentConfirm pay_env ''A'' (pay_ask confirm_body) pay_paid = (resp, s')" "s' \<noteq> pay_paid"
    by (rule pay_confirms)
  have "pd_payments (bs_db pay_paid) = [pay_row]" by (simp add: pay_paid_def)
  then show ?thesis using confirm_outcome [OF r] r(1) by auto
qed

theorem completed_without_verdict_witness:
  "case confirm_answered pay_env ''A'' ''S1'' ''R1'' ''N1'' ''<html>'' pay_paid of (resp, s') \<Rightarrow>
     (\<forall>q \<in> set (pd_payments (bs_db s')). at_stan ''A'' ''S1'' q \<longrightarrow> pp_Status q = ''COMPLETED'')
     \<and> status resp = 200 \<and> (\<exists>kvs. body resp = JObj kvs \<and> jget kvs ''success'' = Some (JBool False))"
  by (rule completed_without_verdict) code_simp

theorem status_asks_original_account_witness:
  "\<exists>s resp s' name payload. (\<lambda>s s'. \<exists>a. business_step pay_resolver a s s')\<^sup>*\<^sup>* pay_start s
     \<and> StatusIntra pay_env ''A'' (pay_ask status_body) s = (resp, s')
     \<and> bs_sent s' = bs_sent s @ [(''A'', name, payload)]
     \<and> jget payload ''bene_account_number'' = Some (JStr ''100'')"
proof -
  obtain r1 s where i: "PullPaymentInitiate pay_env ''A'' pay_request pay_start = (r1, s)" "bs_sent s \<noteq> bs_sent pay_start"
    by (rule pay_initiates)
  obtain p opened_by where s: "p \<in> set (pd_payments (bs_db s))" "pd_routing (bs_db s) = pay_routing"
      "bs_sent s = [(''A'', ''AccountAuthPullPayment'', opened_by)]" "jget opened_by ''account_number'' = Some (JStr ''100'')"
      "\<forall>q \<in> set (pd_payments (bs_db s)). ml_ExternalAppID q = ''A'' \<and> pp_OrderID q = ''o1'' \<and> pp_STAN q = ''S1'' \<and> ml_CredentialID q = ''c1''"
    by (rule pay_stored [OF i])
  obtain resp s' where r: "StatusIntra pay_env ''A'' (pay_ask status_body) s = (resp, s')" "bs_sent s' \<noteq> bs_sent s"
    by (rule pay_asks_status [OF s(1,2,5)])
  have "pd_payments (bs_db pay_start) = []" "pd_inquiries (bs_db pay_start) = []" "routing_inv (pd_routing (bs_db pay_start))"
    "be_resolver pay_env = pay_resolver" using pay_inv by (simp_all add: pay_start_def pay_env_def)
  with status_asks_original_account [OF pay_one_step [OF i(1)], of pay_env "''A''" "pay_ask status_body" resp s'] r
  obtain name payload payload0 account where x: "(TrimSpace ''A'', ''AccountAuthPullPayment'', payload0) \<in> set (bs_sent s)"
      "jget payload0 ''account_number'' = Some (JStr account)" "bs_sent s' = bs_sent s @ [(''A'', name, payload)]"
      "jget payload ''bene_account_number'' = Some (JStr account)"
    by blast
  have "account = ''100''" using x(1,2) s(3,4) by auto
  then show ?thesis using r(1) x(3,4) pay_one_step [OF i(1)] by blast
qed

theorem taken_reference_refused_witness:
  "PullPaymentInitiate pay_env ''A'' pay_request pay_paid = (reference_used, pay_paid)"
proof -
  have "BodyParser pay_request = Some pay_body" by (simp add: BodyParser_def pay_request_def)
  moreover have "TrimSpace ''A'' = ''A''" by code_simp
  moreover have "(''A'', in_Reference (read_initiate pay_body)) \<in> payment_key ` set (pd_payments (bs_db pay_paid))"
    by (simp add: pay_fields pay_paid_def)
  ultimately obtain resp where x: "PullPaymentInitiate pay_env ''A'' pay_request pay_paid = (resp, pay_paid)"
      "resp = reference_used \<or> (\<exists>er. resolveDKPGForMerchant pay_env (bs_db pay_paid) ''A'' (readString pay_body ''merchant_reference'') = Inl er)"
    using taken_reference_refused [of pay_request pay_body "''A''" pay_paid pay_env] by (auto simp: pay_fields)
  obtain client where "gr_DKPGClient pay_resolver pay_resolved = Inr client"
    using pay_client [of pay_resolved] by (auto simp: pay_resolved_def pay_route_def)
  then have "resolveDKPGForMerchant pay_env (bs_db pay_paid) ''A'' (readString pay_body ''merchant_reference'') = Inr (pay_resolved, client)"
    using pay_resolves by (simp add: resolveDKPGForMerchant_def pay_env_def pay_paid_def pay_fields)
  then show ?thesis using x by simp
qed

end
