(* ===== verification/International.thy ===== *)
theory International
  imports Business
begin

text \<open>
  Card payments: internal/storage/international_repository.go and
  controllers/international_controller.go.  The row's uuid, the payment id and the
  gateway are arguments; url.Parse is an argument (a parser of scheme and
  host), as a URL parser is a library of its own.  A float64 is the exact rational of
  its literal, so the total is the exact sum rounded to cents.
\<close>

section \<open>Rows\<close>

record InternationalPayment = merchant_link +
  ip_ID :: string
  ip_PaymentID :: string
  ip_StripeSessionID :: string
  ip_ReferenceID :: string
  ip_Amount :: rat
  ip_TotalAmount :: rat
  ip_Currency :: string
  ip_Status :: string
  ip_ErrorCode :: string
  ip_ErrorMessage :: string
  ip_Description :: string
  ip_CheckoutURL :: string
  ip_CreatedAt :: time
  ip_CompletedAt :: "time option"
  ip_LastStatusCheckAt :: "time option"
  ip_UpdatedAt :: time

text \<open>The merchant is the external app of the link.\<close>

abbreviation ip_MerchantID :: "InternationalPayment \<Rightarrow> string" where "ip_MerchantID \<equiv> ml_ExternalAppID"

record intl_state =
  is_routing :: routing_db
  is_payments :: "InternationalPayment list"
  is_logs :: call_log
  is_checkouts :: "(string \<times> json) list"

definition intl_key :: "InternationalPayment \<Rightarrow> string \<times> string" where
  "intl_key p = (ip_MerchantID p, ip_ReferenceID p)"

text \<open>math.Round: half away from zero.\<close>

definition math_Round :: "rat \<Rightarrow> int" where
  "math_Round q = (if q < 0 then - floor (- q + 1 / 2) else floor (q + 1 / 2))"

section \<open>The repository\<close>

text \<open>The columns of type DECIMAL(10,2) and VARCHAR(n).\<close>

definition cents :: "rat \<Rightarrow> rat" where "cents q = of_int (math_Round (q * 100)) / 100"

definition fits_columns :: "InternationalPayment \<Rightarrow> bool" where
  "fits_columns p \<longleftrightarrow> abs (cents (ip_Amount p)) < 10 ^ 8 \<and> abs (cents (ip_TotalAmount p)) < 10 ^ 8
     \<and> list_all (\<lambda>x. length x \<le> 255) [ip_PaymentID p, ip_StripeSessionID p, ip_ReferenceID p, ip_MerchantID p]
     \<and> length (ip_Currency p) \<le> 3 \<and> length (ip_Status p) \<le> 50 \<and> length (ip_ErrorCode p) \<le> 100"

text \<open>
  An insert: the casts and checks shared with the other tables, the unique payment
  id, the unique reference of the merchant, and the foreign key of the merchant.
\<close>

definition intl_CreatePayment :: "string \<Rightarrow> InternationalPayment \<Rightarrow> intl_state \<Rightarrow> (store_error + unit) \<times> intl_state" where
  "intl_CreatePayment uuid p s =
     (case insert_link (is_routing s)
             (if ip_PaymentID p \<in> set (map ip_PaymentID (is_payments s)) then ''international_payments_payment_id_key''
              else ''international_payments_merchant_reference_id_uniq'')
             (ip_PaymentID p \<in> set (map ip_PaymentID (is_payments s)) \<or> intl_key p \<in> set (map intl_key (is_payments s))) p of
        Inl e \<Rightarrow> (Inl (StoreError e), s)
      | Inr p' \<Rightarrow>
          if \<not> fits_columns p' then (Inl (StoreError check_violation), s)
          else if ip_MerchantID p' \<notin> set (app_ids (is_routing s)) then (Inl (StoreError foreign_key_violation), s)
          else (Inr (), s\<lparr>is_payments := is_payments s @ [p'\<lparr>ip_ID := uuid, ip_Amount := cents (ip_Amount p'), ip_TotalAmount := cents (ip_TotalAmount p'),
                 ip_CompletedAt := None, ip_LastStatusCheckAt := None\<rparr>]\<rparr>))"

definition GetPaymentByReferenceForMerchant :: "string \<Rightarrow> string \<Rightarrow> intl_state \<Rightarrow> store_error + InternationalPayment" where
  "GetPaymentByReferenceForMerchant merchantID referenceID s =
     first_row (find (\<lambda>p. ip_ReferenceID p = TrimSpace referenceID \<and> ip_MerchantID p = TrimSpace merchantID) (is_payments s))"

definition intl_update :: "string \<Rightarrow> string \<Rightarrow> (InternationalPayment \<Rightarrow> InternationalPayment) \<Rightarrow> intl_state
    \<Rightarrow> (store_error + unit) \<times> intl_state" where
  "intl_update merchantID referenceID f s =
     (requireOneAffectedRow (length (filter (\<lambda>p. intl_key p = (merchantID, referenceID)) (is_payments s))),
      s\<lparr>is_payments := map (\<lambda>p. if intl_key p = (merchantID, referenceID) then f p else p) (is_payments s)\<rparr>)"

definition UpdatePaymentStatus :: "time \<Rightarrow> string \<Rightarrow> string \<Rightarrow> string \<Rightarrow> intl_state \<Rightarrow> (store_error + unit) \<times> intl_state" where
  "UpdatePaymentStatus now merchantID referenceID st =
     intl_update merchantID referenceID (\<lambda>p. p\<lparr>ip_Status := st,
       ip_CompletedAt := (if st = ''completed'' then Some now else ip_CompletedAt p),
       ip_LastStatusCheckAt := Some now, ip_UpdatedAt := now\<rparr>)"

definition MarkStatusCheckAttempt :: "time \<Rightarrow> string \<Rightarrow> string \<Rightarrow> time \<Rightarrow> intl_state \<Rightarrow> (store_error + unit) \<times> intl_state" where
  "MarkStatusCheckAttempt now merchantID referenceID checkedAt =
     intl_update merchantID referenceID (\<lambda>p. p\<lparr>ip_LastStatusCheckAt := Some checkedAt, ip_UpdatedAt := now\<rparr>)"

definition ReferenceExistsForMerchant :: "string \<Rightarrow> string \<Rightarrow> intl_state \<Rightarrow> bool" where
  "ReferenceExistsForMerchant merchantID referenceID s \<longleftrightarrow> \<not> blank merchantID \<and> \<not> blank referenceID
     \<and> (TrimSpace merchantID, TrimSpace referenceID) \<in> set (map intl_key (is_payments s))"

text \<open>
  The filters of List; a day is given by its first instant, and to includes the
  whole day.  The dates were checked by parseDateRange.
\<close>

definition intl_List :: "int \<Rightarrow> string \<Rightarrow> time option \<Rightarrow> time option \<Rightarrow> string \<Rightarrow> intl_state \<Rightarrow> InternationalPayment list" where
  "intl_List n st since to search s =
     (let n = (if n \<le> 0 then 20 else n); p = contains_pattern search;
          keep = (\<lambda>r. (blank st \<or> ToLower (ip_Status r) = ToLower (TrimSpace st))
             \<and> (case since of None \<Rightarrow> True | Some t \<Rightarrow> t \<le> ip_CreatedAt r)
             \<and> (case to of None \<Rightarrow> True | Some t \<Rightarrow> ip_CreatedAt r < t + 24 * hour)
             \<and> (blank search \<or> ilike (ip_ReferenceID r) p \<or> ilike (ip_PaymentID r) p \<or> ilike (ip_MerchantID r) p
                \<or> ilike (ip_Description r) p))
      in limit_to n (order_desc ip_CreatedAt (filter keep (is_payments s))))"

definition check_key :: "InternationalPayment \<Rightarrow> time \<times> time" where
  "check_key p = (case ip_LastStatusCheckAt p of None \<Rightarrow> ip_CreatedAt p | Some t \<Rightarrow> t, ip_CreatedAt p)"

definition due :: "time \<Rightarrow> time \<Rightarrow> InternationalPayment \<Rightarrow> bool" where
  "due dueBefore createdAfter p \<longleftrightarrow> ToLower (ip_Status p) = ''pending''
     \<and> (case ip_LastStatusCheckAt p of None \<Rightarrow> True | Some t \<Rightarrow> t \<le> dueBefore) \<and> createdAfter \<le> ip_CreatedAt p"

definition ListPendingForStatusCheck :: "time \<Rightarrow> time \<Rightarrow> nat \<Rightarrow> intl_state \<Rightarrow> InternationalPayment list" where
  "ListPendingForStatusCheck dueBefore createdAfter n s =
     take (if n = 0 then 100 else n)
       (sort_key (\<lambda>p. fst (check_key p)) (sort_key (\<lambda>p. snd (check_key p)) (filter (due dueBefore createdAfter) (is_payments s))))"

section \<open>The controller\<close>

record intl_controller =
  ic_StripeClient :: "stripe_client option"
  ic_Cfg :: config
  ic_Resolver :: gateway_resolver

record intl_world =
  iw_http :: upstream
  iw_now :: time
  iw_uuid :: string
  iw_payment_id :: string
  iw_parse_url :: "string \<Rightarrow> (string \<times> string) option"

definition pendingStatusCheckInterval :: dur where "pendingStatusCheckInterval = 10 * minute"
definition pendingStatusCheckBatchSize :: nat where "pendingStatusCheckBatchSize = 100"
definition pendingStatusCheckMaxAge :: dur where "pendingStatusCheckMaxAge = 7 * 24 * hour"

definition calculateTotalAmount :: "rat \<Rightarrow> rat" where
  "calculateTotalAmount baseAmount =
     (let stripeFee = baseAmount * (415 / 10000); dkFee = baseAmount * (7 / 1000); totalFees = stripeFee + dkFee + 60 / 100
      in of_int (math_Round ((baseAmount + totalFees) * 100)) / 100)"

definition isValidHTTPSURL :: "intl_world \<Rightarrow> string \<Rightarrow> bool" where
  "isValidHTTPSURL w u = (case iw_parse_url w u of None \<Rightarrow> False | Some (scheme, host) \<Rightarrow> scheme = ''https'' \<and> host \<noteq> [])"

definition resolvedStripeCurrency :: "config \<Rightarrow> string" where
  "resolvedStripeCurrency cfg = (let currency = ToLower (TrimSpace (StripeCurrency cfg)) in
     if currency \<noteq> ''usd'' then ''usd'' else currency)"

record intl_create =
  cr_MerchantReference :: string
  cr_Amount :: rat
  cr_ReferenceID :: string
  cr_Description :: string
  cr_SuccessURL :: string
  cr_CancelURL :: string

text \<open>A float64 field of a struct: a member of another type is an error.\<close>

definition float_field :: "string \<Rightarrow> (string \<times> json) list \<Rightarrow> rat option" where
  "float_field name kvs = foldl (\<lambda>cur (k, v). if EqualFold k name
      then (case v of JNum q \<Rightarrow> map_option (\<lambda>_. q) cur | JNull \<Rightarrow> cur | _ \<Rightarrow> None) else cur) (Some 0) kvs"

definition parse_create :: "request \<Rightarrow> intl_create option" where
  "parse_create r = (case BodyParser r of
     None \<Rightarrow> None
   | Some kvs \<Rightarrow> (case float_field ''amount'' kvs of
       None \<Rightarrow> None
     | Some amount \<Rightarrow>
         if list_all (\<lambda>n. field_ok n kvs) [''merchant_reference'', ''reference_id'', ''description'', ''success_url'', ''cancel_url'']
         then Some \<lparr> cr_MerchantReference = TrimSpace (field ''merchant_reference'' kvs), cr_Amount = amount,
                     cr_ReferenceID = TrimSpace (field ''reference_id'' kvs), cr_Description = field ''description'' kvs,
                     cr_SuccessURL = TrimSpace (field ''success_url'' kvs), cr_CancelURL = TrimSpace (field ''cancel_url'' kvs) \<rparr>
         else None))"

definition api_error :: "nat \<Rightarrow> string \<Rightarrow> string \<Rightarrow> response" where
  "api_error st code msg = send st [(''success'', JBool False), (''error'', JObj [(''code'', JStr code), (''message'', JStr msg)])]"

definition intl_record :: "intl_world \<Rightarrow> intl_controller \<Rightarrow> string \<Rightarrow> ResolvedGateway \<Rightarrow> intl_create \<Rightarrow> InternationalPayment" where
  "intl_record w ctl merchantID v req =
     \<lparr> ml_ExternalAppID = merchantID, ml_ExternalMerchantReference = cr_MerchantReference req,
       ml_RecipientID = rg_RecipientID (rv_Routing v), ml_GatewayProvider = gc_Provider (rg_Credential (rv_Routing v)),
       ml_CredentialID = gc_ID (rg_Credential (rv_Routing v)),
       ml_CredentialVersion = gc_Version (rg_Credential (rv_Routing v)), ml_RoutingMode = ''merchant'',
       ip_ID = [], ip_PaymentID = iw_payment_id w, ip_StripeSessionID = [], ip_ReferenceID = cr_ReferenceID req,
       ip_Amount = cr_Amount req, ip_TotalAmount = calculateTotalAmount (cr_Amount req),
       ip_Currency = resolvedStripeCurrency (ic_Cfg ctl), ip_Status = ''pending'', ip_ErrorCode = [], ip_ErrorMessage = [],
       ip_Description = cr_Description req, ip_CheckoutURL = [], ip_CreatedAt = iw_now w, ip_CompletedAt = None,
       ip_LastStatusCheckAt = None, ip_UpdatedAt = iw_now w \<rparr>"

definition storeFailedInternationalCreate :: "intl_world \<Rightarrow> intl_controller \<Rightarrow> string \<Rightarrow> intl_create \<Rightarrow> ResolvedGateway \<Rightarrow> string
    \<Rightarrow> string \<Rightarrow> intl_state \<Rightarrow> intl_state" where
  "storeFailedInternationalCreate w ctl merchantID req v code msg s =
     (if blank merchantID \<or> blank (cr_ReferenceID req) then s
      else snd (intl_CreatePayment (iw_uuid w)
        ((intl_record w ctl (TrimSpace merchantID) v req)\<lparr>
           ip_TotalAmount := (if cr_Amount req > 0 then calculateTotalAmount (cr_Amount req) else 0),
           ip_Status := ''failed'', ip_ErrorCode := TrimSpace code, ip_ErrorMessage := TrimSpace msg,
           ip_Description := TrimSpace (cr_Description req)\<rparr>) s))"

definition checkout_payload :: "intl_controller \<Rightarrow> ResolvedGateway \<Rightarrow> intl_create \<Rightarrow> json" where
  "checkout_payload ctl v req = JObj
     [(''amount'', JNum (cr_Amount req)), (''currency'', JStr (resolvedStripeCurrency (ic_Cfg ctl))),
      (''agency_name'', JStr (gr_AgencyName (ic_Resolver ctl))), (''application_no'', JStr (cr_ReferenceID req)),
      (''submerchant_id'', JStr (gr_Value v ''submerchant_id'')), (''dk_account'', JStr (gr_Value v ''dk_account'')),
      (''success_url'', JStr (cr_SuccessURL req)), (''cancel_url'', JStr (cr_CancelURL req))]"

text \<open>The part after all checks: the checkout session, and the row that records it.\<close>

definition intl_checkout :: "intl_world \<Rightarrow> intl_controller \<Rightarrow> string \<Rightarrow> intl_create \<Rightarrow> ResolvedGateway \<Rightarrow> intl_state
    \<Rightarrow> response \<times> intl_state" where
  "intl_checkout w ctl merchantID req v s = (case gr_StripeClient (ic_Resolver ctl) v of
     Inl er \<Rightarrow> (merchantConfigurationErrorFor er, s)
   | Inr client \<Rightarrow>
       let s = s\<lparr>is_checkouts := is_checkouts s @ [(merchantID, checkout_payload ctl v req)]\<rparr> in
       (case CreateCheckoutSession (iw_http w) client (checkout_payload ctl v req) of
          Inl _ \<Rightarrow> (api_error 502 ''PAYMENT_SERVICE_ERROR'' ''Failed to create payment session'',
             storeFailedInternationalCreate w ctl merchantID req v ''PAYMENT_SERVICE_ERROR'' ''Failed to create payment session'' s)
        | Inr resp \<Rightarrow>
            let p = (intl_record w ctl merchantID v req)\<lparr>ip_StripeSessionID := cs_SessionID resp, ip_CheckoutURL := cs_SessionURL resp\<rparr>
            in (case intl_CreatePayment (iw_uuid w) p s of
                  (Inl _, _) \<Rightarrow> (api_error 500 ''PAYMENT_RECORD_ERROR'' ''Payment session created but failed to store payment record'', s)
                | (Inr _, s') \<Rightarrow> (send 200
                    [(''success'', JBool True), (''message'', JStr ''Payment session created successfully''),
                     (''data'', JObj [(''payment_id'', JStr (ip_PaymentID p)), (''session_id'', JStr (ip_StripeSessionID p)),
                        (''checkout_url'', JStr (ip_CheckoutURL p)), (''amount'', JNum (ip_Amount p)),
                        (''total_amount'', JNum (ip_TotalAmount p)), (''currency'', JStr (ip_Currency p)),
                        (''reference_id'', JStr (ip_ReferenceID p)), (''status'', JStr ''pending''),
                        (''expires_at'', JStr (RFC3339 (iw_now w + 24 * hour)))])], s'))))"

text \<open>A refusal that is also stored.\<close>

definition intl_refuse :: "intl_world \<Rightarrow> intl_controller \<Rightarrow> string \<Rightarrow> intl_create \<Rightarrow> ResolvedGateway \<Rightarrow> nat \<Rightarrow> string \<Rightarrow> string
    \<Rightarrow> intl_state \<Rightarrow> response \<times> intl_state" where
  "intl_refuse w ctl merchantID req v st code msg s =
     (api_error st code msg, storeFailedInternationalCreate w ctl merchantID req v code msg s)"

definition intl_resolved :: "intl_world \<Rightarrow> intl_controller \<Rightarrow> string \<Rightarrow> intl_create \<Rightarrow> ResolvedGateway \<Rightarrow> intl_state
    \<Rightarrow> response \<times> intl_state" where
  "intl_resolved w ctl merchantID req v s =
     (let refuse = intl_refuse w ctl merchantID req v in
      if cr_Amount req < 1 then refuse 400 ''INVALID_AMOUNT'' ''Payment amount must be at least 1.00 USD'' s
      else if cr_ReferenceID req = [] then (api_error 400 ''INVALID_REFERENCE'' ''reference_id is required'', s)
      else if ReferenceExistsForMerchant merchantID (cr_ReferenceID req) s
      then (api_error 409 ''DUPLICATE_REFERENCE'' ''Payment with this reference_id already exists'', s)
      else if merchantID \<notin> set (app_ids (is_routing s)) then refuse 401 ''UNAUTHORIZED'' ''Invalid merchant'' s
      else if gr_AgencyName (ic_Resolver ctl) = [] \<or> gr_Value v ''submerchant_id'' = [] \<or> gr_Value v ''dk_account'' = []
      then refuse 400 ''MERCHANT_NOT_CONFIGURED'' ''Merchant not configured for international payments'' s
      else if cr_SuccessURL req = [] \<or> cr_CancelURL req = []
      then refuse 400 ''INVALID_URL'' ''success_url and cancel_url are required'' s
      else if \<not> isValidHTTPSURL w (cr_SuccessURL req) \<or> \<not> isValidHTTPSURL w (cr_CancelURL req)
      then refuse 400 ''INVALID_URL'' ''success_url and cancel_url must be valid HTTPS URLs'' s
      else intl_checkout w ctl merchantID req v s)"

definition CreatePayment :: "intl_world \<Rightarrow> intl_controller \<Rightarrow> string \<Rightarrow> request \<Rightarrow> intl_state \<Rightarrow> response \<times> intl_state" where
  "CreatePayment w ctl merchantID r s = (case parse_create r of
     None \<Rightarrow> (api_error 400 ''INVALID_REQUEST'' ''Invalid request body'', s)
   | Some req \<Rightarrow>
       if cr_MerchantReference req = [] then (merchantConfigurationError, s)
       else (case gr_Resolve (ic_Resolver ctl) (is_routing s) merchantID (cr_MerchantReference req) ''stripe'' of
         Inl er \<Rightarrow> (merchantConfigurationErrorFor er, s)
       | Inr v \<Rightarrow> intl_resolved w ctl merchantID req v s))"

section \<open>Status checks\<close>

definition stripeClientForPayment :: "intl_controller \<Rightarrow> routing_db \<Rightarrow> InternationalPayment \<Rightarrow> gateway_error + stripe_client" where
  "stripeClientForPayment ctl db p =
     (if ml_RoutingMode p = ''legacy'' \<and> blank (ml_CredentialID p)
      then (case ic_StripeClient ctl of None \<Rightarrow> Inl MerchantNotConfigured | Some c \<Rightarrow> Inr c)
      else case gr_ResolveCredential (ic_Resolver ctl) db (ml_CredentialID p) of
        Inl _ \<Rightarrow> Inl MerchantNotConfigured
      | Inr v \<Rightarrow> if gc_Provider (rg_Credential (rv_Routing v)) \<noteq> ''stripe'' then Inl MerchantNotConfigured
                else gr_StripeClient (ic_Resolver ctl) v)"

text \<open>The answer tells whether the payment was completed, None for an error.\<close>

definition reconcileSinglePendingPayment :: "intl_world \<Rightarrow> intl_controller \<Rightarrow> InternationalPayment \<Rightarrow> time \<Rightarrow> intl_state
    \<Rightarrow> bool option \<times> intl_state" where
  "reconcileSinglePendingPayment w ctl p checkedAt s =
     (case stripeClientForPayment ctl (is_routing s) p of
        Inl _ \<Rightarrow> (None, snd (MarkStatusCheckAttempt (iw_now w) (ip_MerchantID p) (ip_ReferenceID p) checkedAt s))
      | Inr client \<Rightarrow> (case CheckApplicationStatus (iw_http w) client (ip_ReferenceID p) of
          (Inl _, logs) \<Rightarrow> (None, snd (MarkStatusCheckAttempt (iw_now w) (ip_MerchantID p) (ip_ReferenceID p) checkedAt
              (s\<lparr>is_logs := is_logs s @ logs\<rparr>)))
        | (Inr resp, logs) \<Rightarrow>
            let s = s\<lparr>is_logs := is_logs s @ logs\<rparr> in
            if as_ResponseData resp
            then (case UpdatePaymentStatus (iw_now w) (ip_MerchantID p) (ip_ReferenceID p) ''completed'' s of
                    (Inl _, s') \<Rightarrow> (None, s') | (Inr _, s') \<Rightarrow> (Some True, s'))
            else (case MarkStatusCheckAttempt (iw_now w) (ip_MerchantID p) (ip_ReferenceID p) checkedAt s of
                    (Inl _, s') \<Rightarrow> (None, s') | (Inr _, s') \<Rightarrow> (Some False, s'))))"

text \<open>
  One round of the background job: the workers handle different rows, so their
  order does not matter; rows without a reference are skipped.
\<close>

definition reconcile_batch :: "intl_world \<Rightarrow> intl_controller \<Rightarrow> time \<Rightarrow> InternationalPayment list \<Rightarrow> intl_state \<Rightarrow> intl_state" where
  "reconcile_batch w ctl now pending s =
     fold (\<lambda>p s. if blank (ip_ReferenceID p) then s else snd (reconcileSinglePendingPayment w ctl p now s)) pending s"

partial_function (option) reconcile_loop :: "intl_world \<Rightarrow> intl_controller \<Rightarrow> time \<Rightarrow> intl_state \<Rightarrow> intl_state option" where
  "reconcile_loop w ctl now s =
     (let pending = ListPendingForStatusCheck (now - pendingStatusCheckInterval) (now - pendingStatusCheckMaxAge)
                      pendingStatusCheckBatchSize s
      in if pending = [] then Some s
         else if length pending < pendingStatusCheckBatchSize then Some (reconcile_batch w ctl now pending s)
         else reconcile_loop w ctl now (reconcile_batch w ctl now pending s))"

definition reconcilePendingPayments :: "intl_world \<Rightarrow> intl_controller \<Rightarrow> intl_state \<Rightarrow> intl_state option" where
  "reconcilePendingPayments w ctl s = reconcile_loop w ctl (iw_now w) s"

definition payment_status_data :: "InternationalPayment \<Rightarrow> json" where
  "payment_status_data p = JObj
     ([(''payment_id'', JStr (ip_PaymentID p)), (''reference_id'', JStr (ip_ReferenceID p)), (''status'', JStr (ip_Status p)),
       (''amount'', JNum (ip_Amount p)), (''total_amount'', JNum (ip_TotalAmount p)), (''currency'', JStr (ip_Currency p)),
       (''created_at'', JStr (RFC3339 (ip_CreatedAt p)))]
      @ (case ip_CompletedAt p of None \<Rightarrow> [] | Some t \<Rightarrow> [(''completed_at'', JStr (RFC3339 t))]))"

definition status_response :: "InternationalPayment \<Rightarrow> response" where
  "status_response p = send 200 [(''success'', JBool True), (''data'', payment_status_data p)]"

definition CheckPaymentStatus :: "intl_world \<Rightarrow> intl_controller \<Rightarrow> string \<Rightarrow> string \<Rightarrow> intl_state \<Rightarrow> response \<times> intl_state" where
  "CheckPaymentStatus w ctl merchantID referenceID s =
     (if referenceID = [] then (api_error 400 ''INVALID_REQUEST'' ''reference_id is required'', s)
      else case GetPaymentByReferenceForMerchant merchantID referenceID s of
        Inl _ \<Rightarrow> (api_error 404 ''PAYMENT_NOT_FOUND'' ''Payment with this reference_id does not exist'', s)
      | Inr p \<Rightarrow>
          if \<not> EqualFold (ip_Status p) ''pending'' then (status_response p, s)
          else (case reconcileSinglePendingPayment w ctl p (iw_now w) s of
            (None, s') \<Rightarrow> (api_error 502 ''STATUS_CHECK_FAILED'' ''Unable to verify payment status, please try again'', s')
          | (Some _, s') \<Rightarrow> (case GetPaymentByReferenceForMerchant merchantID referenceID s' of
              Inl _ \<Rightarrow> (status_response p, s') | Inr p' \<Rightarrow> (status_response p', s'))))"

section \<open>The listing of the admin portal\<close>

definition toSafeIntlPayment :: "InternationalPayment \<Rightarrow> json" where
  "toSafeIntlPayment p = JObj
     ([(''payment_id'', JStr (ip_PaymentID p)), (''reference_id'', JStr (ip_ReferenceID p)), (''merchant_id'', JStr (ip_MerchantID p)),
       (''amount'', JNum (ip_Amount p)), (''total_amount'', JNum (ip_TotalAmount p)), (''currency'', JStr (ip_Currency p)),
       (''status'', JStr (ip_Status p))]
      @ (if ip_ErrorCode p = [] then [] else [(''error_code'', JStr (ip_ErrorCode p))])
      @ (if ip_Description p = [] then [] else [(''description'', JStr (ip_Description p))])
      @ [(''created_at'', JStr (RFC3339 (ip_CreatedAt p)))]
      @ (case ip_CompletedAt p of None \<Rightarrow> [] | Some t \<Rightarrow> [(''completed_at'', JStr (RFC3339 t))]))"

end
