(* ===== verification/IntlLaws.thy ===== *)
theory IntlLaws
  imports International Ledger
begin

text \<open>
  Card payments over histories: the table is a ledger, the background job ends and
  leaves nothing due, and what a checkout carries.
\<close>

section \<open>Updates of one key\<close>

definition card_terms :: "InternationalPayment \<Rightarrow>
    (string \<times> string \<times> string \<times> string \<times> string \<times> int) \<times> string \<times> string \<times> string \<times> rat \<times> rat \<times> string" where
  "card_terms p = (link_of p, ip_ID p, ip_PaymentID p, ip_ReferenceID p, ip_Amount p, ip_TotalAmount p, ip_CheckoutURL p)"

text \<open>What a status check does to the table: only rows of the key change, and they are marked as checked.\<close>

definition checked :: "time \<Rightarrow> (string \<times> string) set \<Rightarrow> InternationalPayment \<Rightarrow> InternationalPayment \<Rightarrow> bool" where
  "checked t K p p' \<longleftrightarrow> card_terms p' = card_terms p \<and> ml_RoutingMode p' = ml_RoutingMode p
     \<and> (if intl_key p \<in> K then ip_LastStatusCheckAt p' = Some t else p' = p)"

lemma card_terms_key: "card_terms p' = card_terms p \<Longrightarrow> intl_key p' = intl_key p \<and> ip_MerchantID p' = ip_MerchantID p"
  by (simp add: card_terms_def link_of_def intl_key_def)

lemma checked_trans: "checked t K p p' \<Longrightarrow> checked t L p' p'' \<Longrightarrow> checked t (K \<union> L) p p''"
  using card_terms_key [of p' p] by (auto simp: checked_def split: if_splits)

lemma intl_update_rows:
  assumes "\<And>p. card_terms (f p) = card_terms p \<and> ml_RoutingMode (f p) = ml_RoutingMode p \<and> ip_LastStatusCheckAt (f p) = Some t"
  shows "list_all2 (checked t {(m, r)}) (is_payments s) (is_payments (snd (intl_update m r f s)))"
    "is_routing (snd (intl_update m r f s)) = is_routing s"
    "is_checkouts (snd (intl_update m r f s)) = is_checkouts s"
  using assms by (auto simp: intl_update_def list_all2_map2 checked_def list.rel_refl intro!: list.rel_refl)

lemma MarkStatusCheckAttempt_rows:
  "list_all2 (checked t {(m, r)}) (is_payments s) (is_payments (snd (MarkStatusCheckAttempt now m r t s)))"
  "is_routing (snd (MarkStatusCheckAttempt now m r t s)) = is_routing s"
  "is_checkouts (snd (MarkStatusCheckAttempt now m r t s)) = is_checkouts s"
  unfolding MarkStatusCheckAttempt_def by (rule intl_update_rows; simp add: card_terms_def link_of_def)+

lemma UpdatePaymentStatus_rows:
  "list_all2 (checked now {(m, r)}) (is_payments s) (is_payments (snd (UpdatePaymentStatus now m r st s)))"
  "is_routing (snd (UpdatePaymentStatus now m r st s)) = is_routing s"
  "is_checkouts (snd (UpdatePaymentStatus now m r st s)) = is_checkouts s"
  unfolding UpdatePaymentStatus_def by (rule intl_update_rows; simp add: card_terms_def link_of_def)+

lemma reconcile_single_cases:
  obtains l where "reconcileSinglePendingPayment w ctl p t s
      = (None, snd (MarkStatusCheckAttempt (iw_now w) (ip_MerchantID p) (ip_ReferenceID p) t (s\<lparr>is_logs := is_logs s @ l\<rparr>)))"
  | l b where "reconcileSinglePendingPayment w ctl p t s
      = (b, snd (MarkStatusCheckAttempt (iw_now w) (ip_MerchantID p) (ip_ReferenceID p) t (s\<lparr>is_logs := is_logs s @ l\<rparr>)))"
  | l b where "reconcileSinglePendingPayment w ctl p t s
      = (b, snd (UpdatePaymentStatus (iw_now w) (ip_MerchantID p) (ip_ReferenceID p) ''completed'' (s\<lparr>is_logs := is_logs s @ l\<rparr>)))"
proof (cases "stripeClientForPayment ctl (is_routing s) p")
  case (Inl e)
  then show thesis using that(1) [of "[]"] by (simp add: reconcileSinglePendingPayment_def)
next
  case (Inr client)
  obtain r logs where c: "CheckApplicationStatus (iw_http w) client (ip_ReferenceID p) = (r, logs)" by (rule prod.exhaust)
  show thesis
  proof (cases r)
    case (Inl e)
    then show thesis using that(1) [of logs] Inr c by (simp add: reconcileSinglePendingPayment_def)
  next
    case (Inr resp)
    let ?s = "s\<lparr>is_logs := is_logs s @ logs\<rparr>"
    obtain r1 s1 where u: "UpdatePaymentStatus (iw_now w) (ip_MerchantID p) (ip_ReferenceID p) ''completed'' ?s = (r1, s1)"
      by (rule prod.exhaust)
    obtain r2 s2 where m: "MarkStatusCheckAttempt (iw_now w) (ip_MerchantID p) (ip_ReferenceID p) t ?s = (r2, s2)"
      by (rule prod.exhaust)
    show thesis
    proof (cases "as_ResponseData resp")
      case True
      then have "snd (reconcileSinglePendingPayment w ctl p t s) = s1"
        using \<open>stripeClientForPayment _ _ _ = _\<close> c Inr u by (cases r1) (simp_all add: reconcileSinglePendingPayment_def)
      then show thesis using that(3) [of "fst (reconcileSinglePendingPayment w ctl p t s)" logs] u by (metis prod.collapse snd_conv)
    next
      case False
      then have "snd (reconcileSinglePendingPayment w ctl p t s) = s2"
        using \<open>stripeClientForPayment _ _ _ = _\<close> c Inr m by (cases r2) (simp_all add: reconcileSinglePendingPayment_def)
      then show thesis using that(2) [of "fst (reconcileSinglePendingPayment w ctl p t s)" logs] m by (metis prod.collapse snd_conv)
    qed
  qed
qed

lemma reconcile_single_rows:
  assumes "t = iw_now w"
  shows "list_all2 (checked t {intl_key p}) (is_payments s) (is_payments (snd (reconcileSinglePendingPayment w ctl p t s)))"
    "is_routing (snd (reconcileSinglePendingPayment w ctl p t s)) = is_routing s"
    "is_checkouts (snd (reconcileSinglePendingPayment w ctl p t s)) = is_checkouts s"
proof -
  note m = MarkStatusCheckAttempt_rows [where t = t and now = "iw_now w" and m = "ip_MerchantID p" and r = "ip_ReferenceID p"]
  note u = UpdatePaymentStatus_rows [where now = "iw_now w" and m = "ip_MerchantID p" and r = "ip_ReferenceID p" and st = "''completed''"]
  have k: "intl_key p = (ip_MerchantID p, ip_ReferenceID p)" by (simp add: intl_key_def)
  have "list_all2 (checked t {intl_key p}) (is_payments s) (is_payments (snd (reconcileSinglePendingPayment w ctl p t s)))
    \<and> is_routing (snd (reconcileSinglePendingPayment w ctl p t s)) = is_routing s
    \<and> is_checkouts (snd (reconcileSinglePendingPayment w ctl p t s)) = is_checkouts s"
  proof (cases rule: reconcile_single_cases [of w ctl p t s])
    case (1 l)
    then show ?thesis using m [where s = "s\<lparr>is_logs := is_logs s @ l\<rparr>"] by (simp add: k)
  next
    case (2 l b)
    then show ?thesis using m [where s = "s\<lparr>is_logs := is_logs s @ l\<rparr>"] by (simp add: k)
  next
    case (3 l b)
    then show ?thesis using u [where s = "s\<lparr>is_logs := is_logs s @ l\<rparr>"] assms by (simp add: k)
  qed
  then show "list_all2 (checked t {intl_key p}) (is_payments s) (is_payments (snd (reconcileSinglePendingPayment w ctl p t s)))"
    "is_routing (snd (reconcileSinglePendingPayment w ctl p t s)) = is_routing s"
    "is_checkouts (snd (reconcileSinglePendingPayment w ctl p t s)) = is_checkouts s" by blast+
qed

section \<open>The background job\<close>

lemma reconcile_batch_rows:
  assumes "t = iw_now w" "\<forall>p \<in> set ps. \<not> blank (ip_ReferenceID p)"
  shows "list_all2 (checked t (intl_key ` set ps)) (is_payments s) (is_payments (reconcile_batch w ctl t ps s))"
  using assms(2)
proof (induction ps arbitrary: s)
  case Nil
  then show ?case by (auto simp: reconcile_batch_def checked_def intro!: list.rel_refl)
next
  case (Cons p ps)
  let ?s = "snd (reconcileSinglePendingPayment w ctl p t s)"
  have "reconcile_batch w ctl t (p # ps) s = reconcile_batch w ctl t ps ?s"
    using Cons.prems by (simp add: reconcile_batch_def)
  moreover have "list_all2 (checked t (intl_key ` set ps)) (is_payments ?s) (is_payments (reconcile_batch w ctl t ps ?s))"
    using Cons by simp
  ultimately show ?case
    using list_all2_trans [OF _ reconcile_single_rows(1) [OF assms(1), of p s ctl], of "checked t (intl_key ` set ps)" "checked t (intl_key ` set (p # ps))"]
      checked_trans [of t "{intl_key p}" _ _ "intl_key ` set ps"] by simp
qed

abbreviation due_at :: "time \<Rightarrow> InternationalPayment \<Rightarrow> bool" where
  "due_at t \<equiv> due (t - pendingStatusCheckInterval) (t - pendingStatusCheckMaxAge)"

lemma checked_not_due:
  assumes "checked t K p p'"
  shows "due_at t p' \<longleftrightarrow> due_at t p \<and> intl_key p \<notin> K"
proof (cases "intl_key p \<in> K")
  case True
  then have "ip_LastStatusCheckAt p' = Some t" using assms by (simp add: checked_def)
  then show ?thesis using True by (simp add: due_def pendingStatusCheckInterval_def)
next
  case False
  then have "p' = p" using assms by (simp add: checked_def)
  then show ?thesis using False by simp
qed

lemma due_after:
  assumes "list_all2 (checked t K) ps ps'"
  shows "map intl_key (filter (due_at t) ps') = map intl_key (filter (\<lambda>p. intl_key p \<notin> K) (filter (due_at t) ps))"
  using assms
proof (induction rule: list_all2_induct)
  case (Cons p ps p' ps')
  have "intl_key p' = intl_key p" using Cons(1) card_terms_key [of p' p] by (simp add: checked_def)
  moreover have "due_at t p' \<longleftrightarrow> due_at t p \<and> intl_key p \<notin> K" by (rule checked_not_due [OF Cons(1)])
  ultimately show ?case using Cons.IH by (cases "due_at t p"; cases "intl_key p \<in> K") simp_all
qed simp

lemma pending_due:
  "set (ListPendingForStatusCheck a b n s) \<subseteq> set (filter (due a b) (is_payments s))"
  "n \<noteq> 0 \<Longrightarrow> length (ListPendingForStatusCheck a b n s) < n \<Longrightarrow>
     set (ListPendingForStatusCheck a b n s) = set (filter (due a b) (is_payments s))"
  "n \<noteq> 0 \<Longrightarrow> ListPendingForStatusCheck a b n s = [] \<longleftrightarrow> filter (due a b) (is_payments s) = []"
proof -
  let ?l = "sort_key (\<lambda>p. fst (check_key p)) (sort_key (\<lambda>p. snd (check_key p)) (filter (due a b) (is_payments s)))"
  have e: "ListPendingForStatusCheck a b n s = take (if n = 0 then 100 else n) ?l" by (simp add: ListPendingForStatusCheck_def)
  show "set (ListPendingForStatusCheck a b n s) \<subseteq> set (filter (due a b) (is_payments s))"
    unfolding e using set_take_subset by fastforce
  show "n \<noteq> 0 \<Longrightarrow> length (ListPendingForStatusCheck a b n s) < n \<Longrightarrow>
     set (ListPendingForStatusCheck a b n s) = set (filter (due a b) (is_payments s))"
  proof -
    assume n: "n \<noteq> 0" "length (ListPendingForStatusCheck a b n s) < n"
    then have "length ?l \<le> n" unfolding e by (simp add: min_def split: if_splits)
    then have "take n ?l = ?l" by (rule take_all)
    then show ?thesis unfolding e using n(1) by simp
  qed
  have "?l = [] \<longleftrightarrow> filter (due a b) (is_payments s) = []"
    by (metis set_empty set_sort)
  then show "n \<noteq> 0 \<Longrightarrow> ListPendingForStatusCheck a b n s = [] \<longleftrightarrow> filter (due a b) (is_payments s) = []"
    unfolding e by simp
qed

lemma reconcile_loop_ends:
  assumes "\<forall>p \<in> set (is_payments s). due_at t p \<longrightarrow> \<not> blank (ip_ReferenceID p)" "t = iw_now w"
  shows "\<exists>s'. reconcile_loop w ctl t s = Some s' \<and> filter (due_at t) (is_payments s') = []"
  using assms(1)
proof (induction "length (filter (due_at t) (is_payments s))" arbitrary: s rule: less_induct)
  case less
  let ?p = "ListPendingForStatusCheck (t - pendingStatusCheckInterval) (t - pendingStatusCheckMaxAge) pendingStatusCheckBatchSize s"
  let ?s = "reconcile_batch w ctl t ?p s"
  note d = pending_due [where a = "t - pendingStatusCheckInterval" and b = "t - pendingStatusCheckMaxAge"
      and n = pendingStatusCheckBatchSize and s = s]
  have n: "pendingStatusCheckBatchSize \<noteq> 0" by (simp add: pendingStatusCheckBatchSize_def)
  show ?case
  proof (cases "?p = []")
    case True
    then show ?thesis using d(3) n by (subst reconcile_loop.simps) (simp add: Let_def)
  next
    case False
    have nb: "\<forall>p \<in> set ?p. \<not> blank (ip_ReferenceID p)" using d(1) less.prems by auto
    note rows = reconcile_batch_rows [OF assms(2) nb, of s ctl]
    note after = due_after [OF rows]
    show ?thesis
    proof (cases "length ?p < pendingStatusCheckBatchSize")
      case True
      then have "filter (\<lambda>p. intl_key p \<notin> intl_key ` set ?p) (filter (due_at t) (is_payments s)) = []"
        using d(2) n by (auto simp: filter_empty_conv)
      then have "filter (due_at t) (is_payments ?s) = []" using after by simp
      then show ?thesis using False True by (subst reconcile_loop.simps) (simp add: Let_def)
    next
      case full: False
      obtain p where p: "p \<in> set ?p" using False by (cases ?p) auto
      then have "p \<in> set (filter (due_at t) (is_payments s))" using d(1) by blast
      then have "length (filter (\<lambda>p. intl_key p \<notin> intl_key ` set ?p) (filter (due_at t) (is_payments s)))
          < length (filter (due_at t) (is_payments s))"
        by (rule length_filter_less) (use p in blast)
      then have lt: "length (filter (due_at t) (is_payments ?s)) < length (filter (due_at t) (is_payments s))"
        using after by (metis length_map)
      have "\<forall>q \<in> set (is_payments ?s). due_at t q \<longrightarrow> \<not> blank (ip_ReferenceID q)"
      proof (intro ballI impI)
        fix q assume q: "q \<in> set (is_payments ?s)" "due_at t q"
        obtain p where "p \<in> set (is_payments s)" "checked t (intl_key ` set ?p) p q"
          using rows q(1) by (metis in_set_conv_nth list_all2_conv_all_nth nth_mem)
        moreover from this have "due_at t p" "ip_ReferenceID q = ip_ReferenceID p"
          using checked_not_due q(2) by (blast, auto simp: checked_def card_terms_def)
        ultimately show "\<not> blank (ip_ReferenceID q)" using less.prems by simp
      qed
      then obtain s' where "reconcile_loop w ctl t ?s = Some s'" "filter (due_at t) (is_payments s') = []"
        using less.hyps [OF lt] by blast
      then show ?thesis using False full by (subst reconcile_loop.simps) (simp add: Let_def)
    qed
  qed
qed

section \<open>Inserts\<close>

lemma intl_CreatePayment_cases:
  assumes "intl_CreatePayment u p s = (r, s')"
  obtains e where "r = Inl e" "s' = s"
  | p' where "r = Inr ()" "s' = s\<lparr>is_payments := is_payments s @ [p']\<rparr>" "intl_key p \<notin> intl_key ` set (is_payments s)"
      "intl_key p' = intl_key p" "ip_MerchantID p' = ip_MerchantID p" "credential_exists (is_routing s) p'"
      "ip_Status p' = ip_Status p" "ip_Amount p' = cents (ip_Amount p)" "ip_TotalAmount p' = cents (ip_TotalAmount p)"
      "uuid_of (is_routing s) (ml_CredentialID p) = Some (ml_CredentialID p')"
proof -
  define index where "index = (if ip_PaymentID p \<in> set (map ip_PaymentID (is_payments s)) then ''international_payments_payment_id_key''
              else ''international_payments_merchant_reference_id_uniq'')"
  define taken where "taken = (ip_PaymentID p \<in> set (map ip_PaymentID (is_payments s)) \<or> intl_key p \<in> set (map intl_key (is_payments s)))"
  show thesis
  proof (cases "insert_link (is_routing s) index taken p")
    case (Inl e)
    then have "r = Inl (StoreError e) \<and> s' = s"
      using assms unfolding intl_CreatePayment_def index_def [symmetric] taken_def [symmetric] by simp
    then show thesis using that(1) by blast
  next
    case (Inr p')
    note i = insert_link_Inr [OF Inr]
    then obtain a c where p': "p' = p\<lparr>ml_RecipientID := a, ml_CredentialID := c\<rparr>" by blast
    let ?q = "p'\<lparr>ip_ID := u, ip_Amount := cents (ip_Amount p'), ip_TotalAmount := cents (ip_TotalAmount p'),
                 ip_CompletedAt := None, ip_LastStatusCheckAt := None\<rparr>"
    have q: "intl_key ?q = intl_key p" "ip_MerchantID ?q = ip_MerchantID p" "ip_Status ?q = ip_Status p"
      "ip_Amount ?q = cents (ip_Amount p)" "ip_TotalAmount ?q = cents (ip_TotalAmount p)"
      by (simp_all add: p' intl_key_def)
    have "credential_exists (is_routing s) ?q" using i by (auto simp: credential_exists_def links_credential_def)
    moreover have "intl_key p \<notin> intl_key ` set (is_payments s)" using i by (simp add: taken_def)
    moreover have "uuid_of (is_routing s) (ml_CredentialID p) = Some (ml_CredentialID ?q)" using i by simp
    moreover have "(\<exists>e. r = Inl e \<and> s' = s) \<or> r = Inr () \<and> s' = s\<lparr>is_payments := is_payments s @ [?q]\<rparr>"
      using assms Inr unfolding intl_CreatePayment_def index_def [symmetric] taken_def [symmetric]
      by (simp split: if_splits) blast+
    ultimately show thesis using that(1) that(2) [of ?q] q by (elim disjE exE conjE; blast)
  qed
qed

definition grows :: "string \<Rightarrow> intl_state \<Rightarrow> intl_state \<Rightarrow> bool" where
  "grows m s s' \<longleftrightarrow> is_routing s' = is_routing s \<and>
     (is_payments s' = is_payments s \<or> (\<exists>p. is_payments s' = is_payments s @ [p] \<and> ip_MerchantID p = m
        \<and> intl_key p \<notin> intl_key ` set (is_payments s) \<and> credential_exists (is_routing s) p \<and> \<not> blank (ip_ReferenceID p)))"

lemma intl_CreatePayment_grows:
  "intl_CreatePayment u p s = (r, s') \<Longrightarrow> \<not> blank (ip_ReferenceID p) \<Longrightarrow>
     grows (ip_MerchantID p) s s' \<and> is_checkouts s' = is_checkouts s"
  by (elim intl_CreatePayment_cases) (auto simp: grows_def intl_key_def)

lemma storeFailed_grows:
  assumes "TrimSpace m = m"
  shows "grows m s (storeFailedInternationalCreate w ctl m req v code msg s)"
    "is_checkouts (storeFailedInternationalCreate w ctl m req v code msg s) = is_checkouts s"
proof -
  have "grows m s (storeFailedInternationalCreate w ctl m req v code msg s)
      \<and> is_checkouts (storeFailedInternationalCreate w ctl m req v code msg s) = is_checkouts s"
  proof (cases "blank m \<or> blank (cr_ReferenceID req)")
    case True
    then show ?thesis by (auto simp: storeFailedInternationalCreate_def grows_def)
  next
    case False
    let ?q = "(intl_record w ctl (TrimSpace m) v req)\<lparr>
           ip_TotalAmount := (if cr_Amount req > 0 then calculateTotalAmount (cr_Amount req) else 0),
           ip_Status := ''failed'', ip_ErrorCode := TrimSpace code, ip_ErrorMessage := TrimSpace msg,
           ip_Description := TrimSpace (cr_Description req)\<rparr>"
    obtain r s1 where c: "intl_CreatePayment (iw_uuid w) ?q s = (r, s1)" by (rule prod.exhaust)
    have q: "ip_MerchantID ?q = m" "\<not> blank (ip_ReferenceID ?q)" using assms False by (simp_all add: intl_record_def)
    have "grows m s s1 \<and> is_checkouts s1 = is_checkouts s" using intl_CreatePayment_grows [OF c q(2)] q(1) by metis
    then show ?thesis using c False by (simp add: storeFailedInternationalCreate_def)
  qed
  then show "grows m s (storeFailedInternationalCreate w ctl m req v code msg s)"
    "is_checkouts (storeFailedInternationalCreate w ctl m req v code msg s) = is_checkouts s" by blast+
qed

lemma intl_refuse_grows:
  "TrimSpace m = m \<Longrightarrow> intl_refuse w ctl m req v st code msg s = (resp, s') \<Longrightarrow> grows m s s' \<and> is_checkouts s' = is_checkouts s"
  using storeFailed_grows [where s = s and w = w and ctl = ctl and req = req and v = v and code = code and msg = msg] by (auto simp: intl_refuse_def)

text \<open>What a checkout leaves: one payload sent, and a row unless the answer is 500.\<close>

lemma intl_checkout_cases:
  assumes "intl_checkout w ctl m req v s = (resp, s')" "TrimSpace m = m"
  obtains er where "s' = s" "gr_StripeClient (ic_Resolver ctl) v = Inl er"
  | s1 where "is_checkouts s' = is_checkouts s @ [(m, checkout_payload ctl v req)]"
      "s1 = s\<lparr>is_checkouts := is_checkouts s @ [(m, checkout_payload ctl v req)]\<rparr>" "status resp = 502" "grows m s1 s'"
  | s1 where "s' = s1" "status resp = 500"
      "s1 = s\<lparr>is_checkouts := is_checkouts s @ [(m, checkout_payload ctl v req)]\<rparr>"
  | p p' s1 where "is_checkouts s' = is_checkouts s @ [(m, checkout_payload ctl v req)]" "status resp = 200"
      "s1 = s\<lparr>is_checkouts := is_checkouts s @ [(m, checkout_payload ctl v req)]\<rparr>"
      "is_payments s' = is_payments s @ [p']" "is_routing s' = is_routing s"
      "intl_key p' = (m, cr_ReferenceID req)" "ip_MerchantID p' = m" "intl_key p' \<notin> intl_key ` set (is_payments s)"
      "credential_exists (is_routing s) p'"
      "ip_Status p' = ''pending''" "ip_Amount p' = cents (cr_Amount req)"
      "ip_TotalAmount p' = cents (calculateTotalAmount (cr_Amount req))"
      "uuid_of (is_routing s) (gc_ID (rg_Credential (rv_Routing v))) = Some (ml_CredentialID p')"
proof (cases "gr_StripeClient (ic_Resolver ctl) v")
  case (Inl er)
  moreover have "s' = s" using assms(1) Inl by (simp add: intl_checkout_def)
  ultimately show thesis by (intro that(1))
next
  case (Inr client)
  define s1 where "s1 = s\<lparr>is_checkouts := is_checkouts s @ [(m, checkout_payload ctl v req)]\<rparr>"
  show thesis
  proof (cases "CreateCheckoutSession (iw_http w) client (checkout_payload ctl v req)")
    case (Inl e)
    then have "s' = storeFailedInternationalCreate w ctl m req v ''PAYMENT_SERVICE_ERROR'' ''Failed to create payment session'' s1"
      "status resp = 502"
      using assms(1) Inr by (auto simp: intl_checkout_def Let_def s1_def api_error_def)
    then show thesis using that(2) [of s1] storeFailed_grows [OF assms(2), where s = s1] by (simp add: s1_def)
  next
    case (Inr sess)
    let ?p = "(intl_record w ctl m v req)\<lparr>ip_StripeSessionID := cs_SessionID sess, ip_CheckoutURL := cs_SessionURL sess\<rparr>"
    obtain r s2 where c: "intl_CreatePayment (iw_uuid w) ?p s1 = (r, s2)" by (rule prod.exhaust)
    have out: "(case (r, s2) of (Inl _, _) \<Rightarrow> s' = s1 \<and> status resp = 500 | (Inr _, s3) \<Rightarrow> s' = s3 \<and> status resp = 200)"
      using assms(1) \<open>gr_StripeClient _ _ = _\<close> Inr c
      by (cases r) (auto simp: intl_checkout_def Let_def s1_def [symmetric] api_error_def)
    from c show thesis
    proof (cases rule: intl_CreatePayment_cases)
      case (1 e)
      then show thesis using out that(3) [of s1] by (simp add: s1_def)
    next
      case (2 p')
      have k: "intl_key ?p = (m, cr_ReferenceID req)" "ip_MerchantID ?p = m" by (simp_all add: intl_record_def intl_key_def)
      show thesis
        by (rule that(4) [of s1 p']) (use out 2 k in \<open>simp_all add: s1_def intl_record_def\<close>)
    qed
  qed
qed

lemma intl_checkout_grows:
  assumes "intl_checkout w ctl m req v s = (resp, s')" "TrimSpace m = m" "\<not> blank (cr_ReferenceID req)"
  shows "grows m s s'"
  using assms by (elim intl_checkout_cases) (auto simp: grows_def intl_key_def)

lemma intl_resolved_cases:
  assumes "intl_resolved w ctl m req v s = (resp, s')" "TrimSpace m = m"
  obtains "grows m s s'" "is_checkouts s' = is_checkouts s"
  | "intl_checkout w ctl m req v s = (resp, s')" "1 \<le> cr_Amount req" "cr_ReferenceID req \<noteq> []"
 "\<not> ReferenceExistsForMerchant m (cr_ReferenceID req) s"
      "m \<in> set (app_ids (is_routing s))" "gr_Value v ''submerchant_id'' \<noteq> []" "gr_Value v ''dk_account'' \<noteq> []"
      "isValidHTTPSURL w (cr_SuccessURL req)" "isValidHTTPSURL w (cr_CancelURL req)"
proof -
  have g: "grows m s s" by (simp add: grows_def)
  show thesis
    using assms(1) that g intl_refuse_grows [OF assms(2), of w ctl req v _ _ _ s resp s']
    by (auto simp: intl_resolved_def Let_def split: if_splits)
qed

lemma CreatePayment_cases:
  assumes "CreatePayment w ctl m r s = (resp, s')"
  obtains "s' = s"
  | req v where "parse_create r = Some req" "TrimSpace (cr_ReferenceID req) = cr_ReferenceID req" "cr_MerchantReference req \<noteq> []"
      "gr_Resolve (ic_Resolver ctl) (is_routing s) m (cr_MerchantReference req) ''stripe'' = Inr v"
      "intl_resolved w ctl m req v s = (resp, s')"
proof -
  have "TrimSpace (cr_ReferenceID req) = cr_ReferenceID req" if "parse_create r = Some req" for req
    using that by (auto simp: parse_create_def split: option.splits if_splits)
  then show thesis using assms that by (auto simp: CreatePayment_def split: option.splits if_splits sum.splits)
qed

lemma CreatePayment_grows:
  assumes "CreatePayment w ctl m r s = (resp, s')" "TrimSpace m = m"
  shows "grows m s s'"
  using assms(1)
proof (cases rule: CreatePayment_cases)
  case (2 req v)
  from 2(5) assms(2) show ?thesis
  proof (cases rule: intl_resolved_cases)
    case 2
    moreover have "\<not> blank (cr_ReferenceID req)" using 2(3) \<open>TrimSpace (cr_ReferenceID req) = _\<close> by (simp add: blank_def)
    ultimately show ?thesis using intl_checkout_grows assms(2) by blast
  qed simp
qed (simp add: grows_def)

section \<open>The ledger of card payments\<close>

inductive card_step :: "string option \<Rightarrow> intl_state \<Rightarrow> intl_state \<Rightarrow> bool" where
  create: "TrimSpace m = m \<Longrightarrow> CreatePayment w ctl m r s = (resp, s') \<Longrightarrow> card_step (Some m) s s'"
| check: "TrimSpace m = m \<Longrightarrow> CheckPaymentStatus w ctl m ref s = (resp, s') \<Longrightarrow> card_step (Some m) s s'"
| reconcile: "reconcileSinglePendingPayment w ctl p (iw_now w) s = (b, s') \<Longrightarrow> card_step (Some (ip_MerchantID p)) s s'"
| routing: "routing_step (is_routing s) rt \<Longrightarrow> card_step None s (s\<lparr>is_routing := rt\<rparr>)"

definition card_inv :: "intl_state \<Rightarrow> bool" where
  "card_inv s \<longleftrightarrow> distinct (map intl_key (is_payments s)) \<and> routing_inv (is_routing s)
     \<and> (\<forall>p \<in> set (is_payments s). \<not> blank (ip_ReferenceID p)
          \<and> (ml_RoutingMode p = ''merchant'' \<longrightarrow> credential_exists (is_routing s) p))"

lemma checked_rows:
  assumes "list_all2 (checked t {(m, r)}) ps ps'"
  shows "map intl_key ps' = map intl_key ps" "card_terms ` set ps' = card_terms ` set ps"
    "b \<noteq> m \<Longrightarrow> filter (\<lambda>p. ip_MerchantID p = b) ps' = filter (\<lambda>p. ip_MerchantID p = b) ps"
    "\<forall>p' \<in> set ps'. \<exists>p \<in> set ps. card_terms p' = card_terms p \<and> ml_RoutingMode p' = ml_RoutingMode p"
proof -
  have "map intl_key ps' = map intl_key ps \<and> map card_terms ps' = map card_terms ps
    \<and> (b \<noteq> m \<longrightarrow> filter (\<lambda>p. ip_MerchantID p = b) ps' = filter (\<lambda>p. ip_MerchantID p = b) ps)
    \<and> (\<forall>p' \<in> set ps'. \<exists>p \<in> set ps. card_terms p' = card_terms p \<and> ml_RoutingMode p' = ml_RoutingMode p)"
    using assms
  proof (induction rule: list_all2_induct)
    case (Cons p ps p' ps')
    have k: "card_terms p' = card_terms p" "ml_RoutingMode p' = ml_RoutingMode p" "intl_key p' = intl_key p"
        "ip_MerchantID p' = ip_MerchantID p" "ip_MerchantID p \<noteq> m \<longrightarrow> p' = p"
      using Cons(1) card_terms_key [of p' p] by (auto simp: checked_def intl_key_def split: if_splits)
    then show ?case using Cons.IH by auto
  qed simp
  then show "map intl_key ps' = map intl_key ps" "card_terms ` set ps' = card_terms ` set ps"
    "b \<noteq> m \<Longrightarrow> filter (\<lambda>p. ip_MerchantID p = b) ps' = filter (\<lambda>p. ip_MerchantID p = b) ps"
    "\<forall>p' \<in> set ps'. \<exists>p \<in> set ps. card_terms p' = card_terms p \<and> ml_RoutingMode p' = ml_RoutingMode p"
    using set_map by metis+
qed

text \<open>A step of one merchant adds a row of the merchant or checks one of its rows.\<close>

lemma card_step_effect:
  assumes "card_step (Some m) s s'"
  shows "grows m s s' \<or> (is_routing s' = is_routing s \<and> (\<exists>t r. list_all2 (checked t {(m, r)}) (is_payments s) (is_payments s')))"
  using assms
proof (cases rule: card_step.cases)
  case (create w ctl r resp)
  then show ?thesis using CreatePayment_grows by blast
next
  case (check w ctl ref resp)
  show ?thesis
  proof (cases "s' = s")
    case True
    then show ?thesis by (simp add: grows_def)
  next
    case False
    then obtain p where p: "GetPaymentByReferenceForMerchant m ref s = Inr p"
        "s' = snd (reconcileSinglePendingPayment w ctl p (iw_now w) s)"
      using check(2) by (auto simp: CheckPaymentStatus_def split: if_splits sum.splits option.splits prod.splits)
    then have "ip_MerchantID p = m"
      using check(1) by (auto simp: GetPaymentByReferenceForMerchant_def first_row_def find_Some_iff split: option.splits)
    then show ?thesis using reconcile_single_rows(1,2) [OF refl, where w = w and p = p and s = s and ctl = ctl] p(2) by (auto simp: intl_key_def)
  qed
next
  case (reconcile w ctl p b)
  then show ?thesis using reconcile_single_rows(1,2) [OF refl, where w = w and p = p and s = s and ctl = ctl] by (auto simp: intl_key_def)
qed

interpretation card: ledger card_inv card_step is_payments ip_MerchantID card_terms
proof unfold_locales
  fix s a s' assume i: "card_inv s" and st: "card_step a s s'"
  have cred: "credential_exists rt p" if "routing_step (is_routing s) rt" "credential_exists (is_routing s) p"
    for p :: InternationalPayment and rt
    using credential_exists_step [OF _ that] i by (simp add: card_inv_def)
  show "card_inv s'"
  proof (cases a)
    case None
    from st [unfolded None] show ?thesis
    proof (cases rule: card_step.cases)
      case (routing rt)
      then show ?thesis using i routing_step_inv [OF routing(2)] cred [OF routing(2)] by (simp add: card_inv_def)
    qed
  next
    case (Some m)
    from card_step_effect [OF st [unfolded Some]] show ?thesis
    proof (elim disjE conjE exE)
      fix t r assume c: "is_routing s' = is_routing s" "list_all2 (checked t {(m, r)}) (is_payments s) (is_payments s')"
      note k = checked_rows [OF c(2)]
      have same: "credential_exists (is_routing s) p' = credential_exists (is_routing s) p" "ip_ReferenceID p' = ip_ReferenceID p"
        if "card_terms p' = card_terms p" for p p'
        using that by (simp_all add: card_terms_def link_of_def credential_exists_def links_credential_def)
      have "\<not> blank (ip_ReferenceID p') \<and> (ml_RoutingMode p' = ''merchant'' \<longrightarrow> credential_exists (is_routing s) p')"
        if "p' \<in> set (is_payments s')" for p'
      proof -
        from k(4) [rule_format, OF that]
        obtain p where p: "p \<in> set (is_payments s)" "card_terms p' = card_terms p" "ml_RoutingMode p' = ml_RoutingMode p"
          by (elim bexE conjE) (rule that)
        have old: "\<not> blank (ip_ReferenceID p) \<and> (ml_RoutingMode p = ''merchant'' \<longrightarrow> credential_exists (is_routing s) p)"
          using i p(1) by (simp add: card_inv_def)
        show ?thesis using old unfolding same [OF p(2)] p(3) .
      qed
      moreover have "distinct (map intl_key (is_payments s'))" "routing_inv (is_routing s')"
        using i unfolding card_inv_def k(1) c(1) by blast+
      ultimately show ?thesis unfolding card_inv_def c(1) by blast
    qed (use i in \<open>auto simp: grows_def card_inv_def\<close>)
  qed
  show "card_terms ` set (is_payments s) \<subseteq> card_terms ` set (is_payments s')"
  proof (cases a)
    case None
    from st [unfolded None] show ?thesis by (cases rule: card_step.cases) auto
  next
    case (Some m)
    from card_step_effect [OF st [unfolded Some]] show ?thesis
      using checked_rows(2) by (auto simp: grows_def)
  qed
  fix b assume "a \<noteq> Some b"
  then show "filter (\<lambda>r. ip_MerchantID r = b) (is_payments s') = filter (\<lambda>r. ip_MerchantID r = b) (is_payments s)"
  proof (cases a)
    case None
    from st [unfolded None] show ?thesis by (cases rule: card_step.cases) auto
  next
    case (Some m)
    then have "b \<noteq> m" using \<open>a \<noteq> Some b\<close> by simp
    then show ?thesis using card_step_effect [OF st [unfolded Some]] checked_rows(3) by (auto simp: grows_def)
  qed
qed

end
