(* ===== verification/IntlProps.thy ===== *)
theory IntlProps
  imports IntlLaws BusinessDemo
begin

text \<open>Properties of card payments, with the example their witnesses run on.\<close>

section \<open>The example\<close>

text \<open>The app A takes card payments for the merchant reference hotel; the gateway answers every checkout with a session.\<close>

definition card_values :: json where
  "card_values = JObj [(''dk_account'', JStr ''100''), (''submerchant_id'', JStr ''sm'')]"

definition card_sealed :: json where
  "card_sealed = JObj [(''version'', jint encryptionVersion), (''nonce'', JStr (StdEncode ''abcdefghijkl'')),
     (''ciphertext'', JStr (StdEncode (Seal toy_aead ''abcdefghijkl'' (writeCanonical card_values) ''c1:r1:stripe:1'')))]"

definition card_credential :: GatewayCredentialConfiguration where
  "card_credential = demo_credential\<lparr>gc_Provider := ''stripe'', gc_EncryptedCredentials := card_sealed\<rparr>"

definition card_routing :: routing_db where
  "card_routing = demo_db\<lparr>credentials := [card_credential], app_ids := [''A'', ''B'']\<rparr>"

definition card_resolver :: gateway_resolver where
  "card_resolver = \<lparr> gr_Cipher = Some toy_aead,
     gr_Cfg = (Load id [] (\<lambda>_. []))\<lparr>StripeBaseURL := ''https://st'', StripeAPIKey := ''k'', StripeAgencyName := ''agency'',
       StripeCurrency := ''usd''\<rparr> \<rparr>"

definition card_ctl :: intl_controller where
  "card_ctl = \<lparr> ic_StripeClient = None, ic_Cfg = gr_Cfg card_resolver, ic_Resolver = card_resolver \<rparr>"

definition card_checkout :: string where
  "card_checkout = writeCanonical (JObj [(''response_code'', JStr ''0000''),
     (''response_data'', JObj [(''session_id'', JStr ''cs_1''), (''session_url'', JStr ''https://pay'')])])"

definition card_yes :: string where
  "card_yes = writeCanonical (JObj [(''response_code'', JStr ''0000''), (''response_data'', JBool True)])"

definition card_world :: intl_world where
  "card_world = \<lparr> iw_http = (\<lambda>q. Inr (200, if hq_method q = ''POST'' then card_checkout else card_yes)),
     iw_now = 2000 * minute, iw_uuid = ''u1'', iw_payment_id = ''pi_1'', iw_parse_url = (\<lambda>_. Some (''https'', ''shop'')) \<rparr>"

definition card_body :: "(string \<times> json) list" where
  "card_body = [(''merchant_reference'', JStr ''hotel''), (''amount'', JNum 5), (''reference_id'', JStr ''R1''),
     (''success_url'', JStr ''https://shop/ok''), (''cancel_url'', JStr ''https://shop/no''),
     (''dk_account'', JStr ''666'')]"

definition card_request :: request where
  "card_request = pay_request\<lparr>r_body := Some (JObj card_body)\<rparr>"

definition card_start :: intl_state where
  "card_start = \<lparr> is_routing = card_routing, is_payments = [], is_logs = [], is_checkouts = [] \<rparr>"

lemma card_credential_simps [simp]:
  "gc_ID card_credential = ''c1''" "gc_RecipientID card_credential = ''r1''" "gc_Provider card_credential = ''stripe''"
  "gc_Version card_credential = 1" "gc_Status card_credential = ''active''" "gc_EncryptedCredentials card_credential = card_sealed"
  by (simp_all add: card_credential_def demo_credential_def)

lemma card_decrypt: "Decrypt (Some toy_aead) (Some card_sealed) ''c1:r1:stripe:1'' = Inr (writeCanonical card_values)"
proof -
  have "Open toy_aead ''abcdefghijkl'' (Seal toy_aead ''abcdefghijkl'' (writeCanonical card_values) ''c1:r1:stripe:1'') ''c1:r1:stripe:1''
      = Some (writeCanonical card_values)"
    using toy_aead_law by (simp add: aead_law_def NonceSize_def)
  then show ?thesis by (simp add: card_sealed_def Decrypt_def decode_envelope_Encrypt NonceSize_def)
qed

lemma card_unmarshal: "Unmarshal (writeCanonical card_values) = Some card_values"
  by code_simp

definition card_gateway :: "string \<Rightarrow> string" where
  "card_gateway = (\<lambda>k. case jget [(''dk_account'', JStr ''100''), (''submerchant_id'', JStr ''sm'')] k of Some (JStr s) \<Rightarrow> s | _ \<Rightarrow> [])"

definition card_route :: ResolvedGatewayConfiguration where
  "card_route = \<lparr> rg_ExternalAppID = ''A'', rg_ExternalMerchantReference = ''hotel'', rg_RecipientID = ''r1'',
     rg_RecipientName = ''Hotel'', rg_Credential = card_credential \<rparr>"

definition card_resolved :: ResolvedGateway where
  "card_resolved = \<lparr> rv_Routing = card_route, rv_Values = card_gateway \<rparr>"

lemma card_opens:
  assumes "rg_Credential x = card_credential"
  shows "gr_decrypt card_resolver x = Inr \<lparr> rv_Routing = x, rv_Values = card_gateway \<rparr>"
proof -
  have "gr_additional_data card_credential = ''c1:r1:stripe:1''"
    by (simp add: gr_additional_data_def CredentialAdditionalData_def int_text_def nat_text.simps digit_char_def digits_def
        TrimSpace_def is_space_def)
  moreover have "string_map (Some card_values) = Some card_gateway"
    by (simp add: string_map_def card_values_def card_gateway_def)
  ultimately show ?thesis
    by (simp add: gr_decrypt_def assms card_resolver_def card_decrypt card_unmarshal)
qed

lemma card_resolves: "gr_Resolve card_resolver card_routing ''A'' ''hotel'' ''stripe'' = Inr card_resolved"
proof -
  have "ResolveActive ''A'' ''hotel'' ''stripe'' card_routing = Inr card_route"
    by (simp add: ResolveActive_def routes_def card_routing_def demo_db_def card_route_def gc_active_def TrimSpace_def is_space_def)
  moreover have "gr_Cipher card_resolver \<noteq> None" by (simp add: card_resolver_def)
  ultimately show ?thesis
    using card_opens [of card_route] by (simp add: gr_Resolve_def card_route_def card_resolved_def TrimSpace_def is_space_def)
qed

lemma card_inv_start: "card_inv card_start"
proof -
  have "versions key card_routing = (if key = (''r1'', ''stripe'') then [1] else [])" for key
    by (auto simp: card_routing_def versions_def demo_db_def gc_key_def)
  moreover have "counting 1 = [1]" by (simp add: counting_def)
  ultimately have "versions key card_routing = counting (length (versions key card_routing))" for key by simp
  then have "routing_ok card_routing"
    unfolding routing_ok_def
    by (simp add: card_routing_def demo_db_def providers_def statuses_def)
  moreover have "canonical card_routing"
    using demo_uuid_law
    by (simp add: canonical_def card_routing_def demo_db_def demo_uuid_def TrimSpace_def is_space_def)
  ultimately have "routing_inv card_routing" by (simp add: routing_inv_def)
  then show ?thesis by (simp add: card_inv_def card_start_def)
qed

section \<open>Lemmas of the properties\<close>

lemma CreatePayment_sends:
  assumes "CreatePayment w ctl m r s = (resp, s')" "TrimSpace m = m" "is_checkouts s' \<noteq> is_checkouts s"
  obtains req v where "parse_create r = Some req"
    "gr_Resolve (ic_Resolver ctl) (is_routing s) m (cr_MerchantReference req) ''stripe'' = Inr v"
    "\<not> ReferenceExistsForMerchant m (cr_ReferenceID req) s" "\<not> blank (cr_ReferenceID req)"
    "TrimSpace (cr_ReferenceID req) = cr_ReferenceID req" "1 \<le> cr_Amount req"
    "intl_checkout w ctl m req v s = (resp, s')"
  using assms(1)
proof (cases rule: CreatePayment_cases)
  case 1
  then show thesis using assms(3) by simp
next
  case (2 req v)
  from 2(5) assms(2) show thesis
  proof (cases rule: intl_resolved_cases)
    case 1
    then show thesis using assms(3) by simp
  next
    case 3: 2
    show thesis
      by (rule that [of req v]) (use 2 3 in \<open>simp_all add: blank_def\<close>)
  qed
qed

text \<open>A status check whose gateway says yes completes every row of the payment's key.\<close>

lemma reconcile_completes:
  assumes "stripeClientForPayment ctl (is_routing s) p = Inr c"
    and "CheckApplicationStatus (iw_http w) c (ip_ReferenceID p) = (Inr resp, logs)" "as_ResponseData resp"
    and "reconcileSinglePendingPayment w ctl p t s = (b, s')" "q \<in> set (is_payments s')" "intl_key q = intl_key p"
  shows "ip_Status q = ''completed''"
proof -
  let ?s = "s\<lparr>is_logs := is_logs s @ logs\<rparr>"
  obtain r s1 where u: "UpdatePaymentStatus (iw_now w) (ip_MerchantID p) (ip_ReferenceID p) ''completed'' ?s = (r, s1)"
    by (rule prod.exhaust)
  then have "s' = s1" using assms(1-4) by (cases r) (simp_all add: reconcileSinglePendingPayment_def)
  then have "is_payments s' = map (\<lambda>p'. if intl_key p' = intl_key p then p'\<lparr>ip_Status := ''completed'',
       ip_CompletedAt := Some (iw_now w), ip_LastStatusCheckAt := Some (iw_now w), ip_UpdatedAt := iw_now w\<rparr> else p') (is_payments s)"
    using u by (auto simp: UpdatePaymentStatus_def intl_update_def intl_key_def)
  then show ?thesis using assms(5,6) by (auto simp: intl_key_def split: if_splits)
qed

section \<open>Properties\<close>

text \<open>
  C5: a checkout names the recipient's own account.  When a card payment opens a
  checkout, exactly one payload is sent; its account and submerchant are those of
  the credential that the caller's mapping resolves to, whatever the request
  says, for a reference the caller has not used and at least one dollar; an
  answer 200 leaves the payment stored as pending under the caller and that credential.
\<close>
theorem card_payment_pays_merchant:
  assumes "CreatePayment w ctl m r s = (resp, s')" "TrimSpace m = m" "m \<noteq> []" "is_checkouts s' \<noteq> is_checkouts s"
  shows "\<exists>req v kvs. parse_create r = Some req
    \<and> gr_Resolve (ic_Resolver ctl) (is_routing s) m (cr_MerchantReference req) ''stripe'' = Inr v
    \<and> is_checkouts s' = is_checkouts s @ [(m, JObj kvs)]
    \<and> jget kvs ''dk_account'' = Some (JStr (gr_Value v ''dk_account''))
    \<and> jget kvs ''submerchant_id'' = Some (JStr (gr_Value v ''submerchant_id''))
    \<and> jget kvs ''agency_name'' = Some (JStr (gr_AgencyName (ic_Resolver ctl)))
    \<and> jget kvs ''application_no'' = Some (JStr (cr_ReferenceID req)) \<and> jget kvs ''amount'' = Some (JNum (cr_Amount req))
    \<and> 1 \<le> cr_Amount req \<and> (m, cr_ReferenceID req) \<notin> intl_key ` set (is_payments s)
    \<and> (status resp = 200 \<longrightarrow> (\<exists>p. is_payments s' = is_payments s @ [p] \<and> intl_key p = (m, cr_ReferenceID req)
          \<and> ip_Status p = ''pending'' \<and> ip_Amount p = cents (cr_Amount req)
          \<and> uuid_of (is_routing s) (gc_ID (rg_Credential (rv_Routing v))) = Some (ml_CredentialID p)))"
proof -
  obtain req v where g: "parse_create r = Some req"
    "gr_Resolve (ic_Resolver ctl) (is_routing s) m (cr_MerchantReference req) ''stripe'' = Inr v"
    "\<not> ReferenceExistsForMerchant m (cr_ReferenceID req) s" "\<not> blank (cr_ReferenceID req)"
    "TrimSpace (cr_ReferenceID req) = cr_ReferenceID req" "1 \<le> cr_Amount req"
    "intl_checkout w ctl m req v s = (resp, s')"
    using CreatePayment_sends [OF assms(1,2,4)] by blast
  have "\<not> blank m" using assms(2,3) by (simp add: blank_def)
  then have new: "(m, cr_ReferenceID req) \<notin> intl_key ` set (is_payments s)"
    using g(3,4,5) assms(2) by (simp add: ReferenceExistsForMerchant_def)
  have sent: "is_checkouts s' = is_checkouts s @ [(m, checkout_payload ctl v req)]
      \<and> (status resp = 200 \<longrightarrow> (\<exists>p. is_payments s' = is_payments s @ [p] \<and> intl_key p = (m, cr_ReferenceID req)
          \<and> ip_Status p = ''pending'' \<and> ip_Amount p = cents (cr_Amount req)
          \<and> uuid_of (is_routing s) (gc_ID (rg_Credential (rv_Routing v))) = Some (ml_CredentialID p)))"
    using g(7) assms(2)
  proof (cases rule: intl_checkout_cases)
    case 1
    then show ?thesis using assms(4) by simp
  qed simp_all
  obtain kvs where k: "checkout_payload ctl v req = JObj kvs"
      "jget kvs ''dk_account'' = Some (JStr (gr_Value v ''dk_account''))"
      "jget kvs ''submerchant_id'' = Some (JStr (gr_Value v ''submerchant_id''))"
      "jget kvs ''agency_name'' = Some (JStr (gr_AgencyName (ic_Resolver ctl)))"
      "jget kvs ''application_no'' = Some (JStr (cr_ReferenceID req))" "jget kvs ''amount'' = Some (JNum (cr_Amount req))"
    by (simp add: checkout_payload_def jget_def)
  then show ?thesis using g(1,2,6) new sent by auto
qed

text \<open>
  C6: the background job ends.  From the table of any history that began with a sound
  table, one run of the job returns, however many payments are pending, and leaves no
  payment due for a check.
\<close>
theorem card_job_ends:
  assumes "(\<lambda>s s'. \<exists>a. card_step a s s')\<^sup>*\<^sup>* s0 s" "card_inv s0"
  shows "\<exists>s'. reconcilePendingPayments w ctl s = Some s'
    \<and> filter (due (iw_now w - pendingStatusCheckInterval) (iw_now w - pendingStatusCheckMaxAge)) (is_payments s') = []"
proof -
  have "card_inv s" using card.history_inv [of "\<lambda>_. True" s0 s] assms by (simp add: card.history_def)
  then have "\<forall>p \<in> set (is_payments s). due_at (iw_now w) p \<longrightarrow> \<not> blank (ip_ReferenceID p)"
    by (simp add: card_inv_def)
  from reconcile_loop_ends [OF this refl] show ?thesis by (simp add: reconcilePendingPayments_def)
qed

text \<open>
  Card payments of different apps do not touch each other.  Whatever other apps
  and the administrators do, the rows of an app stay as they are, status included.
\<close>
lemma card_tenants_isolated:
  assumes "(\<lambda>s s'. \<exists>a. a \<noteq> Some b \<and> card_step a s s')\<^sup>*\<^sup>* s s'" "card_inv s"
  shows "filter (\<lambda>p. ip_MerchantID p = b) (is_payments s') = filter (\<lambda>p. ip_MerchantID p = b) (is_payments s)"
  by (rule card.isolation) (use assms in \<open>simp_all add: card.history_def\<close>)

text \<open>
  C8: the gateway is asked about a reference, not about a payment.  Two apps may use the
  same reference, as only the pair of app and reference is unique; when the gateway
  answers yes for it, which one payer brings about, checking the two payments
  completes both.
\<close>
theorem shared_reference_completes_both:
  assumes "ip_ReferenceID q = ip_ReferenceID p" "ip_MerchantID q \<noteq> ip_MerchantID p"
    and "stripeClientForPayment ctl (is_routing s) p = Inr c" "stripeClientForPayment ctl (is_routing s) q = Inr c"
    and "CheckApplicationStatus (iw_http w) c (ip_ReferenceID p) = (Inr resp, logs)" "as_ResponseData resp"
    and "reconcileSinglePendingPayment w ctl p t s = (b, s1)" "reconcileSinglePendingPayment w ctl q t s1 = (b', s2)" "t = iw_now w"
  shows "\<forall>x \<in> set (is_payments s2). intl_key x \<in> {intl_key p, intl_key q} \<longrightarrow> ip_Status x = ''completed''"
proof (intro ballI impI)
  fix x assume x: "x \<in> set (is_payments s2)" "intl_key x \<in> {intl_key p, intl_key q}"
  have rt: "is_routing s1 = is_routing s"
    using reconcile_single_rows(2) [OF assms(9), where p = p and s = s and ctl = ctl] assms(7) by simp
  show "ip_Status x = ''completed''"
  proof (cases "intl_key x = intl_key q")
    case True
    show ?thesis
      by (rule reconcile_completes [OF _ _ assms(6) assms(8) x(1) True]) (use assms(1,4,5) rt in simp_all)
  next
    case False
    have "list_all2 (checked t {intl_key q}) (is_payments s1) (is_payments s2)"
      using reconcile_single_rows(1) [OF assms(9), where p = q and s = s1 and ctl = ctl] assms(8) by simp
    then obtain y where y: "y \<in> set (is_payments s1)" "checked t {intl_key q} y x"
      using x(1) by (metis in_set_conv_nth list_all2_conv_all_nth)
    then have "intl_key x = intl_key y" using card_terms_key [of x y] by (simp add: checked_def)
    then have "x = y" using False y(2) by (simp add: checked_def)
    then show ?thesis using reconcile_completes [OF assms(3,5,6,7) y(1)] x(2) False by simp
  qed
qed

text \<open>
  The fees are rounded once.  The total of a card payment is the amount with the two percentages and the
  fixed fee, up to half a cent, and a whole number of cents.
\<close>
lemma total_amount_rounds:
  "\<bar>calculateTotalAmount a - (a * (1 + 485 / 10000) + 60 / 100)\<bar> \<le> 1 / 200 \<and> (\<exists>k. calculateTotalAmount a = of_int k / 100)"
proof -
  have r: "\<bar>of_int (math_Round q) - q\<bar> \<le> 1 / 2" for q
  proof (cases "q < 0")
    case True
    have "of_int (floor (- q + 1 / 2)) \<le> - q + 1 / 2" "- q + 1 / 2 < of_int (floor (- q + 1 / 2) + 1)"
      using floor_correct [of "- q + 1 / 2"] by blast+
    then show ?thesis unfolding math_Round_def if_P [OF True] of_int_minus of_int_add of_int_1 by linarith
  next
    case False
    have "of_int (floor (q + 1 / 2)) \<le> q + 1 / 2" "q + 1 / 2 < of_int (floor (q + 1 / 2) + 1)"
      using floor_correct [of "q + 1 / 2"] by blast+
    then show ?thesis unfolding math_Round_def if_not_P [OF False] of_int_minus of_int_add of_int_1 by linarith
  qed
  let ?q = "(a * (1 + 485 / 10000) + 60 / 100) * 100"
  have e: "calculateTotalAmount a = of_int (math_Round ?q) / 100"
    unfolding calculateTotalAmount_def Let_def by (simp add: algebra_simps)
  moreover have "\<bar>of_int (math_Round ?q) / 100 - ?q / 100\<bar> \<le> 1 / 200"
    using r [of ?q] by linarith
  moreover have "?q / 100 = a * (1 + 485 / 10000) + 60 / 100" by simp
  ultimately show ?thesis by metis
qed

section \<open>Witnesses\<close>

definition card_req :: intl_create where
  "card_req = \<lparr> cr_MerchantReference = ''hotel'', cr_Amount = 5, cr_ReferenceID = ''R1'', cr_Description = [],
     cr_SuccessURL = ''https://shop/ok'', cr_CancelURL = ''https://shop/no'' \<rparr>"

lemma card_parse: "parse_create card_request = Some card_req"
  by code_simp

lemma card_values_at [simp]:
  "gr_Value card_resolved ''submerchant_id'' = ''sm''" "gr_Value card_resolved ''dk_account'' = ''100''"
  by (simp_all add: gr_Value_def card_resolved_def card_gateway_def jget_def TrimSpace_def is_space_def)

definition card_client :: stripe_client where
  "card_client = stripe_NewClient ''https://st'' ''k''"

lemma card_has_client:
  assumes "rg_Credential (rv_Routing v) = card_credential" "rv_Values v = card_gateway"
  shows "gr_StripeClient card_resolver v = Inr card_client"
  by (simp add: gr_StripeClient_def assms card_resolver_def requireEnv_def card_gateway_def jget_def TrimSpace_def is_space_def
      card_client_def)

lemma card_session: "CreateCheckoutSession (iw_http card_world) card_client p = Inr \<lparr> cs_ResponseCode = ''0000'', cs_ResponseMessage = [],
    cs_ResponseDescription = [], cs_SessionID = ''cs_1'', cs_SessionURL = ''https://pay'' \<rparr>"
proof -
  have "parse_checkout card_checkout = Some \<lparr> cs_ResponseCode = ''0000'', cs_ResponseMessage = [], cs_ResponseDescription = [],
      cs_SessionID = ''cs_1'', cs_SessionURL = ''https://pay'' \<rparr>" by code_simp
  then show ?thesis by (simp add: CreateCheckoutSession_def card_world_def checkout_request_def success_status_def)
qed

lemma card_creates:
  obtains resp s' where "CreatePayment card_world card_ctl ''A'' card_request card_start = (resp, s')" "status resp = 200"
    "is_checkouts s' \<noteq> is_checkouts card_start"
proof -
  obtain x where x:  "CreateCheckoutSession (iw_http card_world) card_client (checkout_payload card_ctl card_resolved card_req) = Inr x"
    and sid: "length (cs_SessionID x) \<le> 255"
    using card_session by simp
  let ?p = "(intl_record card_world card_ctl ''A'' card_resolved card_req)\<lparr>ip_StripeSessionID := cs_SessionID x, ip_CheckoutURL := cs_SessionURL x\<rparr>"
  have tot: "calculateTotalAmount 5 = 584 / 100"
  proof -
    have "\<lfloor>2339 / 4 :: rat\<rfloor> = 584" by (simp add: floor_eq_iff)
    then show ?thesis by (simp add: calculateTotalAmount_def math_Round_def Let_def)
  qed
  have fits: "fits_columns (?p\<lparr>ml_RecipientID := ''r1'', ml_CredentialID := ''c1''\<rparr>)"
    using sid by (simp add: fits_columns_def intl_record_def card_req_def card_world_def cents_def math_Round_def tot
        resolvedStripeCurrency_def card_ctl_def card_resolver_def str_eval card_resolved_def card_route_def)
  have link: "insert_link card_routing ''international_payments_merchant_reference_id_uniq'' False ?p
      = Inr (?p\<lparr>ml_RecipientID := ''r1'', ml_CredentialID := ''c1''\<rparr>)"
    by (simp add: insert_link_def validateMerchantRouting_def cast_link_def intl_record_def card_resolved_def card_route_def
        credential_exists_def links_credential_def card_routing_def demo_db_def demo_uuid_def TrimSpace_def is_space_def blank_def card_req_def)
  have url: "isValidHTTPSURL card_world u" for u by (simp add: isValidHTTPSURL_def card_world_def)
  let ?s = "card_start\<lparr>is_checkouts := is_checkouts card_start @ [(''A'', checkout_payload card_ctl card_resolved card_req)]\<rparr>"
  have stored: "\<exists>s'. intl_CreatePayment (iw_uuid card_world) ?p ?s = (Inr (), s') \<and> is_checkouts s' = is_checkouts ?s"
    using link fits by (simp add: intl_CreatePayment_def card_start_def intl_record_def) (simp add: card_routing_def)
  then obtain s' where st: "intl_CreatePayment (iw_uuid card_world) ?p ?s = (Inr (), s')" "is_checkouts s' = is_checkouts ?s" by blast
  have out: "\<exists>resp. intl_checkout card_world card_ctl ''A'' card_req card_resolved card_start = (resp, s') \<and> status resp = 200"
    using x st(1) card_has_client [of card_resolved]
    by (simp add: intl_checkout_def Let_def card_resolved_def card_route_def card_ctl_def)
  have "intl_resolved card_world card_ctl ''A'' card_req card_resolved card_start
      = intl_checkout card_world card_ctl ''A'' card_req card_resolved card_start"
    by (simp add: intl_resolved_def Let_def url ReferenceExistsForMerchant_def card_start_def card_routing_def)
      (simp add: card_req_def card_ctl_def card_resolver_def gr_AgencyName_def TrimSpace_def is_space_def)
  moreover have "CreatePayment card_world card_ctl ''A'' card_request card_start
      = intl_resolved card_world card_ctl ''A'' card_req card_resolved card_start"
    using card_resolves by (simp add: CreatePayment_def card_parse card_req_def card_ctl_def card_start_def)
  ultimately show thesis using out that [of _ s'] st(2) by auto
qed

theorem card_payment_pays_merchant_witness:
  "\<exists>resp s' kvs p. CreatePayment card_world card_ctl ''A'' card_request card_start = (resp, s')
     \<and> is_checkouts s' = [(''A'', JObj kvs)] \<and> jget kvs ''dk_account'' = Some (JStr ''100'')
     \<and> jget card_body ''dk_account'' = Some (JStr ''666'')
     \<and> is_payments s' = [p] \<and> intl_key p = (''A'', ''R1'') \<and> ip_Status p = ''pending''"
proof -
  obtain resp s' where r: "CreatePayment card_world card_ctl ''A'' card_request card_start = (resp, s')" "status resp = 200"
      "is_checkouts s' \<noteq> is_checkouts card_start"
    by (rule card_creates)
  obtain req v kvs p where x: "parse_create card_request = Some req"
      "gr_Resolve (ic_Resolver card_ctl) (is_routing card_start) ''A'' (cr_MerchantReference req) ''stripe'' = Inr v"
      "is_checkouts s' = is_checkouts card_start @ [(''A'', JObj kvs)]"
      "jget kvs ''dk_account'' = Some (JStr (gr_Value v ''dk_account''))"
      "is_payments s' = is_payments card_start @ [p]" "intl_key p = (''A'', cr_ReferenceID req)" "ip_Status p = ''pending''"
    using card_payment_pays_merchant [OF r(1) _ _ r(3)] r(2) by (auto simp: TrimSpace_def is_space_def)
  have "req = card_req" using x(1) card_parse by simp
  then have "v = card_resolved" using x(2) card_resolves by (simp add: card_req_def card_ctl_def card_start_def)
  moreover have "is_checkouts card_start = []" "is_payments card_start = []" by (simp_all add: card_start_def)
  moreover have "jget card_body ''dk_account'' = Some (JStr ''666'')" by (simp add: card_body_def jget_def)
  ultimately show ?thesis using r(1) x(3-7) \<open>req = card_req\<close> by (auto simp: card_req_def)
qed

text \<open>Two pending payments of two apps with one reference.\<close>

definition card_row :: "string \<Rightarrow> InternationalPayment" where
  "card_row m = (intl_record card_world card_ctl m card_resolved card_req)\<lparr>ip_PaymentID := ''pi_'' @ m\<rparr>"

definition card_shared :: intl_state where
  "card_shared = card_start\<lparr>is_payments := [card_row ''A'', card_row ''B'']\<rparr>"

lemma card_row_simps [simp]:
  "ip_ReferenceID (card_row m) = ''R1''" "ip_MerchantID (card_row m) = m" "intl_key (card_row m) = (m, ''R1'')"
  "ml_CredentialID (card_row m) = ''c1''" "ip_Status (card_row m) = ''pending''" "ml_RoutingMode (card_row m) = ''merchant''"
  by (simp_all add: card_row_def intl_record_def card_req_def intl_key_def card_resolved_def card_route_def)

lemma card_row_client: "stripeClientForPayment card_ctl card_routing (card_row m) = Inr card_client"
proof -
  have "GetCredential ''c1'' card_routing = Inr card_credential"
    by (simp add: GetCredential_def card_routing_def find_credential_def demo_db_def demo_uuid_def TrimSpace_def is_space_def)
  moreover have "gr_Cipher card_resolver \<noteq> None" by (simp add: card_resolver_def)
  ultimately have "\<exists>v. gr_ResolveCredential card_resolver card_routing ''c1'' = Inr v
      \<and> rg_Credential (rv_Routing v) = card_credential \<and> rv_Values v = card_gateway"
    by (simp add: gr_ResolveCredential_def card_opens TrimSpace_def is_space_def)
  then show ?thesis using card_has_client by (auto simp: stripeClientForPayment_def card_ctl_def)
qed

lemma card_shared_inv: "card_inv card_shared"
proof -
  have "credential_exists card_routing (card_row m)" for m
    by (simp add: credential_exists_def links_credential_def card_routing_def card_row_def intl_record_def card_resolved_def card_route_def)
  then show ?thesis using card_inv_start by (simp add: card_inv_def card_shared_def card_start_def blank_def TrimSpace_def is_space_def)
qed

lemma card_asks: "\<exists>x logs. CheckApplicationStatus (iw_http card_world) c n = (Inr x, logs) \<and> as_ResponseData x"
proof -
  have "parse_application_status card_yes = Some \<lparr> as_ResponseCode = ''0000'', as_ResponseMessage = [], as_ResponseDescription = [],
      as_ResponseData = True \<rparr>" by code_simp
  then show ?thesis by (simp add: CheckApplicationStatus_def card_world_def application_status_request_def)
qed

theorem shared_reference_completes_both_witness:
  "\<exists>b s1 b' s2. reconcileSinglePendingPayment card_world card_ctl (card_row ''A'') (iw_now card_world) card_shared = (b, s1)
     \<and> reconcileSinglePendingPayment card_world card_ctl (card_row ''B'') (iw_now card_world) s1 = (b', s2)
     \<and> map intl_key (is_payments s2) = [(''A'', ''R1''), (''B'', ''R1'')] \<and> map ip_Status (is_payments s2) = [''completed'', ''completed'']"
proof -
  obtain b s1 where r1: "reconcileSinglePendingPayment card_world card_ctl (card_row ''A'') (iw_now card_world) card_shared = (b, s1)"
    by (rule prod.exhaust)
  obtain b' s2 where r2: "reconcileSinglePendingPayment card_world card_ctl (card_row ''B'') (iw_now card_world) s1 = (b', s2)"
    by (rule prod.exhaust)
  obtain x logs where x: "CheckApplicationStatus (iw_http card_world) card_client ''R1'' = (Inr x, logs)" "as_ResponseData x"
    using card_asks by blast
  have c: "stripeClientForPayment card_ctl (is_routing card_shared) (card_row m) = Inr card_client" for m
    using card_row_client by (simp add: card_shared_def card_start_def)
  have all: "\<forall>y \<in> set (is_payments s2). intl_key y \<in> {(''A'', ''R1''), (''B'', ''R1'')} \<longrightarrow> ip_Status y = ''completed''"
    using shared_reference_completes_both [OF _ _ c c _ x(2) r1 r2 refl] x(1) by simp
  have "map intl_key (is_payments s1) = map intl_key (is_payments card_shared)"
    using checked_rows(1) reconcile_single_rows(1) [OF refl, where w = card_world and p = "card_row ''A''" and s = card_shared and ctl = card_ctl] r1
    by simp
  moreover have "map intl_key (is_payments s2) = map intl_key (is_payments s1)"
    using checked_rows(1) reconcile_single_rows(1) [OF refl, where w = card_world and p = "card_row ''B''" and s = s1 and ctl = card_ctl] r2
    by simp
  ultimately have k: "map intl_key (is_payments s2) = [(''A'', ''R1''), (''B'', ''R1'')]" by (simp add: card_shared_def)
  then obtain y z where "is_payments s2 = [y, z]" "intl_key y = (''A'', ''R1'')" "intl_key z = (''B'', ''R1'')" by auto
  then show ?thesis using r1 r2 all k by auto
qed

theorem card_job_ends_witness:
  "\<exists>s'. reconcilePendingPayments card_world card_ctl card_shared = Some s'
     \<and> filter (due (iw_now card_world - pendingStatusCheckInterval) (iw_now card_world - pendingStatusCheckMaxAge)) (is_payments s') = []
     \<and> length (filter (due (iw_now card_world - pendingStatusCheckInterval) (iw_now card_world - pendingStatusCheckMaxAge))
         (is_payments card_shared)) = 2"
proof -
  have "length (filter (due (iw_now card_world - pendingStatusCheckInterval) (iw_now card_world - pendingStatusCheckMaxAge))
         (is_payments card_shared)) = 2"
    by (simp add: card_shared_def due_def pendingStatusCheckMaxAge_def str_eval) (simp add: card_row_def intl_record_def card_world_def)
  then show ?thesis using card_job_ends [OF rtranclp.rtrancl_refl card_shared_inv, of card_world card_ctl] by blast
qed

theorem card_tenants_isolated_witness:
  "\<exists>b s'. reconcileSinglePendingPayment card_world card_ctl (card_row ''B'') (iw_now card_world) card_shared = (b, s')
     \<and> filter (\<lambda>p. ip_MerchantID p = ''A'') (is_payments s') = [card_row ''A'']"
proof -
  obtain b s' where r: "reconcileSinglePendingPayment card_world card_ctl (card_row ''B'') (iw_now card_world) card_shared = (b, s')"
    by (rule prod.exhaust)
  have "card_step (Some ''B'') card_shared s'" using card_step.reconcile [OF r] by simp
  then have "(\<lambda>s s'. \<exists>a. a \<noteq> Some ''A'' \<and> card_step a s s')\<^sup>*\<^sup>* card_shared s'"
    by (intro r_into_rtranclp exI [of _ "Some ''B''"]) simp
  from card_tenants_isolated [OF this card_shared_inv] r show ?thesis by (simp add: card_shared_def)
qed

end
