(* ===== verification/RateLimiter.thy ===== *)
theory RateLimiter
  imports Http "HOL-Library.AList"
begin

text \<open>
  The sliding-window limiter of requests per client address,
  internal/auth/rate_limiter.go, and the middleware that applies it,
  middleware/rate_limit.go.  The Go map of entries is an association list with
  distinct keys, so that its size, which triggers the eviction, is a length.
  The slice of instants of an entry is a list, oldest first.
\<close>

record ip_limiter =
  maxRequests :: int
  rl_window :: dur
  entries :: "(string \<times> time list) list"

definition NewIPRateLimiter :: "int \<Rightarrow> dur \<Rightarrow> ip_limiter" where
  "NewIPRateLimiter n w =
     \<lparr> maxRequests = (if n \<le> 0 then 60 else n),
       rl_window = (if w \<le> 0 then minute else w),
       entries = [] \<rparr>"

definition pruneOld :: "time list \<Rightarrow> time \<Rightarrow> time list" where
  "pruneOld ts cutoff = dropWhile (\<lambda>t. t < cutoff) ts"

definition evictStale :: "time \<Rightarrow> (string \<times> time list) list \<Rightarrow> (string \<times> time list) list" where
  "evictStale cutoff es =
     filter (\<lambda>(ip, ts). ts \<noteq> []) (map (\<lambda>(ip, ts). (ip, pruneOld ts cutoff)) es)"

definition rl_Allow :: "time \<Rightarrow> string \<Rightarrow> ip_limiter \<Rightarrow> (bool \<times> dur) \<times> ip_limiter" where
  "rl_Allow now ip l =
     (if ip = [] then ((True, 0), l)
      else let
          cutoff = now - rl_window l;
          ts = pruneOld (case map_of (entries l) ip of None \<Rightarrow> [] | Some ts \<Rightarrow> ts) cutoff
        in
        if int (length ts) \<ge> maxRequests l
        then ((False, max 0 (hd ts + rl_window l - now)), l\<lparr>entries := AList.update ip ts (entries l)\<rparr>)
        else let es = AList.update ip (ts @ [now]) (entries l) in
          ((True, 0), l\<lparr>entries := if length es > 8192 then evictStale cutoff es else es\<rparr>))"

text \<open>retryAfterSeconds rounds a duration up to whole seconds, at least 1.\<close>

definition mw_retryAfterSeconds :: "dur \<Rightarrow> int" where
  "mw_retryAfterSeconds d = (if d \<le> 0 then 1 else (d + second - 1) div second)"

definition RateLimit :: "time \<Rightarrow> string \<Rightarrow> ip_limiter option \<Rightarrow> unit step \<times> ip_limiter option" where
  "RateLimit now ip limiter = (case limiter of
     None \<Rightarrow> (Next (), None)
   | Some l \<Rightarrow> (case rl_Allow now ip l of ((ok, retryAfter), l') \<Rightarrow>
       if ok then (Next (), Some l')
       else let secs = mw_retryAfterSeconds retryAfter in
         (Halt (Response 429 [(''Retry-After'', int_text secs)] []
            (JObj [(''error'', JStr ''too many requests''),
                   (''retry_after_seconds'', jint secs)])), Some l')))"

section \<open>The window bound\<close>

text \<open>
  A history of the limiter: the calls of Allow in order, with the answers.
\<close>

fun rl_run :: "(time \<times> string) list \<Rightarrow> ip_limiter \<Rightarrow> (time \<times> string \<times> bool) list \<times> ip_limiter" where
  "rl_run [] l = ([], l)"
| "rl_run ((t, ip) # h) l =
     (let ((ok, _), l') = rl_Allow t ip l; (rs, l'') = rl_run h l' in ((t, ip, ok) # rs, l''))"

definition admitted :: "string \<Rightarrow> (time \<times> string \<times> bool) list \<Rightarrow> time list" where
  "admitted ip rs = map fst (filter (\<lambda>(t, i, ok). ok \<and> i = ip) rs)"

definition in_window :: "time \<Rightarrow> dur \<Rightarrow> time list \<Rightarrow> nat" where
  "in_window t w ts = length (filter (\<lambda>s. t \<le> s \<and> s \<le> t + w) ts)"

definition stored :: "string \<Rightarrow> ip_limiter \<Rightarrow> time list" where
  "stored ip l = (case map_of (entries l) ip of None \<Rightarrow> [] | Some ts \<Rightarrow> ts)"

text \<open>
  The invariant that relates an entry to the instants A at which its address was
  admitted: the entry is what remains of A after dropping instants that
  every later window has already left behind.
\<close>

definition tracks :: "time list \<Rightarrow> time \<Rightarrow> string \<Rightarrow> ip_limiter \<Rightarrow> bool" where
  "tracks A now ip l \<longleftrightarrow> distinct (map fst (entries l)) \<and> sorted A \<and> (\<forall>a \<in> set A. a \<le> now)
     \<and> (\<exists>p. A = p @ stored ip l \<and> (\<forall>a \<in> set p. a < now - rl_window l))
     \<and> (\<forall>t. int (in_window t (rl_window l) A) \<le> maxRequests l)"

lemma pruneOld_suffix: "\<exists>p. ts = p @ pruneOld ts c \<and> (\<forall>a \<in> set p. a < c)"
  by (rule exI [of _ "takeWhile (\<lambda>t. t < c) ts"])
     (auto simp: pruneOld_def dest: set_takeWhileD)

lemma pruneOld_ge: "sorted ts \<Longrightarrow> a \<in> set (pruneOld ts c) \<Longrightarrow> c \<le> a"
  unfolding pruneOld_def by (induction ts) (auto split: if_splits)

lemma map_of_evictStale:
  "distinct (map fst es) \<Longrightarrow>
   (case map_of (evictStale c es) ip of None \<Rightarrow> [] | Some ts \<Rightarrow> ts)
     = pruneOld (case map_of es ip of None \<Rightarrow> [] | Some ts \<Rightarrow> ts) c"
proof (induction es)
  case (Cons e es)
  obtain i ts where e: "e = (i, ts)" by (cases e)
  have "i \<notin> fst ` set es" using Cons.prems e by auto
  then have "map_of (evictStale c es) i = None"
    by (force simp: map_of_eq_None_iff evictStale_def)
  with Cons e show ?case by (auto simp: evictStale_def)
qed (simp add: evictStale_def pruneOld_def)

lemma distinct_evictStale: "distinct (map fst es) \<Longrightarrow> distinct (map fst (evictStale c es))"
proof -
  have "map fst (map (\<lambda>(ip, ts). (ip, pruneOld ts c)) es) = map fst es" by auto
  then show "distinct (map fst es) \<Longrightarrow> ?thesis"
    unfolding evictStale_def by (metis distinct_map_filter)
qed

lemma rl_Allow_fields [simp]:
  "maxRequests (snd (rl_Allow now ip l)) = maxRequests l"
  "rl_window (snd (rl_Allow now ip l)) = rl_window l"
  by (auto simp: rl_Allow_def Let_def)

lemma rl_Allow_distinct:
  "distinct (map fst (entries l)) \<Longrightarrow> distinct (map fst (entries (snd (rl_Allow now ip l))))"
  by (auto simp: rl_Allow_def Let_def distinct_evictStale distinct_update)

text \<open>What a call leaves in the entry of any address.\<close>

lemma stored_rl_Allow:
  assumes "distinct (map fst (entries l))"
  shows "\<exists>q. stored i l @ (if i = ip \<and> ip \<noteq> [] \<and> fst (fst (rl_Allow now ip l)) then [now] else [])
      = q @ stored i (snd (rl_Allow now ip l)) \<and> (\<forall>a \<in> set q. a < now - rl_window l)"
proof -
  let ?c = "now - rl_window l"
  let ?ts = "pruneOld (stored ip l) ?c"
  obtain p where p: "stored ip l = p @ ?ts" "\<forall>a \<in> set p. a < ?c"
    using pruneOld_suffix by blast
  show ?thesis
  proof (cases "ip = [] \<or> \<not> int (length ?ts) < maxRequests l")
    case True
    then show ?thesis using p
      by (auto simp: rl_Allow_def Let_def stored_def update_conv' split: option.splits)
  next
    case False
    let ?es = "AList.update ip (?ts @ [now]) (entries l)"
    let ?st = "case map_of ?es i of None \<Rightarrow> [] | Some ts \<Rightarrow> ts"
    have d: "distinct (map fst ?es)" using assms by (simp add: distinct_update)
    have st: "stored i (snd (rl_Allow now ip l)) = (if length ?es > 8192 then pruneOld ?st ?c else ?st)"
      using False map_of_evictStale [OF d] by (simp add: rl_Allow_def Let_def stored_def)
    have ok: "fst (fst (rl_Allow now ip l))"
      using False by (simp add: rl_Allow_def Let_def stored_def)
    have base: "\<exists>q. stored i l @ (if i = ip then [now] else []) = q @ ?st \<and> (\<forall>a \<in> set q. a < ?c)"
      using p by (auto simp: update_conv' stored_def)
    obtain r where r: "?st = r @ pruneOld ?st ?c" "\<forall>a \<in> set r. a < ?c"
      using pruneOld_suffix by blast
    show ?thesis
    proof (cases "length ?es > 8192")
      case True
      from base obtain q where q: "stored i l @ (if i = ip then [now] else []) = q @ ?st"
        "\<forall>a \<in> set q. a < ?c" by blast
      have "q @ ?st = (q @ r) @ pruneOld ?st ?c" using r(1) by simp
      moreover have "\<forall>a \<in> set (q @ r). a < ?c" using q r by auto
      ultimately show ?thesis using q(1) True False st ok
        by (intro exI [of _ "q @ r"]) auto
    next
      case sm: False
      from base st ok False sm show ?thesis by (auto split: if_splits)
    qed
  qed
qed

lemma rl_Allow_ok:
  "fst (fst (rl_Allow now ip l)) \<longleftrightarrow>
     ip = [] \<or> int (length (pruneOld (stored ip l) (now - rl_window l))) < maxRequests l"
  by (auto simp: rl_Allow_def stored_def Let_def split: option.splits)

lemma tracks_init: "tracks [] now ip (NewIPRateLimiter n w)"
  by (simp add: tracks_def NewIPRateLimiter_def stored_def in_window_def)

lemma in_window_drop:
  assumes "\<forall>a \<in> set p. a < c" "c \<le> t"
  shows "in_window t w (p @ ts) \<le> length ts"
proof -
  have "filter (\<lambda>s. t \<le> s \<and> s \<le> t + w) p = []" using assms by (auto simp: filter_empty_conv)
  then show ?thesis by (simp add: in_window_def length_filter_le)
qed

lemma tracks_step:
  assumes tr: "tracks A t0 ip l" and t: "t0 \<le> now" and ip: "ip \<noteq> []"
  shows "tracks (A @ (if i = ip \<and> fst (fst (rl_Allow now i l)) then [now] else [])) now ip
           (snd (rl_Allow now i l))" (is "tracks (A @ ?new) now ip ?l")
proof -
  let ?c = "now - rl_window l"
  obtain p where d: "distinct (map fst (entries l))" and A: "sorted A" "\<forall>a \<in> set A. a \<le> t0"
    and p: "A = p @ stored ip l" "\<forall>a \<in> set p. a < t0 - rl_window l"
    and bound: "\<And>t. int (in_window t (rl_window l) A) \<le> maxRequests l"
    using tr unfolding tracks_def by auto
  obtain q where q: "stored ip l @ ?new = q @ stored ip ?l" "\<forall>a \<in> set q. a < ?c"
    using stored_rl_Allow [OF d, of ip i now] ip by (auto split: if_splits)
  have "A @ ?new = (p @ q) @ stored ip ?l \<and> (\<forall>a \<in> set (p @ q). a < ?c)"
    using p q t by auto
  moreover have "int (in_window t (rl_window l) (A @ ?new)) \<le> maxRequests l" for t
  proof (cases "?new = [] \<or> \<not> (t \<le> now \<and> now \<le> t + rl_window l)")
    case True
    then show ?thesis using bound [of t] by (auto simp: in_window_def)
  next
    case False
    let ?ts = "pruneOld (stored ip l) ?c"
    obtain r where r: "stored ip l = r @ ?ts" "\<forall>a \<in> set r. a < ?c"
      using pruneOld_suffix by blast
    have "A = (p @ r) @ ?ts" using p(1) r(1) by simp
    moreover have "\<forall>a \<in> set (p @ r). a < ?c" using p(2) r(2) t by auto
    ultimately have "in_window t (rl_window l) A \<le> length ?ts"
      using False in_window_drop [of "p @ r" ?c t "rl_window l" ?ts] by (auto split: if_splits)
    moreover have "int (length ?ts) < maxRequests l"
      using False ip rl_Allow_ok [of now ip l] by (auto split: if_splits)
    ultimately show ?thesis using False by (auto simp: in_window_def split: if_splits)
  qed
  moreover have "sorted (A @ ?new)" "\<forall>a \<in> set (A @ ?new). a \<le> now"
    using A t by (auto simp: sorted_append)
  ultimately show ?thesis
    unfolding tracks_def using rl_Allow_distinct [OF d] by (metis rl_Allow_fields)
qed

lemma rl_run_window:
  assumes "tracks A t0 ip l" "sorted (t0 # map fst h)" "ip \<noteq> []"
  shows "int (in_window t (rl_window l) (A @ admitted ip (fst (rl_run h l)))) \<le> maxRequests l"
  using assms
proof (induction h arbitrary: A t0 l)
  case Nil
  then show ?case by (simp add: tracks_def admitted_def)
next
  case (Cons e h)
  obtain now i where e: "e = (now, i)" by (cases e)
  have "tracks (A @ (if i = ip \<and> fst (fst (rl_Allow now i l)) then [now] else [])) now ip
           (snd (rl_Allow now i l))"
    using Cons.prems e by (intro tracks_step) auto
  from Cons.IH [OF this] Cons.prems e show ?case
    by (cases "i = ip") (simp_all add: admitted_def Let_def split_beta split: if_splits)
qed

text \<open>
  The sliding window bounds the admitted requests.  Over any history of
  calls of a new limiter, in the order of time and interleaved over any number of
  addresses, evictions of the entry table included, no client address is
  admitted more than maxRequests times in any interval of one window.
\<close>
lemma sliding_window_bound:
  fixes n w
  assumes "sorted (map fst h)" "ip \<noteq> []"
  defines "l \<equiv> NewIPRateLimiter n w"
  shows "int (in_window t (rl_window l) (admitted ip (fst (rl_run h l)))) \<le> maxRequests l"
proof (cases h)
  case Nil
  then show ?thesis by (simp add: admitted_def in_window_def l_def NewIPRateLimiter_def)
next
  case (Cons e h')
  have "tracks [] (fst e) ip l" unfolding l_def by (rule tracks_init)
  then show ?thesis
    using rl_run_window [of "[]" "fst e" ip l h t] assms Cons by simp
qed

theorem sliding_window_bound_witness:
  "int (in_window 0 10 (admitted ''a'' (fst (rl_run [(1, ''a''), (2, ''b''), (3, ''a''), (4, ''a''), (12, ''a'')]
      (NewIPRateLimiter 2 10))))) \<le> 2"
  using sliding_window_bound [of "[(1, ''a''), (2, ''b''), (3, ''a''), (4, ''a''), (12, ''a'')]" "''a''" 0 2 10]
  by (simp add: NewIPRateLimiter_def)

text \<open>
  A refusal is justified and bounded in time.  Allow refuses an address
  only when maxRequests admissions of it lie in the closed window that ends
  now, and one tick after the reported retryAfter the address is admitted
  again unless it has called in between.
\<close>
lemma refusal_is_temporary:
  assumes "fst (rl_Allow now ip l) = (False, d)" "sorted (stored ip l)"
    and "0 < maxRequests l" "\<forall>a \<in> set (stored ip l). a \<le> now" "0 \<le> rl_window l"
    and "int (length (stored ip l)) \<le> maxRequests l"
  shows "in_window (now - rl_window l) (rl_window l) (stored ip l) = nat (maxRequests l)
    \<and> 0 \<le> d \<and> d \<le> rl_window l
    \<and> fst (rl_Allow (now + d + 1) ip (snd (rl_Allow now ip l))) = (True, 0)"
proof -
  let ?ts = "pruneOld (stored ip l) (now - rl_window l)"
  have ip: "ip \<noteq> []" and len: "maxRequests l \<le> int (length ?ts)"
    and d: "d = max 0 (hd ?ts + rl_window l - now)"
    and st: "stored ip (snd (rl_Allow now ip l)) = ?ts"
    using assms(1) by (auto simp: rl_Allow_def stored_def Let_def update_conv' split: if_splits)
  obtain p where p: "stored ip l = p @ ?ts" using pruneOld_suffix by blast
  then have "length (stored ip l) = length p + length ?ts" by (metis length_append)
  then have "length p = 0" using len assms(6) by linarith
  then have pe: "p = []" by simp
  with p have ts: "?ts = stored ip l" by simp
  then obtain a as where a: "stored ip l = a # as"
    using len assms(3) by (cases "stored ip l") auto
  have ge: "\<forall>x \<in> set (stored ip l). now - rl_window l \<le> x"
    using pruneOld_ge [OF assms(2)] ts by metis
  have "filter (\<lambda>s. now - rl_window l \<le> s \<and> s \<le> now - rl_window l + rl_window l) (stored ip l) = stored ip l"
    using ge assms(4) by (simp add: filter_id_conv)
  then have w: "in_window (now - rl_window l) (rl_window l) (stored ip l) = nat (maxRequests l)"
    using len ts assms(6) by (simp add: in_window_def)
  have d': "d = a + rl_window l - now" using d ts a ge by simp
  have "int (length (pruneOld (stored ip (snd (rl_Allow now ip l))) (now + d + 1 - rl_window l)))
      < maxRequests l"
    unfolding st ts
    using a d' assms(6) length_dropWhile_le [of "\<lambda>t. t < a + 1" as] by (simp add: pruneOld_def)
  then have "fst (fst (rl_Allow (now + d + 1) ip (snd (rl_Allow now ip l))))"
    by (simp add: rl_Allow_ok)
  then have "fst (rl_Allow (now + d + 1) ip (snd (rl_Allow now ip l))) = (True, 0)"
    by (auto simp: rl_Allow_def Let_def split: if_splits)
  with w d' a ge assms(4) show ?thesis by auto
qed

theorem refusal_is_temporary_witness:
  "let l = snd (rl_run [(1, ''a''), (3, ''a'')] (NewIPRateLimiter 2 10))
   in fst (rl_Allow 5 ''a'' l) = (False, 6)
      \<and> fst (rl_Allow (5 + 6 + 1) ''a'' (snd (rl_Allow 5 ''a'' l))) = (True, 0)"
  using refusal_is_temporary [of 5 "''a''" "snd (rl_run [(1, ''a''), (3, ''a'')] (NewIPRateLimiter 2 10))" 6]
  by (simp add: rl_Allow_def NewIPRateLimiter_def pruneOld_def stored_def Let_def)

text \<open>
  The middleware lets a request through exactly when there is no limiter or the
  limiter admits its address, and a refusal carries a positive number of
  whole seconds.
\<close>

lemma RateLimit_passes:
  "passes (fst (RateLimit now ip limiter)) \<longleftrightarrow>
     (case limiter of None \<Rightarrow> True | Some l \<Rightarrow> fst (fst (rl_Allow now ip l)))"
  by (auto simp: RateLimit_def Let_def split: option.splits prod.splits)

lemma mw_retryAfterSeconds_bounds:
  "1 \<le> mw_retryAfterSeconds d" "d \<le> second * mw_retryAfterSeconds d"
  by (auto simp: mw_retryAfterSeconds_def)

end
