(* ===== verification/RequestLogger.thy ===== *)
theory RequestLogger
  imports Logs JsonText Http
begin

text \<open>
  The request logger, middleware/request_logger.go: what of a request and its response
  reaches the table of API logs or the standard output.  The rest of the handler chain is
  an argument: a function from the request id, which it finds in the locals, to the
  response and to the locals and the route it leaves behind.
\<close>

section \<open>Redaction\<close>

definition sensitive_keys :: "string list" where
  "sensitive_keys = [''credentials'', ''encrypted_credentials'', ''private_key'', ''password'', ''passcode'', ''otp'', ''token'',
     ''access_token'', ''refresh_token'', ''api_secret'', ''api_key'', ''client_secret'', ''signup_key'', ''x_signup_key'', ''authorization'',
     ''remitter_account_number'', ''beneficiary_account_number'', ''bene_account_number'', ''source_account_number'',
     ''account_number'', ''bank_account'', ''iban'', ''bic'', ''swift'', ''routing_number'', ''sort_code'',
     ''card_number'', ''card_pan'', ''pan'', ''card_no'', ''cardnumber'',
     ''cvv'', ''cvc'', ''cvv2'', ''cvc2'', ''card_cvv'', ''card_cvc'',
     ''expiry'', ''expiry_date'', ''expiration'', ''card_expiry'', ''exp_month'', ''exp_year'',
     ''card_holder'', ''cardholder_name'', ''card_name'',
     ''pin'', ''mpin'', ''transaction_pin'', ''withdrawal_pin'',
     ''national_id'', ''ssn'', ''passport_number'', ''dob'', ''date_of_birth'', ''id_number'']"

definition isSensitiveKey :: "string \<Rightarrow> bool" where
  "isSensitiveKey key \<longleftrightarrow> map (\<lambda>c. if c = CHR ''-'' then CHR ''_'' else c) (ToLower (TrimSpace key)) \<in> set sensitive_keys"

fun redactSensitive :: "json \<Rightarrow> json" where
  "redactSensitive (JObj kvs) = JObj (map (\<lambda>(k, v). (k, if isSensitiveKey k then JStr ''[REDACTED]'' else redactSensitive v)) kvs)"
| "redactSensitive (JArr vs) = JArr (map redactSensitive vs)"
| "redactSensitive v = v"

definition looksLikeJSON :: "string \<Rightarrow> string \<Rightarrow> bool" where
  "looksLikeJSON raw ctype \<longleftrightarrow>
     Contains (let ct = ToLower (TrimSpace ctype) in if CHR '';'' \<in> set ct then TrimSpace (takeWhile (\<lambda>c. c \<noteq> CHR '';'') ct) else ct) ''json''
     \<or> (raw \<noteq> [] \<and> (hd raw = CHR 0x7B \<or> hd raw = CHR ''[''))"

definition buildPayloadSummary :: "string \<Rightarrow> nat \<Rightarrow> string \<Rightarrow> string" where
  "buildPayloadSummary kind len ctype = writeCanonical (JObj [(''_log_payload'', JStr kind), (''size_bytes'', jint (int len)),
     (''content_type'', JStr (if blank ctype then ''unknown'' else TrimSpace ctype))])"

definition nonJSONPayloadSummary :: "nat \<Rightarrow> string \<Rightarrow> string" where
  "nonJSONPayloadSummary len ctype = buildPayloadSummary ''non_json'' len ctype"

definition invalidJSONPayloadSummary :: "nat \<Rightarrow> string \<Rightarrow> string" where
  "invalidJSONPayloadSummary len ctype = buildPayloadSummary ''invalid_json'' len ctype"

definition maxLoggedBodyBytes :: nat where "maxLoggedBodyBytes = 64 * 1024"

definition truncateLoggedBody :: "string \<Rightarrow> string" where
  "truncateLoggedBody s = (if length s \<le> maxLoggedBodyBytes then s else take maxLoggedBodyBytes s @ ''...(truncated)'')"

definition sanitizePayload :: "string \<Rightarrow> string \<Rightarrow> string" where
  "sanitizePayload raw ctype =
     (let trimmed = TrimSpace raw in
      if trimmed = [] then []
      else if \<not> looksLikeJSON trimmed ctype then nonJSONPayloadSummary (length raw) ctype
      else case Unmarshal trimmed of
        None \<Rightarrow> invalidJSONPayloadSummary (length raw) ctype
      | Some payload \<Rightarrow> truncateLoggedBody (writeCanonical (redactSensitive payload)))"

section \<open>What identifies the request\<close>

definition toString :: "json \<Rightarrow> string" where
  "toString v = (case v of JStr s \<Rightarrow> s | _ \<Rightarrow> writeCanonical v)"

definition direct_id :: "(string \<times> json) list \<Rightarrow> string \<Rightarrow> string" where
  "direct_id kvs key = (case jget kvs key of None \<Rightarrow> [] | Some JNull \<Rightarrow> [] | Some v \<Rightarrow> TrimSpace (toString v))"

fun requestIDFromMap :: "json \<Rightarrow> string" where
  "requestIDFromMap (JObj kvs) =
     (let nested = map (\<lambda>(k, v). (k, requestIDFromMap v)) kvs in
      firstNonEmpty (map (direct_id kvs) [''request_id'', ''requestId'', ''requestID'']
        @ map (\<lambda>key. case map_of (rev nested) key of None \<Rightarrow> [] | Some i \<Rightarrow> i) [''response'', ''request'', ''response_data'', ''data'']))"
| "requestIDFromMap _ = []"

definition log_extractRequestID :: "string \<Rightarrow> string" where
  "log_extractRequestID raw = (if blank raw then [] else case Unmarshal raw of None \<Rightarrow> [] | Some m \<Rightarrow> requestIDFromMap m)"

record logged_request =
  lr_Method :: string
  lr_Path :: string
  lr_IP :: string
  lr_RequestID :: string
  lr_LocalRequestID :: "string option"
  lr_ContentType :: string
  lr_Body :: string

record answer =
  an_Status :: nat
  an_ContentType :: string
  an_Body :: string
  an_Route :: string
  an_AppID :: "string option"
  an_AdminUsername :: "string option"

definition resolveRequestID :: "string \<Rightarrow> logged_request \<Rightarrow> string \<Rightarrow> string" where
  "resolveRequestID new r reqBody =
     (if \<not> blank (lr_RequestID r) then TrimSpace (lr_RequestID r)
      else case lr_LocalRequestID r of
        Some v \<Rightarrow> if \<not> blank v then TrimSpace v else if log_extractRequestID reqBody \<noteq> [] then log_extractRequestID reqBody else new
      | None \<Rightarrow> if log_extractRequestID reqBody \<noteq> [] then log_extractRequestID reqBody else new)"

definition resolveRoutePath :: "logged_request \<Rightarrow> answer \<Rightarrow> string" where
  "resolveRoutePath r a = (if blank (an_Route a) then TrimSpace (lr_Path r) else TrimSpace (an_Route a))"

definition localString :: "string option \<Rightarrow> string" where
  "localString v = (case v of None \<Rightarrow> [] | Some s \<Rightarrow> TrimSpace s)"

definition resolveActorID :: "answer \<Rightarrow> string" where
  "resolveActorID a = (if localString (an_AppID a) \<noteq> [] then localString (an_AppID a) else localString (an_AdminUsername a))"

definition deriveAPISurface :: "string \<Rightarrow> string \<Rightarrow> string" where
  "deriveAPISurface routePath rawPath =
     (let p = (if blank routePath then TrimSpace rawPath else TrimSpace routePath) in
      if p = ''/api/business'' \<or> HasPrefix p ''/api/business/'' then ''business''
      else if p = ''/api/v1'' \<or> HasPrefix p ''/api/v1/'' then ''business''
      else if p = ''/api/admin'' \<or> HasPrefix p ''/api/admin/'' then ''internal''
      else if p = ''/api/dkpg'' \<or> HasPrefix p ''/api/dkpg/'' then ''internal''
      else if HasPrefix p ''/api/_internal/'' then ''internal''
      else [])"

definition deriveAuthResult :: "nat \<Rightarrow> string \<Rightarrow> string" where
  "deriveAuthResult st actorID =
     (if st = 401 then ''unauthenticated'' else if st = 403 then ''forbidden''
      else if \<not> blank actorID then ''authenticated'' else [])"

section \<open>The logger\<close>

definition log_entry :: "time \<Rightarrow> time \<Rightarrow> string \<Rightarrow> logged_request \<Rightarrow> answer \<Rightarrow> LogEntry" where
  "log_entry start stop requestID r a = \<lparr> le_ID = 0, le_Method = lr_Method r, le_Path = lr_Path r, le_Status = int (an_Status a),
     le_Duration = (stop - start) div 1000000, le_IP = lr_IP r, le_RequestID = requestID, le_ActorID = resolveActorID a,
     le_APISurface = deriveAPISurface (resolveRoutePath r a) (lr_Path r), le_Route = resolveRoutePath r a,
     le_AuthResult = deriveAuthResult (an_Status a) (resolveActorID a),
     le_RequestBody = [], le_ResponseBody = [], le_CreatedAt = [] \<rparr>"

text \<open>
  The logger that writes to the database: the request id, which is also the X-Request-Id
  of the response, and the log repository after the call.  rp is None without a repository.
\<close>

definition RequestLogger :: "time \<Rightarrow> time \<Rightarrow> bool \<Rightarrow> string \<Rightarrow> (string \<Rightarrow> answer) \<Rightarrow> logged_request \<Rightarrow> log_repo option \<Rightarrow> string \<times> log_repo option" where
  "RequestLogger start stop disk new rest r rp =
     (let reqBody = (if lr_Body r = [] then [] else sanitizePayload (lr_Body r) (lr_ContentType r));
          requestID = resolveRequestID new r reqBody;
          a = rest requestID;
          resBody = sanitizePayload (an_Body a) (an_ContentType a);
          e = log_entry start stop (if requestID = [] then new else requestID) r a
      in (requestID, map_option (\<lambda>lr. snd (Insert stop disk False True e reqBody resBody lr)) rp))"

text \<open>The logger that writes a line to the standard output, and the line.\<close>

definition logStdoutRequest :: "LogEntry \<Rightarrow> string" where
  "logStdoutRequest e = writeCanonical (JObj
     ([(''type'', JStr ''request_log''), (''sink'', JStr ''stdout''), (''method'', JStr (le_Method e)), (''path'', JStr (le_Path e)),
       (''route'', JStr (le_Route e)), (''status'', jint (le_Status e)), (''duration_ms'', jint (le_Duration e)), (''ip'', JStr (le_IP e)),
       (''request_id'', JStr (le_RequestID e))]
      @ (if blank (le_ActorID e) then [] else [(''actor_id'', JStr (le_ActorID e))])
      @ (if blank (le_APISurface e) then [] else [(''api_surface'', JStr (le_APISurface e))])
      @ (if blank (le_AuthResult e) then [] else [(''auth_result'', JStr (le_AuthResult e))])))"

definition StdoutRequestLogger :: "time \<Rightarrow> time \<Rightarrow> string \<Rightarrow> (string \<Rightarrow> answer) \<Rightarrow> logged_request \<Rightarrow> string \<times> string" where
  "StdoutRequestLogger start stop new rest r =
     (let requestID = resolveRequestID new r []; a = rest requestID
      in (requestID, logStdoutRequest (log_entry start stop requestID r a)))"

section \<open>Documents that differ in their secrets\<close>

inductive agree :: "json \<Rightarrow> json \<Rightarrow> bool" where
  agree_object: "length kvs = length kvs' \<Longrightarrow>
     (\<And>i. i < length kvs \<Longrightarrow> fst (kvs ! i) = fst (kvs' ! i) \<and> (isSensitiveKey (fst (kvs ! i)) \<or> agree (snd (kvs ! i)) (snd (kvs' ! i))))
     \<Longrightarrow> agree (JObj kvs) (JObj kvs')"
| agree_array: "length vs = length vs' \<Longrightarrow> (\<And>i. i < length vs \<Longrightarrow> agree (vs ! i) (vs' ! i)) \<Longrightarrow> agree (JArr vs) (JArr vs')"
| agree_same: "agree v v"

lemma agree_redact: "agree v w \<Longrightarrow> redactSensitive v = redactSensitive w"
proof (induction rule: agree.induct)
  case (agree_object kvs kvs')
  show ?case
    unfolding redactSensitive.simps json.inject
  proof (rule nth_equalityI)
    fix i assume "i < length (map (\<lambda>(k, v). (k, if isSensitiveKey k then JStr ''[REDACTED]'' else redactSensitive v)) kvs)"
    then have i: "i < length kvs" "i < length kvs'" using agree_object(1) by simp_all
    show "map (\<lambda>(k, v). (k, if isSensitiveKey k then JStr ''[REDACTED]'' else redactSensitive v)) kvs ! i
        = map (\<lambda>(k, v). (k, if isSensitiveKey k then JStr ''[REDACTED]'' else redactSensitive v)) kvs' ! i"
      using agree_object(2) [OF i(1)] by (cases "kvs ! i"; cases "kvs' ! i") (use i in auto)
  qed (use agree_object(1) in simp)
next
  case (agree_array vs vs')
  show ?case
    unfolding redactSensitive.simps json.inject
    by (rule nth_equalityI) (use agree_array in auto)
qed simp

definition same_public :: "string \<Rightarrow> string \<Rightarrow> string \<Rightarrow> bool" where
  "same_public ctype b b' \<longleftrightarrow> b = b' \<or> (\<exists>v w. Unmarshal (TrimSpace b) = Some v \<and> Unmarshal (TrimSpace b') = Some w
     \<and> looksLikeJSON (TrimSpace b) ctype \<and> looksLikeJSON (TrimSpace b') ctype \<and> agree v w)"

lemma Unmarshal_Nil: "Unmarshal [] = None"
  by (simp add: Unmarshal_def skip_ws_def)

lemma same_public_sanitized: "same_public ctype b b' \<Longrightarrow> sanitizePayload b ctype = sanitizePayload b' ctype"
  unfolding same_public_def sanitizePayload_def Let_def
  using agree_redact Unmarshal_Nil by auto

lemma sanitized_JSON:
  assumes "Unmarshal (TrimSpace b) = Some v" "looksLikeJSON (TrimSpace b) ctype"
    and "length (writeCanonical (redactSensitive v)) \<le> maxLoggedBodyBytes"
  shows "sanitizePayload b ctype = writeCanonical (redactSensitive v)"
proof -
  have "TrimSpace b \<noteq> []" using assms(1) Unmarshal_Nil by (metis option.distinct(1))
  then show ?thesis using assms by (simp add: sanitizePayload_def truncateLoggedBody_def)
qed

text \<open>
  C36: the secrets of a request do not reach the log.  Two requests that differ only below
  keys that isSensitiveKey lists, at any depth of their JSON bodies, and whose responses
  differ in the same way at most, get the same request id and leave the same log table,
  queues and fallback file.
\<close>
theorem log_hides_secrets:
  assumes "same_public (lr_ContentType r) (lr_Body r) b"
    and "\<And>i. an_Body (rest' i) = an_Body (rest i) \<or> same_public (an_ContentType (rest i)) (an_Body (rest i)) (an_Body (rest' i))"
    and "\<And>i. rest' i = (rest i)\<lparr>an_Body := an_Body (rest' i)\<rparr>"
  shows "RequestLogger start stop disk new rest' (r\<lparr>lr_Body := b\<rparr>) rp = RequestLogger start stop disk new rest r rp"
proof -
  have ct: "an_ContentType (rest' i) = an_ContentType (rest i)" "an_Status (rest' i) = an_Status (rest i)"
    "an_Route (rest' i) = an_Route (rest i)" "an_AppID (rest' i) = an_AppID (rest i)" "an_AdminUsername (rest' i) = an_AdminUsername (rest i)" for i
    by (subst assms(3), simp)+
  have "sanitizePayload [] c = []" for c by (simp add: sanitizePayload_def)
  then have empty: "(if x = [] then [] else sanitizePayload x c) = sanitizePayload x c" for x c by simp
  have q: "sanitizePayload b (lr_ContentType r) = sanitizePayload (lr_Body r) (lr_ContentType r)"
    using same_public_sanitized [OF assms(1)] by simp
  have s: "sanitizePayload (an_Body (rest' i)) (an_ContentType (rest' i)) = sanitizePayload (an_Body (rest i)) (an_ContentType (rest i))" for i
    using assms(2) [of i] same_public_sanitized ct(1) by metis
  have e: "log_entry start stop i (r\<lparr>lr_Body := b\<rparr>) (rest' j) = log_entry start stop i r (rest j)" for i j
    by (simp add: log_entry_def resolveActorID_def resolveRoutePath_def ct)
  have "resolveRequestID new (r\<lparr>lr_Body := b\<rparr>) t = resolveRequestID new r t" for t
    by (simp add: resolveRequestID_def)
  moreover have sel: "lr_Body (r\<lparr>lr_Body := b\<rparr>) = b" "lr_ContentType (r\<lparr>lr_Body := b\<rparr>) = lr_ContentType r" by simp_all
  ultimately show ?thesis unfolding RequestLogger_def Let_def empty by (simp only: q s e sel)
qed

definition login_demo :: "string \<Rightarrow> logged_request" where
  "login_demo pw = \<lparr> lr_Method = ''POST'', lr_Path = ''/api/admin/login'', lr_IP = ''1.2.3.4'', lr_RequestID = [], lr_LocalRequestID = None,
     lr_ContentType = ''application/json; charset=utf-8'',
     lr_Body = writeCanonical (JObj [(''Password'', JStr pw), (''request_id'', JStr ''q7''), (''username'', JStr ''ann'')]) \<rparr>"

definition login_answer :: "string \<Rightarrow> answer" where
  "login_answer i = \<lparr> an_Status = 401, an_ContentType = ''application/json'', an_Body = writeCanonical (JObj [(''error'', JStr ''no'')]),
     an_Route = ''/api/admin/login'', an_AppID = None, an_AdminUsername = None \<rparr>"

definition empty_logs :: log_repo where
  "empty_logs = \<lparr> t1Queue = [], t2Queue = [], fallback = [], api_logs = [], next_id = 1, droppedLogsTotal = 0, closed = False \<rparr>"

definition redacted_demo :: string where
  "redacted_demo = writeCanonical (JObj [(''Password'', JStr ''[REDACTED]''), (''request_id'', JStr ''q7''), (''username'', JStr ''ann'')])"

theorem log_hides_secrets_witness:
  "RequestLogger 0 5000000 True ''r1'' login_answer (login_demo ''guess'') (Some empty_logs)
     = RequestLogger 0 5000000 True ''r1'' login_answer (login_demo ''secret'') (Some empty_logs)
   \<and> fst (RequestLogger 0 5000000 True ''r1'' login_answer (login_demo ''secret'') (Some empty_logs)) = ''q7''"
proof -
  let ?d = "\<lambda>pw. JObj [(''Password'', JStr pw), (''request_id'', JStr ''q7''), (''username'', JStr ''ann'')]"
  have u: "Unmarshal (TrimSpace (lr_Body (login_demo ''secret''))) = Some (?d ''secret'')"
    "Unmarshal (TrimSpace (lr_Body (login_demo ''guess''))) = Some (?d ''guess'')" by code_simp+
  have l: "looksLikeJSON (TrimSpace (lr_Body (login_demo ''secret''))) (lr_ContentType (login_demo ''secret''))"
    "looksLikeJSON (TrimSpace (lr_Body (login_demo ''guess''))) (lr_ContentType (login_demo ''secret''))" by code_simp+
  have "agree (?d ''secret'') (?d ''guess'')"
  proof (rule agree_object)
    have s: "isSensitiveKey ''Password''" by code_simp
    fix i assume "i < length [(''Password'', JStr ''secret''), (''request_id'', JStr ''q7''), (''username'', JStr ''ann'')]"
    then have "i = 0 \<or> i = 1 \<or> i = 2" by auto
    then show "fst ([(''Password'', JStr ''secret''), (''request_id'', JStr ''q7''), (''username'', JStr ''ann'')] ! i)
        = fst ([(''Password'', JStr ''guess''), (''request_id'', JStr ''q7''), (''username'', JStr ''ann'')] ! i)
      \<and> (isSensitiveKey (fst ([(''Password'', JStr ''secret''), (''request_id'', JStr ''q7''), (''username'', JStr ''ann'')] ! i))
        \<or> agree (snd ([(''Password'', JStr ''secret''), (''request_id'', JStr ''q7''), (''username'', JStr ''ann'')] ! i))
            (snd ([(''Password'', JStr ''guess''), (''request_id'', JStr ''q7''), (''username'', JStr ''ann'')] ! i)))"
      by (elim disjE) (simp_all add: s agree_same)
  qed simp
  then have "same_public (lr_ContentType (login_demo ''secret'')) (lr_Body (login_demo ''secret'')) (lr_Body (login_demo ''guess''))"
    using u l unfolding same_public_def by blast
  from log_hides_secrets [OF this, of login_answer login_answer 0 5000000 True "''r1''" "Some empty_logs"]
  have "RequestLogger 0 5000000 True ''r1'' login_answer (login_demo ''guess'') (Some empty_logs)
     = RequestLogger 0 5000000 True ''r1'' login_answer (login_demo ''secret'') (Some empty_logs)"
    by (simp add: login_demo_def)
  moreover have "fst (RequestLogger 0 5000000 True ''r1'' login_answer (login_demo ''secret'') (Some empty_logs)) = ''q7''"
  proof -
    have w: "writeCanonical (redactSensitive (?d ''secret'')) = redacted_demo" by code_simp
    have "length redacted_demo = 60" by code_simp
    then have "length redacted_demo \<le> maxLoggedBodyBytes" by (simp add: maxLoggedBodyBytes_def)
    then have z: "sanitizePayload (lr_Body (login_demo ''secret'')) (lr_ContentType (login_demo ''secret'')) = redacted_demo"
      using sanitized_JSON [OF u(1) l(1)] w by metis
    have "resolveRequestID ''r1'' (login_demo ''secret'') redacted_demo = ''q7''" by code_simp
    moreover have "lr_Body (login_demo ''secret'') \<noteq> []" by (simp add: login_demo_def)
    ultimately show ?thesis by (simp only: RequestLogger_def Let_def fst_conv z if_False)
  qed
  ultimately show ?thesis by simp
qed

section \<open>What is printed of an object\<close>

lemma join_split: "x \<in> set xs \<Longrightarrow> \<exists>pre post. join sep xs = pre @ x @ post"
proof (induction sep xs rule: join.induct)
  case (3 sep y z zs)
  show ?case
  proof (cases "x = y")
    case True
    then show ?thesis by (intro exI [of _ "[]"] exI [of _ "sep @ join sep (z # zs)"]) simp
  next
    case False
    then obtain pre post where "join sep (z # zs) = pre @ x @ post" using 3 by auto
    then show ?thesis by (intro exI [of _ "y @ sep @ pre"] exI [of _ post]) simp
  qed
next
  case (2 sep y)
  then show ?case by (intro exI [of _ "[]"]) simp
qed simp

text \<open>A member that is not redacted stands in the printed text, in clear.\<close>

lemma member_printed:
  assumes "jget kvs k = Some (JStr s)" "\<not> isSensitiveKey k"
  shows "\<exists>pre post. writeCanonical (redactSensitive (JObj kvs)) = pre @ quote_text k @ '':'' @ quote_text s @ post"
proof -
  let ?f = "\<lambda>(k, v). (k, if isSensitiveKey k then JStr ''[REDACTED]'' else redactSensitive v)"
  have "map_of (rev (map ?f kvs)) k = Some (JStr s)"
    using assms(1) unfolding jget_def
    by (induction kvs rule: rev_induct) (auto simp: assms(2) split: if_splits)
  then have "(k, JStr s) \<in> set (members (map ?f kvs))" by (simp add: set_members)
  then have "member_text (k, JStr s) \<in> set (map member_text (members (map ?f kvs)))" by simp
  from join_split [OF this, of "'',''"] obtain pre post where
    "join '','' (map member_text (members (map ?f kvs))) = pre @ member_text (k, JStr s) @ post" by blast
  then have "writeCanonical (redactSensitive (JObj kvs)) = (''{'' @ pre) @ quote_text k @ '':'' @ quote_text s @ (post @ ''}'')"
    unfolding redactSensitive.simps writeCanonical_members by (simp add: member_text_def)
  then show ?thesis by blast
qed

end
