(* ===== verification/OtpLog.thy ===== *)
theory OtpLog
  imports RequestLogger Business
begin

text \<open>
  The request logger in front of the payment handlers: the one-time password of a
  confirmation, which PullPaymentConfirm reads under two names.
\<close>

text \<open>
  C37: the one-time password reaches the log in clear.  PullPaymentConfirm takes the OTP from
  bfs_remitter_Otp when there is no otp, but isSensitiveKey lists only otp: the record that
  the logger queues for a confirmation written that way holds the member with the OTP, which
  the handler then uses.  (Business paths are first-tier records: queued, never dropped.)
\<close>
theorem otp_logged_in_clear:
  assumes "Unmarshal (TrimSpace (lr_Body r)) = Some (JObj kvs)" "looksLikeJSON (TrimSpace (lr_Body r)) (lr_ContentType r)"
    and "readString kvs ''otp'' = []" "jget kvs ''bfs_remitter_Otp'' = Some (JStr otp)"
    and "length (writeCanonical (redactSensitive (JObj kvs))) \<le> maxLoggedBodyBytes"
    and "lr_Path r = ''/api/business/pull/confirm''" "\<not> closed lr" "length (t1Queue lr) < logQueueBufferSize"
  shows "co_OTP (read_confirm kvs) = TrimSpace otp
    \<and> (\<exists>i lr' rec pre post. RequestLogger start stop disk new rest r (Some lr) = (i, Some lr') \<and> t1Queue lr' = t1Queue lr @ [rec]
         \<and> q_ReqBody rec = pre @ quote_text ''bfs_remitter_Otp'' @ '':'' @ quote_text otp @ post)"
proof (intro conjI)
  show "co_OTP (read_confirm kvs) = TrimSpace otp"
    using assms(3,4) by (simp add: read_confirm_def readString_def)
  have k: "\<not> isSensitiveKey ''bfs_remitter_Otp''" by code_simp
  obtain pre post where printed: "writeCanonical (redactSensitive (JObj kvs))
      = pre @ quote_text ''bfs_remitter_Otp'' @ '':'' @ quote_text otp @ post"
    using member_printed [OF assms(4) k] by blast
  have ne: "TrimSpace (lr_Body r) \<noteq> []" using assms(1) Unmarshal_Nil by (metis option.distinct(1))
  then have body: "sanitizePayload (lr_Body r) (lr_ContentType r) = writeCanonical (redactSensitive (JObj kvs))"
    using sanitized_JSON assms(1,2,5) by metis
  have nb: "lr_Body r \<noteq> []" using ne by auto
  obtain i lr' where R: "RequestLogger start stop disk new rest r (Some lr) = (i, Some lr')"
    by (simp add: RequestLogger_def Let_def)
  have tier: "classifyLogTier (log_entry start stop j r a) = T1" for j a
  proof -
    have "payment_path (lower_trim ''/api/business/pull/confirm'')" by code_simp
    then show ?thesis by (simp add: classifyLogTier_def log_entry_def assms(6))
  qed
  have "\<exists>rec. t1Queue lr' = t1Queue lr @ [rec] \<and> q_ReqBody rec = sanitizePayload (lr_Body r) (lr_ContentType r)"
    using R assms(7,8) nb by (auto simp: RequestLogger_def Let_def Insert_def enqueue_def new_record_def tier)
  then show "\<exists>i lr' rec pre post. RequestLogger start stop disk new rest r (Some lr) = (i, Some lr') \<and> t1Queue lr' = t1Queue lr @ [rec]
      \<and> q_ReqBody rec = pre @ quote_text ''bfs_remitter_Otp'' @ '':'' @ quote_text otp @ post"
    unfolding body printed using R by blast
qed

definition otp_confirm_body :: string where
  "otp_confirm_body = writeCanonical (JObj [(''bfs_remitter_Otp'', JStr ''482913''), (''transaction_id'', JStr ''000000000017'')])"

definition confirm_logged :: logged_request where
  "confirm_logged = (login_demo [])\<lparr>lr_Path := ''/api/business/pull/confirm'', lr_Body := otp_confirm_body\<rparr>"

theorem otp_logged_in_clear_witness:
  "\<exists>i lr' rec pre post. RequestLogger 0 5000000 True ''r1'' login_answer confirm_logged (Some empty_logs) = (i, Some lr')
     \<and> t1Queue lr' = [rec] \<and> q_ReqBody rec = pre @ quote_text ''bfs_remitter_Otp'' @ '':'' @ quote_text ''482913'' @ post"
proof -
  let ?kvs = "[(''bfs_remitter_Otp'', JStr ''482913''), (''transaction_id'', JStr ''000000000017'')]"
  have "Unmarshal (TrimSpace (lr_Body confirm_logged)) = Some (JObj ?kvs)" by code_simp
  moreover have "looksLikeJSON (TrimSpace (lr_Body confirm_logged)) (lr_ContentType confirm_logged)" by code_simp
  moreover have "readString ?kvs ''otp'' = []" "jget ?kvs ''bfs_remitter_Otp'' = Some (JStr ''482913'')" by code_simp+
  moreover have "length (writeCanonical (redactSensitive (JObj ?kvs))) \<le> maxLoggedBodyBytes"
  proof -
    have "length (writeCanonical (redactSensitive (JObj ?kvs))) = 61" by code_simp
    then show ?thesis by (simp only: maxLoggedBodyBytes_def)
  qed
  moreover have "lr_Path confirm_logged = ''/api/business/pull/confirm''" by (simp add: confirm_logged_def)
  moreover have "\<not> closed empty_logs" "length (t1Queue empty_logs) < logQueueBufferSize" "t1Queue empty_logs = []"
    by (simp_all add: empty_logs_def logQueueBufferSize_def)
  ultimately show ?thesis
    using otp_logged_in_clear [where r = confirm_logged and lr = empty_logs and start = 0 and stop = 5000000 and disk = True
        and new = "''r1''" and rest = login_answer and kvs = ?kvs and otp = "''482913''"] by simp
qed

end
