(* ===== verification/Routes.thy ===== *)
theory Routes
  imports Strings
begin

text \<open>
  The routing table of the service: routes/routes.go and the registrations of main.go, and
  what a request passes before its controller runs.  The matching of a path against a
  pattern is Fiber's and an argument: mt True p path says that a Use on p applies to the
  path, mt False p path that the pattern p of a route matches it.  Fiber tries the entries
  in the order of their registration, a Group with handlers is a Use on its prefix,
  and Get registers HEAD and GET.  Which middleware lets a request pass is the
  business of the other theories.
\<close>

section \<open>Entries and their dispatch\<close>

datatype mw =
    HTTPSRedirectMw | SecurityHeadersMw | DbLoggerMw | StdoutLoggerMw | AdminAuthMw | AdminPageAuthMw | CSRFMw | APIKeyAuthMw
  | BizLimitMw | OtpLimitMw | AdminWriteLimitMw | AppCreateLimitMw

datatype route_entry =
    Use string "mw list"
  | Route string string "mw list" string

type_synonym matcher = "bool \<Rightarrow> string \<Rightarrow> string \<Rightarrow> bool"

definition Get :: "string \<Rightarrow> mw list \<Rightarrow> string \<Rightarrow> route_entry list" where
  "Get p ms c = [Route ''HEAD'' p ms c, Route ''GET'' p ms c]"

definition Post :: "string \<Rightarrow> mw list \<Rightarrow> string \<Rightarrow> route_entry list" where "Post p ms c = [Route ''POST'' p ms c]"
definition Put :: "string \<Rightarrow> mw list \<Rightarrow> string \<Rightarrow> route_entry list" where "Put p ms c = [Route ''PUT'' p ms c]"
definition Delete :: "string \<Rightarrow> mw list \<Rightarrow> string \<Rightarrow> route_entry list" where "Delete p ms c = [Route ''DELETE'' p ms c]"

text \<open>The middleware a request passes, in order, and the controller it reaches, None for 404.\<close>

fun dispatch :: "matcher \<Rightarrow> route_entry list \<Rightarrow> string \<Rightarrow> string \<Rightarrow> mw list \<times> string option" where
  "dispatch mt [] m path = ([], None)"
| "dispatch mt (Use p ms # es) m path =
     (case dispatch mt es m path of (rest, c) \<Rightarrow> (if mt True p path then ms @ rest else rest, c))"
| "dispatch mt (Route m' p ms c # es) m path = (if m' = m \<and> mt False p path then (ms, Some c) else dispatch mt es m path)"

section \<open>The table\<close>

definition Register :: "route_entry list" where
  "Register =
     Get ''/api/health'' [] ''Health'' @ Get ''/api/hello'' [] ''Hello''
   @ Get ''/api/admin/login/options'' [DbLoggerMw] ''LoginOptions''
   @ Post ''/api/admin/login'' [DbLoggerMw] ''Login''
   @ Post ''/api/admin/logout'' [DbLoggerMw, AdminAuthMw, CSRFMw] ''Logout''
   @ [Use ''/api/admin'' [StdoutLoggerMw, AdminAuthMw]]
   @ Get ''/api/admin/session'' [] ''Session''
   @ Get ''/api/admin/transactions'' [] ''TransactionsList''
   @ Post ''/api/admin/transactions/detail'' [CSRFMw] ''TransactionsGetDetailByBody''
   @ Get ''/api/admin/transactions/:id'' [] ''TransactionsGet''
   @ Post ''/api/admin/transactions/search'' [CSRFMw] ''TransactionsListByBody''
   @ Get ''/api/admin/stats'' [] ''Stats'' @ Get ''/api/admin/stats/daily'' [] ''DailyStats''
   @ Get ''/api/admin/apps'' [] ''AppsList'' @ Get ''/api/admin/logs'' [] ''LogsList''
   @ Post ''/api/admin/logs/search'' [CSRFMw] ''LogsListByBody''
   @ Get ''/api/admin/international/transactions'' [] ''InternationalList''
   @ Get ''/api/admin/upi/payments'' [] ''UpiList''
   @ Get ''/api/admin/upi/payments/:reference/screenshot'' [] ''UpiScreenshot''
   @ Post ''/api/admin/international/transactions/search'' [CSRFMw] ''InternationalListByBody''
   @ [Use ''/api/admin'' [AdminWriteLimitMw, DbLoggerMw, AdminAuthMw, CSRFMw]]
   @ Post ''/api/admin/apps/create'' [AppCreateLimitMw] ''AppsCreate''
   @ Get ''/api/admin/apps/:id'' [] ''AppsGet''
   @ Put ''/api/admin/apps/:id'' [] ''AppsUpdate''
   @ Delete ''/api/admin/apps/:id'' [AppCreateLimitMw] ''AppsDelete''
   @ Post ''/api/admin/apps/:id/regenerate-key'' [AppCreateLimitMw] ''AppsRegenerateKey''
   @ Get ''/api/admin/apps/:id/stats'' [] ''AppsGetStats''
   @ Get ''/api/admin/recipients'' [] ''ListRecipients''
   @ Get ''/api/admin/recipient-mappings'' [] ''ListMappings''
   @ Get ''/api/admin/gateway-credentials'' [] ''ListCredentials''
   @ Get ''/api/admin/merchant-routing/overview'' [] ''Overview''
   @ Post ''/api/admin/merchant-routing/provision'' [] ''Provision''
   @ Post ''/api/admin/recipients'' [] ''CreateRecipient''
   @ Put ''/api/admin/recipients/:id'' [] ''SetRecipientActive''
   @ Post ''/api/admin/recipient-mappings'' [] ''CreateMapping''
   @ Put ''/api/admin/recipient-mappings/:id'' [] ''SetMappingActive''
   @ Post ''/api/admin/gateway-credentials'' [] ''CreateCredential''
   @ Post ''/api/admin/gateway-credentials/:id/rotate'' [] ''RotateCredential''
   @ Post ''/api/admin/gateway-credentials/:id/activate'' [] ''ActivateCredential''
   @ Post ''/api/admin/gateway-credentials/:id/disable'' [] ''DisableCredential''
   @ [Use ''/api/business'' [BizLimitMw, DbLoggerMw, APIKeyAuthMw]]
   @ Post ''/api/business/pull/initiate'' [] ''PullPaymentInitiate''
   @ Post ''/api/business/pull/confirm'' [OtpLimitMw] ''PullPaymentConfirm''
   @ Post ''/api/business/intra/inquiry'' [] ''IntraInquiry''
   @ Post ''/api/business/status/same-day'' [] ''StatusSameDay''
   @ Post ''/api/business/status/later'' [] ''StatusLater''
   @ [Use ''/api/v1'' [BizLimitMw, DbLoggerMw, APIKeyAuthMw]]
   @ Post ''/api/v1/payments'' [] ''CreatePayment''
   @ Get ''/api/v1/payments/:reference_id/status'' [] ''CheckPaymentStatus''"

definition main_head :: "route_entry list" where
  "main_head = [Use ''/'' [HTTPSRedirectMw], Use ''/'' [SecurityHeadersMw]]"

definition main_signup :: "string \<Rightarrow> string \<Rightarrow> route_entry list" where
  "main_signup key route = (if blank key then [] else Post route [AdminWriteLimitMw, DbLoggerMw] ''Signup'')"

definition main_pages :: "route_entry list" where
  "main_pages =
     Get ''/'' [] ''RedirectLogin'' @ Get ''/robots.txt'' [] ''Robots'' @ Get ''/dashboard'' [AdminPageAuthMw] ''Dashboard''
   @ Get ''/login'' [] ''Asset'' @ Get ''/styles.css'' [] ''Asset'' @ Get ''/app.js'' [] ''Asset'' @ Get ''/charts.js'' [] ''Asset''
   @ Get ''/modals.js'' [] ''Asset'' @ Get ''/login.js'' [] ''Asset'' @ Get ''/vendor*'' [] ''Vendor''"

definition main_table :: "string \<Rightarrow> string \<Rightarrow> route_entry list" where
  "main_table key route = main_head @ main_signup key route @ Register @ main_pages"

section \<open>Who may reach what\<close>

definition public_handlers :: "string list" where
  "public_handlers = [''Health'', ''Hello'', ''LoginOptions'', ''Login'', ''Signup'', ''RedirectLogin'', ''Robots'', ''Asset'', ''Vendor'']"

definition payment_handlers :: "string list" where
  "payment_handlers = [''PullPaymentInitiate'', ''PullPaymentConfirm'', ''IntraInquiry'', ''StatusSameDay'', ''StatusLater'',
     ''CreatePayment'', ''CheckPaymentStatus'']"

text \<open>The middleware a controller must not be reached without.\<close>

definition required :: "string \<Rightarrow> string \<Rightarrow> mw list" where
  "required m c =
     [HTTPSRedirectMw, SecurityHeadersMw]
   @ (if c \<in> set public_handlers then []
      else if c = ''Dashboard'' then [AdminPageAuthMw]
      else if c \<in> set payment_handlers then [BizLimitMw, DbLoggerMw, APIKeyAuthMw] @ (if c = ''PullPaymentConfirm'' then [OtpLimitMw] else [])
      else [AdminAuthMw] @ (if m = ''GET'' \<or> m = ''HEAD'' then [] else [CSRFMw]))"

definition router_law :: "matcher \<Rightarrow> bool" where
  "router_law mt \<longleftrightarrow> (\<forall>path. mt True ''/'' path)
     \<and> (\<forall>p q path. mt False (p @ CHR ''/'' # q) path \<longrightarrow> mt True p path)"

text \<open>The prefix of a Use covers a pattern.\<close>

definition covers :: "string \<Rightarrow> string \<Rightarrow> bool" where
  "covers u p \<longleftrightarrow> u = ''/'' \<or> HasPrefix p (u @ ''/'')"

lemma covers_matches: "router_law mt \<Longrightarrow> covers u p \<Longrightarrow> mt False p path \<Longrightarrow> mt True u path"
proof -
  assume law: "router_law mt" and c: "covers u p" and m: "mt False p path"
  show ?thesis
  proof (cases "u = ''/''")
    case False
    then have "p = (u @ ''/'') @ drop (length (u @ ''/'')) p"
      using c append_take_drop_id [of "length (u @ ''/'')" p] by (simp add: covers_def HasPrefix_def)
    then have "mt False (u @ CHR ''/'' # drop (length (u @ ''/'')) p) path" using m by simp
    then show ?thesis using law unfolding router_law_def by blast
  qed (use law in \<open>simp add: router_law_def\<close>)
qed

text \<open>A table is guarded when each route is covered by what it requires; acc lists the uses before it.\<close>

fun guarded :: "(string \<times> mw list) list \<Rightarrow> route_entry list \<Rightarrow> bool" where
  "guarded acc [] = True"
| "guarded acc (Use u ms # es) = guarded ((u, ms) # acc) es"
| "guarded acc (Route m p ms c # es) =
     (list_all (\<lambda>x. x \<in> set ms \<or> list_ex (\<lambda>(u, us). covers u p \<and> x \<in> set us) acc) (required m c) \<and> guarded acc es)"

lemma dispatch_guarded:
  assumes "router_law mt" "guarded acc es" "dispatch mt es m path = (ms, Some c)" "x \<in> set (required m c)"
  shows "x \<in> set ms \<or> (\<exists>(u, us) \<in> set acc. mt True u path \<and> x \<in> set us)"
  using assms(2,3)
proof (induction acc es arbitrary: ms rule: guarded.induct)
  case (2 acc u us es)
  obtain rest where r: "dispatch mt es m path = (rest, Some c)" "ms = (if mt True u path then us @ rest else rest)"
    using 2(3) by (auto split: prod.splits)
  then have "x \<in> set rest \<or> (\<exists>(u, us) \<in> set ((u, us) # acc). mt True u path \<and> x \<in> set us)"
    using 2 by simp
  then show ?case using r(2) by auto
next
  case (3 acc m' p us c' es)
  show ?case
  proof (cases "m' = m \<and> mt False p path")
    case True
    then have "ms = us" "c' = c" using 3(3) by simp_all
    then have "x \<in> set ms \<or> list_ex (\<lambda>(u, us). covers u p \<and> x \<in> set us) acc"
      using 3(2) assms(4) True by (auto simp: list_all_iff)
    then show ?thesis using covers_matches [OF assms(1)] True by (fastforce simp: list_ex_iff)
  qed (use 3 in auto)
qed simp

definition uses :: "route_entry list \<Rightarrow> (string \<times> mw list) list" where "uses es = [(u, us). Use u us \<leftarrow> es]"

lemma guarded_append: "guarded acc es \<Longrightarrow> guarded (rev (uses es) @ acc) es' \<Longrightarrow> guarded acc (es @ es')"
  by (induction acc es rule: guarded.induct) (simp_all add: uses_def)

lemma head_uses: "rev (uses main_head) @ [] = [(''/'', [SecurityHeadersMw]), (''/'', [HTTPSRedirectMw])]"
  by (simp add: uses_def main_head_def)

lemma guarded_head: "guarded [] main_head" by (simp add: main_head_def)

lemma guarded_rest: "guarded [(''/'', [SecurityHeadersMw]), (''/'', [HTTPSRedirectMw])] (Register @ main_pages)" by code_simp

lemma guarded_signup:
  "guarded [(''/'', [SecurityHeadersMw]), (''/'', [HTTPSRedirectMw])] (main_signup key route @ Register @ main_pages)"
proof -
  have "required ''POST'' ''Signup'' = [HTTPSRedirectMw, SecurityHeadersMw]" by code_simp
  then have "guarded [(''/'', [SecurityHeadersMw]), (''/'', [HTTPSRedirectMw])] (Route ''POST'' route ms ''Signup'' # es)
      \<longleftrightarrow> guarded [(''/'', [SecurityHeadersMw]), (''/'', [HTTPSRedirectMw])] es" for ms es
    by (simp add: covers_def)
  then show ?thesis using guarded_rest by (auto simp only: main_signup_def Post_def append.simps if_True if_False split: if_splits)
qed

lemma guarded_table: "guarded [] (main_table key route)"
  unfolding main_table_def by (rule guarded_append [OF guarded_head]) (simp only: head_uses guarded_signup)

text \<open>
  C14: no controller is reached unguarded.  Whatever the request, if the routing table of the
  running service takes it to a controller, then it has passed the redirect to HTTPS and the
  security headers; for a controller of the administration, the session check, and the CSRF
  check too unless the method is GET or HEAD; for the dashboard, the page's session check; for a
  payment controller, the rate limit, the logger and the API key, and for the confirmation of an OTP
  its own tighter limit.  Only the controllers of public_handlers are open.
\<close>
theorem controllers_guarded:
  assumes "router_law mt" "dispatch mt (main_table key route) m path = (ms, Some c)"
  shows "set (required m c) \<subseteq> set ms"
  using dispatch_guarded [OF assms(1) guarded_table assms(2)] by auto

section \<open>A matcher\<close>

text \<open>A simple matcher, for concrete requests: a parameter stands for the rest of a segment.\<close>

function (sequential) walk :: "bool \<Rightarrow> string \<Rightarrow> string \<Rightarrow> bool" where
  "walk pre [] s = (s = [] \<or> pre \<and> hd s = CHR ''/'')"
| "walk pre (c # p) [] = False"
| "walk pre (c # p) (x # s) =
     (if c = CHR '':'' then walk pre (dropWhile (\<lambda>d. d \<noteq> CHR ''/'') p) (dropWhile (\<lambda>d. d \<noteq> CHR ''/'') (x # s))
      else x = c \<and> walk pre p s)"
  by pat_completeness auto
termination
  by (relation "measure (\<lambda>(_, p, _). length p)") (auto simp: le_imp_less_Suc length_dropWhile_le)

definition simple_matcher :: matcher where
  "simple_matcher pre p path \<longleftrightarrow> pre \<and> p = ''/'' \<or> walk pre p path"

lemma walk_prefix: "walk False (p @ CHR ''/'' # q) s \<Longrightarrow> walk True p s"
proof (induction "False" "p @ CHR ''/'' # q" s arbitrary: p rule: walk.induct)
  case (3 c r x s)
  show ?case
  proof (cases p)
    case Nil
    then show ?thesis using 3 by auto
  next
    case (Cons d p')
    then have r: "c = d" "r = p' @ CHR ''/'' # q" using 3(3) by auto
    show ?thesis
    proof (cases "c = CHR '':''")
      case True
      have "dropWhile (\<lambda>d. d \<noteq> CHR ''/'') (p' @ CHR ''/'' # q) = dropWhile (\<lambda>d. d \<noteq> CHR ''/'') p' @ CHR ''/'' # q"
        by (induction p') auto
      then show ?thesis using 3(1) [OF True, of "dropWhile (\<lambda>d. d \<noteq> CHR ''/'') p'"] 3(4) True r Cons by simp
    next
      case False
      then show ?thesis using 3(2,4) r Cons by auto
    qed
  qed
next
  case (2 c r)
  then have "walk False (c # r) []" by simp
  then show ?case by simp
qed simp

lemma simple_matcher_law: "router_law simple_matcher"
  using walk_prefix by (auto simp: router_law_def simple_matcher_def)

theorem controllers_guarded_witness:
  "dispatch simple_matcher (main_table [] []) ''POST'' ''/api/admin/recipients''
      = ([HTTPSRedirectMw, SecurityHeadersMw, StdoutLoggerMw, AdminAuthMw, AdminWriteLimitMw, DbLoggerMw, AdminAuthMw, CSRFMw],
         Some ''CreateRecipient'')
   \<and> set (required ''POST'' ''CreateRecipient'') \<subseteq>
      set [HTTPSRedirectMw, SecurityHeadersMw, StdoutLoggerMw, AdminAuthMw, AdminWriteLimitMw, DbLoggerMw, AdminAuthMw, CSRFMw]"
proof -
  have d: "dispatch simple_matcher (main_table [] []) ''POST'' ''/api/admin/recipients''
      = ([HTTPSRedirectMw, SecurityHeadersMw, StdoutLoggerMw, AdminAuthMw, AdminWriteLimitMw, DbLoggerMw, AdminAuthMw, CSRFMw],
         Some ''CreateRecipient'')" by code_simp
  from controllers_guarded [OF simple_matcher_law d] d show ?thesis by blast
qed

text \<open>
  The reads registered after the second group of /api/admin pass the limiter of the writes and the
  logger of the writes as well, unlike those registered before it.
\<close>

lemma later_reads_pass_write_chain:
  "fst (dispatch simple_matcher (main_table [] []) ''GET'' ''/api/admin/transactions'')
     = [HTTPSRedirectMw, SecurityHeadersMw, StdoutLoggerMw, AdminAuthMw]"
  "fst (dispatch simple_matcher (main_table [] []) ''GET'' ''/api/admin/recipients'')
     = [HTTPSRedirectMw, SecurityHeadersMw, StdoutLoggerMw, AdminAuthMw, AdminWriteLimitMw, DbLoggerMw, AdminAuthMw, CSRFMw]"
  by code_simp+

end
