(* ===== verification/RoutingAdmin.thy ===== *)
theory RoutingAdmin
  imports Resolver Validation
begin

text \<open>
  The administration of merchant routing: controllers/merchant_routing_admin_controller.go
  and the listings of internal/storage/merchant_routing.go.  A map of credentials is a list
  of members with distinct names.  Fresh ids, the nonce, the instant and the JSON
  rendering of a stored timestamp are arguments; the names of the acting
  administrators are columns nothing reads and are left out.
\<close>

section \<open>Credential payloads\<close>

type_synonym payload = "(string \<times> string) list"

definition val_at :: "payload \<Rightarrow> string \<Rightarrow> string" where
  "val_at vs k = (case map_of vs k of None \<Rightarrow> [] | Some v \<Rightarrow> v)"

text \<open>
  A map[string]string field of a request: repeated members are merged, null empties the map,
  a null value is the empty string, and any other value is an error.
\<close>

definition map_field :: "string \<Rightarrow> (string \<times> json) list \<Rightarrow> (string \<times> json) list option" where
  "map_field name kvs = foldl (\<lambda>cur (k, v). if EqualFold k name
      then (case v of JObj o' \<Rightarrow> map_option (\<lambda>m. m @ o') cur | JNull \<Rightarrow> map_option (\<lambda>_. []) cur | _ \<Rightarrow> None) else cur) (Some []) kvs"

definition payload_field :: "string \<Rightarrow> (string \<times> json) list \<Rightarrow> payload option" where
  "payload_field name kvs = (case map_field name kvs of
     None \<Rightarrow> None
   | Some m \<Rightarrow> if list_all (\<lambda>(k, v). case v of JStr _ \<Rightarrow> True | JNull \<Rightarrow> True | _ \<Rightarrow> False) m
       then Some (map (\<lambda>(k, v). (k, case v of JStr s \<Rightarrow> s | _ \<Rightarrow> [])) (members m)) else None)"

definition trim_payload :: "payload \<Rightarrow> payload" where
  "trim_payload vs = map (\<lambda>(k, v). (k, TrimSpace v)) vs"

definition validProvider :: "string \<Rightarrow> bool" where
  "validProvider p \<longleftrightarrow> p = ''dkpg'' \<or> p = ''stripe''"

definition dkpgAuthKeys :: "string list" where
  "dkpgAuthKeys = [''api_key'', ''username'', ''password'', ''client_id'', ''client_secret'', ''source_app'', ''scopes'', ''private_key'']"

definition stripeAuthKeys :: "string list" where "stripeAuthKeys = [''api_key'', ''agency_name'']"

definition sharedAuthKeys :: "string \<Rightarrow> string list" where
  "sharedAuthKeys p = (if p = ''dkpg'' then dkpgAuthKeys else stripeAuthKeys)"

definition humanList :: "string list \<Rightarrow> string" where
  "humanList xs = (if xs = [] then [] else if length xs = 1 then hd xs else join '', '' (butlast xs) @ '' and '' @ last xs)"

definition recipientKeys :: "string \<Rightarrow> string list" where
  "recipientKeys p = (if p = ''dkpg'' then [''beneficiary_account'', ''beneficiary_name'', ''beneficiary_bank'']
     else [''submerchant_id'', ''dk_account''])"

definition validCredentialPayload :: "string \<Rightarrow> payload \<Rightarrow> bool" where
  "validCredentialPayload p vs \<longleftrightarrow> vs \<noteq> [] \<and> validProvider p \<and> list_all (\<lambda>k. \<not> blank (val_at vs k)) (recipientKeys p)
     \<and> list_all (\<lambda>k. blank (val_at vs k)) (sharedAuthKeys p)"

definition supportedBeneficiaryBanks :: "string list" where "supportedBeneficiaryBanks = [''1060'']"

definition supportedBank :: "string \<Rightarrow> bool" where "supportedBank c \<longleftrightarrow> c \<in> set supportedBeneficiaryBanks"

definition name_problem :: string where
  "name_problem = ''beneficiary_name must be 2 to 100 characters and may contain only letters, digits, spaces and . , & '' @ [CHR 0x27] @ '' ( ) - _ /''"

definition validateCredentialFormat :: "string \<Rightarrow> payload \<Rightarrow> string option" where
  "validateCredentialFormat p vs =
     (if p = ''dkpg'' then
        (if \<not> valid_AccountNumber (val_at vs ''beneficiary_account'') then Some ''beneficiary_account must be 6 to 20 digits''
         else if \<not> supportedBank (val_at vs ''beneficiary_bank'')
         then Some (''beneficiary_bank must be one of: '' @ join '', '' supportedBeneficiaryBanks)
         else let name = val_at vs ''beneficiary_name'' in
           if length name < 2 \<or> length name > 100 \<or> \<not> SafeText name then Some name_problem else None)
      else map_option (\<lambda>k. k @ '' must be 2 to 64 characters of letters, digits, hyphen or underscore'')
        (find (\<lambda>k. length (val_at vs k) < 2 \<or> \<not> valid_MerchantReference (val_at vs k)) [''submerchant_id'', ''dk_account'']))"

definition credentialPayloadProblem :: "string \<Rightarrow> payload \<Rightarrow> string" where
  "credentialPayloadProblem p vs =
     (if \<not> validProvider p then ''provider must be dkpg or stripe''
      else case find (\<lambda>k. \<not> blank (val_at vs k)) (sharedAuthKeys p) of
        Some k \<Rightarrow> (if p \<noteq> ''dkpg'' then ''Stripe'' else ''DKPG'')
          @ '' authentication comes from this gateway'' @ [CHR 0x27] @ ''s environment and is the same for every recipient; supply only ''
          @ join '', '' (recipientKeys p) @ '' (remove: '' @ k @ '')''
      | None \<Rightarrow> humanList (recipientKeys p) @ '' are required'')"

text \<open>The two checks one after the other, with their message.\<close>

definition payload_error :: "string \<Rightarrow> payload \<Rightarrow> string option" where
  "payload_error p vs = (if \<not> validCredentialPayload p vs then Some (credentialPayloadProblem p vs) else validateCredentialFormat p vs)"

section \<open>The listings of the repository\<close>

definition ListRecipients :: "routing_db \<Rightarrow> PaymentRecipient list" where
  "ListRecipients db = sort_key (\<lambda>r. pr_Name r) (sort_key (\<lambda>r. pr_ID r) (recipients db))"

text \<open>The mappings of an app, or of all for a blank id, with the name of the recipient.\<close>

definition ListMappings :: "string \<Rightarrow> routing_db \<Rightarrow> (IntegrationRecipientMapping \<times> string) list" where
  "ListMappings appID db =
     sort_key (\<lambda>(m, _). im_ExternalAppID m) (sort_key (\<lambda>(m, _). im_ExternalMerchantReference m)
       [(m, pr_Name r). m \<leftarrow> mappings db, r \<leftarrow> recipients db,
          pr_ID r = im_RecipientID m \<and> (blank appID \<or> im_ExternalAppID m = TrimSpace appID)])"

definition ListCredentials :: "string \<Rightarrow> routing_db \<Rightarrow> db_error + GatewayCredentialConfiguration list" where
  "ListCredentials rid db =
     (case (if blank rid then Some [] else uuid_of db (TrimSpace rid)) of
        None \<Rightarrow> Inl InvalidUUID
      | Some k \<Rightarrow> Inr (map (\<lambda>c. c\<lparr>gc_EncryptedCredentials := JStr []\<rparr>)
          (sort_key gc_RecipientID (sort_key gc_Provider (sort_key (\<lambda>c. - gc_Version c)
            (filter (\<lambda>c. blank rid \<or> gc_RecipientID c = k) (credentials db)))))))"

section \<open>Handlers\<close>

record routing_world =
  rw_now :: time
  rw_recipient_uuid :: string
  rw_credential_uuid :: string
  rw_mapping_uuid :: string
  rw_nonce :: "string option"
  rw_stamp :: "time \<Rightarrow> string"

definition master_key_id :: string where "master_key_id = ''env:PAYMENT_CREDENTIALS_MASTER_KEY_B64''"

definition statusForAdminResourceError :: "db_error \<Rightarrow> response" where
  "statusForAdminResourceError e = (if e = NoRows \<or> e = CredentialNotConfigured
     then send_error 404 ''resource not found'' else send_error 500 ''operation failed'')"

definition parseActiveBody :: "request \<Rightarrow> bool option" where
  "parseActiveBody r = (case BodyParser r of
     None \<Rightarrow> None
   | Some kvs \<Rightarrow> if list_all (\<lambda>(k, v). case v of JBool _ \<Rightarrow> True | JNull \<Rightarrow> True | _ \<Rightarrow> False) kvs
       then map_option (\<lambda>v. v = JBool True) (jget kvs ''is_active'') else None)"

definition credentialEncryptor :: "aead option \<Rightarrow> string option \<Rightarrow> payload \<Rightarrow> encryptor" where
  "credentialEncryptor g nonce vs c =
     (case Encrypt nonce g (writeCanonical (JObj (map (\<lambda>(k, v). (k, JStr v)) vs))) (gr_additional_data c) of
        Inl _ \<Rightarrow> Inl ''encrypt gateway credentials'' | Inr doc \<Rightarrow> Inr doc)"

definition routing_result_response :: "string \<Rightarrow> unit routing_result \<Rightarrow> response \<times> routing_db" where
  "routing_result_response msg x = (case x of
     (Inl e, db) \<Rightarrow> (statusForAdminResourceError e, db)
   | (Inr _, db) \<Rightarrow> (send 200 [(''message'', JStr msg)], db))"

definition admin_CreateRecipient :: "routing_world \<Rightarrow> request \<Rightarrow> routing_db \<Rightarrow> response \<times> routing_db" where
  "admin_CreateRecipient w r db = (case BodyFields [''name''] r of
     None \<Rightarrow> (send_error 400 ''recipient name is required'', db)
   | Some f \<Rightarrow>
       let name = TrimSpace (f ''name'') in
       (case valid_struct (\<lambda>_. True) [\<lparr> vf_name = ''Name'', vf_omitempty = False,
               vf_rules = [Required, MinLen 2, MaxLen 100, SafeTextRule], vf_value = name \<rparr>] of
          Some e \<Rightarrow> (send_error 400 e, db)
        | None \<Rightarrow> (case CreateRecipient (rw_now w) (rw_recipient_uuid w) (rw_recipient_uuid w) name True db of
            (Inl _, _) \<Rightarrow> (send_error 500 ''failed to create recipient'', db)
          | (Inr _, db') \<Rightarrow> (send 201 [(''message'', JStr ''recipient created''),
                (''data'', JObj [(''recipient_id'', JStr (rw_recipient_uuid w))])], db'))))"

definition admin_SetRecipientActive :: "routing_world \<Rightarrow> string \<Rightarrow> request \<Rightarrow> routing_db \<Rightarrow> response \<times> routing_db" where
  "admin_SetRecipientActive w i r db = (case parseActiveBody r of
     None \<Rightarrow> (send_error 400 ''is_active is required'', db)
   | Some act \<Rightarrow> routing_result_response ''recipient updated'' (SetRecipientActive (rw_now w) i act db))"

definition admin_CreateMapping :: "routing_world \<Rightarrow> request \<Rightarrow> routing_db \<Rightarrow> response \<times> routing_db" where
  "admin_CreateMapping w r db = (case BodyFields [''external_app_id'', ''merchant_reference'', ''recipient_id''] r of
     None \<Rightarrow> (send_error 400 ''external_app_id, merchant_reference, and recipient_id are required'', db)
   | Some f \<Rightarrow>
       let app = TrimSpace (f ''external_app_id''); ref = TrimSpace (f ''merchant_reference''); rid = TrimSpace (f ''recipient_id'') in
       (case valid_struct (\<lambda>_. True)
            [\<lparr> vf_name = ''ExternalAppID'', vf_omitempty = False, vf_rules = [Required, MaxLen 100], vf_value = app \<rparr>,
             \<lparr> vf_name = ''ExternalMerchantReference'', vf_omitempty = False, vf_rules = [Required, MerchantRefRule], vf_value = ref \<rparr>,
             \<lparr> vf_name = ''RecipientID'', vf_omitempty = False, vf_rules = [Required, MaxLen 100], vf_value = rid \<rparr>] of
          Some e \<Rightarrow> (send_error 400 e, db)
        | None \<Rightarrow> (case CreateMapping (rw_now w) (rw_mapping_uuid w) app ref rid True db of
            (Inl _, _) \<Rightarrow> (send_error 409 ''failed to create merchant mapping'', db)
          | (Inr _, db') \<Rightarrow> (send 201 [(''message'', JStr ''merchant mapping created'')], db'))))"

definition admin_SetMappingActive :: "routing_world \<Rightarrow> string \<Rightarrow> request \<Rightarrow> routing_db \<Rightarrow> response \<times> routing_db" where
  "admin_SetMappingActive w i r db = (case parseActiveBody r of
     None \<Rightarrow> (send_error 400 ''is_active is required'', db)
   | Some act \<Rightarrow> routing_result_response ''merchant mapping updated'' (SetMappingActive (rw_now w) i act db))"

text \<open>What a response shows of a credential: the payload has no JSON name, and safeCredential empties it.\<close>

definition safeCredential :: "GatewayCredentialConfiguration \<Rightarrow> GatewayCredentialConfiguration" where
  "safeCredential c = c\<lparr>gc_EncryptedCredentials := JStr []\<rparr>"

definition credential_json :: "(time \<Rightarrow> string) \<Rightarrow> GatewayCredentialConfiguration \<Rightarrow> json" where
  "credential_json st c = JObj
     ([(''id'', JStr (gc_ID c)), (''recipient_id'', JStr (gc_RecipientID c)), (''provider'', JStr (gc_Provider c)),
       (''version'', jint (gc_Version c)), (''status'', JStr (gc_Status c)), (''encryption_key_id'', JStr (gc_EncryptionKeyID c))]
      @ (if gc_RotatedFromID c = [] then [] else [(''rotated_from_id'', JStr (gc_RotatedFromID c))])
      @ [(''created_at'', JStr (st (gc_CreatedAt c))), (''updated_at'', JStr (st (gc_UpdatedAt c)))]
      @ (case gc_ActivatedAt c of None \<Rightarrow> [] | Some t \<Rightarrow> [(''activated_at'', JStr (st t))])
      @ (case gc_DisabledAt c of None \<Rightarrow> [] | Some t \<Rightarrow> [(''disabled_at'', JStr (st t))]))"

definition admin_CreateCredential :: "aead option \<Rightarrow> routing_world \<Rightarrow> request \<Rightarrow> routing_db \<Rightarrow> response \<times> routing_db" where
  "admin_CreateCredential g w r db =
     (case (BodyFields [''recipient_id'', ''provider'', ''rotated_from_id''] r, Option.bind (BodyParser r) (payload_field ''credentials'')) of
        (Some f, Some vs) \<Rightarrow>
          if g = None \<or> blank (f ''recipient_id'') then (send_error 400 ''invalid gateway credential configuration'', db)
          else let vs = trim_payload vs in
            (case payload_error (f ''provider'') vs of
               Some e \<Rightarrow> (send_error 400 e, db)
             | None \<Rightarrow> (case CreateDraftCredential (rw_now w) (rw_credential_uuid w) (TrimSpace (f ''recipient_id'')) (TrimSpace (f ''provider''))
                     master_key_id (credentialEncryptor g (rw_nonce w) vs) db of
                 (Inl _, _) \<Rightarrow> (send_error 409 ''failed to create gateway credential configuration'', db)
               | (Inr c, db') \<Rightarrow> (send 201 [(''message'', JStr ''gateway credential configuration created''),
                     (''data'', credential_json (rw_stamp w) (safeCredential c))], db')))
      | _ \<Rightarrow> (send_error 400 ''invalid request body'', db))"

definition admin_RotateCredential :: "aead option \<Rightarrow> routing_world \<Rightarrow> string \<Rightarrow> request \<Rightarrow> routing_db \<Rightarrow> response \<times> routing_db" where
  "admin_RotateCredential g w i r db = (case GetCredential i db of
     Inl e \<Rightarrow> (statusForAdminResourceError e, db)
   | Inr old \<Rightarrow> (case Option.bind (BodyParser r) (payload_field ''credentials'') of
       None \<Rightarrow> (send_error 400 ''invalid request body'', db)
     | Some vs \<Rightarrow>
         let vs = trim_payload vs in
         if \<not> validCredentialPayload (gc_Provider old) vs then (send_error 400 ''invalid gateway credential configuration'', db)
         else (case validateCredentialFormat (gc_Provider old) vs of
           Some e \<Rightarrow> (send_error 400 e, db)
         | None \<Rightarrow> (case RotateCredential (rw_now w) (rw_credential_uuid w) (gc_ID old) master_key_id (credentialEncryptor g (rw_nonce w) vs) db of
             (Inl _, _) \<Rightarrow> (send_error 409 ''failed to rotate gateway credential configuration'', db)
           | (Inr c, db') \<Rightarrow> (send 201 [(''message'', JStr ''gateway credential configuration rotated''),
                 (''data'', credential_json (rw_stamp w) (safeCredential c))], db')))))"

definition admin_ListCredentials :: "routing_world \<Rightarrow> string \<Rightarrow> routing_db \<Rightarrow> response" where
  "admin_ListCredentials w rid db = (case ListCredentials rid db of
     Inl _ \<Rightarrow> send_error 500 ''failed to list gateway credential configurations''
   | Inr cs \<Rightarrow> send 200 [(''data'', JArr (map (\<lambda>c. credential_json (rw_stamp w) (safeCredential c)) cs))])"

definition recipient_json :: "(time \<Rightarrow> string) \<Rightarrow> PaymentRecipient \<Rightarrow> json" where
  "recipient_json st r = JObj [(''id'', JStr (pr_ID r)), (''name'', JStr (pr_Name r)), (''is_active'', JBool (pr_IsActive r)),
     (''created_at'', JStr (st (pr_CreatedAt r))), (''updated_at'', JStr (st (pr_UpdatedAt r)))]"

definition mapping_json :: "(time \<Rightarrow> string) \<Rightarrow> IntegrationRecipientMapping \<times> string \<Rightarrow> json" where
  "mapping_json st x = (case x of (m, name) \<Rightarrow> JObj
     ([(''id'', JStr (im_ID m)), (''external_app_id'', JStr (im_ExternalAppID m)),
       (''external_merchant_reference'', JStr (im_ExternalMerchantReference m)), (''recipient_id'', JStr (im_RecipientID m))]
      @ (if name = [] then [] else [(''recipient_name'', JStr name)])
      @ [(''is_active'', JBool (im_IsActive m)), (''created_at'', JStr (st (im_CreatedAt m))), (''updated_at'', JStr (st (im_UpdatedAt m)))]))"

definition admin_ListRecipients :: "routing_world \<Rightarrow> routing_db \<Rightarrow> response" where
  "admin_ListRecipients w db = send 200 [(''data'', JArr (map (recipient_json (rw_stamp w)) (ListRecipients db)))]"

definition admin_ListMappings :: "routing_world \<Rightarrow> string \<Rightarrow> routing_db \<Rightarrow> response" where
  "admin_ListMappings w app db = send 200 [(''data'', JArr (map (mapping_json (rw_stamp w)) (ListMappings app db)))]"

definition ActivateCredential :: "routing_world \<Rightarrow> string \<Rightarrow> routing_db \<Rightarrow> response \<times> routing_db" where
  "ActivateCredential w i db =
     routing_result_response ''gateway credential configuration activated'' (SetCredentialStatus (rw_now w) i ''active'' db)"

definition DisableCredential :: "routing_world \<Rightarrow> string \<Rightarrow> routing_db \<Rightarrow> response \<times> routing_db" where
  "DisableCredential w i db =
     routing_result_response ''gateway credential configuration disabled'' (SetCredentialStatus (rw_now w) i ''disabled'' db)"

end
