(* ===== verification/RoutingProvision.thy ===== *)
theory RoutingProvision
  imports RoutingAdmin
begin

text \<open>
  Setting a property up to be paid in one call: Provision of
  controllers/merchant_routing_overview_controller.go, with what it leaves in the routing
  tables when it succeeds and when it fails; and the credential created by hand, which
  opens only if the request spelt the recipient the way the database does.
\<close>

section \<open>The handler\<close>

record provision_request =
  pv_ExternalAppID :: string
  pv_MerchantReference :: string
  pv_Name :: string
  pv_Provider :: string
  pv_Credentials :: payload

definition parse_provision :: "request \<Rightarrow> provision_request option" where
  "parse_provision r =
     (case (BodyFields [''external_app_id'', ''merchant_reference'', ''name'', ''provider''] r,
            Option.bind (BodyParser r) (payload_field ''credentials'')) of
        (Some f, Some vs) \<Rightarrow> Some \<lparr> pv_ExternalAppID = TrimSpace (f ''external_app_id''),
          pv_MerchantReference = TrimSpace (f ''merchant_reference''), pv_Name = TrimSpace (f ''name''),
          pv_Provider = (if blank (f ''provider'') then ''dkpg'' else TrimSpace (f ''provider'')), pv_Credentials = vs \<rparr>
      | _ \<Rightarrow> None)"

definition provision_fields :: "provision_request \<Rightarrow> vfield list" where
  "provision_fields q =
     [\<lparr> vf_name = ''ExternalAppID'', vf_omitempty = False, vf_rules = [Required, MaxLen 100], vf_value = pv_ExternalAppID q \<rparr>,
      \<lparr> vf_name = ''MerchantReference'', vf_omitempty = False, vf_rules = [Required, MerchantRefRule], vf_value = pv_MerchantReference q \<rparr>,
      \<lparr> vf_name = ''Name'', vf_omitempty = False, vf_rules = [Required, MinLen 2, MaxLen 100, SafeTextRule], vf_value = pv_Name q \<rparr>,
      \<lparr> vf_name = ''Provider'', vf_omitempty = False, vf_rules = [Required, OneOf [''dkpg'', ''stripe'']], vf_value = pv_Provider q \<rparr>]"

text \<open>The four steps; a step that fails after the first deactivates the recipient.\<close>

definition provision_steps :: "aead option \<Rightarrow> routing_world \<Rightarrow> provision_request \<Rightarrow> payload \<Rightarrow> routing_db \<Rightarrow> response \<times> routing_db" where
  "provision_steps g w q vs db =
     (let rid = rw_recipient_uuid w; undo = (\<lambda>d. snd (SetRecipientActive (rw_now w) rid False d)) in
      case CreateRecipient (rw_now w) rid rid (pv_Name q) True db of
        (Inl _, _) \<Rightarrow> (send_error 500 ''failed to create recipient'', db)
      | (Inr _, db1) \<Rightarrow> (case CreateDraftCredential (rw_now w) (rw_credential_uuid w) rid (pv_Provider q) master_key_id
              (credentialEncryptor g (rw_nonce w) vs) db1 of
          (Inl _, _) \<Rightarrow> (send_error 409 ''failed to store the destination'', undo db1)
        | (Inr c, db2) \<Rightarrow> (case SetCredentialStatus (rw_now w) (gc_ID c) ''active'' db2 of
            (Inl _, _) \<Rightarrow> (send_error 500 ''failed to activate the destination'', undo db2)
          | (Inr _, db3) \<Rightarrow> (case CreateMapping (rw_now w) (rw_mapping_uuid w) (pv_ExternalAppID q) (pv_MerchantReference q) rid True db3 of
              (Inl _, _) \<Rightarrow> (send_error 409 ''failed to map the merchant reference'', undo db3)
            | (Inr _, db4) \<Rightarrow> (send 201 [(''message'', JStr ''property is now set up to be paid''),
                (''data'', JObj [(''recipient_id'', JStr rid), (''credential_id'', JStr (gc_ID c))])], db4)))))"

definition Provision :: "aead option \<Rightarrow> routing_world \<Rightarrow> request \<Rightarrow> routing_db \<Rightarrow> response \<times> routing_db" where
  "Provision g w r db = (case parse_provision r of
     None \<Rightarrow> (send_error 400 ''invalid request body'', db)
   | Some q \<Rightarrow> (case valid_struct (\<lambda>_. True) (provision_fields q) of
       Some e \<Rightarrow> (send_error 400 e, db)
     | None \<Rightarrow>
         let vs = trim_payload (pv_Credentials q) in
         (case payload_error (pv_Provider q) vs of
            Some e \<Rightarrow> (send_error 400 e, db)
          | None \<Rightarrow>
              if \<exists>x \<in> set (ListMappings (pv_ExternalAppID q) db).
                   im_ExternalMerchantReference (fst x) = pv_MerchantReference q \<and> im_IsActive (fst x)
              then (send_error 409 ''that merchant reference is already mapped; disable the existing mapping first'', db)
              else provision_steps g w q vs db)))"

section \<open>Reading a stored payload back\<close>

lemma Unmarshal_canonical: "decimals v \<Longrightarrow> Unmarshal (writeCanonical v) = Some (jnorm v)"
proof -
  assume "decimals v"
  then have "read_value (length (writeCanonical v)) (writeCanonical v @ []) = Some (jnorm v, [])"
    using reads_back_all unfolding reads_back_def by (metis delimited_punct(4) order_refl)
  then show ?thesis by (simp add: Unmarshal_def skip_ws_def)
qed

lemma distinct_members: "distinct (map fst (members kvs))"
proof -
  have "mset (map fst (members kvs)) = mset (map fst (AList.clearjunk (rev kvs)))" by (simp add: members_def)
  then show ?thesis by (metis distinct_clearjunk mset_eq_imp_distinct_iff)
qed

lemma jget_members: "jget (members kvs) k = map_of (rev kvs) k"
proof -
  have "map_of (rev (members kvs)) k = Some v \<longleftrightarrow> map_of (rev kvs) k = Some v" for v
    using map_of_eq_Some_iff [of "rev (members kvs)" k v] distinct_members [of kvs] set_members [of kvs]
    by (auto simp: rev_map [symmetric])
  then show ?thesis unfolding jget_def by (metis not_None_eq)
qed

text \<open>The settings of a payload: what its text decodes to.\<close>

lemma payload_reads_back:
  assumes "distinct (map fst vs)"
  shows "string_map (Unmarshal (writeCanonical (JObj (map (\<lambda>(k, v). (k, JStr v)) vs)))) = Some (val_at vs)"
proof -
  let ?kvs = "map (\<lambda>(k, v). (k, JStr v)) vs"
  have "jnorm (JObj ?kvs) = JObj (members ?kvs)"
  proof -
    have "map (\<lambda>(k, v). (k, jnorm v)) ?kvs = ?kvs" by auto
    then show ?thesis by (simp only: jnorm.simps)
  qed
  moreover have "decimals (JObj ?kvs)" by (auto simp: list_all_iff)
  ultimately have u: "Unmarshal (writeCanonical (JObj ?kvs)) = Some (JObj (members ?kvs))"
    using Unmarshal_canonical by metis
  have strs: "list_all (\<lambda>(k, v). case v of JStr _ \<Rightarrow> True | JNull \<Rightarrow> True | _ \<Rightarrow> False) (members ?kvs)"
    by (auto simp: list_all_iff dest!: members_subset)
  have d: "distinct (map fst (rev vs))" using assms by (simp add: rev_map [symmetric])
  have "jget (members ?kvs) k = map_option JStr (map_of vs k)" for k
  proof -
    have "map_of (rev ?kvs) k = map_option JStr (map_of (rev vs) k)"
      by (simp add: rev_map map_of_map)
    moreover have "map_of (rev vs) = map_of vs"
      using map_of_inject_set [OF d assms] by simp
    ultimately show ?thesis by (simp add: jget_members)
  qed
  then have "(\<lambda>k. case jget (members ?kvs) k of Some (JStr s) \<Rightarrow> s | _ \<Rightarrow> []) = val_at vs"
    by (auto simp: val_at_def split: option.splits)
  then show ?thesis using strs unfolding u string_map_def by simp
qed

lemma payload_field_distinct: "payload_field name kvs = Some vs \<Longrightarrow> distinct (map fst vs)"
proof -
  assume "payload_field name kvs = Some vs"
  then obtain m where "vs = map (\<lambda>(k, v). (k, case v of JStr s \<Rightarrow> s | _ \<Rightarrow> [])) (members m)"
    by (auto simp: payload_field_def split: option.splits if_splits)
  then have "map fst vs = map fst (members m)" by (auto simp: case_prod_unfold)
  then show ?thesis by (simp add: distinct_members)
qed

lemma trim_payload_distinct: "distinct (map fst vs) \<Longrightarrow> distinct (map fst (trim_payload vs))"
proof -
  have "map fst (trim_payload vs) = map fst vs" by (auto simp: trim_payload_def)
  then show "distinct (map fst vs) \<Longrightarrow> ?thesis" by simp
qed

lemma val_at_trim: "TrimSpace (val_at (trim_payload vs) k) = val_at (trim_payload vs) k"
  by (auto simp: val_at_def trim_payload_def map_of_map split: option.splits)

lemma parse_provision_distinct: "parse_provision r = Some q \<Longrightarrow> distinct (map fst (pv_Credentials q))"
  by (auto simp: parse_provision_def bind_eq_Some_conv split: option.splits dest: payload_field_distinct)

text \<open>A credential stored with the payload encrypts to what the resolver decrypts.\<close>

lemma credential_decrypts:
  assumes "aead_law g" "length n = NonceSize" "gr_Cipher rs = Some g" "distinct (map fst vs)"
    and "credentialEncryptor (Some g) (Some n) vs c = Inr (gc_EncryptedCredentials (rg_Credential x))"
    and "gr_additional_data (rg_Credential x) = gr_additional_data c"
  shows "gr_decrypt rs x = Inr \<lparr> rv_Routing = x, rv_Values = val_at vs \<rparr>"
proof -
  let ?p = "writeCanonical (JObj (map (\<lambda>(k, v). (k, JStr v)) vs))"
  have doc: "gc_EncryptedCredentials (rg_Credential x) = JObj [(''version'', jint encryptionVersion), (''nonce'', JStr (StdEncode n)),
      (''ciphertext'', JStr (StdEncode (Seal g n ?p (gr_additional_data c))))]"
    using assms(5) by (simp add: credentialEncryptor_def Encrypt_def)
  have "Open g n (Seal g n ?p (gr_additional_data c)) (gr_additional_data c) = Some ?p"
    using assms(1,2) by (simp add: aead_law_def)
  then have "Decrypt (Some g) (Some (gc_EncryptedCredentials (rg_Credential x))) (gr_additional_data (rg_Credential x)) = Inr ?p"
    unfolding doc assms(6) by (simp add: Decrypt_def decode_envelope_Encrypt assms(2))
  then show ?thesis using payload_reads_back [OF assms(4)] by (simp add: gr_decrypt_def assms(3))
qed

section \<open>A property set up in one call\<close>

lemma provision_steps_201:
  assumes "provision_steps g w q vs db = (resp, db')" "status resp = 201"
  obtains c db1 db2 db3 where
    "CreateRecipient (rw_now w) (rw_recipient_uuid w) (rw_recipient_uuid w) (pv_Name q) True db = (Inr (), db1)"
    "CreateDraftCredential (rw_now w) (rw_credential_uuid w) (rw_recipient_uuid w) (pv_Provider q) master_key_id
       (credentialEncryptor g (rw_nonce w) vs) db1 = (Inr c, db2)"
    "SetCredentialStatus (rw_now w) (gc_ID c) ''active'' db2 = (Inr (), db3)"
    "CreateMapping (rw_now w) (rw_mapping_uuid w) (pv_ExternalAppID q) (pv_MerchantReference q) (rw_recipient_uuid w) True db3 = (Inr (), db')"
  using assms by (auto simp: provision_steps_def Let_def split: prod.splits sum.splits)

lemma Provision_201:
  assumes "Provision g w r db = (resp, db')" "status resp = 201"
  obtains q where "parse_provision r = Some q" "valid_struct (\<lambda>_. True) (provision_fields q) = None"
    "payload_error (pv_Provider q) (trim_payload (pv_Credentials q)) = None"
    "provision_steps g w q (trim_payload (pv_Credentials q)) db = (resp, db')"
  using assms by (auto simp: Provision_def Let_def split: option.splits if_splits)

text \<open>The recipient, credential and mapping that the four steps leave form a route.\<close>

lemma provisioned_route:
  assumes steps: "provision_steps g w q vs db = (resp, db')" "status resp = 201" and inv: "routing_inv db"
    and uuids: "fresh_uuid (rw_recipient_uuid w) db" "fresh_uuid (rw_credential_uuid w) db" "fresh_uuid (rw_mapping_uuid w) db"
  obtains m p c c0 where "routing_inv db'"
    "route (TrimSpace (pv_ExternalAppID q)) (TrimSpace (pv_MerchantReference q)) (TrimSpace (pv_Provider q)) db' m p c"
    "credentialEncryptor g (rw_nonce w) vs c0 = Inr (gc_EncryptedCredentials c)" "gr_additional_data c = gr_additional_data c0"
proof -
  let ?rid = "rw_recipient_uuid w" and ?cid = "rw_credential_uuid w"
  obtain c db1 db2 db3 where s:
    "CreateRecipient (rw_now w) ?rid ?rid (pv_Name q) True db = (Inr (), db1)"
    "CreateDraftCredential (rw_now w) ?cid ?rid (pv_Provider q) master_key_id (credentialEncryptor g (rw_nonce w) vs) db1 = (Inr c, db2)"
    "SetCredentialStatus (rw_now w) (gc_ID c) ''active'' db2 = (Inr (), db3)"
    "CreateMapping (rw_now w) (rw_mapping_uuid w) (pv_ExternalAppID q) (pv_MerchantReference q) ?rid True db3 = (Inr (), db')"
    by (rule provision_steps_201 [OF steps])
  have law: "uuid_law (uuid_of db)" using inv by (simp add: routing_inv_def canonical_def)
  have rid: "TrimSpace ?rid = ?rid" "?rid \<noteq> []" "TrimSpace ?cid = ?cid" "uuid_of db ?rid = Some ?rid" "uuid_of db ?cid = Some ?cid"
    using uuids law by (auto simp: fresh_uuid_def uuid_law_def)
  let ?p = "\<lparr> pr_ID = ?rid, pr_Name = TrimSpace (pv_Name q), pr_IsActive = True, pr_CreatedAt = rw_now w, pr_UpdatedAt = rw_now w \<rparr>"
  have db1: "db1 = db\<lparr>recipients := recipients db @ [?p]\<rparr>"
    using s(1) rid by (auto simp: CreateRecipient_def split: if_splits)
  have inv1: "routing_inv db1" using routing_step_inv [OF create_recipient [OF _ s(1)] inv] uuids(1) by (simp add: fresh_uuid_def)
  then have ok1: "routing_ok db1" by (simp add: routing_inv_def)
  obtain row where row: "db2 = db1\<lparr>credentials := credentials db1 @ [row]\<rparr>" "gc_ID row = ?cid" "gc_key row = (?rid, TrimSpace (pv_Provider q))"
    "credentialEncryptor g (rw_nonce w) vs (c\<lparr>gc_EncryptedCredentials := JNull\<rparr>) = Inr (gc_EncryptedCredentials row)"
    "c = row\<lparr>gc_RecipientID := ?rid\<rparr>"
    by (rule CreateDraft_Inr [OF s(2) ok1]) (use rid in \<open>simp add: db1\<close>)
  have inv2: "routing_inv db2" using routing_step_inv [OF create_draft [OF _ s(2)] inv1] uuids(2) by (simp add: fresh_uuid_def db1)
  then have ok2: "routing_ok db2" by (simp add: routing_inv_def)
  have same: "c = row" using row(3,5) by (simp add: gc_key_def)
  obtain k x where st: "uuid_of db2 (TrimSpace (gc_ID c)) = Some k" "find_credential k db2 = Some x"
    "db3 = set_status (rw_now w) k ''active'' (retire_active (rw_now w) (gc_key x) db2)"
    by (rule SetStatus_Inr [OF s(3) ok2]) simp
  have k: "k = ?cid" using st(1) row(2) rid same by (simp add: row(1) db1)
  let ?c = "status1 (rw_now w) k ''active'' (retire1 (rw_now w) (gc_key x) row)"
  have c3: "?c \<in> set (credentials db3)" by (simp add: st(3) set_status_map retire_active_map row(1))
  have act: "gc_active ?c" by (simp add: status1_active k row(2))
  have key: "gc_key ?c = (?rid, TrimSpace (pv_Provider q))" by (simp add: row(3))
  have r3: "?p \<in> set (recipients db3)" "recipients db3 = recipients db2" "uuid_of db3 = uuid_of db"
    by (simp_all add: st(3) set_status_map retire_active_map row(1) db1)
  have inv3: "routing_inv db3" using routing_step_inv [OF set_status [OF s(3)] inv2] by simp
  let ?m = "\<lparr> im_ID = rw_mapping_uuid w, im_ExternalAppID = TrimSpace (pv_ExternalAppID q),
     im_ExternalMerchantReference = TrimSpace (pv_MerchantReference q), im_RecipientID = ?rid, im_IsActive = True,
     im_CreatedAt = rw_now w, im_UpdatedAt = rw_now w \<rparr>"
  have db4: "db' = db3\<lparr>mappings := mappings db3 @ [?m]\<rparr>"
    using s(4) rid r3(3) by (auto simp: CreateMapping_def Let_def split: if_splits)
  have inv4: "routing_inv db'"
    using routing_step_inv [OF create_mapping [OF _ s(4)] inv3] uuids(3) by (simp add: fresh_uuid_def r3(3))
  have core: "core ?c = core row" by simp
  have "route (TrimSpace (pv_ExternalAppID q)) (TrimSpace (pv_MerchantReference q)) (TrimSpace (pv_Provider q)) db' ?m ?p ?c"
    using c3 act key r3(1) by (simp add: route_def db4 im_key_def)
  moreover have "credentialEncryptor g (rw_nonce w) vs (c\<lparr>gc_EncryptedCredentials := JNull\<rparr>) = Inr (gc_EncryptedCredentials ?c)"
    using row(4) core by (simp add: core_def)
  moreover have "gr_additional_data ?c = gr_additional_data (c\<lparr>gc_EncryptedCredentials := JNull\<rparr>)"
    using core by (simp add: gr_additional_data_def core_def same)
  ultimately show thesis using that inv4 by blast
qed

lemma parse_provision_trimmed:
  "parse_provision r = Some q \<Longrightarrow> TrimSpace (pv_ExternalAppID q) = pv_ExternalAppID q
     \<and> TrimSpace (pv_MerchantReference q) = pv_MerchantReference q"
  by (auto simp: parse_provision_def split: option.splits)

lemma provision_fields_required:
  assumes "valid_struct e (provision_fields q) = None"
  shows "pv_ExternalAppID q \<noteq> []" "pv_MerchantReference q \<noteq> []" "validProvider (pv_Provider q)"
  using assms unfolding valid_struct_None by (auto simp: field_error_None provision_fields_def passes_rule_def validProvider_def)

lemma payload_error_None:
  assumes "payload_error p vs = None"
  shows "\<forall>k \<in> set (recipientKeys p). TrimSpace (val_at vs k) \<noteq> []" "\<forall>k \<in> set (sharedAuthKeys p). TrimSpace (val_at vs k) = []"
    and "p = ''dkpg'' \<Longrightarrow> valid_AccountNumber (val_at vs ''beneficiary_account'') \<and> supportedBank (val_at vs ''beneficiary_bank'')"
proof -
  have v: "validCredentialPayload p vs" "validateCredentialFormat p vs = None"
    using assms by (auto simp: payload_error_def split: if_splits)
  show "\<forall>k \<in> set (recipientKeys p). TrimSpace (val_at vs k) \<noteq> []" "\<forall>k \<in> set (sharedAuthKeys p). TrimSpace (val_at vs k) = []"
    using v(1) by (auto simp: validCredentialPayload_def list_all_iff blank_def)
  show "p = ''dkpg'' \<Longrightarrow> valid_AccountNumber (val_at vs ''beneficiary_account'') \<and> supportedBank (val_at vs ''beneficiary_bank'')"
    using v(2) by (auto simp: validateCredentialFormat_def split: if_splits)
qed

text \<open>
  C10: a property set up in one call is paid from then on.  When Provision answers 201, a
  payment of that app for that merchant reference and provider resolves, and the settings
  it is paid with are the submitted ones, trimmed: every setting of the recipient is
  there, for the bank the account is 6 to 20 digits at a supported bank, and no setting
  that belongs to the platform's own authentication came in with them.
\<close>
theorem provisioned_property_is_paid:
  assumes "Provision (Some g) w r db = (resp, db')" "status resp = 201" "routing_inv db"
    and "fresh_uuid (rw_recipient_uuid w) db" "fresh_uuid (rw_credential_uuid w) db" "fresh_uuid (rw_mapping_uuid w) db"
    and "aead_law g" "rw_nonce w = Some n" "length n = NonceSize" "gr_Cipher rs = Some g"
  shows "\<exists>q v. parse_provision r = Some q
    \<and> gr_Resolve rs db' (pv_ExternalAppID q) (pv_MerchantReference q) (pv_Provider q) = Inr v
    \<and> (\<forall>k. gr_Value v k = TrimSpace (val_at (pv_Credentials q) k))
    \<and> (\<forall>k \<in> set (recipientKeys (pv_Provider q)). gr_Value v k \<noteq> [])
    \<and> (\<forall>k \<in> set (sharedAuthKeys (pv_Provider q)). gr_Value v k = [])
    \<and> (pv_Provider q = ''dkpg'' \<longrightarrow> valid_AccountNumber (gr_Value v ''beneficiary_account'')
          \<and> supportedBank (gr_Value v ''beneficiary_bank''))"
proof -
  obtain q where q: "parse_provision r = Some q" "valid_struct (\<lambda>_. True) (provision_fields q) = None"
    "payload_error (pv_Provider q) (trim_payload (pv_Credentials q)) = None"
    "provision_steps (Some g) w q (trim_payload (pv_Credentials q)) db = (resp, db')"
    by (rule Provision_201 [OF assms(1,2)])
  let ?vs = "trim_payload (pv_Credentials q)"
  obtain m p c c0 where rt: "routing_inv db'"
    "route (TrimSpace (pv_ExternalAppID q)) (TrimSpace (pv_MerchantReference q)) (TrimSpace (pv_Provider q)) db' m p c"
    "credentialEncryptor (Some g) (rw_nonce w) ?vs c0 = Inr (gc_EncryptedCredentials c)"
    "gr_additional_data c = gr_additional_data c0"
    by (rule provisioned_route [OF q(4) assms(2-6)])
  have c: "rg_Credential (resolved_of m p c) = c" by (simp add: resolved_of_def)
  have "ResolveActive (pv_ExternalAppID q) (pv_MerchantReference q) (pv_Provider q) db' = Inr (resolved_of m p c)"
    using rt(1,2) ResolveActive_iff unfolding routing_inv_def by blast
  moreover have d: "gr_decrypt rs (resolved_of m p c) = Inr \<lparr> rv_Routing = resolved_of m p c, rv_Values = val_at ?vs \<rparr>"
    by (rule credential_decrypts [OF assms(7,9,10) trim_payload_distinct [OF parse_provision_distinct [OF q(1)]]])
       (use rt(3,4) assms(8) c in simp_all)
  ultimately have res: "gr_Resolve rs db' (pv_ExternalAppID q) (pv_MerchantReference q) (pv_Provider q)
      = Inr \<lparr> rv_Routing = resolved_of m p c, rv_Values = val_at ?vs \<rparr>"
    using provision_fields_required [OF q(2)] parse_provision_trimmed [OF q(1)] assms(10) by (simp add: gr_Resolve_def)
  have vals: "gr_Value \<lparr> rv_Routing = resolved_of m p c, rv_Values = val_at ?vs \<rparr> k = val_at ?vs k" for k
    by (simp add: gr_Value_def val_at_trim)
  have raw: "val_at ?vs k = TrimSpace (val_at (pv_Credentials q) k)" for k
    by (auto simp: val_at_def trim_payload_def map_of_map split: option.splits)
  note pe = payload_error_None [OF q(3), unfolded val_at_trim]
  show ?thesis
    by (intro exI [of _ q] exI [of _ "\<lparr> rv_Routing = resolved_of m p c, rv_Values = val_at ?vs \<rparr>"])
       (use q(1) res pe in \<open>simp add: vals raw\<close>)
qed

definition provision_demo :: request where
  "provision_demo = \<lparr> r_method = ''POST'', r_path = ''/api/admin/merchant-routing/provision'', r_protocol = ''https'',
     r_hostname = ''pay'', r_ip = ''1.2.3.4'', r_header = (\<lambda>_. []), r_cookie = (\<lambda>_. []),
     r_body = Some (JObj [(''external_app_id'', JStr ''A''), (''merchant_reference'', JStr ''spa''), (''name'', JStr ''Spa''),
       (''credentials'', JObj [(''beneficiary_account'', JStr '' 100200300 ''), (''beneficiary_name'', JStr ''Spa''),
         (''beneficiary_bank'', JStr ''1060'')])]) \<rparr>"

definition provision_world :: routing_world where
  "provision_world = \<lparr> rw_now = 7, rw_recipient_uuid = ''r2'', rw_credential_uuid = ''c2'', rw_mapping_uuid = ''m2'',
     rw_nonce = Some ''abcdefghijkl'', rw_stamp = (\<lambda>_. []) \<rparr>"

lemma provision_demo_fresh:
  "fresh_uuid (rw_recipient_uuid provision_world) demo_db" "fresh_uuid (rw_credential_uuid provision_world) demo_db"
  "fresh_uuid (rw_mapping_uuid provision_world) demo_db"
  by (simp_all add: fresh_uuid_def provision_world_def demo_db_def demo_uuid_def TrimSpace_def is_space_def)

lemma provision_demo_201: "status (fst (Provision (Some toy_aead) provision_world provision_demo demo_db)) = 201"
  by code_simp

theorem provisioned_property_is_paid_witness:
  "\<exists>v. gr_Resolve \<lparr>gr_Cipher = Some toy_aead, gr_Cfg = Load id [] (\<lambda>_. [])\<rparr>
      (snd (Provision (Some toy_aead) provision_world provision_demo demo_db)) ''A'' ''spa'' ''dkpg'' = Inr v
     \<and> gr_Value v ''beneficiary_account'' = ''100200300''"
proof -
  obtain resp db' where P: "Provision (Some toy_aead) provision_world provision_demo demo_db = (resp, db')" by fastforce
  have n: "rw_nonce provision_world = Some ''abcdefghijkl''" "length ''abcdefghijkl'' = NonceSize"
    by (simp_all add: provision_world_def NonceSize_def)
  have f: "map_option (\<lambda>q. (pv_ExternalAppID q, pv_MerchantReference q, pv_Provider q,
      TrimSpace (val_at (pv_Credentials q) ''beneficiary_account''))) (parse_provision provision_demo)
      = Some (''A'', ''spa'', ''dkpg'', ''100200300'')" by code_simp
  show ?thesis
    using provisioned_property_is_paid [OF P _ demo_inv provision_demo_fresh toy_aead_law n,
        of "\<lparr>gr_Cipher = Some toy_aead, gr_Cfg = Load id [] (\<lambda>_. [])\<rparr>"] provision_demo_201 P f
    by fastforce
qed

section \<open>A property that could not be set up\<close>

text \<open>The tables plus one recipient and credentials of it.\<close>

definition extends :: "string \<Rightarrow> routing_db \<Rightarrow> routing_db \<Rightarrow> bool" where
  "extends rid db d \<longleftrightarrow> mappings d = mappings db \<and> uuid_of d = uuid_of db
     \<and> (\<exists>p. recipients d = recipients db @ [p] \<and> pr_ID p = rid)
     \<and> (\<exists>cs. credentials d = credentials db @ cs \<and> (\<forall>c \<in> set cs. gc_RecipientID c = rid))"

lemma map_same: "(\<And>x. x \<in> set xs \<Longrightarrow> f x = x) \<Longrightarrow> map f xs = xs"
  by (rule map_idI)

lemma extends_retire:
  assumes "extends rid db d" "routing_inv db" "rid \<notin> set (map pr_ID (recipients db))"
  shows "extends rid db (retire_active now (rid, p) d)"
proof -
  obtain cs where cs: "credentials d = credentials db @ cs" "\<forall>c \<in> set cs. gc_RecipientID c = rid"
    using assms(1) unfolding extends_def by blast
  have "gc_RecipientID c \<noteq> rid" if "c \<in> set (credentials db)" for c
    using that assms(2,3) unfolding routing_inv_def routing_ok_def by auto
  then have "map (retire1 now (rid, p)) (credentials db) = credentials db"
    by (intro map_same) (simp add: retire1_def gc_key_def)
  then have "credentials (retire_active now (rid, p) d) = credentials db @ map (retire1 now (rid, p)) cs"
    by (simp add: retire_active_map cs(1))
  moreover have "\<forall>c \<in> set (map (retire1 now (rid, p)) cs). gc_RecipientID c = rid"
    using cs(2) by (auto simp: retire1_def)
  ultimately show ?thesis using assms(1) by (simp add: extends_def)
qed

lemma extends_status:
  assumes "extends rid db d" "i \<notin> set (map gc_ID (credentials db))"
  shows "extends rid db (set_status now i st d)"
proof -
  obtain cs where cs: "credentials d = credentials db @ cs" "\<forall>c \<in> set cs. gc_RecipientID c = rid"
    using assms(1) unfolding extends_def by blast
  have "map (status1 now i st) (credentials db) = credentials db"
    using assms(2) by (intro map_same) (auto simp: status1_def)
  then have "credentials (set_status now i st d) = credentials db @ map (status1 now i st) cs"
    by (simp add: set_status_map cs(1))
  moreover have "\<forall>c \<in> set (map (status1 now i st) cs). gc_RecipientID c = rid"
    using cs(2) by (auto simp: status1_def)
  ultimately show ?thesis using assms(1) by (simp add: extends_def)
qed

lemma extends_undo:
  assumes "extends rid db d" "uuid_of db (TrimSpace rid) = Some rid" "rid \<notin> set (map pr_ID (recipients db))"
  shows "\<exists>p. recipients (snd (SetRecipientActive now rid False d)) = recipients db @ [p] \<and> pr_ID p = rid \<and> \<not> pr_IsActive p"
    and "extends rid db (snd (SetRecipientActive now rid False d))"
proof -
  obtain p where p: "recipients d = recipients db @ [p]" "pr_ID p = rid" using assms(1) unfolding extends_def by blast
  let ?f = "\<lambda>r. if pr_ID r = rid then r\<lparr>pr_IsActive := False, pr_UpdatedAt := now\<rparr> else r"
  have f: "(find_recipient rid d = None) = False" by (simp add: find_recipient_None p)
  have "uuid_of d = uuid_of db" using assms(1) by (simp add: extends_def)
  then have d: "snd (SetRecipientActive now rid False d) = d\<lparr>recipients := map ?f (recipients d)\<rparr>"
    using assms(2) by (simp add: SetRecipientActive_def f)
  have "map ?f (recipients db) = recipients db" using assms(3) by (intro map_same) auto
  then have r: "recipients (snd (SetRecipientActive now rid False d)) = recipients db @ [?f p]"
    by (simp add: d p(1))
  show "\<exists>p. recipients (snd (SetRecipientActive now rid False d)) = recipients db @ [p] \<and> pr_ID p = rid \<and> \<not> pr_IsActive p"
    by (intro exI [of _ "?f p"]) (simp add: r p(2))
  have "pr_ID (?f p) = rid" by (simp add: p(2))
  then show "extends rid db (snd (SetRecipientActive now rid False d))"
    using assms(1) r unfolding extends_def by (simp add: d)
qed

text \<open>No mapping leads to the new recipient, so the routes are the old ones.\<close>

lemma join_drop:
  assumes "\<And>r c. c \<in> set cs \<Longrightarrow> \<not> Q r c" "\<And>c. \<not> Q q c"
  shows "concat (map (\<lambda>r. concat (map (\<lambda>c. if Q r c then [x r c] else []) (C @ cs))) (R @ [q]))
    = concat (map (\<lambda>r. concat (map (\<lambda>c. if Q r c then [x r c] else []) C)) R)"
proof -
  have "concat (map (\<lambda>c. if Q r c then [x r c] else []) cs) = []" for r
    using assms(1) by simp
  moreover have "concat (map (\<lambda>c. []) zs) = []" for zs :: "'c list" by (induction zs) auto
  ultimately show ?thesis using assms(2) by (simp only: map_append concat_append if_False append_Nil2 list.map concat.simps) simp
qed

lemma extends_routes:
  assumes "extends rid db d" "routing_inv db" "rid \<notin> set (map pr_ID (recipients db))"
  shows "routes a f p d = routes a f p db"
proof -
  obtain q cs where e: "recipients d = recipients db @ [q]" "pr_ID q = rid"
    "credentials d = credentials db @ cs" "\<forall>c \<in> set cs. gc_RecipientID c = rid" "mappings d = mappings db"
    using assms(1) unfolding extends_def by blast
  have m: "im_RecipientID m \<noteq> rid" if "m \<in> set (mappings db)" for m
    using routing_invD(4) [OF assms(2) that] assms(3) by metis
  show ?thesis
    unfolding routes_def e(1,3,5)
    by (rule arg_cong [where f = concat], rule map_cong [OF refl], rule join_drop) (use m e(2,4) in metis)+
qed

lemma create_extends:
  assumes "CreateRecipient now rid rid name True db = (Inr (), d)" "uuid_of db rid = Some rid" "TrimSpace rid = rid"
  shows "extends rid db d \<and> rid \<notin> set (map pr_ID (recipients db))"
  using assms by (auto simp: CreateRecipient_def find_recipient_None extends_def split: if_splits)

lemma draft_extends:
  assumes "extends rid db d" "CreateDraftCredential now cid rid p key enc d = (Inr c, d')" "routing_ok d"
    and "uuid_of db rid = Some rid" "TrimSpace rid = rid"
  shows "extends rid db d' \<and> gc_ID c = cid \<and> gc_key c = (rid, TrimSpace p) \<and> cid \<notin> set (map gc_ID (credentials db))
    \<and> find_credential cid d' = Some c"
proof -
  have u: "uuid_of d rid = Some rid" using assms(1,4) by (simp add: extends_def)
  obtain row where row: "d' = d\<lparr>credentials := credentials d @ [row]\<rparr>" "gc_ID row = cid" "gc_key row = (rid, TrimSpace p)"
    "cid \<notin> set (map gc_ID (credentials d))" "c = row\<lparr>gc_RecipientID := rid\<rparr>" "routing_ok d'"
    by (rule CreateDraft_Inr [OF assms(2,3)]) (use u assms(5) in simp)
  have same: "c = row" using row(3,5) by (simp add: gc_key_def)
  have "find_credential (gc_ID row) d' = Some row"
    using row(1,6) find_credential_unique [of d' row] by (simp add: routing_ok_def)
  then show ?thesis using assms(1) row(1-4) same by (auto simp: extends_def gc_key_def)
qed

lemma status_extends:
  assumes "extends rid db d" "SetCredentialStatus now cid ''active'' d = (Inr (), d')" "find_credential cid d = Some c"
    and "gc_key c = (rid, p)" "cid \<notin> set (map gc_ID (credentials db))" "uuid_of db cid = Some cid" "TrimSpace cid = cid"
    and "routing_inv db" "rid \<notin> set (map pr_ID (recipients db))"
  shows "extends rid db d'"
proof -
  have u: "uuid_of d cid = Some cid" using assms(1,6) by (simp add: extends_def)
  then have "d' = set_status now cid ''active'' (retire_active now (rid, p) d)"
    using assms(2-4,7) by (auto simp: SetCredentialStatus_def Let_def split: option.splits if_splits)
  then show ?thesis using extends_status extends_retire assms by metis
qed

text \<open>Every failure after the first step leaves the extended tables, with the new recipient switched off.\<close>

lemma provision_steps_failed:
  assumes "provision_steps g w q vs db = (resp, db')" "status resp \<noteq> 201" "routing_inv db"
    and uuids: "fresh_uuid (rw_recipient_uuid w) db" "fresh_uuid (rw_credential_uuid w) db"
  shows "db' = db \<or> (\<exists>d. rw_recipient_uuid w \<notin> set (map pr_ID (recipients db)) \<and> extends (rw_recipient_uuid w) db d
    \<and> db' = snd (SetRecipientActive (rw_now w) (rw_recipient_uuid w) False d))"
proof -
  let ?rid = "rw_recipient_uuid w" and ?cid = "rw_credential_uuid w"
  let ?draft = "CreateDraftCredential (rw_now w) ?cid ?rid (pv_Provider q) master_key_id (credentialEncryptor g (rw_nonce w) vs)"
  let ?undo = "\<lambda>d. snd (SetRecipientActive (rw_now w) ?rid False d)"
  have law: "uuid_law (uuid_of db)" using assms(3) by (simp add: routing_inv_def canonical_def)
  have ids: "uuid_of db ?rid = Some ?rid" "TrimSpace ?rid = ?rid" "uuid_of db ?cid = Some ?cid" "TrimSpace ?cid = ?cid"
    using uuids law by (auto simp: fresh_uuid_def uuid_law_def)
  obtain e1 db1 where s1: "CreateRecipient (rw_now w) ?rid ?rid (pv_Name q) True db = (e1, db1)" by fastforce
  obtain e2 db2 where s2: "?draft db1 = (e2, db2)" by fastforce
  show ?thesis
  proof (cases e1)
    case (Inl x)
    then show ?thesis using assms(1) s1 by (simp add: provision_steps_def Let_def)
  next
    case (Inr u)
    have x1: "extends ?rid db db1 \<and> ?rid \<notin> set (map pr_ID (recipients db))"
      using create_extends s1 Inr ids by simp
    have "routing_inv db1" using routing_step_inv [OF create_recipient [OF ids(1) s1] assms(3)] by simp
    then have ok: "routing_ok db1" by (simp add: routing_inv_def)
    show ?thesis
    proof (cases e2)
      case (Inl x)
      then have "db2 = db1" using CreateDraft_failure s2 by blast
      then show ?thesis using assms(1) s1 \<open>e1 = Inr u\<close> s2 Inl x1 by (auto simp: provision_steps_def Let_def)
    next
      case (Inr c)
      note x2 = draft_extends [OF conjunct1 [OF x1] s2 [unfolded Inr] ok ids(1,2)]
      obtain e3 db3 where s3: "SetCredentialStatus (rw_now w) (gc_ID c) ''active'' db2 = (e3, db3)" by fastforce
      have x3: "extends ?rid db db3"
      proof (cases e3)
        case (Inl z)
        have "db3 = db2" by (rule failures(7)) (use s3 Inl in simp)
        then show ?thesis using x2 by simp
      next
        case (Inr z)
        then show ?thesis
          using status_extends [of ?rid db db2 "rw_now w" ?cid db3 c "TrimSpace (pv_Provider q)"] s3 x2 ids assms(3) x1 by simp
      qed
      have ends: "db' = ?undo db2 \<or> db' = ?undo db3"
        using assms(1,2) s1 s2 s3 \<open>e1 = Inr u\<close> \<open>e2 = Inr c\<close>
        by (auto simp: provision_steps_def Let_def split: sum.splits prod.splits)
      then show ?thesis using x1 x2 x3 by blast
    qed
  qed
qed

text \<open>
  C11: a property that could not be set up pays nobody.  When Provision answers anything
  but 201, every app, reference and provider resolves exactly as before, the mappings are
  as before, and every recipient the call may have added is switched off.
\<close>
theorem failed_provision_is_inert:
  assumes "Provision g w r db = (resp, db')" "status resp \<noteq> 201" "routing_inv db"
    and "fresh_uuid (rw_recipient_uuid w) db" "fresh_uuid (rw_credential_uuid w) db"
  shows "(\<forall>a f p. ResolveActive a f p db' = ResolveActive a f p db) \<and> mappings db' = mappings db
    \<and> (\<exists>ps. recipients db' = recipients db @ ps \<and> (\<forall>p \<in> set ps. \<not> pr_IsActive p))"
proof -
  let ?rid = "rw_recipient_uuid w"
  have "db' = db \<or> (\<exists>q vs. provision_steps g w q vs db = (resp, db'))"
    using assms(1) by (auto simp: Provision_def Let_def split: option.splits if_splits)
  then have "db' = db \<or> (\<exists>d. ?rid \<notin> set (map pr_ID (recipients db)) \<and> extends ?rid db d
      \<and> db' = snd (SetRecipientActive (rw_now w) ?rid False d))"
    using provision_steps_failed assms(2-5) by blast
  then show ?thesis
  proof
    assume "\<exists>d. ?rid \<notin> set (map pr_ID (recipients db)) \<and> extends ?rid db d
      \<and> db' = snd (SetRecipientActive (rw_now w) ?rid False d)"
    then obtain d where d: "?rid \<notin> set (map pr_ID (recipients db))" "extends ?rid db d"
      "db' = snd (SetRecipientActive (rw_now w) ?rid False d)" by blast
    have "uuid_law (uuid_of db)" using assms(3) by (simp add: routing_inv_def canonical_def)
    then have u: "uuid_of db (TrimSpace ?rid) = Some ?rid"
      using assms(4) by (auto simp: fresh_uuid_def uuid_law_def)
    note undone = extends_undo [OF d(2) u d(1), where now = "rw_now w", folded d(3)]
    have "ResolveActive a f p db' = ResolveActive a f p db" for a f p
      using extends_routes [OF undone(2) assms(3) d(1)] by (simp add: ResolveActive_def)
    moreover have "mappings db' = mappings db" using undone(2) by (simp add: extends_def)
    moreover obtain z where "recipients db' = recipients db @ [z]" "\<not> pr_IsActive z" using undone(1) by blast
    ultimately show ?thesis by auto
  qed simp
qed

text \<open>Here the merchant reference belongs to an app that does not exist: the mapping fails after three steps.\<close>

definition stranger_demo :: request where
  "stranger_demo = provision_demo\<lparr>r_body := Some (JObj [(''external_app_id'', JStr ''B''), (''merchant_reference'', JStr ''spa''),
     (''name'', JStr ''Spa''), (''credentials'', JObj [(''beneficiary_account'', JStr ''100200300''),
        (''beneficiary_name'', JStr ''Spa''), (''beneficiary_bank'', JStr ''1060'')])])\<rparr>"

theorem failed_provision_is_inert_witness:
  "let db' = snd (Provision (Some toy_aead) provision_world stranger_demo demo_db)
   in (\<forall>a f p. ResolveActive a f p db' = ResolveActive a f p demo_db) \<and> length (recipients db') = 2"
proof -
  obtain resp db' where P: "Provision (Some toy_aead) provision_world stranger_demo demo_db = (resp, db')" by fastforce
  have "status (fst (Provision (Some toy_aead) provision_world stranger_demo demo_db)) = 409
      \<and> length (recipients (snd (Provision (Some toy_aead) provision_world stranger_demo demo_db))) = 2" by code_simp
  then show ?thesis
    using failed_provision_is_inert [OF P _ demo_inv provision_demo_fresh(1,2)] P by simp
qed

section \<open>A credential created by hand\<close>

text \<open>The data a ciphertext was sealed with is part of it: no other data opens it.\<close>

definition aead_binds :: "aead \<Rightarrow> bool" where
  "aead_binds g \<longleftrightarrow> (\<forall>n p a p' a'. Seal g n p a = Seal g n p' a' \<longrightarrow> a = a')"

lemma additional_data_recipient:
  "CredentialAdditionalData i r p v = CredentialAdditionalData i r' p v \<Longrightarrow> TrimSpace r = TrimSpace r'"
  by (simp add: CredentialAdditionalData_def)

lemma sealed_for_another:
  assumes "aead_law g" "aead_binds g" "length n = NonceSize" "gr_Cipher rs = Some g" "ad \<noteq> gr_additional_data (rg_Credential x)"
    and "Encrypt (Some n) (Some g) plain ad = Inr (gc_EncryptedCredentials (rg_Credential x))"
  shows "gr_decrypt rs x = Inl (DecryptGatewayFailed OpenFailed)"
proof -
  have doc: "gc_EncryptedCredentials (rg_Credential x) = JObj [(''version'', jint encryptionVersion), (''nonce'', JStr (StdEncode n)),
      (''ciphertext'', JStr (StdEncode (Seal g n plain ad)))]"
    using assms(6) by (simp add: Encrypt_def)
  have "Open g n (Seal g n plain ad) (gr_additional_data (rg_Credential x)) = None"
    using assms(1-3,5) unfolding aead_law_def aead_binds_def by (metis not_None_eq)
  then show ?thesis by (simp add: gr_decrypt_def doc assms(3,4) Decrypt_def decode_envelope_Encrypt)
qed

lemma CreateCredential_201:
  assumes "admin_CreateCredential (Some g) w r db = (resp, db')" "status resp = 201"
  obtains f vs c where "BodyFields [''recipient_id'', ''provider'', ''rotated_from_id''] r = Some f"
    "CreateDraftCredential (rw_now w) (rw_credential_uuid w) (TrimSpace (f ''recipient_id'')) (TrimSpace (f ''provider''))
       master_key_id (credentialEncryptor (Some g) (rw_nonce w) vs) db = (Inr c, db')"
  using assms by (auto simp: admin_CreateCredential_def Let_def split: option.splits if_splits sum.splits prod.splits)

text \<open>
  The recipient of a credential must be written the way the database writes it.
  A CreateCredential request that names the recipient in another spelling of its UUID (in
  upper case, say) is answered 201, but the ciphertext is bound to the spelling of the
  request and is opened with the stored one: whatever is done to the tables later, no
  payment ever resolves to that credential, even when it is the active one.
\<close>
lemma misspelt_recipient_never_paid:
  assumes "admin_CreateCredential (Some g) w r db = (resp, db')" "status resp = 201" "routing_inv db"
    and "BodyFields [''recipient_id'', ''provider'', ''rotated_from_id''] r = Some f"
    and "uuid_of db (TrimSpace (f ''recipient_id'')) \<noteq> Some (TrimSpace (f ''recipient_id''))"
    and "fresh_uuid (rw_credential_uuid w) db" "rw_nonce w = Some n" "length n = NonceSize"
    and "aead_law g" "aead_binds g" "gr_Cipher rs = Some g" "routing_step\<^sup>*\<^sup>* db' db''"
  shows "gr_Resolve rs db'' a ref p = Inr v \<longrightarrow> gc_ID (rg_Credential (rv_Routing v)) \<noteq> rw_credential_uuid w"
proof (intro impI notI)
  let ?rid = "TrimSpace (f ''recipient_id'')" and ?cid = "rw_credential_uuid w"
  assume v: "gr_Resolve rs db'' a ref p = Inr v" and id: "gc_ID (rg_Credential (rv_Routing v)) = ?cid"
  have ok: "routing_ok db" and law: "uuid_law (uuid_of db)" using assms(3) by (simp_all add: routing_inv_def canonical_def)
  obtain vs c where d: "CreateDraftCredential (rw_now w) ?cid ?rid (TrimSpace (f ''provider'')) master_key_id
       (credentialEncryptor (Some g) (rw_nonce w) vs) db = (Inr c, db')"
    by (rule CreateCredential_201 [OF assms(1,2)]) (use assms(4) in simp)
  obtain k row where row: "uuid_of db ?rid = Some k" "routing_ok db'" "db' = db\<lparr>credentials := credentials db @ [row]\<rparr>"
    "gc_ID row = ?cid" "gc_key row = (k, TrimSpace (f ''provider''))"
    "credentialEncryptor (Some g) (rw_nonce w) vs (c\<lparr>gc_EncryptedCredentials := JNull\<rparr>) = Inr (gc_EncryptedCredentials row)"
    "c = row\<lparr>gc_RecipientID := ?rid\<rparr>"
    by (rule CreateDraft_Inr [OF d ok]) simp
  have k: "k \<noteq> ?rid" "TrimSpace k = k" using row(1) assms(5) law by (auto simp: uuid_law_def)
  have inv': "routing_inv db'" using routing_step_inv [OF create_draft [OF _ d] assms(3)] assms(6) by (simp add: fresh_uuid_def)
  have "uuid_of db' (TrimSpace ?cid) = Some ?cid" using assms(6) law by (simp add: row(3) fresh_uuid_def uuid_law_def)
  moreover have "find_credential ?cid db' = Some row"
    using row(2-4) find_credential_unique [of db' row] by (simp add: routing_ok_def)
  ultimately have "GetCredential ?cid db' = Inr row" by (simp add: GetCredential_def)
  then obtain c'' where c'': "GetCredential ?cid db'' = Inr c''" "core c'' = core row"
    using credential_kept [OF inv' assms(12)] by blast
  obtain x where x: "ResolveActive a ref p db'' = Inr x" "gr_decrypt rs x = Inr v"
    using v by (auto simp: gr_Resolve_def split: if_splits sum.splits)
  then have "rv_Routing v = x" by (auto simp: gr_decrypt_def split: sum.splits option.splits)
  moreover have "routing_inv db''" using routing_steps_inv [OF assms(12) inv'] by simp
  ultimately have "core (rg_Credential x) = core row"
    using ResolveActive_GetCredential x(1) c'' id by fastforce
  then have e: "gr_additional_data (rg_Credential x) = gr_additional_data row"
    "gc_EncryptedCredentials (rg_Credential x) = gc_EncryptedCredentials row"
    by (simp_all add: gr_additional_data_def core_def)
  let ?c0 = "c\<lparr>gc_EncryptedCredentials := JNull\<rparr>"
  have "gc_RecipientID row = k" using row(5) by (simp add: gc_key_def)
  then have ad: "gr_additional_data ?c0 \<noteq> gr_additional_data (rg_Credential x)"
    using k additional_data_recipient [of "gc_ID row" ?rid "gc_Provider row" "gc_Version row" k] e(1)
    by (auto simp: gr_additional_data_def row(7))
  have "Encrypt (Some n) (Some g) (writeCanonical (JObj (map (\<lambda>(k, v). (k, JStr v)) vs))) (gr_additional_data ?c0)
      = Inr (gc_EncryptedCredentials (rg_Credential x))"
    using row(6) assms(7) e(2) by (simp add: credentialEncryptor_def split: sum.splits)
  from sealed_for_another [OF assms(9,10,8,11) ad this] x(2) show False by simp
qed

definition spelling_uuid :: "string \<Rightarrow> string option" where
  "spelling_uuid s = (if s = ''R1'' then Some ''r1'' else demo_uuid s)"

definition spelling_db :: routing_db where "spelling_db = demo_db\<lparr>uuid_of := spelling_uuid\<rparr>"

lemma spelling_inv: "routing_inv spelling_db"
proof -
  have v: "versions key spelling_db = versions key demo_db" for key
    by (simp add: spelling_db_def versions_def)
  have "routing_inv demo_db" by (rule demo_inv)
  moreover have "uuid_law spelling_uuid"
    by (simp add: uuid_law_def spelling_uuid_def demo_uuid_def TrimSpace_def is_space_def)
  ultimately show ?thesis
    unfolding routing_inv_def routing_ok_def canonical_def v
    by (simp add: spelling_db_def) (simp add: demo_db_def demo_credential_def spelling_uuid_def demo_uuid_def TrimSpace_def is_space_def)
qed

lemma toy_aead_binds: "aead_binds toy_aead"
proof -
  have "a = a'" if "tag n a @ p = tag n a' @ p'" for n a p a' p'
  proof -
    have nl: "CHR 0x0A \<notin> set (StdEncode s)" for s by (rule no_newline)
    have t: "takeWhile (\<lambda>c. c \<noteq> CHR 0x0A) (StdEncode b @ CHR 0x0A # q) = StdEncode b" for b q
      using nl [of b] by (subst takeWhile_append2) auto
    have "StdEncode a = StdEncode a'" using arg_cong [OF that [unfolded tag_def], of "\<lambda>s. takeWhile (\<lambda>c. c \<noteq> CHR 0x0A) (drop (length n) s)"] t
      by simp
    then show ?thesis using StdDecode_StdEncode by (metis option.inject)
  qed
  then show ?thesis by (simp add: aead_binds_def toy_aead_def)
qed

definition create_demo :: request where
  "create_demo = \<lparr> r_method = ''POST'', r_path = ''/api/admin/merchant-routing/credentials'', r_protocol = ''https'',
     r_hostname = ''pay'', r_ip = ''1.2.3.4'', r_header = (\<lambda>_. []), r_cookie = (\<lambda>_. []),
     r_body = Some (JObj [(''recipient_id'', JStr ''R1''), (''provider'', JStr ''dkpg''),
       (''credentials'', JObj [(''beneficiary_account'', JStr ''100200300''), (''beneficiary_name'', JStr ''Spa''),
         (''beneficiary_bank'', JStr ''1060'')])]) \<rparr>"

definition create_world :: routing_world where
  "create_world = \<lparr> rw_now = 7, rw_recipient_uuid = ''r2'', rw_credential_uuid = ''c2'', rw_mapping_uuid = ''m2'',
     rw_nonce = Some ''abcdefghijkl'', rw_stamp = (\<lambda>_. []) \<rparr>"

theorem misspelt_recipient_never_paid_witness:
  "let db' = snd (admin_CreateCredential (Some toy_aead) create_world create_demo spelling_db);
       db'' = snd (ActivateCredential create_world ''c2'' db')
   in (\<exists>x. ResolveActive ''A'' ''hotel'' ''dkpg'' db'' = Inr x \<and> gc_ID (rg_Credential x) = ''c2'')
    \<and> (\<forall>v. gr_Resolve \<lparr>gr_Cipher = Some toy_aead, gr_Cfg = Load id [] (\<lambda>_. [])\<rparr> db'' ''A'' ''hotel'' ''dkpg'' = Inr v
         \<longrightarrow> gc_ID (rg_Credential (rv_Routing v)) \<noteq> ''c2'')"
proof -
  obtain resp db' where P: "admin_CreateCredential (Some toy_aead) create_world create_demo spelling_db = (resp, db')" by fastforce
  obtain resp'' db'' where Q: "ActivateCredential create_world ''c2'' db' = (resp'', db'')" by fastforce
  obtain e where s: "SetCredentialStatus (rw_now create_world) ''c2'' ''active'' db' = (e, db'')"
    using Q by (auto simp: ActivateCredential_def routing_result_response_def split: prod.splits sum.splits)
  have st: "status (fst (admin_CreateCredential (Some toy_aead) create_world create_demo spelling_db)) = 201" by code_simp
  have x: "map_option (\<lambda>x. gc_ID (rg_Credential x)) (okay (ResolveActive ''A'' ''hotel'' ''dkpg'' (snd (ActivateCredential create_world ''c2''
      (snd (admin_CreateCredential (Some toy_aead) create_world create_demo spelling_db)))))) = Some ''c2''" by code_simp
  have f: "map_option (\<lambda>f. f ''recipient_id'') (BodyFields [''recipient_id'', ''provider'', ''rotated_from_id''] create_demo) = Some ''R1''"
    by code_simp
  then obtain f where f: "BodyFields [''recipient_id'', ''provider'', ''rotated_from_id''] create_demo = Some f" "f ''recipient_id'' = ''R1''"
    by auto
  have u: "uuid_of spelling_db (TrimSpace (f ''recipient_id'')) \<noteq> Some (TrimSpace (f ''recipient_id''))"
    by (simp add: f(2) spelling_db_def spelling_uuid_def TrimSpace_def is_space_def)
  have fr: "fresh_uuid (rw_credential_uuid create_world) spelling_db"
    by (simp add: fresh_uuid_def create_world_def spelling_db_def spelling_uuid_def demo_uuid_def TrimSpace_def is_space_def)
  have n: "rw_nonce create_world = Some ''abcdefghijkl''" "length ''abcdefghijkl'' = NonceSize" "rw_credential_uuid create_world = ''c2''"
    by (simp_all add: create_world_def NonceSize_def)
  have stp: "routing_step\<^sup>*\<^sup>* db' db''" using s set_status by blast
  have "gr_Resolve \<lparr>gr_Cipher = Some toy_aead, gr_Cfg = Load id [] (\<lambda>_. [])\<rparr> db'' ''A'' ''hotel'' ''dkpg'' = Inr v
         \<longrightarrow> gc_ID (rg_Credential (rv_Routing v)) \<noteq> ''c2''" for v
    using misspelt_recipient_never_paid [OF P _ spelling_inv f(1) u fr n(1,2) toy_aead_law toy_aead_binds _ stp,
        where rs = "\<lparr>gr_Cipher = Some toy_aead, gr_Cfg = Load id [] (\<lambda>_. [])\<rparr>"] st P n(3) by simp
  then show ?thesis using x P Q by (auto simp: Let_def)
qed

end
