(* ===== verification/TransactionsList.thy ===== *)
theory TransactionsList
  imports PaymentStore Inputs Calendar Config
begin

text \<open>
  The transactions of the admin portal: controllers/transactions_list_controller.go,
  controllers/date_range.go and the queries behind them in internal/storage/repository.go.  The
  columns the table has (none when there is no table) and PostgreSQL's text of a numeric and of a timestamp
  are arguments; the session's time zone is UTC; a date is given to a query as its day number.
  Queries that fail on an existing table, and the generic query tried then, are not modelled.
\<close>

section \<open>Dates and numbers of a query\<close>

definition parse_day :: "string \<Rightarrow> int option" where
  "parse_day s = (case take_date s of Some (d, []) \<Rightarrow> Some d | _ \<Rightarrow> None)"

text \<open>None for an error; an absent bound is None inside.\<close>

definition parseDateRange :: "string \<Rightarrow> string \<Rightarrow> (int option \<times> int option) option" where
  "parseDateRange since to =
     (let bound = (\<lambda>s. if blank s then Some None else map_option Some (parse_day (TrimSpace s))) in
      case (bound since, bound to) of
        (Some f, Some t) \<Rightarrow> (case (f, t) of (Some df, Some dt) \<Rightarrow> if dt < df then None else Some (f, t) | _ \<Rightarrow> Some (f, t))
      | _ \<Rightarrow> None)"

definition QueryInt :: "string \<Rightarrow> int \<Rightarrow> int" where
  "QueryInt s d = (case Atoi s of None \<Rightarrow> d | Some n \<Rightarrow> n)"

definition day_start :: "int \<Rightarrow> time" where "day_start d = d * (24 * hour)"

definition in_days :: "int option \<Rightarrow> int option \<Rightarrow> payment_row \<Rightarrow> bool" where
  "in_days since to p \<longleftrightarrow> (case since of None \<Rightarrow> True | Some d \<Rightarrow> day_start d \<le> pp_CreatedAt p)
     \<and> (case to of None \<Rightarrow> True | Some d \<Rightarrow> pp_CreatedAt p < day_start (d + 1))"

section \<open>Rows and their projections\<close>

record sql_text =
  st_columns :: "string list"
  st_numeric :: "rat \<Rightarrow> string"
  st_timestamp :: "time \<Rightarrow> string"

record TransactionRow =
  tx_ID :: int
  tx_ExternalAppID :: string
  tx_OrderID :: string
  tx_InquiryID :: string
  tx_StanNumber :: string
  tx_BFSTxnID :: string
  tx_Amount :: string
  tx_Currency :: string
  tx_Status :: string
  tx_RemitterAccount :: string
  tx_BeneficiaryAccount :: string
  tx_TransactionDatetime :: string
  tx_CreatedAt :: string

record FullTransactionRow = TransactionRow +
  tf_BFSRequestID :: string
  tf_BFSOrderNo :: string
  tf_TransactionFee :: string
  tf_RemitterName :: string
  tf_RemitterPhone :: string
  tf_RemitterBank :: string
  tf_EmailID :: string
  tf_PaymentDesc :: string
  tf_ErrorCode :: string
  tf_ErrorMessage :: string
  tf_UpdatedAt :: string
  tf_CompletedAt :: string

definition has_col :: "sql_text \<Rightarrow> string \<Rightarrow> bool" where "has_col st c \<longleftrightarrow> c \<in> set (st_columns st)"

text \<open>A column that the table lacks reads as the empty text, or as 0.\<close>

definition selectTextExpr :: "sql_text \<Rightarrow> string \<Rightarrow> string \<Rightarrow> string" where
  "selectTextExpr st c v = (if has_col st c then v else [])"

definition selectInt64Expr :: "sql_text \<Rightarrow> string \<Rightarrow> int \<Rightarrow> int" where
  "selectInt64Expr st c v = (if has_col st c then v else 0)"

definition first_time :: "sql_text \<Rightarrow> (string \<times> time) list \<Rightarrow> string" where
  "first_time st ts = (case find (has_col st \<circ> fst) ts of None \<Rightarrow> [] | Some (_, t) \<Rightarrow> st_timestamp st t)"

definition row_text :: "sql_text \<Rightarrow> payment_row \<Rightarrow> TransactionRow" where
  "row_text st p = \<lparr> tx_ID = selectInt64Expr st ''id'' (pt_ID p), tx_ExternalAppID = selectTextExpr st ''external_app_id'' (ml_ExternalAppID p),
     tx_OrderID = selectTextExpr st ''order_id'' (pp_OrderID p), tx_InquiryID = selectTextExpr st ''inquiry_id'' (pp_InquiryID p),
     tx_StanNumber = selectTextExpr st ''stan_number'' (pp_STAN p), tx_BFSTxnID = selectTextExpr st ''bfs_txn_id'' (pp_BFSTxnID p),
     tx_Amount = selectTextExpr st ''amount'' (st_numeric st (pp_Amount p)), tx_Currency = selectTextExpr st ''currency'' (pp_Currency p),
     tx_Status = selectTextExpr st ''status'' (pp_Status p), tx_RemitterAccount = selectTextExpr st ''remitter_account'' (pp_RemitterAccount p),
     tx_BeneficiaryAccount = selectTextExpr st ''beneficiary_account'' (pp_BeneficiaryAccount p),
     tx_TransactionDatetime = first_time st [(''transaction_datetime'', pp_TransactionDatetime p), (''created_at'', pp_CreatedAt p), (''updated_at'', pt_UpdatedAt p)],
     tx_CreatedAt = first_time st [(''created_at'', pp_CreatedAt p), (''updated_at'', pt_UpdatedAt p)] \<rparr>"

text \<open>The columns of the detail query, which names them all.\<close>

definition detail_columns :: "string list" where
  "detail_columns = [''id'', ''external_app_id'', ''order_id'', ''inquiry_id'', ''stan_number'', ''bfs_txn_id'', ''bfs_request_id'', ''bfs_order_no'',
     ''amount'', ''transaction_fee'', ''currency'', ''status'', ''remitter_account'', ''remitter_name'', ''remitter_phone'', ''remitter_bank'', ''email_id'',
     ''beneficiary_account'', ''payment_desc'', ''error_code'', ''error_message'', ''transaction_datetime'', ''created_at'', ''updated_at'', ''completed_at'']"

definition full_text :: "sql_text \<Rightarrow> payment_row \<Rightarrow> FullTransactionRow" where
  "full_text st p = TransactionRow.extend (row_text st p) (FullTransactionRow.fields
     (pp_BFSRequestID p) (pp_BFSOrderNo p) (st_numeric st (pp_TransactionFee p)) (pp_RemitterName p) (pp_RemitterPhone p)
     (pp_RemitterBank p) (pp_EmailID p) (pp_PaymentDesc p) (pp_ErrorCode p) (pp_ErrorMessage p)
     (st_timestamp st (pt_UpdatedAt p)) (case pt_CompletedAt p of None \<Rightarrow> [] | Some t \<Rightarrow> st_timestamp st t))"

definition maskAccount :: "string \<Rightarrow> string" where
  "maskAccount s = (let t = TrimSpace s in
     if t = [] then t else if length t \<le> 4 then t
     else Repeat ''*'' (length t - 4) @ drop (length t - 4) t)"

definition toSafeTransactionRow :: "TransactionRow \<Rightarrow> json" where
  "toSafeTransactionRow r = JObj [(''id'', jint (tx_ID r)), (''order_id'', JStr (tx_OrderID r)), (''amount'', JStr (tx_Amount r)),
     (''currency'', JStr (tx_Currency r)), (''status'', JStr (tx_Status r)),
     (''remitter_account'', JStr (maskAccount (tx_RemitterAccount r))),
     (''beneficiary_account'', JStr (maskAccount (tx_BeneficiaryAccount r))),
     (''transaction_datetime'', JStr (tx_TransactionDatetime r)), (''created_at'', JStr (tx_CreatedAt r))]"

definition toSafeFullTransactionRow :: "FullTransactionRow \<Rightarrow> json" where
  "toSafeFullTransactionRow r = JObj [(''id'', jint (tx_ID r)), (''order_id'', JStr (tx_OrderID r)), (''inquiry_id'', JStr (tx_InquiryID r)),
     (''stan_number'', JStr (tx_StanNumber r)), (''bfs_txn_id'', JStr (tx_BFSTxnID r)), (''bfs_request_id'', JStr (tf_BFSRequestID r)),
     (''bfs_order_no'', JStr (tf_BFSOrderNo r)), (''amount'', JStr (tx_Amount r)), (''transaction_fee'', JStr (tf_TransactionFee r)),
     (''currency'', JStr (tx_Currency r)), (''status'', JStr (tx_Status r)),
     (''remitter_account'', JStr (maskAccount (tx_RemitterAccount r))), (''remitter_name'', JStr (tf_RemitterName r)),
     (''remitter_phone'', JStr (tf_RemitterPhone r)), (''remitter_bank'', JStr (tf_RemitterBank r)), (''email_id'', JStr (tf_EmailID r)),
     (''beneficiary_account'', JStr (maskAccount (tx_BeneficiaryAccount r))), (''payment_desc'', JStr (tf_PaymentDesc r)),
     (''error_code'', JStr (tf_ErrorCode r)), (''error_message'', JStr (tf_ErrorMessage r)),
     (''transaction_datetime'', JStr (tx_TransactionDatetime r)), (''created_at'', JStr (tx_CreatedAt r)),
     (''updated_at'', JStr (tf_UpdatedAt r)), (''completed_at'', JStr (tf_CompletedAt r))]"

section \<open>Queries\<close>

definition list_filter :: "sql_text \<Rightarrow> string \<Rightarrow> string \<Rightarrow> int option \<Rightarrow> int option \<Rightarrow> string \<Rightarrow> payment_row \<Rightarrow> bool" where
  "list_filter tx appID st since to search p \<longleftrightarrow>
     (has_col tx ''external_app_id'' \<and> \<not> blank appID \<longrightarrow> ml_ExternalAppID p = appID)
     \<and> (has_col tx ''status'' \<and> \<not> blank st \<longrightarrow> ToLower (pp_Status p) = ToLower st)
     \<and> (has_col tx ''created_at'' \<longrightarrow> in_days since to p)
     \<and> (\<not> blank search \<longrightarrow> (let cells = filter (has_col tx \<circ> fst) [(''order_id'', pp_OrderID p), (''stan_number'', pp_STAN p), (''bfs_txn_id'', pp_BFSTxnID p),
          (''remitter_account'', pp_RemitterAccount p), (''beneficiary_account'', pp_BeneficiaryAccount p), (''inquiry_id'', pp_InquiryID p)]
        in cells = [] \<or> list_ex (\<lambda>(_, v). ilike v (contains_pattern search)) cells))"

definition list_order :: "sql_text \<Rightarrow> payment_row list \<Rightarrow> payment_row list" where
  "list_order tx ps = (if has_col tx ''created_at'' then order_desc pp_CreatedAt ps
     else if has_col tx ''updated_at'' then order_desc pt_UpdatedAt ps
     else if has_col tx ''id'' then order_desc pt_ID ps else ps)"

definition ListRecent :: "sql_text \<Rightarrow> int \<Rightarrow> string \<Rightarrow> string \<Rightarrow> int option \<Rightarrow> int option \<Rightarrow> string \<Rightarrow> payment_db \<Rightarrow> TransactionRow list" where
  "ListRecent tx n appID st since to search db =
     (if st_columns tx = [] then []
      else map (row_text tx) (limit_to (if n \<le> 0 then 20 else n)
             (list_order tx (filter (list_filter tx appID st since to search) (pd_payments db)))))"

text \<open>A column that is missing makes the detail query fail.\<close>

definition GetTransactionFull :: "sql_text \<Rightarrow> int \<Rightarrow> payment_db \<Rightarrow> store_error + FullTransactionRow" where
  "GetTransactionFull tx i db =
     (if \<not> list_all (has_col tx) detail_columns then Inl (StoreError ''column does not exist'')
      else first_row (map_option (full_text tx) (find (\<lambda>p. pt_ID p = i) (pd_payments db))))"

text \<open>
  The aggregates: when one of created_at, amount and status is missing, the rows are read as JSON, in which
  the column is NULL, so that no date matches, no amount is added and no status counts.
\<close>

definition status_text :: "sql_text \<Rightarrow> payment_row \<Rightarrow> string" where
  "status_text tx p = (if has_col tx ''status'' then ToLower (pp_Status p) else [])"

definition successful :: "sql_text \<Rightarrow> payment_row \<Rightarrow> bool" where
  "successful tx p \<longleftrightarrow> status_text tx p \<in> {''success'', ''successful'', ''completed''}"

definition has_status :: "sql_text \<Rightarrow> string \<Rightarrow> payment_row \<Rightarrow> bool" where
  "has_status tx st p \<longleftrightarrow> status_text tx p = st"

definition dated :: "sql_text \<Rightarrow> int option \<Rightarrow> int option \<Rightarrow> payment_row \<Rightarrow> bool" where
  "dated tx since to p \<longleftrightarrow> (if has_col tx ''created_at'' then in_days since to p else since = None \<and> to = None)"

record TransactionStats =
  ts_TotalCount :: nat
  ts_SuccessCount :: nat
  ts_FailedCount :: nat
  ts_PendingCount :: nat
  ts_TotalAmount :: rat

definition count_rows :: "('a \<Rightarrow> bool) \<Rightarrow> 'a list \<Rightarrow> nat" where "count_rows P xs = length (filter P xs)"

definition amount_of :: "sql_text \<Rightarrow> payment_row \<Rightarrow> rat" where
  "amount_of tx p = (if has_col tx ''amount'' then pp_Amount p else 0)"

definition sum_amounts :: "sql_text \<Rightarrow> payment_row list \<Rightarrow> rat" where "sum_amounts tx ps = sum_list (map (amount_of tx) ps)"

definition GetTransactionStats :: "sql_text \<Rightarrow> int option \<Rightarrow> int option \<Rightarrow> payment_db \<Rightarrow> TransactionStats" where
  "GetTransactionStats tx since to db = (let ps = (if st_columns tx = [] then [] else filter (dated tx since to) (pd_payments db)) in
     \<lparr> ts_TotalCount = length ps, ts_SuccessCount = count_rows (successful tx) ps, ts_FailedCount = count_rows (has_status tx ''failed'') ps,
       ts_PendingCount = count_rows (has_status tx ''pending'') ps, ts_TotalAmount = sum_amounts tx ps \<rparr>)"

record DailyVolume =
  dv_Day :: string
  dv_Count :: nat
  dv_TotalAmount :: rat
  dv_SuccessCount :: nat
  dv_FailedCount :: nat

definition day_text :: "payment_row \<Rightarrow> string" where
  "day_text p = (let c = civil_of (pp_CreatedAt p) in pad 4 (year c) @ ''-'' @ pad 2 (month c) @ ''-'' @ pad 2 (day c))"

definition day_volume :: "sql_text \<Rightarrow> string \<Rightarrow> payment_row list \<Rightarrow> DailyVolume" where
  "day_volume tx d ps = (let qs = filter (\<lambda>p. day_text p = d) ps in
     \<lparr> dv_Day = d, dv_Count = length qs, dv_TotalAmount = sum_amounts tx qs,
       dv_SuccessCount = count_rows (successful tx) qs, dv_FailedCount = count_rows (has_status tx ''failed'') qs \<rparr>)"

text \<open>Without bounds, the thirty days up to today.\<close>

definition GetDailyVolumes :: "sql_text \<Rightarrow> time \<Rightarrow> int option \<Rightarrow> int option \<Rightarrow> payment_db \<Rightarrow> DailyVolume list" where
  "GetDailyVolumes tx now since to db =
     (let f = (case since of None \<Rightarrow> days_of now - 29 | Some d \<Rightarrow> d); t = (case to of None \<Rightarrow> days_of now | Some d \<Rightarrow> d);
          ps = (if st_columns tx = [] then [] else filter (dated tx (Some f) (Some t)) (pd_payments db))
      in map (\<lambda>d. day_volume tx d ps) (sort (remdups (map day_text ps))))"

section \<open>Handlers\<close>

record list_request =
  tl_AppID :: string
  tl_Status :: string
  tl_From :: string
  tl_To :: string
  tl_Search :: string
  tl_Limit :: int

definition listWithFilters :: "sql_text \<Rightarrow> list_request \<Rightarrow> payment_db \<Rightarrow> response" where
  "listWithFilters tx q db = (case parseDateRange (tl_From q) (tl_To q) of
     None \<Rightarrow> send_error 400 ''Invalid date range''
   | Some (since, to) \<Rightarrow>
       let n = (if tl_Limit q \<le> 0 \<or> tl_Limit q > 500 then 100 else tl_Limit q);
           rows = ListRecent tx n (TrimSpace (tl_AppID q)) (TrimSpace (tl_Status q)) since to (TrimSpace (tl_Search q)) db
       in Response 200 [(''Cache-Control'', ''no-store'')] [] (JObj [(''data'', JArr (map toSafeTransactionRow rows))]))"

text \<open>The parameters of the query string are an accessor, empty for an absent one.\<close>

definition tl_List :: "sql_text \<Rightarrow> (string \<Rightarrow> string) \<Rightarrow> payment_db \<Rightarrow> response" where
  "tl_List tx query db =
     (if \<not> blank (query ''search'') then send_error 400 ''use POST /api/admin/transactions/search for search queries''
      else listWithFilters tx \<lparr> tl_AppID = query ''app_id'', tl_Status = query ''status'', tl_From = query ''from'', tl_To = query ''to'',
             tl_Search = [], tl_Limit = QueryInt (query ''limit'') 100 \<rparr> db)"

definition int_of :: "string \<Rightarrow> request \<Rightarrow> int option" where
  "int_of name r = Option.bind (BodyParser r) (int_field name)"

definition tl_ListByBody :: "sql_text \<Rightarrow> request \<Rightarrow> payment_db \<Rightarrow> response" where
  "tl_ListByBody tx r db =
     (case (BodyFields [''app_id'', ''status'', ''from'', ''to'', ''search''] r, int_of ''limit'' r) of
        (Some f, Some n) \<Rightarrow> listWithFilters tx \<lparr> tl_AppID = f ''app_id'', tl_Status = f ''status'', tl_From = f ''from'', tl_To = f ''to'',
             tl_Search = f ''search'', tl_Limit = n \<rparr> db
      | _ \<Rightarrow> send_error 400 ''invalid JSON'')"

definition stats_json :: "TransactionStats \<Rightarrow> json" where
  "stats_json s = JObj [(''total_count'', jint (int (ts_TotalCount s))), (''success_count'', jint (int (ts_SuccessCount s))),
     (''failed_count'', jint (int (ts_FailedCount s))), (''pending_count'', jint (int (ts_PendingCount s))),
     (''total_amount'', JNum (ts_TotalAmount s))]"

definition volume_json :: "DailyVolume \<Rightarrow> json" where
  "volume_json v = JObj [(''day'', JStr (dv_Day v)), (''count'', jint (int (dv_Count v))), (''total_amount'', JNum (dv_TotalAmount v)),
     (''success_count'', jint (int (dv_SuccessCount v))), (''failed_count'', jint (int (dv_FailedCount v)))]"

definition tl_Stats :: "sql_text \<Rightarrow> (string \<Rightarrow> string) \<Rightarrow> payment_db \<Rightarrow> response" where
  "tl_Stats tx query db = (case parseDateRange (query ''from'') (query ''to'') of
     None \<Rightarrow> send_error 400 ''Invalid date range''
   | Some (since, to) \<Rightarrow> Response 200 [] [] (stats_json (GetTransactionStats tx since to db)))"

text \<open>A list without elements is null: the slice is nil.\<close>

definition tl_DailyStats :: "sql_text \<Rightarrow> time \<Rightarrow> (string \<Rightarrow> string) \<Rightarrow> payment_db \<Rightarrow> response" where
  "tl_DailyStats tx now query db = (case parseDateRange (query ''from'') (query ''to'') of
     None \<Rightarrow> send_error 400 ''Invalid date range''
   | Some (since, to) \<Rightarrow>
       let vs = GetDailyVolumes tx now since to db
       in send 200 [(''data'', if vs = [] then JNull else JArr (map volume_json vs))])"

definition detail_response :: "sql_text \<Rightarrow> int \<Rightarrow> payment_db \<Rightarrow> response" where
  "detail_response tx i db = (case GetTransactionFull tx i db of
     Inl _ \<Rightarrow> send_error 500 ''Something went wrong''
   | Inr r \<Rightarrow> Response 200 [(''Cache-Control'', ''no-store'')] [] (toSafeFullTransactionRow r))"

definition tl_Get :: "sql_text \<Rightarrow> string \<Rightarrow> payment_db \<Rightarrow> response" where
  "tl_Get tx i db = (case Atoi i of None \<Rightarrow> send_error 400 ''invalid transaction id'' | Some n \<Rightarrow> detail_response tx n db)"

definition tl_GetDetailByBody :: "sql_text \<Rightarrow> request \<Rightarrow> payment_db \<Rightarrow> response" where
  "tl_GetDetailByBody tx r db = (case int_of ''id'' r of
     None \<Rightarrow> send_error 400 ''invalid JSON''
   | Some n \<Rightarrow> if n \<le> 0 then send_error 400 ''id must be a positive number'' else detail_response tx n db)"

section \<open>The days add up\<close>

lemma sum_over_keys:
  assumes "distinct ks" "set (map g xs) \<subseteq> set ks"
  shows "sum_list (map (\<lambda>k. sum_list (map h (filter (\<lambda>x. g x = k) xs))) ks) = (sum_list (map h xs) :: 'b :: comm_monoid_add)"
  using assms(2)
proof (induction xs)
  case (Cons x xs)
  have "sum_list (map (\<lambda>k. sum_list (map h (filter (\<lambda>y. g y = k) (x # xs)))) ks)
      = sum_list (map (\<lambda>k. (if k = g x then h x else 0) + sum_list (map h (filter (\<lambda>y. g y = k) xs))) ks)"
    by (rule arg_cong [where f = sum_list], rule map_cong) auto
  also have "\<dots> = sum_list (map (\<lambda>k. if k = g x then h x else 0) ks) + sum_list (map (\<lambda>k. sum_list (map h (filter (\<lambda>y. g y = k) xs))) ks)"
    by (simp add: sum_list_addf)
  also have "sum_list (map (\<lambda>k. if k = g x then h x else 0) ks) = h x"
  proof -
    have "g x \<in> set ks" using Cons.prems by simp
    then show ?thesis using assms(1)
      by (simp add: sum_list_distinct_conv_sum_set sum.delta')
  qed
  finally show ?case using Cons by simp
qed simp

lemma count_as_sum: "count_rows P xs = sum_list (map (\<lambda>x. if P x then 1 else 0) xs)"
  by (induction xs) (simp_all add: count_rows_def)

lemma length_as_sum: "length xs = sum_list (map (\<lambda>x. 1) xs)"
  by (induction xs) simp_all

text \<open>
  The daily volumes add up to the statistics.  For a range of dates given in full, the
  counts, the successes, the failures and the amounts of the days of GetDailyVolumes are
  those of GetTransactionStats, the days are distinct and in order, and none of them is empty.
\<close>
lemma daily_volumes_add_up:
  "let vs = GetDailyVolumes tx now (Some f) (Some t) db; s = GetTransactionStats tx (Some f) (Some t) db
   in sum_list (map dv_Count vs) = ts_TotalCount s \<and> sum_list (map dv_SuccessCount vs) = ts_SuccessCount s
    \<and> sum_list (map dv_FailedCount vs) = ts_FailedCount s \<and> sum_list (map dv_TotalAmount vs) = ts_TotalAmount s
    \<and> sorted_wrt (<) (map dv_Day vs) \<and> list_all (\<lambda>v. 0 < dv_Count v) vs"
proof -
  define ps where "ps = (if st_columns tx = [] then [] else filter (dated tx (Some f) (Some t)) (pd_payments db))"
  define ks where "ks = sort (remdups (map day_text ps))"
  have ks: "distinct ks" "set (map day_text ps) \<subseteq> set ks" "set ks = set (map day_text ps)" by (simp_all add: ks_def)
  have vs: "GetDailyVolumes tx now (Some f) (Some t) db = map (\<lambda>d. day_volume tx d ps) ks"
    by (simp add: GetDailyVolumes_def ps_def ks_def Let_def)
  have s: "GetTransactionStats tx (Some f) (Some t) db = \<lparr> ts_TotalCount = length ps, ts_SuccessCount = count_rows (successful tx) ps,
      ts_FailedCount = count_rows (has_status tx ''failed'') ps, ts_PendingCount = count_rows (has_status tx ''pending'') ps,
      ts_TotalAmount = sum_amounts tx ps \<rparr>" by (simp add: GetTransactionStats_def ps_def Let_def)
  note add = sum_over_keys [OF ks(1,2)]
  have "sum_list (map (\<lambda>d. dv_Count (day_volume tx d ps)) ks) = length ps"
    using add [of "\<lambda>_. 1 :: nat"] by (simp add: day_volume_def Let_def length_as_sum)
  moreover have "sum_list (map (\<lambda>d. dv_SuccessCount (day_volume tx d ps)) ks) = count_rows (successful tx) ps"
    using add [of "\<lambda>x. if successful tx x then 1 else 0 :: nat"] by (simp add: day_volume_def Let_def count_as_sum)
  moreover have "sum_list (map (\<lambda>d. dv_FailedCount (day_volume tx d ps)) ks) = count_rows (has_status tx ''failed'') ps"
    using add [of "\<lambda>x. if has_status tx ''failed'' x then 1 else 0 :: nat"] by (simp add: day_volume_def Let_def count_as_sum)
  moreover have "sum_list (map (\<lambda>d. dv_TotalAmount (day_volume tx d ps)) ks) = sum_amounts tx ps"
    using add [of "amount_of tx"] by (simp add: day_volume_def Let_def sum_amounts_def)
  moreover have "map dv_Day (map (\<lambda>d. day_volume tx d ps) ks) = ks" by (simp add: day_volume_def Let_def comp_def)
  moreover have "sorted_wrt (<) ks" by (simp add: ks_def strict_sorted_iff)
  moreover have "\<forall>d \<in> set ks. 0 < dv_Count (day_volume tx d ps)"
    unfolding ks(3) by (auto simp: day_volume_def Let_def filter_empty_conv)
  ultimately show ?thesis by (simp add: vs s Let_def comp_def list_all_iff)
qed

section \<open>Masked accounts\<close>

text \<open>Two account numbers that differ before their last four characters at most, and two rows that differ in such accounts.\<close>

definition hides :: "string \<Rightarrow> string \<Rightarrow> bool" where
  "hides s t \<longleftrightarrow> s = t \<or> (let a = TrimSpace s; b = TrimSpace t in
     4 < length a \<and> length a = length b \<and> drop (length a - 4) a = drop (length b - 4) b)"

definition alike :: "payment_row \<Rightarrow> payment_row \<Rightarrow> bool" where
  "alike p q \<longleftrightarrow> hides (pp_RemitterAccount p) (pp_RemitterAccount q) \<and> hides (pp_BeneficiaryAccount p) (pp_BeneficiaryAccount q)
     \<and> q = p\<lparr>pp_RemitterAccount := pp_RemitterAccount q, pp_BeneficiaryAccount := pp_BeneficiaryAccount q\<rparr>"

lemma hides_mask: "hides s t \<Longrightarrow> maskAccount s = maskAccount t"
  by (auto simp: hides_def maskAccount_def Let_def)

lemma alike_fields:
  assumes "alike p q"
  shows "pt_ID q = pt_ID p" "pp_CreatedAt q = pp_CreatedAt p" "pt_UpdatedAt q = pt_UpdatedAt p" "toSafeTransactionRow (row_text st q) = toSafeTransactionRow (row_text st p)"
    "toSafeFullTransactionRow (full_text st q) = toSafeFullTransactionRow (full_text st p)"
    "blank search \<Longrightarrow> list_filter tx appID s since to search q = list_filter tx appID s since to search p"
proof -
  obtain a b where q: "q = p\<lparr>pp_RemitterAccount := a, pp_BeneficiaryAccount := b\<rparr>"
    "maskAccount a = maskAccount (pp_RemitterAccount p)" "maskAccount b = maskAccount (pp_BeneficiaryAccount p)"
    using assms hides_mask by (metis alike_def)
  show "pt_ID q = pt_ID p" "pp_CreatedAt q = pp_CreatedAt p" "pt_UpdatedAt q = pt_UpdatedAt p" by (simp_all add: q(1))
  show "toSafeTransactionRow (row_text st q) = toSafeTransactionRow (row_text st p)"
    by (simp add: q toSafeTransactionRow_def row_text_def selectTextExpr_def first_time_def)
  show "toSafeFullTransactionRow (full_text st q) = toSafeFullTransactionRow (full_text st p)"
    by (simp add: q toSafeFullTransactionRow_def full_text_def row_text_def selectTextExpr_def first_time_def TransactionRow.defs FullTransactionRow.defs)
  show "blank search \<Longrightarrow> list_filter tx appID s since to search q = list_filter tx appID s since to search p"
    by (cases since; cases to) (simp_all add: q(1) list_filter_def in_days_def)
qed

text \<open>Filtering and sorting by fields that agree keep the rows alike.\<close>

lemma insort_alike:
  "list_all2 R xs ys \<Longrightarrow> (\<And>x y. R x y \<Longrightarrow> f x = (f y :: 'k :: linorder)) \<Longrightarrow> R x y \<Longrightarrow> list_all2 R (insort_key f x xs) (insort_key f y ys)"
  by (induction rule: list_all2_induct) auto

lemma sort_alike:
  "list_all2 R xs ys \<Longrightarrow> (\<And>x y. R x y \<Longrightarrow> f x = (f y :: 'k :: linorder)) \<Longrightarrow> list_all2 R (sort_key f xs) (sort_key f ys)"
  by (induction rule: list_all2_induct) (auto intro: insort_alike)

lemma filter_alike:
  "list_all2 R xs ys \<Longrightarrow> (\<And>x y. R x y \<Longrightarrow> P x = P y) \<Longrightarrow> list_all2 R (filter P xs) (filter P ys)"
  by (induction rule: list_all2_induct) auto

lemma order_desc_alike:
  "list_all2 R xs ys \<Longrightarrow> (\<And>x y. R x y \<Longrightarrow> f x = (f y :: 'k :: linorder)) \<Longrightarrow> list_all2 R (order_desc f xs) (order_desc f ys)"
  unfolding order_desc_def by (simp add: sort_alike list_all2_rev)

lemma map_alike: "list_all2 R xs ys \<Longrightarrow> (\<And>x y. R x y \<Longrightarrow> g x = g y) \<Longrightarrow> map g xs = map g ys"
  by (induction rule: list_all2_induct) auto

lemma find_alike:
  "list_all2 R xs ys \<Longrightarrow> (\<And>x y. R x y \<Longrightarrow> P x = P y) \<Longrightarrow> rel_option R (find P xs) (find P ys)"
  by (induction rule: list_all2_induct) auto

lemma list_order_alike: "list_all2 alike ps qs \<Longrightarrow> list_all2 alike (list_order tx ps) (list_order tx qs)"
  unfolding list_order_def using alike_fields by (auto intro!: order_desc_alike)

text \<open>
  C38: the admin portal shows four characters of an account number.  If the accounts of two tables
  differ only before their last four characters, row by row, then every list without a search term
  and every detail answers the same for both: nothing of the rest of a number can be
  learnt from them.  (A search matches the stored number itself.)
\<close>
theorem accounts_masked:
  assumes "list_all2 alike (pd_payments db) (pd_payments db')" "blank (tl_Search q)"
  shows "listWithFilters tx q db' = listWithFilters tx q db \<and> detail_response tx i db' = detail_response tx i db"
proof
  have b: "blank (TrimSpace (tl_Search q))" using assms(2) by (simp add: blank_def)
  have rows: "map (\<lambda>p. toSafeTransactionRow (row_text tx p)) (limit_to n (list_order tx
        (filter (list_filter tx a s since to (TrimSpace (tl_Search q))) (pd_payments db))))
      = map (\<lambda>p. toSafeTransactionRow (row_text tx p)) (limit_to n (list_order tx
        (filter (list_filter tx a s since to (TrimSpace (tl_Search q))) (pd_payments db'))))" for n a s since to
    unfolding limit_to_def
    by (rule map_alike [where R = alike], rule list_all2_takeI, rule list_order_alike, rule filter_alike [OF assms(1)])
       (use alike_fields b in auto)
  have "map toSafeTransactionRow (ListRecent tx n a s since to (TrimSpace (tl_Search q)) db')
      = map toSafeTransactionRow (ListRecent tx n a s since to (TrimSpace (tl_Search q)) db)" for n a s since to
    using rows by (simp add: ListRecent_def comp_def)
  then show "listWithFilters tx q db' = listWithFilters tx q db"
    by (simp add: listWithFilters_def Let_def split: option.splits)
  have "rel_option alike (find (\<lambda>p. pt_ID p = i) (pd_payments db)) (find (\<lambda>p. pt_ID p = i) (pd_payments db'))"
    by (rule find_alike [OF assms(1)]) (use alike_fields(1) in auto)
  then show "detail_response tx i db' = detail_response tx i db"
    by (cases rule: option.rel_cases) (simp_all add: detail_response_def GetTransactionFull_def first_row_def alike_fields(5))
qed

definition listed_row :: "string \<Rightarrow> payment_row" where
  "listed_row account = \<lparr> ml_ExternalAppID = ''A'', ml_ExternalMerchantReference = ''hotel'', ml_RecipientID = ''r1'',
     ml_GatewayProvider = ''dkpg'', ml_CredentialID = ''c1'', ml_CredentialVersion = 1, ml_RoutingMode = ''merchant'',
     pp_OrderID = ''o1'', pp_InquiryID = ''i1'', pp_STAN = ''17'', pp_BFSTxnID = ''b1'', pp_BFSRequestID = [], pp_BFSOrderNo = [],
     pp_Amount = 25, pp_TransactionFee = 0, pp_RemitterAccount = account, pp_RemitterName = ''Ann'', pp_RemitterPhone = [],
     pp_EmailID = [], pp_RemitterBank = ''1010'', pp_BeneficiaryAccount = ''100200300'', pp_TransactionDatetime = 5,
     pp_PaymentDesc = [], pp_Currency = ''BTN'', pp_Status = ''COMPLETED'', pp_ErrorCode = [], pp_ErrorMessage = [], pp_CreatedAt = 5,
     pt_ID = 1, pt_UpdatedAt = 5, pt_CompletedAt = None \<rparr>"

definition listed_db :: "string \<Rightarrow> payment_db" where
  "listed_db account = \<lparr> pd_routing = empty_routing demo_uuid [], pd_payments = [listed_row account], pd_inquiries = [], pd_next_id = 2 \<rparr>"

definition demo_text :: sql_text where "demo_text = \<lparr> st_columns = detail_columns, st_numeric = num_text, st_timestamp = RFC3339 \<rparr>"

lemma demo_columns: "list_all (has_col demo_text) detail_columns" by (simp add: list_all_iff has_col_def demo_text_def)

theorem accounts_masked_witness:
  "detail_response demo_text 1 (listed_db ''9988772197'') = detail_response demo_text 1 (listed_db ''1234562197'')
   \<and> status (detail_response demo_text 1 (listed_db ''1234562197'')) = 200 \<and> maskAccount ''1234562197'' = ''******2197''"
proof -
  have "hides ''1234562197'' ''9988772197''" by (simp add: hides_def TrimSpace_def is_space_def)
  then have "list_all2 alike (pd_payments (listed_db ''1234562197'')) (pd_payments (listed_db ''9988772197''))"
    by (simp add: listed_db_def alike_def listed_row_def hides_def)
  from accounts_masked [OF this, of "list_request.make [] [] [] [] [] 0" demo_text 1]
  have "detail_response demo_text 1 (listed_db ''9988772197'') = detail_response demo_text 1 (listed_db ''1234562197'')"
    by (simp add: list_request.defs blank_def)
  moreover have "status (detail_response demo_text 1 (listed_db ''1234562197'')) = 200"
    by (simp add: detail_response_def GetTransactionFull_def first_row_def listed_db_def listed_row_def demo_columns)
  moreover have "maskAccount ''1234562197'' = ''******2197''" by code_simp
  ultimately show ?thesis by simp
qed

end
