(* ===== verification/Platform.thy ===== *)
theory Platform
  imports RoutingAdmin TransactionsList International
begin

text \<open>
  What the admin portal shows with the help of the booking platform: who gets paid, Overview of
  controllers/merchant_routing_overview_controller.go, and the UPI payments of
  controllers/upi_controller.go.  The answer of the platform is an argument: no answer with the
  text of the error, or a status, a content type and a body; the order in which Go ranges
  over the map of properties is an argument too.
\<close>

section \<open>The platform\<close>

datatype platform_answer = NoAnswer string | Answer nat string string

definition platformConfigured :: "config \<Rightarrow> bool" where
  "platformConfigured cfg \<longleftrightarrow> \<not> blank (PlatformBaseURL cfg) \<and> \<not> blank (PlatformAPIKey cfg)"

text \<open>A json.Decoder reads the first value of the body, of which LimitReader keeps a prefix.\<close>

definition first_value :: "nat \<Rightarrow> string \<Rightarrow> json option" where
  "first_value n raw = (let s = take n raw in map_option fst (read_value (length s) s))"

text \<open>
  A struct whose field name is a slice of structs: null elements are zero structs, and without the
  field the slice is nil, here an inner None.
\<close>

definition slice_field :: "string \<Rightarrow> ((string \<times> json) list \<Rightarrow> 'a option) \<Rightarrow> json option \<Rightarrow> 'a list option option" where
  "slice_field name elem doc =
     (let e = (\<lambda>v. case v of JObj kvs \<Rightarrow> elem kvs | JNull \<Rightarrow> elem [] | _ \<Rightarrow> None) in
      case doc of
        Some JNull \<Rightarrow> Some None
      | Some (JObj kvs) \<Rightarrow> foldl (\<lambda>cur (k, v). if EqualFold k name
          then (case v of JArr vs \<Rightarrow> Option.bind cur (\<lambda>_. map_option Some (those (map e vs))) | JNull \<Rightarrow> map_option (\<lambda>_. None) cur | _ \<Rightarrow> None)
          else cur) (Some None) kvs
      | _ \<Rightarrow> None)"

record platformProperty =
  pl_Property :: string
  pl_Slug :: string
  pl_MerchantReference :: string
  pl_AcceptsBank :: bool
  pl_AcceptsCard :: bool
  pl_Status :: string
  pl_AccountName :: string
  pl_AccountTail :: string
  pl_Bank :: string

definition no_property :: platformProperty where
  "no_property = \<lparr> pl_Property = [], pl_Slug = [], pl_MerchantReference = [], pl_AcceptsBank = False, pl_AcceptsCard = False,
     pl_Status = [], pl_AccountName = [], pl_AccountTail = [], pl_Bank = [] \<rparr>"

definition parse_property :: "(string \<times> json) list \<Rightarrow> platformProperty option" where
  "parse_property kvs =
     (if list_all (\<lambda>n. field_ok n kvs) [''property'', ''slug'', ''merchantReference'', ''status'', ''accountName'', ''accountTail'', ''bank'']
      then (case (bool_field ''acceptsBank'' kvs, bool_field ''acceptsCard'' kvs) of
          (Some b, Some c) \<Rightarrow> Some \<lparr> pl_Property = field ''property'' kvs, pl_Slug = field ''slug'' kvs,
             pl_MerchantReference = field ''merchantReference'' kvs, pl_AcceptsBank = b, pl_AcceptsCard = c,
             pl_Status = field ''status'' kvs, pl_AccountName = field ''accountName'' kvs,
             pl_AccountTail = field ''accountTail'' kvs, pl_Bank = field ''bank'' kvs \<rparr>
        | _ \<Rightarrow> None)
      else None)"

text \<open>The long dash of the two messages, as the bytes of the source.\<close>

definition em_dash :: string where "em_dash = [CHR 0xE2, CHR 0x80, CHR 0x94]"

definition properties :: "platform_answer \<Rightarrow> string + platformProperty list" where
  "properties ans = (case ans of
     NoAnswer e \<Rightarrow> Inl e
   | Answer st _ raw \<Rightarrow>
       if st = 404 then Inl (''the booking platform answered 404 '' @ em_dash @ '' it is reachable, but has no /v1/internal/merchant-references. Deploy a build that has it, or check PLATFORM_BASE_URL points at the booking platform rather than something else'')
       else if st = 401 then Inl (''the booking platform rejected the key '' @ em_dash @ '' PLATFORM_API_KEY here must equal INTERNAL_API_KEY there, and must be at least 32 characters'')
       else if st \<noteq> 200 then Inl (''the booking platform answered '' @ nat_text st)
       else (case slice_field ''properties'' parse_property (first_value (2 * 1024 * 1024) raw) of
          None \<Rightarrow> Inl ''unreadable'' | Some None \<Rightarrow> Inr [] | Some (Some ps) \<Rightarrow> Inr ps))"

definition platform_index :: "platformProperty list \<Rightarrow> (string \<times> platformProperty) list" where
  "platform_index ps = foldl (\<lambda>m p. if blank (pl_MerchantReference p) then m else AList.update (pl_MerchantReference p) p m) [] ps"

section \<open>Who gets paid\<close>

record routing_row =
  rr_Property :: platformProperty
  rr_Configured :: bool
  rr_Recipient :: string
  rr_MappingID :: string
  rr_Known :: bool
  rr_BeneficiaryHint :: string
  rr_BeneficiaryName :: string
  rr_BeneficiaryBank :: string
  rr_Missing :: "string list"

definition destination_row :: "string \<Rightarrow> ResolvedGateway \<Rightarrow> routing_row \<Rightarrow> routing_row" where
  "destination_row provider v row =
     (if provider = ''dkpg''
      then row\<lparr>rr_BeneficiaryHint := maskAccount (rv_Values v ''beneficiary_account''),
               rr_BeneficiaryName := rv_Values v ''beneficiary_name'', rr_BeneficiaryBank := rv_Values v ''beneficiary_bank'', rr_Configured := True\<rparr>
      else row\<lparr>rr_BeneficiaryHint := rv_Values v ''submerchant_id'', rr_BeneficiaryName := rv_Values v ''dk_account'', rr_Configured := True\<rparr>)"

definition mapping_row :: "gateway_resolver \<Rightarrow> string \<Rightarrow> string \<Rightarrow> (string \<times> platformProperty) list \<Rightarrow> bool \<Rightarrow> routing_db
    \<Rightarrow> IntegrationRecipientMapping \<Rightarrow> routing_row" where
  "mapping_row rs app provider plat answered db m =
     (let ref = im_ExternalMerchantReference m;
          name = (case find (\<lambda>r. pr_ID r = im_RecipientID m) (ListRecipients db) of Some r \<Rightarrow> pr_Name r | None \<Rightarrow> []);
          known = map_of plat ref;
          row = \<lparr> rr_Property = (case known of Some p \<Rightarrow> p | None \<Rightarrow> no_property\<lparr>pl_MerchantReference := ref, pl_Property := name\<rparr>),
                  rr_Configured = False, rr_Recipient = name, rr_MappingID = im_ID m, rr_Known = (known \<noteq> None),
                  rr_BeneficiaryHint = [], rr_BeneficiaryName = [], rr_BeneficiaryBank = [],
                  rr_Missing = (if known = None \<and> answered then [''no property on the booking platform uses this reference''] else []) \<rparr>
      in case ResolveActive app ref provider db of
           Inl _ \<Rightarrow> row\<lparr>rr_Missing := rr_Missing row @ [''no active '' @ provider @ '' destination'']\<rparr>
         | Inr x \<Rightarrow> (case gr_decrypt rs x of
             Inl _ \<Rightarrow> row\<lparr>rr_Missing := rr_Missing row @ [''destination cannot be decrypted'']\<rparr>
           | Inr v \<Rightarrow> destination_row provider v row))"

definition unmapped_row :: "platformProperty \<Rightarrow> routing_row" where
  "unmapped_row p = \<lparr> rr_Property = p, rr_Configured = False, rr_Recipient = [], rr_MappingID = [], rr_Known = True,
     rr_BeneficiaryHint = [], rr_BeneficiaryName = [], rr_BeneficiaryBank = [], rr_Missing = [''not set up in this gateway''] \<rparr>"

definition overview_rows :: "gateway_resolver \<Rightarrow> (string list \<Rightarrow> string list) \<Rightarrow> string \<Rightarrow> string \<Rightarrow> (string \<times> platformProperty) list \<Rightarrow> bool
    \<Rightarrow> routing_db \<Rightarrow> routing_row list" where
  "overview_rows rs ord app provider plat answered db =
     (let ms = filter (\<lambda>m. im_IsActive m \<and> im_ExternalAppID m = app) (map fst (ListMappings app db));
          mapped = map im_ExternalMerchantReference ms
      in map (mapping_row rs app provider plat answered db) ms
       @ [unmapped_row p. k \<leftarrow> ord (map fst plat), p \<leftarrow> (case map_of plat k of Some p \<Rightarrow> [p] | None \<Rightarrow> []),
            k \<notin> set mapped \<and> (if provider = ''stripe'' then pl_AcceptsCard p else pl_AcceptsBank p)])"

definition optional :: "string \<Rightarrow> string \<Rightarrow> (string \<times> json) list" where
  "optional name s = (if s = [] then [] else [(name, JStr s)])"

definition routing_row_json :: "routing_row \<Rightarrow> json" where
  "routing_row_json r = (let p = rr_Property r in JObj
     ([(''property'', JStr (pl_Property p)), (''slug'', JStr (pl_Slug p)), (''merchantReference'', JStr (pl_MerchantReference p)),
       (''acceptsBank'', JBool (pl_AcceptsBank p)), (''acceptsCard'', JBool (pl_AcceptsCard p)), (''status'', JStr (pl_Status p)),
       (''accountName'', JStr (pl_AccountName p)), (''accountTail'', JStr (pl_AccountTail p)), (''bank'', JStr (pl_Bank p)),
       (''configured'', JBool (rr_Configured r))]
      @ optional ''recipient'' (rr_Recipient r) @ optional ''mappingId'' (rr_MappingID r)
      @ [(''knownToPlatform'', JBool (rr_Known r))]
      @ optional ''beneficiaryHint'' (rr_BeneficiaryHint r) @ optional ''beneficiaryName'' (rr_BeneficiaryName r)
      @ optional ''beneficiaryBank'' (rr_BeneficiaryBank r)
      @ (if rr_Missing r = [] then [] else [(''missing'', JArr (map JStr (rr_Missing r)))])))"

definition Overview :: "gateway_resolver \<Rightarrow> (string list \<Rightarrow> string list) \<Rightarrow> platform_answer \<Rightarrow> (string \<Rightarrow> string) \<Rightarrow> routing_db \<Rightarrow> response" where
  "Overview rs ord ans query db =
     (let provider = (if TrimSpace (query ''provider'') = ''stripe'' then ''stripe'' else ''dkpg''); app = TrimSpace (query ''app_id'') in
      if app = [] then send_error 400 ''app_id is required: routing is per app, so 'who gets paid' has no answer until one is named''
      else let (plat, e) = (if platformConfigured (gr_Cfg rs)
                 then (case properties ans of Inl e \<Rightarrow> ([], e) | Inr ps \<Rightarrow> (platform_index ps, []))
                 else ([], ''not connected to the booking platform (PLATFORM_BASE_URL and PLATFORM_API_KEY are unset)''));
               rows = overview_rows rs ord app provider plat (e = []) db
           in send 200 [(''connected'', JBool (e = [])), (''platformError'', JStr e), (''platform'', JStr (PlatformBaseURL (gr_Cfg rs))),
                (''provider'', JStr provider), (''appId'', JStr app), (''rows'', JArr (map routing_row_json rows)),
                (''ready'', jint (int (length (filter rr_Configured rows)))), (''total'', jint (int (length rows)))])"

section \<open>UPI payments\<close>

record UpiPayment =
  up_BookingReference :: string
  up_TransactionReference :: string
  up_PayerContact :: string
  up_Property :: string
  up_Amount :: rat
  up_Currency :: string
  up_Decision :: string
  up_DecisionReason :: string
  up_SubmittedAt :: string
  up_DecidedAt :: string
  up_ScreenshotURL :: string
  up_FileName :: string
  up_SizeBytes :: int

definition upi_texts :: "string list" where
  "upi_texts = [''bookingReference'', ''transactionReference'', ''payerContact'', ''property'', ''currency'', ''decision'',
     ''decisionReason'', ''submittedAt'', ''decidedAt'', ''screenshotUrl'', ''fileName'']"

definition parse_upi :: "(string \<times> json) list \<Rightarrow> UpiPayment option" where
  "parse_upi kvs = (case (list_all (\<lambda>n. field_ok n kvs) upi_texts, float_field ''amount'' kvs, int_field ''sizeBytes'' kvs) of
     (True, Some a, Some n) \<Rightarrow> Some \<lparr> up_BookingReference = field ''bookingReference'' kvs, up_TransactionReference = field ''transactionReference'' kvs,
        up_PayerContact = field ''payerContact'' kvs, up_Property = field ''property'' kvs, up_Amount = a, up_Currency = field ''currency'' kvs,
        up_Decision = field ''decision'' kvs, up_DecisionReason = field ''decisionReason'' kvs, up_SubmittedAt = field ''submittedAt'' kvs,
        up_DecidedAt = field ''decidedAt'' kvs, up_ScreenshotURL = field ''screenshotUrl'' kvs, up_FileName = field ''fileName'' kvs,
        up_SizeBytes = n \<rparr>
   | _ \<Rightarrow> None)"

definition upi_json :: "UpiPayment \<Rightarrow> json" where
  "upi_json u = JObj ([(''bookingReference'', JStr (up_BookingReference u)), (''transactionReference'', JStr (up_TransactionReference u))]
     @ optional ''payerContact'' (up_PayerContact u)
     @ [(''property'', JStr (up_Property u)), (''amount'', JNum (up_Amount u)), (''currency'', JStr (up_Currency u)), (''decision'', JStr (up_Decision u))]
     @ optional ''decisionReason'' (up_DecisionReason u) @ [(''submittedAt'', JStr (up_SubmittedAt u))]
     @ optional ''decidedAt'' (up_DecidedAt u) @ optional ''screenshotUrl'' (up_ScreenshotURL u) @ optional ''fileName'' (up_FileName u)
     @ (if up_SizeBytes u = 0 then [] else [(''sizeBytes'', jint (up_SizeBytes u))]))"

definition own_screenshot :: "UpiPayment \<Rightarrow> UpiPayment" where
  "own_screenshot u = (if up_ScreenshotURL u = [] then u
     else u\<lparr>up_ScreenshotURL := ''/api/admin/upi/payments/'' @ up_BookingReference u @ ''/screenshot''\<rparr>)"

text \<open>The platform answers a request for a path; the key travels in a header of that request.\<close>

definition upi_List :: "config \<Rightarrow> (string \<Rightarrow> platform_answer) \<Rightarrow> (string \<Rightarrow> string) \<Rightarrow> response" where
  "upi_List cfg ask query =
     (if \<not> platformConfigured cfg then send 200 [(''connected'', JBool False), (''payments'', JArr []),
          (''message'', JStr ''This gateway is not connected to the booking platform. Set PLATFORM_BASE_URL and PLATFORM_API_KEY to list UPI payment records.'')]
      else let n = (case Atoi (query ''limit'') of Some n \<Rightarrow> n | None \<Rightarrow> 0); n = (if n \<le> 0 \<or> n > 500 then 100 else n) in
        (case ask (''/v1/internal/upi-payments?limit='' @ int_text n) of
           NoAnswer _ \<Rightarrow> send 502 [(''connected'', JBool False), (''error'', JStr ''could not reach the booking platform'')]
         | Answer st _ raw \<Rightarrow>
             if st \<noteq> 200 then send 502 [(''connected'', JBool False),
               (''error'', JStr (''the booking platform refused the request ('' @ nat_text st @ '')''))]
             else (case slice_field ''payments'' parse_upi (first_value (4 * 1024 * 1024) raw) of
                 None \<Rightarrow> send 502 [(''connected'', JBool False), (''error'', JStr ''the booking platform sent something unreadable'')]
               | Some None \<Rightarrow> send 200 [(''connected'', JBool True), (''payments'', JNull), (''count'', jint 0)]
               | Some (Some us) \<Rightarrow> send 200 [(''connected'', JBool True), (''payments'', JArr (map (upi_json \<circ> own_screenshot) us)),
                   (''count'', jint (int (length us)))])))"

definition upi_Screenshot :: "config \<Rightarrow> (string \<Rightarrow> platform_answer) \<Rightarrow> string \<Rightarrow> response" where
  "upi_Screenshot cfg ask ref =
     (let ref = TrimSpace ref in
      if \<not> platformConfigured cfg then send_error 404 ''not connected to the booking platform''
      else if ref = [] \<or> length ref > 64 \<or> list_ex (\<lambda>c. c \<in> {CHR ''/'', CHR ''?'', CHR ''#'', CHR ''%'', CHR 0x5C}) ref
      then send_error 400 ''invalid booking reference''
      else case ask (''/v1/internal/upi-payments/'' @ ref @ ''/screenshot'') of
        NoAnswer _ \<Rightarrow> send_error 502 ''could not reach the booking platform''
      | Answer st ctype raw \<Rightarrow>
          if st \<noteq> 200 then send_error 404 ''no screenshot for that booking''
          else if ctype \<noteq> ''image/png'' \<and> ctype \<noteq> ''image/jpeg'' then send_error 502 ''unexpected file type''
          else Response 200 [(''Content-Type'', ctype), (''Content-Security-Policy'', ''default-src 'none'; sandbox''),
             (''X-Content-Type-Options'', ''nosniff''), (''Cache-Control'', ''no-store''), (''Content-Disposition'', ''inline'')] []
             (JStr (take (8 * 1024 * 1024) raw)))"

section \<open>What the screen says is what a payment does\<close>

lemma mapping_row_configured:
  "rr_Configured (mapping_row rs app provider plat answered db m) \<longleftrightarrow>
     (\<exists>x v. ResolveActive app (im_ExternalMerchantReference m) provider db = Inr x \<and> gr_decrypt rs x = Inr v)"
  by (auto simp: mapping_row_def destination_row_def Let_def split: sum.splits)

lemma platform_index_reference: "map_of (platform_index ps) k = Some p \<Longrightarrow> pl_MerchantReference p = k"
proof -
  let ?ok = "\<lambda>m. \<forall>k p. map_of m k = Some p \<longrightarrow> pl_MerchantReference p = k"
  have "?ok (foldl (\<lambda>m p. if blank (pl_MerchantReference p) then m else AList.update (pl_MerchantReference p) p m) m ps)" if "?ok m" for m
    using that
  proof (induction ps arbitrary: m)
    case (Cons p ps)
    have "?ok (if blank (pl_MerchantReference p) then m else AList.update (pl_MerchantReference p) p m)"
    proof (intro allI impI)
      fix k q assume k: "map_of (if blank (pl_MerchantReference p) then m else AList.update (pl_MerchantReference p) p m) k = Some q"
      show "pl_MerchantReference q = k"
      proof (cases "blank (pl_MerchantReference p) \<or> k \<noteq> pl_MerchantReference p")
        case True
        then have "map_of m k = Some q" using k by (cases "blank (pl_MerchantReference p)") (simp_all add: update_conv)
        then show ?thesis using Cons.prems by blast
      qed (use k in \<open>simp add: update_conv\<close>)
    qed
    then have "?ok (foldl (\<lambda>m p. if blank (pl_MerchantReference p) then m else AList.update (pl_MerchantReference p) p m)
        (if blank (pl_MerchantReference p) then m else AList.update (pl_MerchantReference p) p m) ps)" by (rule Cons.IH)
    then show ?case unfolding foldl.simps .
  next
    case Nil
    then show ?case unfolding foldl.simps .
  qed
  moreover have "?ok []" by simp
  ultimately have "?ok (platform_index ps)" unfolding platform_index_def by blast
  then show "map_of (platform_index ps) k = Some p \<Longrightarrow> ?thesis" by blast
qed

lemma configured_rows:
  "row \<in> set (overview_rows rs ord app provider plat answered db) \<and> rr_Configured row \<longleftrightarrow>
     rr_Configured row \<and> (\<exists>m \<in> set (filter (\<lambda>m. im_IsActive m \<and> im_ExternalAppID m = app) (map fst (ListMappings app db))).
       row = mapping_row rs app provider plat answered db m)"
proof -
  let ?ms = "filter (\<lambda>m. im_IsActive m \<and> im_ExternalAppID m = app) (map fst (ListMappings app db))"
  define us where "us = [unmapped_row p. k \<leftarrow> ord (map fst plat), p \<leftarrow> (case map_of plat k of Some p \<Rightarrow> [p] | None \<Rightarrow> []),
      k \<notin> set (map im_ExternalMerchantReference ?ms) \<and> (if provider = ''stripe'' then pl_AcceptsCard p else pl_AcceptsBank p)]"
  have "overview_rows rs ord app provider plat answered db = map (mapping_row rs app provider plat answered db) ?ms @ us"
    by (simp only: overview_rows_def Let_def us_def)
  moreover have "\<not> rr_Configured u" if u: "u \<in> set us" for u
  proof -
    have gen: "u \<in> set [h p. k \<leftarrow> ks, p \<leftarrow> f k, P k p] \<Longrightarrow> \<exists>p. u = h p"
      for h :: "platformProperty \<Rightarrow> routing_row" and ks :: "string list" and f and P by auto
    obtain p where "u = unmapped_row p" using gen [OF u [unfolded us_def]] by blast
    then show ?thesis by (simp add: unmapped_row_def)
  qed
  ultimately show ?thesis by auto
qed

lemma mapping_row_reference:
  assumes "\<And>k p. map_of plat k = Some p \<Longrightarrow> pl_MerchantReference p = k"
  shows "pl_MerchantReference (rr_Property (mapping_row rs app provider plat answered db m)) = im_ExternalMerchantReference m"
  using assms by (auto simp: mapping_row_def destination_row_def Let_def no_property_def split: sum.splits option.splits)

lemma listed_mapping:
  assumes "routing_inv db"
  shows "m \<in> set (map fst (ListMappings app db)) \<longleftrightarrow> m \<in> set (mappings db) \<and> (blank app \<or> im_ExternalAppID m = TrimSpace app)"
proof -
  have "\<exists>r \<in> set (recipients db). pr_ID r = im_RecipientID m" if "m \<in> set (mappings db)"
    using routing_invD(4) [OF assms that] by auto
  then show ?thesis by (force simp: ListMappings_def)
qed

text \<open>
  C13: the routing screen tells the truth.  For an app, a provider and a merchant reference, the
  overview has a row marked as configured exactly when a payment of that app for that
  reference resolves, in the same tables and with the same key, whatever the booking
  platform answers, and in whatever order its properties come.
\<close>
theorem overview_truthful:
  assumes "routing_inv db" "gr_Cipher rs \<noteq> None" "app \<noteq> []" "TrimSpace app = app" "ref \<noteq> []" "TrimSpace ref = ref"
    and "plat = platform_index ps"
  shows "(\<exists>row \<in> set (overview_rows rs ord app provider plat answered db).
            rr_Configured row \<and> pl_MerchantReference (rr_Property row) = ref)
    \<longleftrightarrow> (\<exists>v. gr_Resolve rs db app ref provider = Inr v)"
proof -
  let ?ms = "filter (\<lambda>m. im_IsActive m \<and> im_ExternalAppID m = app) (map fst (ListMappings app db))"
  have ok: "routing_ok db" using assms(1) by (simp add: routing_inv_def)
  have plat: "\<And>k p. map_of plat k = Some p \<Longrightarrow> pl_MerchantReference p = k" using platform_index_reference assms(7) by blast
  have mr: "pl_MerchantReference (rr_Property (mapping_row rs app provider plat answered db m)) = im_ExternalMerchantReference m" for m
    by (rule mapping_row_reference [OF plat])
  have res: "(\<exists>v. gr_Resolve rs db app ref provider = Inr v) \<longleftrightarrow>
      (\<exists>x v. ResolveActive app ref provider db = Inr x \<and> gr_decrypt rs x = Inr v)"
    using assms(2-6) by (auto simp: gr_Resolve_def split: sum.splits)
  have "(\<exists>row \<in> set (overview_rows rs ord app provider plat answered db). rr_Configured row \<and> pl_MerchantReference (rr_Property row) = ref)
      \<longleftrightarrow> (\<exists>row. (row \<in> set (overview_rows rs ord app provider plat answered db) \<and> rr_Configured row) \<and> pl_MerchantReference (rr_Property row) = ref)"
    by blast
  also have "\<dots> \<longleftrightarrow> (\<exists>m \<in> set ?ms. rr_Configured (mapping_row rs app provider plat answered db m) \<and> im_ExternalMerchantReference m = ref)"
    unfolding configured_rows mr [symmetric] by blast
  also have "\<dots> \<longleftrightarrow> (\<exists>m \<in> set ?ms. im_ExternalMerchantReference m = ref) \<and> (\<exists>x v. ResolveActive app ref provider db = Inr x \<and> gr_decrypt rs x = Inr v)"
    by (auto simp: mapping_row_configured)
  also have "\<dots> \<longleftrightarrow> (\<exists>x v. ResolveActive app ref provider db = Inr x \<and> gr_decrypt rs x = Inr v)"
  proof -
    have "\<exists>m \<in> set ?ms. im_ExternalMerchantReference m = ref" if r: "ResolveActive app ref provider db = Inr x" for x
    proof -
      obtain m where "m \<in> set (mappings db)" "im_key m = (app, ref)" "im_IsActive m"
        using ResolveActive_route [OF r] assms(4,6) by (auto simp: route_def)
      then show ?thesis using listed_mapping [OF assms(1), of m app] assms(4) by (intro bexI [of _ m]) (auto simp: im_key_def)
    qed
    then show ?thesis by blast
  qed
  finally show ?thesis using res by simp
qed

theorem overview_truthful_witness:
  "\<exists>row \<in> set (overview_rows \<lparr>gr_Cipher = Some toy_aead, gr_Cfg = Load id [] (\<lambda>_. [])\<rparr> rev ''A'' ''dkpg'' [] False sealed_db).
     rr_Configured row \<and> pl_MerchantReference (rr_Property row) = ''hotel''"
proof -
  have "[] = platform_index []" by (simp add: platform_index_def)
  from overview_truthful [OF sealed_inv _ _ _ _ _ this, of "\<lparr>gr_Cipher = Some toy_aead, gr_Cfg = Load id [] (\<lambda>_. [])\<rparr>" "''A''" "''hotel''"]
  moreover have "\<exists>v. gr_Resolve \<lparr>gr_Cipher = Some toy_aead, gr_Cfg = Load id [] (\<lambda>_. [])\<rparr> sealed_db ''A'' ''hotel'' ''dkpg'' = Inr v"
    using sealed_resolves by blast
  ultimately show ?thesis by (simp add: TrimSpace_def is_space_def)
qed

end
