(* ===== verification/BootProvision.thy ===== *)
theory BootProvision
  imports RoutingProvision Platform
begin

text \<open>
  Seeding who gets paid when the service starts: provision_boot.go.  The file is an argument, None when
  it cannot be read; the order in which Go ranges over the two providers is an argument too, and so
  are the fresh ids and nonces of each payee.  What is only logged is left out.
\<close>

record boot_payee =
  bp_Name :: string
  bp_Reference :: string
  bp_DKPG :: payload
  bp_Stripe :: payload

record boot_plan =
  bl_AppID :: string
  bl_Payees :: "boot_payee list"

definition parse_payee :: "(string \<times> json) list \<Rightarrow> boot_payee option" where
  "parse_payee kvs = (case (list_all (\<lambda>n. field_ok n kvs) [''name'', ''merchant_reference''], payload_field ''dkpg'' kvs, payload_field ''stripe'' kvs) of
     (True, Some d, Some s) \<Rightarrow> Some \<lparr> bp_Name = field ''name'' kvs, bp_Reference = field ''merchant_reference'' kvs, bp_DKPG = d, bp_Stripe = s \<rparr>
   | _ \<Rightarrow> None)"

definition parse_plan :: "string \<Rightarrow> boot_plan option" where
  "parse_plan raw = (case Unmarshal raw of
     Some JNull \<Rightarrow> Some \<lparr> bl_AppID = [], bl_Payees = [] \<rparr>
   | Some (JObj kvs) \<Rightarrow> (case (field_ok ''app_id'' kvs, slice_field ''payees'' parse_payee (Some (JObj kvs))) of
         (True, Some ps) \<Rightarrow> Some \<lparr> bl_AppID = field ''app_id'' kvs, bl_Payees = (case ps of None \<Rightarrow> [] | Some xs \<Rightarrow> xs) \<rparr>
       | _ \<Rightarrow> None)
   | _ \<Rightarrow> None)"

record boot_world =
  bw_now :: time
  bw_recipient_uuid :: string
  bw_credential_uuid :: "string \<Rightarrow> string"
  bw_mapping_uuid :: string
  bw_nonce :: "string \<Rightarrow> string option"
  bw_order :: "string list"

definition boot_recipient :: "string \<Rightarrow> routing_db \<Rightarrow> PaymentRecipient option" where
  "boot_recipient name db = find (\<lambda>r. EqualFold (TrimSpace (pr_Name r)) name) (ListRecipients db)"

definition boot_values :: "boot_payee \<Rightarrow> string \<Rightarrow> payload" where
  "boot_values b provider = (if provider = ''dkpg'' then bp_DKPG b else bp_Stripe b)"

definition boot_destination :: "aead option \<Rightarrow> boot_world \<Rightarrow> string \<Rightarrow> string \<Rightarrow> string \<Rightarrow> boot_payee \<Rightarrow> string \<Rightarrow> routing_db \<Rightarrow> routing_db" where
  "boot_destination g w app ref rid b provider db =
     (let vs = boot_values b provider in
      if vs = [] then db
      else case ResolveActive app ref provider db of
        Inr _ \<Rightarrow> db
      | Inl _ \<Rightarrow> (case CreateDraftCredential (bw_now w) (bw_credential_uuid w provider) rid provider master_key_id
              (credentialEncryptor g (bw_nonce w provider) vs) db of
          (Inl _, _) \<Rightarrow> db
        | (Inr c, db1) \<Rightarrow> snd (SetCredentialStatus (bw_now w) (gc_ID c) ''active'' db1)))"

text \<open>An error of provisionOne is the text that is logged.\<close>

definition provisionOne :: "aead option \<Rightarrow> boot_world \<Rightarrow> string \<Rightarrow> boot_payee \<Rightarrow> routing_db \<Rightarrow> string option \<times> routing_db" where
  "provisionOne g w app b db =
     (let name = TrimSpace (bp_Name b); ref = TrimSpace (bp_Reference b) in
      if name = [] \<or> ref = [] then (Some ''needs both a name and a merchant_reference'', db)
      else case (case boot_recipient name db of
          Some r \<Rightarrow> (Inr (), db)
        | None \<Rightarrow> CreateRecipient (bw_now w) (bw_recipient_uuid w) (bw_recipient_uuid w) name True db) of
        (Inl e, _) \<Rightarrow> (Some ''create recipient'', db)
      | (Inr _, db1) \<Rightarrow>
          let rid = (case boot_recipient name db of Some r \<Rightarrow> pr_ID r | None \<Rightarrow> bw_recipient_uuid w);
              db2 = fold (boot_destination g w app ref rid b) (bw_order w) db1
          in if \<exists>x \<in> set (ListMappings app db2). im_ExternalMerchantReference (fst x) = ref \<and> im_IsActive (fst x) then (None, db2)
             else (case CreateMapping (bw_now w) (bw_mapping_uuid w) app ref rid True db2 of
               (Inl _, _) \<Rightarrow> (Some ''create mapping'', db2)
             | (Inr _, db3) \<Rightarrow> (None, db3)))"

fun provision_all :: "aead option \<Rightarrow> boot_world list \<Rightarrow> string \<Rightarrow> boot_payee list \<Rightarrow> routing_db \<Rightarrow> routing_db" where
  "provision_all g (w # ws) app (b # bs) db = provision_all g ws app bs (snd (provisionOne g w app b db))"
| "provision_all g _ _ _ db = db"

definition provisionAtBoot :: "aead option \<Rightarrow> boot_world list \<Rightarrow> string option \<Rightarrow> routing_db \<Rightarrow> routing_db" where
  "provisionAtBoot g ws file db = (case file of
     None \<Rightarrow> db
   | Some raw \<Rightarrow> (case parse_plan raw of
       None \<Rightarrow> db
     | Some plan \<Rightarrow> if blank (bl_AppID plan) \<or> g = None \<or> \<not> AppExists (bl_AppID plan) db then db
         else provision_all g ws (bl_AppID plan) (bl_Payees plan) db))"

section \<open>Drafts and activations that succeed\<close>

lemma draft_succeeds:
  assumes "routing_inv db" "rid \<in> set (map pr_ID (recipients db))" "p \<in> set providers" "cid \<notin> set (map gc_ID (credentials db))"
    and "\<And>c. \<exists>doc. enc c = Inr doc"
  shows "\<exists>c db'. CreateDraftCredential now cid rid p key enc db = (Inr c, db')"
proof -
  have ok: "routing_ok db" and u: "uuid_of db rid = Some rid" using assms(1,2) routing_invD(6) [OF assms(1)] by (auto simp: routing_inv_def)
  have t: "TrimSpace rid = rid" using u assms(1) by (auto simp: routing_inv_def canonical_def uuid_law_def)
  have tp: "TrimSpace p = p" using assms(3) by (auto simp: providers_def TrimSpace_def is_space_def)
  have r: "find_recipient rid db \<noteq> None" using assms(2) unfolding find_recipient_None by simp
  define c where "c = \<lparr> gc_ID = cid, gc_RecipientID = rid, gc_Provider = p, gc_Version = fold max (versions (rid, p) db) 0 + 1,
      gc_Status = ''draft'', gc_EncryptedCredentials = JNull, gc_EncryptionKeyID = TrimSpace key, gc_RotatedFromID = [],
      gc_CreatedAt = now, gc_UpdatedAt = now, gc_ActivatedAt = None, gc_DisabledAt = None \<rparr>"
  have n: "newCredentialVersion now cid rid p key [] db = Inr c" using u t tp by (simp add: newCredentialVersion_def c_def)
  have l: "lockRecipientForCredentialChange rid db = None" using u t r by (simp add: lockRecipientForCredentialChange_def)
  obtain doc where doc: "enc c = Inr doc" using assms(5) by blast
  have v: "gc_Version c = int (Suc (length (versions (rid, p) db)))" using new_version [OF ok] by (simp add: c_def)
  have "gc_Version c \<notin> set (versions (rid, p) db)"
  proof -
    have "set (versions (rid, p) db) \<subseteq> {.. int (length (versions (rid, p) db))}"
      by (subst ok_versions [OF ok]) (auto simp: counting_def)
    then show ?thesis using v by auto
  qed
  moreover have "find_credential cid db = None" using assms(4) by (simp only: find_credential_None simp_thms)
  ultimately have "\<exists>db'. insertCredential (c\<lparr>gc_EncryptedCredentials := doc\<rparr>) db = (Inr (), db')"
    using u r assms(3) v by (simp add: insertCredential_def Let_def c_def gc_key_def gc_active_def statuses_def)
  then show ?thesis using n l doc by (auto simp: CreateDraftCredential_def Let_def)
qed

lemma activate_succeeds:
  assumes "find_credential cid db = Some c" "uuid_of db cid = Some cid" "TrimSpace cid = cid"
    and "gc_RecipientID c \<in> set (map pr_ID (recipients db))" "routing_inv db"
  shows "\<exists>db'. SetCredentialStatus now cid ''active'' db = (Inr (), db')"
proof -
  have "uuid_of db (gc_RecipientID c) = Some (gc_RecipientID c)" using routing_invD(6) [OF assms(5)] assms(4) by blast
  moreover have "TrimSpace (gc_RecipientID c) = gc_RecipientID c"
    using calculation assms(5) by (auto simp: routing_inv_def canonical_def uuid_law_def)
  moreover have "find_recipient (gc_RecipientID c) db \<noteq> None" using assms(4) unfolding find_recipient_None by simp
  ultimately show ?thesis using assms(1-3) by (simp add: SetCredentialStatus_def lockRecipientForCredentialChange_def statuses_def)
qed

text \<open>A draft that is made and activated becomes the active credential of its recipient and provider.\<close>

lemma draft_then_active:
  assumes "routing_inv db" "rid \<in> set (map pr_ID (recipients db))" "p \<in> set providers"
    and "fresh_uuid cid db" "cid \<notin> set (map gc_ID (credentials db))" "\<And>c. \<exists>doc. enc c = Inr doc"
  obtains c db1 db2 row c0 where "CreateDraftCredential now cid rid p key enc db = (Inr c, db1)"
    "SetCredentialStatus now (gc_ID c) ''active'' db1 = (Inr (), db2)" "routing_inv db2"
    "mappings db2 = mappings db" "recipients db2 = recipients db" "uuid_of db2 = uuid_of db" "app_ids db2 = app_ids db"
    "row \<in> set (credentials db2)" "gc_active row" "gc_key row = (rid, p)"
    "enc c0 = Inr (gc_EncryptedCredentials row)" "gr_additional_data row = gr_additional_data c0"
proof -
  have ok: "routing_ok db" using assms(1) by (simp add: routing_inv_def)
  have u: "uuid_of db rid = Some rid" using routing_invD(6) [OF assms(1)] assms(2) by blast
  have law: "uuid_law (uuid_of db)" using assms(1) by (simp add: routing_inv_def canonical_def)
  have t: "TrimSpace rid = rid" "TrimSpace cid = cid" "uuid_of db cid = Some cid"
    using u law assms(4) by (auto simp: uuid_law_def fresh_uuid_def)
  have tp: "TrimSpace p = p" using assms(3) by (auto simp: providers_def TrimSpace_def is_space_def)
  obtain c db1 where d: "CreateDraftCredential now cid rid p key enc db = (Inr c, db1)"
  proof -
    have "\<exists>c db'. CreateDraftCredential now cid rid p key enc db = (Inr c, db')"
      by (rule draft_succeeds [OF assms(1-3,5)]) (rule assms(6))
    then show thesis using that by blast
  qed
  obtain row where row: "db1 = db\<lparr>credentials := credentials db @ [row]\<rparr>" "gc_ID row = cid" "gc_key row = (rid, p)"
    "enc (c\<lparr>gc_EncryptedCredentials := JNull\<rparr>) = Inr (gc_EncryptedCredentials row)" "c = row\<lparr>gc_RecipientID := rid\<rparr>" "routing_ok db1"
    by (rule CreateDraft_Inr [OF d ok]) (use u t tp in simp)
  have same: "c = row" using row(3,5) by (simp add: gc_key_def)
  have inv1: "routing_inv db1" using routing_step_inv [OF create_draft [OF _ d] assms(1)] t(3) by simp
  have f: "find_credential cid db1 = Some row" using row(1,2,6) find_credential_unique [of db1 row] by (simp add: routing_ok_def)
  have "gc_RecipientID row \<in> set (map pr_ID (recipients db1))" using assms(2) row(1,3) by (simp add: gc_key_def)
  then obtain db2 where s: "SetCredentialStatus now cid ''active'' db1 = (Inr (), db2)"
    using activate_succeeds [OF f _ t(2) _ inv1] t(3) row(1) by auto
  have db2: "db2 = set_status now cid ''active'' (retire_active now (rid, p) db1)"
    using s f row(1,3) t by (auto simp: SetCredentialStatus_def Let_def split: option.splits if_splits)
  let ?row = "status1 now cid ''active'' (retire1 now (rid, p) row)"
  have core: "core ?row = core row" by simp
  show thesis
  proof (rule that [OF d])
    show "SetCredentialStatus now (gc_ID c) ''active'' db1 = (Inr (), db2)" using s same row(2) by simp
    show "routing_inv db2" using routing_step_inv [OF set_status [OF s] inv1] by simp
    show "mappings db2 = mappings db" "recipients db2 = recipients db" "uuid_of db2 = uuid_of db" "app_ids db2 = app_ids db"
      by (simp_all add: db2 set_status_map retire_active_map row(1))
    show "?row \<in> set (credentials db2)" by (simp add: db2 set_status_map retire_active_map row(1))
    show "gc_active ?row" by (simp add: status1_active row(2))
    show "gc_key ?row = (rid, p)" by (simp add: row(3))
    show "enc (c\<lparr>gc_EncryptedCredentials := JNull\<rparr>) = Inr (gc_EncryptedCredentials ?row)" using row(4) core by (simp add: core_def)
    show "gr_additional_data ?row = gr_additional_data (c\<lparr>gc_EncryptedCredentials := JNull\<rparr>)"
      using core by (simp add: gr_additional_data_def core_def same)
  qed
qed

lemma credentialEncryptor_total: "\<exists>doc. credentialEncryptor (Some g) (Some n) vs c = Inr doc"
  by (simp add: credentialEncryptor_def Encrypt_def)

lemma find_in_set: "find P xs = Some x \<Longrightarrow> x \<in> set xs"
  by (auto simp: find_Some_iff)

section \<open>What a restart does\<close>

text \<open>
  C18: the seed file overrules the dashboard.  When a payee of the file has an active recipient, the
  mappings of its reference that are active lead to it, and no payment for the reference resolves
  (its credential was disabled, or its mapping switched off, say), then the next start makes
  the reference payable again, with the account of the file: a destination that an administrator
  switched off is switched on again, and one that was corrected is replaced.
\<close>
theorem restart_pays_seed:
  assumes inv: "routing_inv db" and aead: "aead_law g" "bw_nonce w ''dkpg'' = Some n" "length n = NonceSize" "gr_Cipher rs = Some g"
    and b: "bp_DKPG b \<noteq> []" "bp_Stripe b = []" "distinct (map fst (bp_DKPG b))" "\<not> blank (bp_Name b)" "\<not> blank (bp_Reference b)"
    and app: "TrimSpace app \<in> set (app_ids db)" "\<not> blank app" and order: "bw_order w = [''dkpg'', ''stripe''] \<or> bw_order w = [''stripe'', ''dkpg'']"
    and rec: "boot_recipient (TrimSpace (bp_Name b)) db = Some r" "pr_IsActive r"
    and maps: "\<forall>m \<in> set (mappings db). im_IsActive m \<and> im_key m = (TrimSpace app, TrimSpace (bp_Reference b)) \<longrightarrow> im_RecipientID m = pr_ID r"
    and off: "\<And>x. ResolveActive app (bp_Reference b) ''dkpg'' db \<noteq> Inr x"
    and ids: "fresh_uuid (bw_credential_uuid w ''dkpg'') db" "bw_credential_uuid w ''dkpg'' \<notin> set (map gc_ID (credentials db))"
      "fresh_uuid (bw_mapping_uuid w) db" "bw_mapping_uuid w \<notin> set (map im_ID (mappings db))"
  shows "\<exists>db' v. provisionOne (Some g) w app b db = (None, db')
    \<and> gr_Resolve rs db' app (bp_Reference b) ''dkpg'' = Inr v \<and> rv_Values v = val_at (bp_DKPG b)"
proof -
  let ?ref = "TrimSpace (bp_Reference b)" and ?rid = "pr_ID r" and ?cid = "bw_credential_uuid w ''dkpg''"
  let ?enc = "credentialEncryptor (Some g) (bw_nonce w ''dkpg'') (bp_DKPG b)"
  have r: "r \<in> set (recipients db)"
    using find_in_set [OF rec(1) [unfolded boot_recipient_def]] by (simp add: ListRecipients_def)
  have e: "\<exists>doc. ?enc c = Inr doc" for c unfolding aead(2) by (rule credentialEncryptor_total)
  obtain c db1 db2 row c0 where d: "CreateDraftCredential (bw_now w) ?cid ?rid ''dkpg'' master_key_id ?enc db = (Inr c, db1)"
    "SetCredentialStatus (bw_now w) (gc_ID c) ''active'' db1 = (Inr (), db2)" "routing_inv db2"
    "mappings db2 = mappings db" "recipients db2 = recipients db" "uuid_of db2 = uuid_of db" "app_ids db2 = app_ids db"
    "row \<in> set (credentials db2)" "gc_active row" "gc_key row = (?rid, ''dkpg'')"
    "?enc c0 = Inr (gc_EncryptedCredentials row)" "gr_additional_data row = gr_additional_data c0"
    by (rule draft_then_active [where now = "bw_now w" and key = master_key_id, OF inv _ _ ids(1,2) e]) (use r in \<open>auto simp: providers_def\<close>)
  have tref: "ResolveActive app ?ref p d = ResolveActive app (bp_Reference b) p d" for p d by (simp add: ResolveActive_def)
  have s: "boot_destination (Some g) w app ?ref ?rid b ''stripe'' d = d" for d by (simp add: boot_destination_def boot_values_def b(2))
  have "boot_destination (Some g) w app ?ref ?rid b ''dkpg'' db = db2"
    using off d(1,2) b(1) by (auto simp: boot_destination_def boot_values_def tref split: sum.splits)
  then have fold: "fold (boot_destination (Some g) w app ?ref ?rid b) (bw_order w) db = db2" using s order by auto
  have law: "uuid_law (uuid_of db)" using inv by (simp add: routing_inv_def canonical_def)
  have rid: "uuid_of db ?rid = Some ?rid" "TrimSpace ?rid = ?rid"
    using routing_invD(6) [OF inv] r law by (auto simp: uuid_law_def)
  have names: "TrimSpace (bp_Name b) \<noteq> []" "?ref \<noteq> []" "TrimSpace app \<noteq> []" using b(4,5) app(2) by (simp_all add: blank_def)
  have listed: "(\<exists>x \<in> set (ListMappings app db2). im_ExternalMerchantReference (fst x) = ?ref \<and> im_IsActive (fst x))
      \<longleftrightarrow> (\<exists>m \<in> set (mappings db2). im_IsActive m \<and> im_key m = (TrimSpace app, ?ref))"
    using listed_mapping [OF d(3), of _ app] app(2) by (auto simp: im_key_def image_iff) (metis fst_conv)+
  have "\<exists>db3 m. provisionOne (Some g) w app b db = (None, db3) \<and> routing_inv db3 \<and> m \<in> set (mappings db3) \<and> im_IsActive m
      \<and> im_key m = (TrimSpace app, ?ref) \<and> im_RecipientID m = ?rid \<and> recipients db3 = recipients db2 \<and> credentials db3 = credentials db2"
  proof (cases "\<exists>m \<in> set (mappings db2). im_IsActive m \<and> im_key m = (TrimSpace app, ?ref)")
    case True
    then have "provisionOne (Some g) w app b db = (None, db2)"
      using rec(1) names fold listed by (simp add: provisionOne_def Let_def)
    then show ?thesis using True d(3,4) maps by auto
  next
    case False
    then have nl: "(\<exists>x \<in> set (ListMappings app db2). im_ExternalMerchantReference (fst x) = ?ref \<and> im_IsActive (fst x)) = False"
      using listed by blast
    let ?m = "\<lparr> im_ID = bw_mapping_uuid w, im_ExternalAppID = TrimSpace app, im_ExternalMerchantReference = ?ref,
        im_RecipientID = ?rid, im_IsActive = True, im_CreatedAt = bw_now w, im_UpdatedAt = bw_now w \<rparr>"
    have "find_recipient ?rid db2 \<noteq> None" using r d(5) unfolding find_recipient_None by simp
    moreover have "(TrimSpace app, ?ref) \<notin> set (map im_key (filter im_IsActive (mappings db2)))" using False by auto
    ultimately have c: "CreateMapping (bw_now w) (bw_mapping_uuid w) app ?ref ?rid True db2 = (Inr (), db2\<lparr>mappings := mappings db2 @ [?m]\<rparr>)"
      using rid names app(1) ids(4) d(4,6,7) by (simp add: CreateMapping_def Let_def im_key_def)
    have "routing_inv (db2\<lparr>mappings := mappings db2 @ [?m]\<rparr>)"
      using routing_step_inv [OF create_mapping [OF _ c] d(3)] ids(3) d(6) by (simp add: fresh_uuid_def)
    moreover have "provisionOne (Some g) w app b db = (None, db2\<lparr>mappings := mappings db2 @ [?m]\<rparr>)"
      using rec(1) names unfolding provisionOne_def Let_def by (simp only: rec(1) option.case fold prod.case sum.case nl c if_False) simp
    ultimately show ?thesis by (intro exI [of _ "db2\<lparr>mappings := mappings db2 @ [?m]\<rparr>"] exI [of _ ?m]) (simp add: im_key_def)
  qed
  then obtain db3 m where m: "provisionOne (Some g) w app b db = (None, db3)" "routing_inv db3" "m \<in> set (mappings db3)" "im_IsActive m"
      "im_key m = (TrimSpace app, ?ref)" "im_RecipientID m = ?rid" "recipients db3 = recipients db2" "credentials db3 = credentials db2" by blast
  have "route (TrimSpace app) ?ref (TrimSpace ''dkpg'') db3 m r row"
    using m d(5,8-10) r rec(2) by (simp add: route_def)
  then have res: "ResolveActive app (bp_Reference b) ''dkpg'' db3 = Inr (resolved_of m r row)"
    using m(2) ResolveActive_iff unfolding routing_inv_def by blast
  have "gr_decrypt rs (resolved_of m r row) = Inr \<lparr> rv_Routing = resolved_of m r row, rv_Values = val_at (bp_DKPG b) \<rparr>"
    by (rule credential_decrypts [OF aead(1,3,4) b(3)]) (use d(11,12) aead(2) in \<open>simp_all add: resolved_of_def\<close>)
  then have "gr_Resolve rs db3 app (bp_Reference b) ''dkpg'' = Inr \<lparr> rv_Routing = resolved_of m r row, rv_Values = val_at (bp_DKPG b) \<rparr>"
    using res names aead(4) by (simp add: gr_Resolve_def)
  then show ?thesis using m(1) by auto
qed

definition seed_payee :: boot_payee where
  "seed_payee = \<lparr> bp_Name = ''hotel'', bp_Reference = ''hotel'', bp_DKPG = [(''beneficiary_account'', ''100200300'')], bp_Stripe = [] \<rparr>"

definition seed_world :: boot_world where
  "seed_world = \<lparr> bw_now = 20, bw_recipient_uuid = ''r9'', bw_credential_uuid = (\<lambda>p. if p = ''dkpg'' then ''c9'' else ''c8''),
     bw_mapping_uuid = ''m9'', bw_nonce = (\<lambda>_. Some ''abcdefghijkl''), bw_order = [''dkpg'', ''stripe''] \<rparr>"

text \<open>An administrator disables the only credential; the next start pays the account of the file.\<close>

definition switched_off :: routing_db where "switched_off = snd (SetCredentialStatus 9 ''c1'' ''disabled'' demo_db)"

lemma switched_off_inv: "routing_inv switched_off"
proof -
  obtain e where "SetCredentialStatus 9 ''c1'' ''disabled'' demo_db = (e, switched_off)"
    unfolding switched_off_def by (metis prod.collapse)
  then show ?thesis using routing_step_inv [OF set_status demo_inv] by blast
qed

theorem restart_pays_seed_witness:
  "(\<forall>x. ResolveActive ''A'' ''hotel'' ''dkpg'' switched_off \<noteq> Inr x)
   \<and> (\<exists>v. gr_Resolve \<lparr>gr_Cipher = Some toy_aead, gr_Cfg = Load id [] (\<lambda>_. [])\<rparr>
          (snd (provisionOne (Some toy_aead) seed_world ''A'' seed_payee switched_off)) ''A'' ''hotel'' ''dkpg'' = Inr v
        \<and> rv_Values v ''beneficiary_account'' = ''100200300'')"
proof -
  have n: "bw_nonce seed_world ''dkpg'' = Some ''abcdefghijkl''" "length ''abcdefghijkl'' = NonceSize"
    by (simp_all add: seed_world_def NonceSize_def)
  have b: "bp_DKPG seed_payee \<noteq> []" "bp_Stripe seed_payee = []" "distinct (map fst (bp_DKPG seed_payee))" "\<not> blank (bp_Name seed_payee)"
    "\<not> blank (bp_Reference seed_payee)" "bp_Reference seed_payee = ''hotel''"
    by (simp_all add: seed_payee_def blank_def TrimSpace_def is_space_def)
  have a: "TrimSpace ''A'' \<in> set (app_ids switched_off)" "\<not> blank ''A''" by code_simp+
  have o1: "bw_order seed_world = [''dkpg'', ''stripe''] \<or> bw_order seed_world = [''stripe'', ''dkpg'']" by (simp add: seed_world_def)
  have "map_option (\<lambda>r. (pr_ID r, pr_IsActive r)) (boot_recipient (TrimSpace (bp_Name seed_payee)) switched_off) = Some (''r1'', True)" by code_simp
  then obtain r where r: "boot_recipient (TrimSpace (bp_Name seed_payee)) switched_off = Some r" "pr_IsActive r" "pr_ID r = ''r1''" by auto
  have "list_all (\<lambda>m. im_RecipientID m = ''r1'') (mappings switched_off)" by code_simp
  then have m: "\<forall>m \<in> set (mappings switched_off). im_IsActive m \<and> im_key m = (TrimSpace ''A'', TrimSpace (bp_Reference seed_payee)) \<longrightarrow> im_RecipientID m = pr_ID r"
    using r(3) by (simp add: list_all_iff)
  have "okay (ResolveActive ''A'' ''hotel'' ''dkpg'' switched_off) = None" by code_simp
  then have off: "ResolveActive ''A'' ''hotel'' ''dkpg'' switched_off \<noteq> Inr x" for x by auto
  have i: "fresh_uuid (bw_credential_uuid seed_world ''dkpg'') switched_off" "bw_credential_uuid seed_world ''dkpg'' \<notin> set (map gc_ID (credentials switched_off))"
    "fresh_uuid (bw_mapping_uuid seed_world) switched_off" "bw_mapping_uuid seed_world \<notin> set (map im_ID (mappings switched_off))" by code_simp+
  have "\<exists>db' v. provisionOne (Some toy_aead) seed_world ''A'' seed_payee switched_off = (None, db')
      \<and> gr_Resolve \<lparr>gr_Cipher = Some toy_aead, gr_Cfg = Load id [] (\<lambda>_. [])\<rparr> db' ''A'' (bp_Reference seed_payee) ''dkpg'' = Inr v
      \<and> rv_Values v = val_at (bp_DKPG seed_payee)"
    by (rule restart_pays_seed [OF switched_off_inv toy_aead_law n _ b(1-5) a o1 r(1,2) m _ i]) (use off b(6) in simp_all)
  moreover have "val_at (bp_DKPG seed_payee) ''beneficiary_account'' = ''100200300''" by code_simp
  ultimately show ?thesis using off b(6) by auto
qed

end
