(* ===== verification/SqlSeed.thy ===== *)
theory SqlSeed
  imports BootProvision
begin

text \<open>
  The generator of seed SQL, cmd/provision_sql/main.go: the statements it prints, and what they do to the
  routing tables when psql runs them with ON_ERROR_STOP in one transaction.  The payees compiled
  into the command, the fresh ids and the nonces are arguments; a printed statement is the
  value it denotes, and quote_sql is the quoting of its literals.
\<close>

section \<open>Reading the key and quoting\<close>

fun split_lines :: "string \<Rightarrow> string list" where
  "split_lines [] = [[]]"
| "split_lines (c # s) = (if c = CHR 0x0A then [] # split_lines s else case split_lines s of [] \<Rightarrow> [[c]] | w # ws \<Rightarrow> (c # w) # ws)"

text \<open>The value a line of a .env file gives a name, None for a line that does not.\<close>

definition env_line :: "string \<Rightarrow> string \<Rightarrow> string option" where
  "env_line want line =
     (let l = TrimSpace line in
      if l = [] \<or> hd l = CHR ''#'' then None
      else case SplitN2 (CHR ''='') l of
        None \<Rightarrow> None
      | Some (name, v) \<Rightarrow> if TrimSpace name \<noteq> want then None else Some (Trim {CHR 0x22, CHR 0x27} (TrimSpace v)))"

definition readDotEnv :: "string option \<Rightarrow> string \<Rightarrow> string" where
  "readDotEnv file want = (case file of
     None \<Rightarrow> []
   | Some text \<Rightarrow> (case List.map_filter (env_line want) (split_lines text) of [] \<Rightarrow> [] | v # _ \<Rightarrow> v))"

definition quote_sql :: "string \<Rightarrow> string" where
  "quote_sql s = CHR 0x27 # concat (map (\<lambda>c. if c = CHR 0x27 then [c, c] else [c]) s) @ [CHR 0x27]"

text \<open>How PostgreSQL reads a literal after its opening quote: the value and the rest of the text.\<close>

fun read_literal :: "string \<Rightarrow> (string \<times> string) option" where
  "read_literal [] = None"
| "read_literal (c # s) = (if c = CHR 0x27
     then (case s of d # t \<Rightarrow> if d = CHR 0x27 then map_option (\<lambda>(v, r). (c # v, r)) (read_literal t) else Some ([], s) | [] \<Rightarrow> Some ([], []))
     else map_option (\<lambda>(v, r). (c # v, r)) (read_literal s))"

lemma quoted_literal_reads_back:
  "r = [] \<or> hd r \<noteq> CHR 0x27 \<Longrightarrow> read_literal (tl (quote_sql s) @ r) = Some (s, r)"
  unfolding quote_sql_def by (induction s) (auto split: list.splits)

section \<open>The statements\<close>

datatype sql_stmt =
    InsertRecipient string string
  | InsertCredential string string json string
  | InsertMapping string string string string

record sql_world =
  sw_now :: time
  sw_recipient_uuid :: string
  sw_credential_uuid :: "string \<Rightarrow> string"
  sw_mapping_uuid :: string
  sw_nonce :: "string \<Rightarrow> string option"

text \<open>None when an encryption fails: the command exits.\<close>

definition sealed_destination :: "aead option \<Rightarrow> sql_world \<Rightarrow> boot_payee \<Rightarrow> string \<Rightarrow> json option" where
  "sealed_destination g w b provider =
     (case Encrypt (sw_nonce w provider) g (writeCanonical (JObj (map (\<lambda>(k, v). (k, JStr v)) (boot_values b provider))))
             (CredentialAdditionalData (sw_credential_uuid w provider) (sw_recipient_uuid w) provider 1) of
        Inl _ \<Rightarrow> None | Inr doc \<Rightarrow> Some doc)"

definition payee_sql :: "aead option \<Rightarrow> string \<Rightarrow> sql_world \<Rightarrow> boot_payee \<Rightarrow> sql_stmt list option" where
  "payee_sql g app w b =
     (case (sealed_destination g w b ''dkpg'', sealed_destination g w b ''stripe'') of
        (Some d, Some s) \<Rightarrow> Some
          [InsertRecipient (sw_recipient_uuid w) (bp_Name b),
           InsertCredential (sw_credential_uuid w ''dkpg'') ''dkpg'' d (bp_Name b),
           InsertCredential (sw_credential_uuid w ''stripe'') ''stripe'' s (bp_Name b),
           InsertMapping (sw_mapping_uuid w) app (bp_Reference b) (bp_Name b)]
      | _ \<Rightarrow> None)"

fun payees_sql :: "aead option \<Rightarrow> string \<Rightarrow> sql_world list \<Rightarrow> boot_payee list \<Rightarrow> sql_stmt list option" where
  "payees_sql g app (w # ws) (b # bs) = (case (payee_sql g app w b, payees_sql g app ws bs) of
     (Some xs, Some ys) \<Rightarrow> Some (xs @ ys) | _ \<Rightarrow> None)"
| "payees_sql g app _ _ = Some []"

definition provision_sql :: "(string \<Rightarrow> aead) \<Rightarrow> string \<Rightarrow> string \<Rightarrow> string option \<Rightarrow> sql_world list \<Rightarrow> boot_payee list \<Rightarrow> sql_stmt list option" where
  "provision_sql new_gcm app envkey dotenv ws bs =
     (if blank app then None
      else let key = (if blank envkey then readDotEnv dotenv ''PAYMENT_CREDENTIALS_MASTER_KEY_B64'' else TrimSpace envkey) in
        (case NewFromBase64 new_gcm key of Inl _ \<Rightarrow> None | Inr g \<Rightarrow> payees_sql (Some g) app ws bs))"

section \<open>Running them\<close>

definition seed_credential :: "time \<Rightarrow> string \<Rightarrow> string \<Rightarrow> json \<Rightarrow> string \<Rightarrow> GatewayCredentialConfiguration" where
  "seed_credential now cid provider doc rid = \<lparr> gc_ID = cid, gc_RecipientID = rid, gc_Provider = provider, gc_Version = 1,
     gc_Status = ''active'', gc_EncryptedCredentials = doc, gc_EncryptionKeyID = master_key_id, gc_RotatedFromID = [],
     gc_CreatedAt = now, gc_UpdatedAt = now, gc_ActivatedAt = Some now, gc_DisabledAt = None \<rparr>"

text \<open>One row after the other; the first violation is the error of the statement.\<close>

fun insert_rows :: "('r \<Rightarrow> routing_db \<Rightarrow> unit routing_result) \<Rightarrow> 'r list \<Rightarrow> routing_db \<Rightarrow> db_error + routing_db" where
  "insert_rows f [] db = Inr db"
| "insert_rows f (r # rs) db = (case f r db of (Inl e, _) \<Rightarrow> Inl e | (Inr _, db') \<Rightarrow> insert_rows f rs db')"

definition insert_seed_mapping :: "time \<Rightarrow> string \<Rightarrow> string \<Rightarrow> string \<Rightarrow> PaymentRecipient \<Rightarrow> routing_db \<Rightarrow> unit routing_result" where
  "insert_seed_mapping now mid app ref r db =
     (let m = \<lparr> im_ID = mid, im_ExternalAppID = app, im_ExternalMerchantReference = ref, im_RecipientID = pr_ID r,
                im_IsActive = True, im_CreatedAt = now, im_UpdatedAt = now \<rparr>
      in if blank ref then (Inl CheckViolation, db)
         else if mid \<in> set (map im_ID (mappings db)) then (Inl PrimaryKeyViolation, db)
         else if im_key m \<in> set (map im_key (filter im_IsActive (mappings db))) then (Inl UniqueViolation, db)
         else if app \<notin> set (app_ids db) then (Inl ForeignKeyViolation, db)
         else (Inr (), db\<lparr>mappings := mappings db @ [m]\<rparr>))"

definition has_active :: "string \<Rightarrow> string \<Rightarrow> routing_db \<Rightarrow> bool" where
  "has_active rid provider db \<longleftrightarrow> list_ex (\<lambda>c. gc_key c = (rid, provider) \<and> gc_active c) (credentials db)"

fun exec_stmt :: "time \<Rightarrow> sql_stmt \<Rightarrow> routing_db \<Rightarrow> db_error + routing_db" where
  "exec_stmt now (InsertRecipient rid name) db =
     (if list_ex (\<lambda>r. pr_Name r = name) (recipients db) then Inr db
      else if find_recipient rid db \<noteq> None then Inl PrimaryKeyViolation
      else Inr (db\<lparr>recipients := recipients db @
        [\<lparr> pr_ID = rid, pr_Name = name, pr_IsActive = True, pr_CreatedAt = now, pr_UpdatedAt = now \<rparr>]\<rparr>))"
| "exec_stmt now (InsertCredential cid provider doc name) db =
     insert_rows (\<lambda>r. insertCredential (seed_credential now cid provider doc (pr_ID r)))
       (filter (\<lambda>r. pr_Name r = name \<and> \<not> has_active (pr_ID r) provider db) (recipients db)) db"
| "exec_stmt now (InsertMapping mid app ref name) db =
     (if list_ex (\<lambda>m. im_key m = (app, ref)) (mappings db) then Inr db
      else insert_rows (insert_seed_mapping now mid app ref) (filter (\<lambda>r. pr_Name r = name) (recipients db)) db)"

fun exec_all :: "time \<Rightarrow> sql_stmt list \<Rightarrow> routing_db \<Rightarrow> db_error + routing_db" where
  "exec_all now [] db = Inr db"
| "exec_all now (s # ss) db = (case exec_stmt now s db of Inl e \<Rightarrow> Inl e | Inr db' \<Rightarrow> exec_all now ss db')"

text \<open>BEGIN ... COMMIT with ON_ERROR_STOP: everything or nothing.\<close>

definition psql :: "time \<Rightarrow> sql_stmt list \<Rightarrow> routing_db \<Rightarrow> routing_db" where
  "psql now ss db = (case exec_all now ss db of Inl _ \<Rightarrow> db | Inr db' \<Rightarrow> db')"

section \<open>A recipient that exists already\<close>

lemma insert_rows_credentials:
  assumes "insert_rows (\<lambda>r. insertCredential (seed_credential now cid p doc (pr_ID r))) rs db = Inr db'"
  shows "\<exists>new. db' = db\<lparr>credentials := credentials db @ new\<rparr> \<and> (\<forall>c \<in> set new. gc_ID c = cid \<and> gc_Provider c = p \<and> gc_Version c = 1
    \<and> gc_EncryptedCredentials c = doc \<and> (\<exists>r \<in> set rs. uuid_of db (pr_ID r) = Some (gc_RecipientID c)))"
  using assms
proof (induction rs arbitrary: db)
  case Nil
  then show ?case by (intro exI [of _ "[]"]) simp
next
  case (Cons r rs)
  obtain db1 where i: "insertCredential (seed_credential now cid p doc (pr_ID r)) db = (Inr (), db1)"
    "insert_rows (\<lambda>r. insertCredential (seed_credential now cid p doc (pr_ID r))) rs db1 = Inr db'"
    using Cons.prems by (auto split: prod.splits sum.splits)
  obtain k frm where k: "uuid_of db (pr_ID r) = Some k"
    "db1 = db\<lparr>credentials := credentials db @ [(seed_credential now cid p doc (pr_ID r))\<lparr>gc_RecipientID := k, gc_RotatedFromID := frm\<rparr>]\<rparr>"
    using i(1) by (auto simp: insertCredential_def Let_def seed_credential_def split: option.splits if_splits)
  let ?c = "(seed_credential now cid p doc (pr_ID r))\<lparr>gc_RecipientID := k, gc_RotatedFromID := frm\<rparr>"
  obtain new where new: "db' = db1\<lparr>credentials := credentials db1 @ new\<rparr>" "\<forall>c \<in> set new. gc_ID c = cid \<and> gc_Provider c = p \<and> gc_Version c = 1
    \<and> gc_EncryptedCredentials c = doc \<and> (\<exists>r \<in> set rs. uuid_of db1 (pr_ID r) = Some (gc_RecipientID c))"
    using Cons.IH [OF i(2)] by blast
  have "gc_ID ?c = cid \<and> gc_Provider ?c = p \<and> gc_Version ?c = 1 \<and> gc_EncryptedCredentials ?c = doc \<and> gc_RecipientID ?c = k"
    by (simp add: seed_credential_def)
  then show ?case using new k by (intro exI [of _ "?c # new"]) auto
qed

lemma insert_rows_mappings:
  "insert_rows (insert_seed_mapping now mid app ref) rs db = Inr db' \<Longrightarrow> credentials db' = credentials db"
proof (induction rs arbitrary: db)
  case (Cons r rs)
  obtain db1 where i: "insert_seed_mapping now mid app ref r db = (Inr (), db1)" "insert_rows (insert_seed_mapping now mid app ref) rs db1 = Inr db'"
    using Cons.prems by (auto split: prod.splits sum.splits)
  then have "credentials db1 = credentials db" by (auto simp: insert_seed_mapping_def Let_def split: if_splits)
  then show ?case using Cons.IH [OF i(2)] by simp
qed simp

text \<open>What the four statements of a payee add, when its recipient is there already.\<close>

lemma seeded_credentials:
  assumes "exec_all now [InsertRecipient rid name, InsertCredential (cid ''dkpg'') ''dkpg'' (doc ''dkpg'') name,
      InsertCredential (cid ''stripe'') ''stripe'' (doc ''stripe'') name, InsertMapping mid app ref name] db = Inr db'"
    and "list_ex (\<lambda>r. pr_Name r = name) (recipients db)" "c \<in> set (credentials db')"
  shows "c \<in> set (credentials db) \<or> (\<exists>p \<in> {''dkpg'', ''stripe''}. \<exists>r \<in> set (recipients db). gc_ID c = cid p \<and> gc_Provider c = p
    \<and> gc_Version c = 1 \<and> gc_EncryptedCredentials c = doc p \<and> uuid_of db (pr_ID r) = Some (gc_RecipientID c))"
proof -
  obtain db1 db2 where s: "exec_stmt now (InsertCredential (cid ''dkpg'') ''dkpg'' (doc ''dkpg'') name) db = Inr db1"
    "exec_stmt now (InsertCredential (cid ''stripe'') ''stripe'' (doc ''stripe'') name) db1 = Inr db2"
    "exec_stmt now (InsertMapping mid app ref name) db2 = Inr db'"
    using assms(1,2) by (auto simp del: exec_stmt.simps(2,3) split: sum.splits)
  have c: "c \<in> set (credentials db2)" using assms(3) s(3) insert_rows_mappings by (auto split: if_splits)
  note d = insert_rows_credentials [OF s(1) [unfolded exec_stmt.simps]] and t = insert_rows_credentials [OF s(2) [unfolded exec_stmt.simps]]
  have same: "recipients db1 = recipients db" "uuid_of db1 = uuid_of db" using d by auto
  show ?thesis using c d t same by auto blast+
qed

text \<open>
  C26: seeding by SQL a payee whose recipient exists writes credentials that nobody can read.
  The command binds each ciphertext to the recipient id it generated, but its statement
  stores the credential under the recipient found by name: when that one was made
  before, no payment ever resolves to the credential, although it is the active one.
\<close>
theorem sql_seed_unreadable:
  assumes "routing_inv db" "payee_sql (Some g) app w b = Some ss" "list_ex (\<lambda>r. pr_Name r = bp_Name b) (recipients db)"
    and "fresh_uuid (sw_recipient_uuid w) db" "sw_recipient_uuid w \<notin> set (map pr_ID (recipients db))"
    and "\<And>p. p \<in> {''dkpg'', ''stripe''} \<Longrightarrow> sw_credential_uuid w p \<notin> set (map gc_ID (credentials db)) \<and> sw_nonce w p = Some (n p) \<and> length (n p) = NonceSize"
    and "aead_law g" "aead_binds g" "gr_Cipher rs = Some g" "q \<in> {''dkpg'', ''stripe''}"
  shows "gr_Resolve rs (psql now ss db) a ref p = Inr v \<longrightarrow> gc_ID (rg_Credential (rv_Routing v)) \<noteq> sw_credential_uuid w q"
proof (intro impI notI)
  assume v: "gr_Resolve rs (psql now ss db) a ref p = Inr v" and id: "gc_ID (rg_Credential (rv_Routing v)) = sw_credential_uuid w q"
  let ?plain = "\<lambda>p. writeCanonical (JObj (map (\<lambda>(k, v). (k, JStr v)) (boot_values b p)))"
  let ?ad = "\<lambda>p. CredentialAdditionalData (sw_credential_uuid w p) (sw_recipient_uuid w) p 1"
  obtain x where x: "ResolveActive a ref p (psql now ss db) = Inr x" "gr_decrypt rs x = Inr v"
    using v by (auto simp: gr_Resolve_def split: if_splits sum.splits)
  then have rv: "rv_Routing v = x" by (auto simp: gr_decrypt_def split: sum.splits option.splits)
  have c: "rg_Credential x \<in> set (credentials (psql now ss db))"
    using ResolveActive_route [OF x(1)] by (auto simp: route_def resolved_of_def)
  define doc where "doc p = (case sealed_destination (Some g) w b p of Some d \<Rightarrow> d | None \<Rightarrow> JNull)" for p
  have docs: "Encrypt (Some (n p)) (Some g) (?plain p) (?ad p) = Inr (doc p)" if "p \<in> {''dkpg'', ''stripe''}" for p
    using assms(6) [OF that] by (simp add: doc_def sealed_destination_def Encrypt_def)
  have ss: "ss = [InsertRecipient (sw_recipient_uuid w) (bp_Name b), InsertCredential (sw_credential_uuid w ''dkpg'') ''dkpg'' (doc ''dkpg'') (bp_Name b),
      InsertCredential (sw_credential_uuid w ''stripe'') ''stripe'' (doc ''stripe'') (bp_Name b),
      InsertMapping (sw_mapping_uuid w) app (bp_Reference b) (bp_Name b)]"
    using assms(2) by (auto simp: payee_sql_def doc_def split: option.splits)
  have "sw_credential_uuid w q \<notin> set (map gc_ID (credentials db))" using assms(6,10) by blast
  then have old: "rg_Credential x \<notin> set (credentials db)" using id rv by (metis imageI list.set_map)
  then obtain db' where e: "exec_all now ss db = Inr db'" "rg_Credential x \<in> set (credentials db')"
    using c by (auto simp: psql_def split: sum.splits)
  have "\<exists>p \<in> {''dkpg'', ''stripe''}. \<exists>r \<in> set (recipients db). gc_ID (rg_Credential x) = sw_credential_uuid w p
      \<and> gc_Provider (rg_Credential x) = p \<and> gc_Version (rg_Credential x) = 1 \<and> gc_EncryptedCredentials (rg_Credential x) = doc p
      \<and> uuid_of db (pr_ID r) = Some (gc_RecipientID (rg_Credential x))"
    using seeded_credentials [OF e(1) [unfolded ss] assms(3) e(2)] old by (elim disjE) (assumption | contradiction)+
  then obtain p' r where r: "p' \<in> {''dkpg'', ''stripe''}" "r \<in> set (recipients db)" "gc_ID (rg_Credential x) = sw_credential_uuid w p'"
    "gc_Provider (rg_Credential x) = p'" "gc_Version (rg_Credential x) = 1" "gc_EncryptedCredentials (rg_Credential x) = doc p'"
    "uuid_of db (pr_ID r) = Some (gc_RecipientID (rg_Credential x))"
    by (elim bexE conjE) (rule that)
  have k: "gc_RecipientID (rg_Credential x) = pr_ID r" using r(2,7) routing_invD(6) [OF assms(1), of "pr_ID r"] by auto
  have law: "uuid_law (uuid_of db)" using assms(1) by (simp add: routing_inv_def canonical_def)
  have "TrimSpace (pr_ID r) = pr_ID r" "TrimSpace (sw_recipient_uuid w) = sw_recipient_uuid w"
    using law r(7) k assms(4) by (auto simp: uuid_law_def fresh_uuid_def)
  then have "?ad p' \<noteq> gr_additional_data (rg_Credential x)"
    using additional_data_recipient [of "sw_credential_uuid w p'" "sw_recipient_uuid w" p' 1 "pr_ID r"] r(2-5) k assms(5)
    by (auto simp: gr_additional_data_def)
  from sealed_for_another [OF assms(7,8) _ assms(9) this docs [OF r(1), folded r(6)]] show False
    using assms(6) [OF r(1)] x(2) by simp
qed

definition sql_payee :: boot_payee where
  "sql_payee = \<lparr> bp_Name = ''Hotel'', bp_Reference = ''hotel'', bp_DKPG = [(''beneficiary_account'', ''100200300'')],
     bp_Stripe = [(''submerchant_id'', ''sm1'')] \<rparr>"

definition sql_demo_world :: sql_world where
  "sql_demo_world = \<lparr> sw_now = 30, sw_recipient_uuid = ''r7'', sw_credential_uuid = (\<lambda>p. if p = ''dkpg'' then ''c7'' else ''c8''),
     sw_mapping_uuid = ''m7'', sw_nonce = (\<lambda>_. Some ''abcdefghijkl'') \<rparr>"

text \<open>The recipient was made in the dashboard; the card credential written by SQL is active and opens for nobody.\<close>

theorem sql_seed_unreadable_witness:
  "\<exists>ss. payee_sql (Some toy_aead) ''A'' sql_demo_world sql_payee = Some ss
     \<and> map_option (\<lambda>x. gc_ID (rg_Credential x)) (okay (ResolveActive ''A'' ''hotel'' ''stripe'' (psql 30 ss demo_db))) = Some ''c8''
     \<and> (\<forall>v. gr_Resolve \<lparr>gr_Cipher = Some toy_aead, gr_Cfg = Load id [] (\<lambda>_. [])\<rparr> (psql 30 ss demo_db) ''A'' ''hotel'' ''stripe'' = Inr v
          \<longrightarrow> gc_ID (rg_Credential (rv_Routing v)) \<noteq> ''c8'')"
proof -
  have "payee_sql (Some toy_aead) ''A'' sql_demo_world sql_payee \<noteq> None"
    by (simp add: payee_sql_def sealed_destination_def Encrypt_def sql_demo_world_def)
  then obtain ss where ss: "payee_sql (Some toy_aead) ''A'' sql_demo_world sql_payee = Some ss" by blast
  have "map_option (\<lambda>x. gc_ID (rg_Credential x)) (okay (ResolveActive ''A'' ''hotel'' ''stripe''
      (psql 30 (the (payee_sql (Some toy_aead) ''A'' sql_demo_world sql_payee)) demo_db))) = Some ''c8''" by code_simp
  moreover have "list_ex (\<lambda>r. pr_Name r = bp_Name sql_payee) (recipients demo_db)" by code_simp
  moreover have "fresh_uuid (sw_recipient_uuid sql_demo_world) demo_db" "sw_recipient_uuid sql_demo_world \<notin> set (map pr_ID (recipients demo_db))"
    by code_simp+
  moreover have "p \<in> {''dkpg'', ''stripe''} \<Longrightarrow> sw_credential_uuid sql_demo_world p \<notin> set (map gc_ID (credentials demo_db))
      \<and> sw_nonce sql_demo_world p = Some ''abcdefghijkl'' \<and> length ''abcdefghijkl'' = NonceSize" for p
    by (simp add: sql_demo_world_def demo_db_def demo_credential_def NonceSize_def)
  moreover have "sw_credential_uuid sql_demo_world ''stripe'' = ''c8''" by (simp add: sql_demo_world_def)
  ultimately show ?thesis
    using ss sql_seed_unreadable [OF demo_inv ss _ _ _ _ toy_aead_law toy_aead_binds, where q = "''stripe''" and n = "\<lambda>_. ''abcdefghijkl''"
        and rs = "\<lparr>gr_Cipher = Some toy_aead, gr_Cfg = Load id [] (\<lambda>_. [])\<rparr>" and now = 30] by auto
qed

end
