(* ===== verification/Middleware.thy ===== *)
theory Middleware
  imports Platform
begin

text \<open>
  The outermost layers of every request: the redirect to HTTPS (middleware/https_redirect.go),
  the security headers (middleware/security_headers.go), the error handler
  (middleware/error_handler.go), and their order in main.go.  netip.ParseAddr is an argument:
  whether an address is a loopback address, None when the text is no address.
\<close>

section \<open>Headers of a response\<close>

definition peek_header :: "string \<Rightarrow> response \<Rightarrow> string" where
  "peek_header k resp = (case find (\<lambda>(k', v). EqualFold k' k) (headers resp) of None \<Rightarrow> [] | Some (k', v) \<Rightarrow> v)"

definition del_header :: "string \<Rightarrow> response \<Rightarrow> response" where
  "del_header k resp = Response (status resp) (filter (\<lambda>(k', v). \<not> EqualFold k' k) (headers resp)) (cookies resp) (body resp)"

definition set_header :: "string \<Rightarrow> string \<Rightarrow> response \<Rightarrow> response" where
  "set_header k v resp = Response (status resp) ((k, v) # filter (\<lambda>(k', v). \<not> EqualFold k' k) (headers resp)) (cookies resp) (body resp)"

lemma status_set [simp]: "status (set_header k v resp) = status resp" "status (del_header k resp) = status resp"
  by (simp_all add: set_header_def del_header_def)

lemma body_set [simp]: "body (set_header k v resp) = body resp" "body (del_header k resp) = body resp"
  by (simp_all add: set_header_def del_header_def)

lemma find_other: "\<not> EqualFold k k' \<Longrightarrow> find (\<lambda>(h, v). EqualFold h k') (filter (\<lambda>(h, v). \<not> EqualFold h k) hs) = find (\<lambda>(h, v). EqualFold h k') hs"
  by (induction hs) (auto simp: EqualFold_def)

lemma peek_set: "peek_header k' (set_header k v resp) = (if EqualFold k k' then v else peek_header k' resp)"
  by (simp add: peek_header_def set_header_def find_other)

lemma peek_del: "peek_header k' (del_header k resp) = (if EqualFold k k' then [] else peek_header k' resp)"
proof (cases "EqualFold k k'")
  case True
  then have "find (\<lambda>(h, v). EqualFold h k') (filter (\<lambda>(h, v). \<not> EqualFold h k) (headers resp)) = None"
    by (auto simp: find_None_iff EqualFold_def)
  then show ?thesis using True by (simp add: peek_header_def del_header_def)
qed (simp add: peek_header_def del_header_def find_other)

definition names_header :: "string \<Rightarrow> response \<Rightarrow> bool" where
  "names_header k resp \<longleftrightarrow> list_ex (\<lambda>(k', v). EqualFold k' k) (headers resp)"

lemma names_set: "names_header k' (set_header k v resp) \<longleftrightarrow> EqualFold k k' \<or> names_header k' resp"
  by (auto simp: names_header_def set_header_def list_ex_iff EqualFold_def)

lemma names_del: "names_header k' (del_header k resp) \<longleftrightarrow> \<not> EqualFold k k' \<and> names_header k' resp"
  by (auto simp: names_header_def del_header_def list_ex_iff EqualFold_def)

section \<open>The redirect to HTTPS\<close>

definition isLoopbackHost :: "(string \<Rightarrow> bool option) \<Rightarrow> string \<Rightarrow> bool" where
  "isLoopbackHost addr hostname =
     (let h = TrimSpace hostname in
      if EqualFold h ''localhost'' then True else case addr h of Some loopback \<Rightarrow> loopback | None \<Rightarrow> False)"

text \<open>The second argument is the request URI: the path with its query.\<close>

definition HTTPSRedirect :: "(string \<Rightarrow> bool option) \<Rightarrow> string \<Rightarrow> bool \<Rightarrow> request \<Rightarrow> unit step" where
  "HTTPSRedirect addr uri enabled r =
     (if \<not> enabled \<or> isLoopbackHost addr (r_hostname r) \<or> EqualFold (r_protocol r) ''https'' then Next ()
      else Halt (Response 301 [(''Location'', ''https://'' @ r_hostname r @ uri)] [] JNull))"

section \<open>Security headers\<close>

definition defaultCSPPolicy :: string where
  "defaultCSPPolicy = ''default-src 'self'; base-uri 'self'; form-action 'self'; frame-ancestors 'self'; object-src 'none'; script-src 'self' https://challenges.cloudflare.com; style-src 'self' https://fonts.googleapis.com; img-src 'self' data:; font-src 'self' https://fonts.gstatic.com data:; connect-src 'self' https://challenges.cloudflare.com; frame-src 'self' https://challenges.cloudflare.com''"

definition defaultHSTSValue :: string where
  "defaultHSTSValue = ''max-age=31536000; includeSubDomains; preload''"

definition techDisclosureHeaders :: "string list" where
  "techDisclosureHeaders = [''Server'', ''X-Powered-By'', ''X-AspNet-Version'', ''X-AspNetMvc-Version'']"

record SecurityHeadersOptions =
  so_Enabled :: bool
  so_CSPEnabled :: bool
  so_CSPPolicy :: string
  so_CSPReportOnly :: bool
  so_CSPReportURI :: string

definition normalizeCSP :: "SecurityHeadersOptions \<Rightarrow> string option" where
  "normalizeCSP o' =
     (if \<not> so_Enabled o' \<or> \<not> so_CSPEnabled o' then None
      else let policy = (if blank (so_CSPPolicy o') then defaultCSPPolicy else TrimSpace (so_CSPPolicy o'));
               uri = TrimSpace (so_CSPReportURI o');
               lower = ToLower policy
           in if uri \<noteq> [] \<and> \<not> Contains lower ''report-uri'' \<and> \<not> Contains lower ''report-to''
              then Some ((if HasSuffix policy '';'' then policy else policy @ '';'') @ '' report-uri '' @ uri)
              else Some policy)"

text \<open>
  What the rest of the chain leaves: the response as far as it was written, and the error it
  returned, if any.  A fiber.Error has a status and a message of its own.
\<close>

datatype go_error = FiberError nat string | OtherError string

type_synonym chain_outcome = "response \<times> go_error option"

definition csp_header :: "SecurityHeadersOptions \<Rightarrow> string" where
  "csp_header o' = (if so_CSPReportOnly o' then ''Content-Security-Policy-Report-Only'' else ''Content-Security-Policy'')"

definition set_headers :: "(string \<times> string) list \<Rightarrow> response \<Rightarrow> response" where
  "set_headers hs resp = fold (\<lambda>(k, v). set_header k v) hs resp"

definition fixed_headers :: "(string \<times> string) list" where
  "fixed_headers = [(''X-Content-Type-Options'', ''nosniff''), (''X-Frame-Options'', ''SAMEORIGIN''),
     (''Referrer-Policy'', ''strict-origin-when-cross-origin''), (''Permissions-Policy'', ''camera=(), microphone=(), geolocation=()'')]"

definition SecurityHeaders :: "SecurityHeadersOptions \<Rightarrow> request \<Rightarrow> chain_outcome \<Rightarrow> chain_outcome" where
  "SecurityHeaders o' r out =
     (if \<not> so_Enabled o' then out
      else let resp = set_headers fixed_headers (fold del_header techDisclosureHeaders (fst out));
               policy = (case normalizeCSP o' of None \<Rightarrow> []
                 | Some p \<Rightarrow> if peek_header ''Content-Security-Policy'' resp = [] then [(csp_header o', p)] else []);
               hsts = (if EqualFold (r_protocol r) ''https'' then [(''Strict-Transport-Security'', defaultHSTSValue)] else [])
           in (set_headers hsts (set_headers policy resp), snd out))"

section \<open>Errors\<close>

definition genericServerError :: string where "genericServerError = ''Something went wrong''"

definition error_answer :: "go_error \<Rightarrow> nat \<times> string" where
  "error_answer e = (case e of
     FiberError code msg \<Rightarrow> (code, if code < 500 then msg else genericServerError)
   | OtherError _ \<Rightarrow> (500, genericServerError))"

definition error_text :: "go_error \<Rightarrow> string" where
  "error_text e = (case e of FiberError code msg \<Rightarrow> msg | OtherError msg \<Rightarrow> msg)"

text \<open>The answer, and the line that is logged for a failure of the service; the third argument is the request_id local.\<close>

definition ErrorHandler :: "request \<Rightarrow> response \<Rightarrow> string option \<Rightarrow> go_error \<Rightarrow> response \<times> string option" where
  "ErrorHandler r resp local_id e =
     (let (code, msg) = error_answer e;
          req_id = (if \<not> blank (r_header r ''X-Request-Id'') then TrimSpace (r_header r ''X-Request-Id'')
                    else case local_id of Some v \<Rightarrow> TrimSpace v | None \<Rightarrow> []);
          req_id = (if req_id = [] then ''-'' else req_id)
      in (Response code (headers resp) (cookies resp) (JObj [(''error'', JStr msg)]),
          if code \<ge> 500 then Some (''unhandled error: method='' @ r_method r @ '' path='' @ r_path r @ '' request_id='' @ req_id
            @ '' status='' @ nat_text code @ '' error='' @ error_text e) else None))"

section \<open>The order of main\<close>

definition main_options :: "config \<Rightarrow> SecurityHeadersOptions" where
  "main_options cfg = \<lparr> so_Enabled = SecurityHeadersEnabled cfg, so_CSPEnabled = CSPEnabled cfg, so_CSPPolicy = CSPPolicy cfg,
     so_CSPReportOnly = CSPReportOnly cfg, so_CSPReportURI = CSPReportURI cfg \<rparr>"

definition main_serve :: "config \<Rightarrow> (string \<Rightarrow> bool option) \<Rightarrow> string \<Rightarrow> string option \<Rightarrow> (request \<Rightarrow> chain_outcome) \<Rightarrow> request \<Rightarrow> response" where
  "main_serve cfg addr uri local_id chain r =
     (case HTTPSRedirect addr uri (HTTPSRedirectEnabled cfg) r of
        Halt resp \<Rightarrow> resp
      | Next _ \<Rightarrow> (case SecurityHeaders (main_options cfg) r (chain r) of
            (resp, None) \<Rightarrow> resp
          | (resp, Some e) \<Rightarrow> fst (ErrorHandler r resp local_id e)))"

section \<open>What every answer carries\<close>

definition written_headers :: "string list" where
  "written_headers = [''X-Content-Type-Options'', ''X-Frame-Options'', ''Referrer-Policy'', ''Permissions-Policy'',
     ''Content-Security-Policy'', ''Content-Security-Policy-Report-Only'', ''Strict-Transport-Security''] @ techDisclosureHeaders"

lemma written_headers_apart: "list_all (\<lambda>a. list_all (\<lambda>b. EqualFold a b \<longleftrightarrow> a = b) written_headers) written_headers"
  by code_simp

lemma EqualFold_written: "a \<in> set written_headers \<Longrightarrow> b \<in> set written_headers \<Longrightarrow> EqualFold a b \<longleftrightarrow> a = b"
  using written_headers_apart by (simp add: list_all_iff)

lemma written [simp]:
  "''X-Content-Type-Options'' \<in> set written_headers" "''X-Frame-Options'' \<in> set written_headers" "''Referrer-Policy'' \<in> set written_headers"
  "''Permissions-Policy'' \<in> set written_headers" "''Content-Security-Policy'' \<in> set written_headers"
  "''Content-Security-Policy-Report-Only'' \<in> set written_headers" "''Strict-Transport-Security'' \<in> set written_headers"
  "''Server'' \<in> set written_headers" "''X-Powered-By'' \<in> set written_headers" "''X-AspNet-Version'' \<in> set written_headers"
  "''X-AspNetMvc-Version'' \<in> set written_headers"
  by (simp_all add: written_headers_def techDisclosureHeaders_def)

lemma normalizeCSP_nonempty: "normalizeCSP o' = Some p \<Longrightarrow> p \<noteq> []"
  by (auto simp: normalizeCSP_def Let_def blank_def defaultCSPPolicy_def split: if_splits)

lemma normalizeCSP_enabled: "normalizeCSP o' \<noteq> None \<longleftrightarrow> so_Enabled o' \<and> so_CSPEnabled o'"
  by (auto simp: normalizeCSP_def Let_def)

lemma status_set_headers [simp]: "status (set_headers hs resp) = status resp"
  unfolding set_headers_def by (induction hs arbitrary: resp) (auto split: prod.splits)

lemma status_del_all [simp]: "status (fold del_header ks resp) = status resp"
  by (induction ks arbitrary: resp) auto

lemma body_set_headers [simp]: "body (set_headers hs resp) = body resp" "body (fold del_header ks resp) = body resp"
proof -
  show "body (set_headers hs resp) = body resp"
    unfolding set_headers_def by (induction hs arbitrary: resp) (auto split: prod.splits)
  show "body (fold del_header ks resp) = body resp" by (induction ks arbitrary: resp) auto
qed

lemma peek_set_headers:
  assumes "set (map fst hs) \<subseteq> set written_headers" "k \<in> set written_headers"
  shows "peek_header k (set_headers hs resp) = (case map_of (rev hs) k of None \<Rightarrow> peek_header k resp | Some v \<Rightarrow> v)"
  using assms unfolding set_headers_def
  by (induction hs arbitrary: resp) (auto simp: peek_set EqualFold_written map_add_def split: option.splits)

lemma names_set_headers:
  assumes "set (map fst hs) \<subseteq> set written_headers" "k \<in> set written_headers"
  shows "names_header k (set_headers hs resp) \<longleftrightarrow> k \<in> set (map fst hs) \<or> names_header k resp"
  using assms unfolding set_headers_def
  by (induction hs arbitrary: resp) (auto simp: names_set EqualFold_written)

lemma names_del_all: "k \<in> set ks \<Longrightarrow> \<not> names_header k (fold del_header ks resp)"
proof -
  have gone: "\<not> names_header k resp \<Longrightarrow> \<not> names_header k (fold del_header ks resp)" for ks resp
    by (induction ks arbitrary: resp) (simp_all add: names_del)
  show "k \<in> set ks \<Longrightarrow> ?thesis"
    by (induction ks arbitrary: resp) (auto simp: gone names_del)
qed

lemma peek_del_all:
  "k \<in> set written_headers \<Longrightarrow> set ks \<subseteq> set written_headers \<Longrightarrow> k \<notin> set ks \<Longrightarrow> peek_header k (fold del_header ks resp) = peek_header k resp"
  by (induction ks arbitrary: resp) (auto simp: peek_del EqualFold_written)

text \<open>What the layer writes, all at once.\<close>

lemma SecurityHeaders_writes:
  assumes "so_Enabled o'" "SecurityHeaders o' r out = (resp, e)"
  obtains pol hsts where "resp = set_headers (fixed_headers @ pol @ hsts) (fold del_header techDisclosureHeaders (fst out))" "e = snd out"
    "pol = (case normalizeCSP o' of None \<Rightarrow> [] | Some p \<Rightarrow> if peek_header ''Content-Security-Policy'' (fst out) = [] then [(csp_header o', p)] else [])"
    "hsts = (if EqualFold (r_protocol r) ''https'' then [(''Strict-Transport-Security'', defaultHSTSValue)] else [])"
proof -
  have f: "set (map fst fixed_headers) \<subseteq> set written_headers" "map_of (rev fixed_headers) ''Content-Security-Policy'' = None"
    by (simp_all add: fixed_headers_def)
  have t: "''Content-Security-Policy'' \<notin> set techDisclosureHeaders" "set techDisclosureHeaders \<subseteq> set written_headers"
    by (auto simp: techDisclosureHeaders_def)
  have "peek_header ''Content-Security-Policy'' (set_headers fixed_headers (fold del_header techDisclosureHeaders (fst out)))
      = peek_header ''Content-Security-Policy'' (fst out)"
    using peek_set_headers [OF f(1) written(5)] f(2) peek_del_all [OF written(5) t(2,1)] by simp
  then show thesis using assms that by (simp add: SecurityHeaders_def Let_def set_headers_def cong: option.case_cong)
qed

lemma SecurityHeaders_written:
  assumes "so_Enabled o'" "SecurityHeaders o' r out = (resp, e)"
  shows "peek_header ''X-Content-Type-Options'' resp = ''nosniff''" "peek_header ''X-Frame-Options'' resp = ''SAMEORIGIN''"
    "peek_header ''Referrer-Policy'' resp = ''strict-origin-when-cross-origin''"
    "peek_header ''Permissions-Policy'' resp = ''camera=(), microphone=(), geolocation=()''"
    "EqualFold (r_protocol r) ''https'' \<Longrightarrow> peek_header ''Strict-Transport-Security'' resp = defaultHSTSValue"
    "e = snd out" "status resp = status (fst out)"
    "peek_header ''Content-Security-Policy'' resp =
     (if peek_header ''Content-Security-Policy'' (fst out) \<noteq> [] then peek_header ''Content-Security-Policy'' (fst out)
      else if so_CSPReportOnly o' then [] else case normalizeCSP o' of Some p \<Rightarrow> p | None \<Rightarrow> [])"
    "k \<in> set techDisclosureHeaders \<Longrightarrow> \<not> names_header k resp"
proof -
  obtain pol hsts where w: "resp = set_headers (fixed_headers @ pol @ hsts) (fold del_header techDisclosureHeaders (fst out))" "e = snd out"
    "pol = (case normalizeCSP o' of None \<Rightarrow> [] | Some p \<Rightarrow> if peek_header ''Content-Security-Policy'' (fst out) = [] then [(csp_header o', p)] else [])"
    "hsts = (if EqualFold (r_protocol r) ''https'' then [(''Strict-Transport-Security'', defaultHSTSValue)] else [])"
    using SecurityHeaders_writes [OF assms] by blast
  have cases: "pol = [] \<or> (\<exists>p. pol = [(''Content-Security-Policy'', p)] \<or> pol = [(''Content-Security-Policy-Report-Only'', p)])"
    "hsts = [] \<or> hsts = [(''Strict-Transport-Security'', defaultHSTSValue)]"
    using w(3,4) by (auto simp: csp_header_def split: option.splits)
  have sub: "set (map fst (fixed_headers @ pol @ hsts)) \<subseteq> set written_headers"
    using cases by (auto simp: fixed_headers_def)
  have peek: "peek_header k resp = (case map_of (rev (fixed_headers @ pol @ hsts)) k of None \<Rightarrow> peek_header k (fold del_header techDisclosureHeaders (fst out)) | Some v \<Rightarrow> v)"
    if "k \<in> set written_headers" for k
    unfolding w(1) by (rule peek_set_headers [OF sub that])
  show "peek_header ''X-Content-Type-Options'' resp = ''nosniff''" "peek_header ''X-Frame-Options'' resp = ''SAMEORIGIN''"
    "peek_header ''Referrer-Policy'' resp = ''strict-origin-when-cross-origin''"
    "peek_header ''Permissions-Policy'' resp = ''camera=(), microphone=(), geolocation=()''"
    using cases by (auto simp: peek fixed_headers_def map_add_def)
  show "EqualFold (r_protocol r) ''https'' \<Longrightarrow> peek_header ''Strict-Transport-Security'' resp = defaultHSTSValue"
    using w(4) by (simp add: peek map_add_def)
  show "e = snd out" "status resp = status (fst out)" by (simp_all add: w(1,2))
  show "peek_header ''Content-Security-Policy'' resp =
     (if peek_header ''Content-Security-Policy'' (fst out) \<noteq> [] then peek_header ''Content-Security-Policy'' (fst out)
      else if so_CSPReportOnly o' then [] else case normalizeCSP o' of Some p \<Rightarrow> p | None \<Rightarrow> [])"
  proof -
    have "peek_header ''Content-Security-Policy'' (fold del_header techDisclosureHeaders (fst out)) = peek_header ''Content-Security-Policy'' (fst out)"
      by (rule peek_del_all) (simp_all add: techDisclosureHeaders_def written_headers_def)
    then show ?thesis using cases(2) by (auto simp: peek w(3) csp_header_def fixed_headers_def map_add_def split: option.splits)
  qed
  show "\<not> names_header k resp" if "k \<in> set techDisclosureHeaders"
  proof -
    have "k \<notin> set (map fst (fixed_headers @ pol @ hsts))" using that cases by (auto simp: fixed_headers_def techDisclosureHeaders_def)
    then show ?thesis using names_set_headers [OF sub, of k] names_del_all [OF that] that by (simp add: w(1) written_headers_def)
  qed
qed

lemma normalizeCSP_extends:
  assumes "normalizeCSP o' = Some q"
  obtains rest where "q = (if blank (so_CSPPolicy o') then defaultCSPPolicy else TrimSpace (so_CSPPolicy o')) @ rest"
    "rest \<in> {[], '' report-uri '' @ TrimSpace (so_CSPReportURI o'), ''; report-uri '' @ TrimSpace (so_CSPReportURI o')}"
  using assms that by (auto simp: normalizeCSP_def Let_def split: if_splits)

lemma defaultCSPPolicy_starts:
  "HasPrefix (defaultCSPPolicy @ rest) ''default-src 'self'; base-uri 'self'; form-action 'self'; frame-ancestors 'self'; object-src 'none'; script-src 'self' https://challenges.cloudflare.com; ''"
  by (simp add: defaultCSPPolicy_def HasPrefix_def)

lemma ErrorHandler_answer:
  "fst (ErrorHandler r resp lid (FiberError code msg))
     = Response code (headers resp) (cookies resp) (JObj [(''error'', JStr (if code < 500 then msg else ''Something went wrong''))])"
  "fst (ErrorHandler r resp lid (OtherError msg)) = Response 500 (headers resp) (cookies resp) (JObj [(''error'', JStr ''Something went wrong'')])"
  by (simp_all add: ErrorHandler_def error_answer_def genericServerError_def Let_def)

text \<open>
  C17: with the security headers enabled, every answer of the service other than the redirect to HTTPS
  is hardened.  Whatever the rest of the chain answers, the answer forbids sniffing and foreign
  frames, names no server technology, and over HTTPS carries the strict transport rule.  A policy that the handler
  set itself is kept; otherwise, with policies on and not only reported, the content security policy is the
  configured one, or the default one that admits scripts of this origin and the
  captcha only, with at most a report-uri behind it.  When the chain returns an error, the body is one
  sentence: the error's own if its status is below 500, else "Something went wrong", whatever the error says;
  without one the chain's own status and body go out.
\<close>
theorem answers_hardened:
  assumes "SecurityHeadersEnabled cfg" "HTTPSRedirect addr uri (HTTPSRedirectEnabled cfg) r = Next ()"
    and "chain r = (h, e)" "resp = main_serve cfg addr uri lid chain r"
  shows "peek_header ''X-Content-Type-Options'' resp = ''nosniff'' \<and> peek_header ''X-Frame-Options'' resp = ''SAMEORIGIN''
    \<and> peek_header ''Referrer-Policy'' resp = ''strict-origin-when-cross-origin''
    \<and> peek_header ''Permissions-Policy'' resp = ''camera=(), microphone=(), geolocation=()''
    \<and> (\<forall>k \<in> {''Server'', ''X-Powered-By'', ''X-AspNet-Version'', ''X-AspNetMvc-Version''}. \<not> names_header k resp)
    \<and> (peek_header ''Content-Security-Policy'' h \<noteq> [] \<longrightarrow> peek_header ''Content-Security-Policy'' resp = peek_header ''Content-Security-Policy'' h)
    \<and> (peek_header ''Content-Security-Policy'' h = [] \<and> CSPEnabled cfg \<and> \<not> CSPReportOnly cfg \<longrightarrow>
         (\<exists>base rest. peek_header ''Content-Security-Policy'' resp = base @ rest
            \<and> rest \<in> {[], '' report-uri '' @ TrimSpace (CSPReportURI cfg), ''; report-uri '' @ TrimSpace (CSPReportURI cfg)}
            \<and> (if blank (CSPPolicy cfg)
                then HasPrefix base ''default-src 'self'; base-uri 'self'; form-action 'self'; frame-ancestors 'self'; object-src 'none'; script-src 'self' https://challenges.cloudflare.com; ''
                else base = TrimSpace (CSPPolicy cfg))))
    \<and> (EqualFold (r_protocol r) ''https'' \<longrightarrow> peek_header ''Strict-Transport-Security'' resp = ''max-age=31536000; includeSubDomains; preload'')
    \<and> (HTTPSRedirectEnabled cfg \<and> \<not> isLoopbackHost addr (r_hostname r) \<longrightarrow> EqualFold (r_protocol r) ''https'')
    \<and> (\<forall>code msg. e = Some (FiberError code msg) \<longrightarrow> status resp = code
         \<and> body resp = JObj [(''error'', JStr (if code < 500 then msg else ''Something went wrong''))])
    \<and> (\<forall>msg. e = Some (OtherError msg) \<longrightarrow> status resp = 500 \<and> body resp = JObj [(''error'', JStr ''Something went wrong'')])
    \<and> (e = None \<longrightarrow> status resp = status h \<and> body resp = body h)"
proof -
  let ?o = "main_options cfg" and ?csp = "peek_header ''Content-Security-Policy''"
  have on: "so_Enabled ?o" using assms(1) by (simp add: main_options_def)
  obtain resp1 e1 where s: "SecurityHeaders ?o r (h, e) = (resp1, e1)" by (cases "SecurityHeaders ?o r (h, e)")
  note w = SecurityHeaders_written [OF on s] and p = SecurityHeaders_written(8) [OF on s] and u = SecurityHeaders_written(9) [OF on s]
  have serve: "resp = (case e of None \<Rightarrow> resp1 | Some x \<Rightarrow> fst (ErrorHandler r resp1 lid x))"
    using assms(2,3,4) s w(6) by (simp add: main_serve_def split: option.splits)
  have same: "headers resp = headers resp1"
    unfolding serve by (simp add: ErrorHandler_def Let_def split: option.splits prod.splits)
  have peek: "peek_header k resp = peek_header k resp1" "names_header k resp = names_header k resp1" for k
    by (simp_all add: peek_header_def names_header_def same)
  have https: "HTTPSRedirectEnabled cfg \<and> \<not> isLoopbackHost addr (r_hostname r) \<longrightarrow> EqualFold (r_protocol r) ''https''"
    using assms(2) by (auto simp: HTTPSRedirect_def split: if_splits)
  have pol: "?csp h = [] \<and> CSPEnabled cfg \<and> \<not> CSPReportOnly cfg \<longrightarrow> (\<exists>base rest. ?csp resp1 = base @ rest
      \<and> rest \<in> {[], '' report-uri '' @ TrimSpace (CSPReportURI cfg), ''; report-uri '' @ TrimSpace (CSPReportURI cfg)}
      \<and> (if blank (CSPPolicy cfg)
          then HasPrefix base ''default-src 'self'; base-uri 'self'; form-action 'self'; frame-ancestors 'self'; object-src 'none'; script-src 'self' https://challenges.cloudflare.com; ''
          else base = TrimSpace (CSPPolicy cfg)))" (is "?off \<longrightarrow> (\<exists>base rest. ?says base rest)")
  proof
    assume off: ?off
    then obtain q where q: "normalizeCSP ?o = Some q" using normalizeCSP_enabled [of ?o] on by (auto simp: main_options_def)
    let ?base = "if blank (CSPPolicy cfg) then defaultCSPPolicy else TrimSpace (CSPPolicy cfg)"
    obtain rest where "q = ?base @ rest"
        "rest \<in> {[], '' report-uri '' @ TrimSpace (CSPReportURI cfg), ''; report-uri '' @ TrimSpace (CSPReportURI cfg)}"
      by (rule normalizeCSP_extends [OF q]) (simp add: main_options_def)
    moreover have "?csp resp1 = q" using p off q by (simp add: main_options_def)
    ultimately have "?says ?base rest" using defaultCSPPolicy_starts [of "[]"] by simp
    then show "\<exists>base rest. ?says base rest" by blast
  qed
  have err: "\<forall>code msg. e = Some (FiberError code msg) \<longrightarrow> status resp = code
      \<and> body resp = JObj [(''error'', JStr (if code < 500 then msg else ''Something went wrong''))]"
    using serve by (simp add: ErrorHandler_answer)
  have other: "\<forall>msg. e = Some (OtherError msg) \<longrightarrow> status resp = 500 \<and> body resp = JObj [(''error'', JStr ''Something went wrong'')]"
    using serve by (simp add: ErrorHandler_answer)
  have "body resp1 = body h" using s by (auto simp: SecurityHeaders_def Let_def split: if_splits)
  then have none: "e = None \<longrightarrow> status resp = status h \<and> body resp = body h" using serve w(7) by simp
  have hsts: "EqualFold (r_protocol r) ''https'' \<longrightarrow> peek_header ''Strict-Transport-Security'' resp1 = ''max-age=31536000; includeSubDomains; preload''"
    using w(5) by (simp add: defaultHSTSValue_def)
  have tech: "\<forall>k \<in> {''Server'', ''X-Powered-By'', ''X-AspNet-Version'', ''X-AspNetMvc-Version''}. \<not> names_header k resp1"
    using u unfolding techDisclosureHeaders_def by simp
  have own: "?csp h \<noteq> [] \<longrightarrow> ?csp resp1 = ?csp h" using p by simp
  show ?thesis unfolding peek by (intro conjI; rule w(1-4) tech own pol hsts https none err other)
qed

text \<open>A proxied screenshot stays in its sandbox whatever policy the site has.\<close>

lemma screenshot_stays_sandboxed:
  assumes "SecurityHeadersEnabled cfg" "HTTPSRedirect addr uri (HTTPSRedirectEnabled cfg) r = Next ()"
    and "status (upi_Screenshot cfg ask ref) = 200"
  shows "peek_header ''Content-Security-Policy'' (main_serve cfg addr uri lid (\<lambda>_. (upi_Screenshot cfg ask ref, None)) r)
    = ''default-src 'none'; sandbox''"
proof -
  let ?h = "upi_Screenshot cfg ask ref"
  have on: "so_Enabled (main_options cfg)" using assms(1) by (simp add: main_options_def)
  have h: "peek_header ''Content-Security-Policy'' ?h = ''default-src 'none'; sandbox''"
    using assms(3) by (auto simp: upi_Screenshot_def Let_def peek_header_def EqualFold_written
        split: if_splits platform_answer.splits) (auto simp: EqualFold_def ToLower_def)
  obtain resp1 e1 where s: "SecurityHeaders (main_options cfg) r (?h, None) = (resp1, e1)"
    by (cases "SecurityHeaders (main_options cfg) r (?h, None)")
  show ?thesis using SecurityHeaders_written(8) [OF on s] SecurityHeaders_written(6) [OF on s] h assms(2) s by (simp add: main_serve_def)
qed

text \<open>A failing handler behind a server that names itself.\<close>

definition https_demo :: request where
  "https_demo = \<lparr> r_method = ''GET'', r_path = ''/api/admin/stats'', r_protocol = ''HTTPS'', r_hostname = ''pay.example.bt'', r_ip = ''10.0.0.9'',
     r_header = (\<lambda>_. []), r_cookie = (\<lambda>_. []), r_body = None \<rparr>"

definition failing_chain :: "request \<Rightarrow> chain_outcome" where
  "failing_chain r = (Response 200 [(''server'', ''fasthttp'')] [] JNull, Some (OtherError ''relation payment_transactions does not exist''))"

theorem answers_hardened_witness:
  "let resp = main_serve (Load id [] (\<lambda>_. [])) (\<lambda>_. None) ''/api/admin/stats'' None failing_chain https_demo
   in status resp = 500 \<and> body resp = JObj [(''error'', JStr ''Something went wrong'')] \<and> \<not> names_header ''Server'' resp
    \<and> (\<exists>rest. peek_header ''Content-Security-Policy'' resp = ''default-src 'self'; '' @ rest)
    \<and> peek_header ''Strict-Transport-Security'' resp = ''max-age=31536000; includeSubDomains; preload''"
proof -
  let ?cfg = "Load id [] (\<lambda>_. [])" and ?addr = "\<lambda>_. None" and ?h = "Response 200 [(''server'', ''fasthttp'')] [] JNull"
  let ?e = "OtherError ''relation payment_transactions does not exist''"
  have cfg: "SecurityHeadersEnabled ?cfg" "HTTPSRedirectEnabled ?cfg" "CSPEnabled ?cfg" "\<not> CSPReportOnly ?cfg" "blank (CSPPolicy ?cfg)"
    by (simp_all add: Load_def) code_simp+
  have r: "HTTPSRedirect ?addr ''/api/admin/stats'' (HTTPSRedirectEnabled ?cfg) https_demo = Next ()" "EqualFold (r_protocol https_demo) ''https''"
    unfolding eq_True [THEN iffD2, OF cfg(2)] by code_simp+
  have c: "failing_chain https_demo = (?h, Some ?e)" by (simp add: failing_chain_def)
  have p: "peek_header ''Content-Security-Policy'' ?h = []" by code_simp
  note a = answers_hardened [where cfg = ?cfg and addr = ?addr and uri = "''/api/admin/stats''" and r = https_demo
      and chain = failing_chain and lid = None, OF cfg(1) r(1) c refl]
  let ?resp = "main_serve ?cfg ?addr ''/api/admin/stats'' None failing_chain https_demo"
  have "status ?resp = 500 \<and> body ?resp = JObj [(''error'', JStr ''Something went wrong'')]" using a by simp
  moreover have "\<not> names_header ''Server'' ?resp" using a by simp
  moreover have "peek_header ''Strict-Transport-Security'' ?resp = ''max-age=31536000; includeSubDomains; preload''" using a r(2) by simp
  moreover obtain base rest where b: "peek_header ''Content-Security-Policy'' ?resp = base @ rest"
      "HasPrefix base ''default-src 'self'; base-uri 'self'; form-action 'self'; frame-ancestors 'self'; object-src 'none'; script-src 'self' https://challenges.cloudflare.com; ''"
    using a p cfg(3-5) by auto
  moreover obtain t where "base = ''default-src 'self'; base-uri 'self'; form-action 'self'; frame-ancestors 'self'; object-src 'none'; script-src 'self' https://challenges.cloudflare.com; '' @ t"
    using b(2) unfolding HasPrefix_iff by blast
  ultimately show ?thesis unfolding Let_def by simp
qed

end
