(* ===== verification/LogsController.thy ===== *)
theory LogsController
  imports Logs TransactionsList
begin

text \<open>
  The listing of the request logs for the admin portal, controllers/logs_controller.go, on top
  of the query of the log repository.  The rendering of timestamps is an argument, as in Logs.
\<close>

definition toSafeLogEntry :: "LogEntry \<Rightarrow> json" where
  "toSafeLogEntry e = JObj [(''id'', jint (le_ID e)), (''method'', JStr (le_Method e)), (''path'', JStr (le_Path e)),
     (''status'', jint (le_Status e)), (''duration_ms'', jint (le_Duration e)), (''request_id'', JStr (le_RequestID e)),
     (''api_surface'', JStr (le_APISurface e)), (''route'', JStr (le_Route e)), (''auth_result'', JStr (le_AuthResult e)),
     (''created_at'', JStr (le_CreatedAt e))]"

record logs_request =
  lq_Status :: int
  lq_Method :: string
  lq_Path :: string
  lq_Search :: string
  lq_Limit :: int
  lq_Offset :: int

definition logs_listWithFilters :: "(time \<Rightarrow> string) \<Rightarrow> logs_request \<Rightarrow> log_repo \<Rightarrow> response" where
  "logs_listWithFilters tx q lr =
     (let n = (if lq_Limit q = 0 then 50 else lq_Limit q); n = (if n \<le> 0 \<or> n > 200 then 50 else n);
          off = (if lq_Offset q < 0 then 0 else lq_Offset q)
      in Response 200 [(''Cache-Control'', ''no-store'')] []
           (JObj [(''data'', JArr (map toSafeLogEntry
              (logs_List tx n off (lq_Status q) (TrimSpace (lq_Method q)) (TrimSpace (lq_Path q)) (TrimSpace (lq_Search q)) lr)))]))"

definition logs_ListByQuery :: "(time \<Rightarrow> string) \<Rightarrow> (string \<Rightarrow> string) \<Rightarrow> log_repo \<Rightarrow> response" where
  "logs_ListByQuery tx query lr =
     (if \<not> blank (query ''search'') then send_error 400 ''use POST /api/admin/logs/search for search queries''
      else logs_listWithFilters tx \<lparr> lq_Status = QueryInt (query ''status'') 0, lq_Method = query ''method'', lq_Path = query ''path'',
        lq_Search = [], lq_Limit = QueryInt (query ''limit'') 50, lq_Offset = QueryInt (query ''offset'') 0 \<rparr> lr)"

definition logs_ListByBody :: "(time \<Rightarrow> string) \<Rightarrow> request \<Rightarrow> log_repo \<Rightarrow> response" where
  "logs_ListByBody tx r lr =
     (case (BodyFields [''method'', ''path'', ''search''] r, int_of ''status'' r, int_of ''limit'' r, int_of ''offset'' r) of
        (Some f, Some st, Some n, Some off) \<Rightarrow> logs_listWithFilters tx \<lparr> lq_Status = st, lq_Method = f ''method'', lq_Path = f ''path'',
          lq_Search = f ''search'', lq_Limit = n, lq_Offset = off \<rparr> lr
      | _ \<Rightarrow> send_error 400 ''invalid JSON'')"

section \<open>What the listing shows\<close>

text \<open>Two rows that differ in the bodies, the address and the actor only.\<close>

definition same_metadata :: "queuedLogRecord \<Rightarrow> queuedLogRecord \<Rightarrow> bool" where
  "same_metadata a b \<longleftrightarrow> q_CreatedAt a = q_CreatedAt b
     \<and> (q_Entry a)\<lparr>le_IP := [], le_ActorID := [], le_RequestBody := [], le_ResponseBody := [], le_CreatedAt := []\<rparr>
       = (q_Entry b)\<lparr>le_IP := [], le_ActorID := [], le_RequestBody := [], le_ResponseBody := [], le_CreatedAt := []\<rparr>"

definition safe_row :: "(time \<Rightarrow> string) \<Rightarrow> queuedLogRecord \<Rightarrow> json" where
  "safe_row tx rec = toSafeLogEntry ((q_Entry rec)\<lparr>le_RequestBody := take 500 (q_ReqBody rec), le_ResponseBody := take 500 (q_ResBody rec),
     le_CreatedAt := (case q_CreatedAt rec of None \<Rightarrow> [] | Some t \<Rightarrow> tx t)\<rparr>)"

lemma same_metadata_fields:
  assumes "same_metadata a b"
  shows "q_CreatedAt a = q_CreatedAt b" "le_Status (q_Entry a) = le_Status (q_Entry b)" "le_Method (q_Entry a) = le_Method (q_Entry b)"
    "le_Path (q_Entry a) = le_Path (q_Entry b)" "safe_row tx a = safe_row tx b"
  using assms by (cases "q_Entry a", cases "q_Entry b", simp add: same_metadata_def safe_row_def toSafeLogEntry_def)+

text \<open>The rows the query keeps, newest first.\<close>

definition found_logs :: "int \<Rightarrow> string \<Rightarrow> string \<Rightarrow> string \<Rightarrow> log_repo \<Rightarrow> queuedLogRecord list" where
  "found_logs st meth path search lr =
     order_desc (\<lambda>rec. case q_CreatedAt rec of None \<Rightarrow> 0 | Some t \<Rightarrow> t) (filter (\<lambda>rec. let e = q_Entry rec in
       (st > 0 \<longrightarrow> le_Status e = st) \<and> (meth \<noteq> [] \<longrightarrow> ToUpper (le_Method e) = ToUpper (TrimSpace meth))
       \<and> (path \<noteq> [] \<longrightarrow> ilike (le_Path e) (contains_pattern path))
       \<and> (search \<noteq> [] \<longrightarrow> (let p = contains_pattern search in
            ilike (le_Path e) p \<or> ilike (le_Route e) p \<or> ilike (le_IP e) p \<or> ilike (le_RequestID e) p
            \<or> ilike (le_ActorID e) p \<or> ilike (le_APISurface e) p \<or> ilike (le_AuthResult e) p
            \<or> ilike (q_ReqBody rec) p \<or> ilike (q_ResBody rec) p))) (api_logs lr))"

lemma logs_List_found:
  "0 < n \<Longrightarrow> 0 \<le> off \<Longrightarrow> map toSafeLogEntry (logs_List tx n off st meth path search lr)
     = map (safe_row tx) (take (nat n) (drop (nat off) (found_logs st meth path search lr)))"
  by (simp add: logs_List_def found_logs_def safe_row_def limit_to_def Let_def)

lemma found_logs_alike:
  assumes "list_all2 same_metadata (api_logs lr) (api_logs lr')"
  shows "list_all2 same_metadata (found_logs st meth path [] lr) (found_logs st meth path [] lr')"
  unfolding found_logs_def
  by (rule order_desc_alike, rule filter_alike [OF assms]) (auto simp: same_metadata_fields Let_def)

text \<open>
  The log listing is metadata.  If two log tables differ only in the bodies, addresses and
  actors of their rows, every listing without a search term answers the same for both, for the
  query string and for the body alike: none of them can be learnt from the listing.
\<close>
theorem log_listing_discreet:
  assumes "list_all2 same_metadata (api_logs lr) (api_logs lr')"
  shows "logs_ListByQuery tx query lr' = logs_ListByQuery tx query lr
    \<and> (blank (lq_Search q) \<longrightarrow> logs_listWithFilters tx q lr' = logs_listWithFilters tx q lr)"
proof -
  have found: "map (safe_row tx) (take n (drop off (found_logs st meth path [] lr')))
      = map (safe_row tx) (take n (drop off (found_logs st meth path [] lr)))" for n off st meth path
    by (rule map_alike [symmetric, where R = same_metadata], intro list_all2_takeI list_all2_dropI found_logs_alike [OF assms])
      (rule same_metadata_fields)
  have filters: "logs_listWithFilters tx q lr' = logs_listWithFilters tx q lr" if "blank (lq_Search q)" for q
  proof -
    define n where "n = (let n = (if lq_Limit q = 0 then 50 else lq_Limit q) in if n \<le> 0 \<or> n > 200 then 50 else n)"
    define off where "off = (if lq_Offset q < 0 then 0 else lq_Offset q)"
    have b: "0 < n" "0 \<le> off" by (auto simp: n_def off_def Let_def)
    have "TrimSpace (lq_Search q) = []" using that by (simp add: blank_def)
    then show ?thesis
      using found [of "nat n" "nat off" "lq_Status q" "TrimSpace (lq_Method q)" "TrimSpace (lq_Path q)"]
      unfolding logs_listWithFilters_def Let_def n_def [unfolded Let_def, symmetric] off_def [symmetric]
      by (simp add: logs_List_found [OF b])
  qed
  then show ?thesis by (simp add: logs_ListByQuery_def blank_def)
qed

definition logged_once :: "string \<Rightarrow> string \<Rightarrow> log_repo" where
  "logged_once ip doc = (repo start_pipeline)\<lparr>api_logs :=
     [demo_record\<lparr>q_Entry := (q_Entry demo_record)\<lparr>le_IP := ip\<rparr>, q_ReqBody := doc, q_CreatedAt := Some 5\<rparr>]\<rparr>"

theorem log_listing_discreet_witness:
  "logs_ListByQuery RFC3339 (\<lambda>_. []) (logged_once ''10.0.0.1'' ''otp=1'') = logs_ListByQuery RFC3339 (\<lambda>_. []) (logged_once ''10.0.0.2'' ''otp=2'')
   \<and> length (found_logs 0 [] [] [] (logged_once ''10.0.0.2'' ''otp=2'')) = 1"
proof
  have "list_all2 same_metadata (api_logs (logged_once ''10.0.0.2'' ''otp=2'')) (api_logs (logged_once ''10.0.0.1'' ''otp=1''))"
    by (simp add: logged_once_def same_metadata_def)
  from log_listing_discreet [OF this, of RFC3339 "\<lambda>_. []"]
  show "logs_ListByQuery RFC3339 (\<lambda>_. []) (logged_once ''10.0.0.1'' ''otp=1'') = logs_ListByQuery RFC3339 (\<lambda>_. []) (logged_once ''10.0.0.2'' ''otp=2'')"
    by blast
  show "length (found_logs 0 [] [] [] (logged_once ''10.0.0.2'' ''otp=2'')) = 1" by (simp add: found_logs_def logged_once_def)
qed

text \<open>The pages of a listing, one after the other, are the listing.\<close>

lemma pages_cover: "concat (map (\<lambda>i. take n (drop (i * n) xs)) [0..<k]) = take (k * n) xs"
proof (induction k)
  case (Suc k)
  have "concat (map (\<lambda>i. take n (drop (i * n) xs)) [0..<Suc k]) = take (k * n) xs @ take n (drop (k * n) xs)"
    using Suc by simp
  also have "\<dots> = take (k * n + n) xs" by (simp add: take_add)
  finally show ?case by (simp add: add.commute)
qed simp

lemma log_pages_cover:
  assumes "0 < n" "n \<le> 200" "length (api_logs lr) \<le> k * nat n"
  shows "concat (map (\<lambda>i. map toSafeLogEntry (logs_List tx n (int i * n) st meth path search lr)) [0..<k])
    = map (safe_row tx) (found_logs st meth path search lr)"
proof -
  have "length (found_logs st meth path search lr) \<le> k * nat n"
    unfolding found_logs_def length_order_desc by (rule le_trans [OF length_filter_le assms(3)])
  moreover have "map (\<lambda>i. map toSafeLogEntry (logs_List tx n (int i * n) st meth path search lr)) [0..<k]
      = map (\<lambda>i. map (safe_row tx) (take (nat n) (drop (i * nat n) (found_logs st meth path search lr)))) [0..<k]"
    using assms(1) by (simp add: logs_List_found nat_mult_distrib)
  moreover have "map (\<lambda>i. map (safe_row tx) (take (nat n) (drop (i * nat n) (found_logs st meth path search lr)))) [0..<k]
      = map (map (safe_row tx)) (map (\<lambda>i. take (nat n) (drop (i * nat n) (found_logs st meth path search lr))) [0..<k])"
    by simp
  ultimately show ?thesis by (simp only: map_concat [symmetric] pages_cover) simp
qed

end
