(* ===== verification/Secrets.thy ===== *)
theory Secrets
  imports Config Base64 Strings "HOL-Library.Sublist" "HOL-Library.Word"
begin

text \<open>
  Where the bank's private key comes from, config/secrets.go, with the functions of path/filepath
  it uses (for Unix paths).  The file system, its symbolic links and the working
  directory are arguments; an error is the text of the Go error.
\<close>

unbundle bit_operations_syntax

section \<open>path/filepath\<close>

fun split_slash :: "string \<Rightarrow> string list" where
  "split_slash [] = [[]]"
| "split_slash (c # s) = (if c = CHR ''/'' then [] # split_slash s else case split_slash s of [] \<Rightarrow> [[c]] | w # ws \<Rightarrow> (c # w) # ws)"

fun join_slash :: "string list \<Rightarrow> string" where
  "join_slash [] = []"
| "join_slash [c] = c"
| "join_slash (c # cs) = c @ CHR ''/'' # join_slash cs"

definition rooted :: "string \<Rightarrow> bool" where "rooted p \<longleftrightarrow> (case p of [] \<Rightarrow> False | c # _ \<Rightarrow> c = CHR ''/'')"

text \<open>The elements already written stand in reverse order.\<close>

fun clean_elems :: "bool \<Rightarrow> string list \<Rightarrow> string list \<Rightarrow> string list" where
  "clean_elems rt out [] = rev out"
| "clean_elems rt out (c # cs) =
     (if c = [] \<or> c = ''.'' then clean_elems rt out cs
      else if c = ''..'' then (case out of
          [] \<Rightarrow> clean_elems rt (if rt then [] else [''..'']) cs
        | o' # out' \<Rightarrow> if o' = ''..'' then clean_elems rt (''..'' # out) cs else clean_elems rt out' cs)
      else clean_elems rt (c # out) cs)"

definition Clean :: "string \<Rightarrow> string" where
  "Clean p = (let es = clean_elems (rooted p) [] (split_slash p) in
     if rooted p then CHR ''/'' # join_slash es else if es = [] then ''.'' else join_slash es)"

definition elems :: "string \<Rightarrow> string list" where
  "elems p = filter (\<lambda>c. c \<noteq> []) (split_slash p)"

fun strip_common :: "string list \<Rightarrow> string list \<Rightarrow> string list \<times> string list" where
  "strip_common (b # bs) (t # ts) = (if b = t then strip_common bs ts else (b # bs, t # ts))"
| "strip_common bs ts = (bs, ts)"

text \<open>filepath.Rel, None for its error.\<close>

definition Rel :: "string \<Rightarrow> string \<Rightarrow> string option" where
  "Rel base targ =
     (let b = Clean base; t = Clean targ in
      if t = b then Some ''.''
      else let b = (if b = ''.'' then [] else b) in
        if rooted b \<noteq> rooted t then None
        else case strip_common (elems b) (elems t) of (bs, ts) \<Rightarrow>
          if (case bs of [] \<Rightarrow> False | d # _ \<Rightarrow> d = ''..'' \<and> ts \<noteq> []) then None
          else Some (join_slash (map (\<lambda>_. ''..'') bs @ ts)))"

section \<open>The policy\<close>

datatype eval_result = Evaluated string | NoSuchFile | EvalFailed

datatype stat_result = Stat bool "32 word" | StatNotExist | StatFailed

record file_system =
  fs_wd :: "string option"
  fs_eval :: "string \<Rightarrow> eval_result"
  fs_read :: "string \<Rightarrow> string option"
  fs_stat :: "string \<Rightarrow> stat_result"

definition Abs_path :: "file_system \<Rightarrow> string \<Rightarrow> string option" where
  "Abs_path fs p = (if rooted p then Some (Clean p) else map_option (\<lambda>wd. Clean (wd @ CHR ''/'' # p)) (fs_wd fs))"

definition secretFilePathMode :: "environment \<Rightarrow> string" where
  "secretFilePathMode env = (if ToLower (TrimSpace (env ''SECRET_FILE_PATH_MODE'')) = ''enforce'' then ''enforce'' else ''warn'')"

definition pathWithinBaseDir :: "string \<Rightarrow> string \<Rightarrow> bool" where
  "pathWithinBaseDir baseDir candidate =
     (let b = Clean (TrimSpace baseDir); c = Clean (TrimSpace candidate) in
      if b = [] \<or> c = [] then False
      else case Rel b c of
        None \<Rightarrow> False
      | Some rel \<Rightarrow> if rel = ''.'' then True else \<not> HasPrefix rel ''../'' \<and> rel \<noteq> ''..'')"

text \<open>What EvalSymlinks leaves of a path, and its warning.\<close>

definition resolve_links :: "file_system \<Rightarrow> string \<Rightarrow> string \<Rightarrow> string \<times> string list" where
  "resolve_links fs warning p = (case fs_eval fs p of
     Evaluated q \<Rightarrow> (q, []) | NoSuchFile \<Rightarrow> (p, []) | EvalFailed \<Rightarrow> (p, [warning]))"

definition check_base :: "file_system \<Rightarrow> environment \<Rightarrow> string \<Rightarrow> string \<Rightarrow> string list \<Rightarrow> (string + string) \<times> string list" where
  "check_base fs env mode resolved warnings =
     (let baseDir = TrimSpace (env ''SECRET_FILE_BASE_DIR'') in
      if baseDir = [] then (Inr resolved, warnings)
      else case Abs_path fs (Clean baseDir) of
        None \<Rightarrow> (Inl ''invalid secret file base directory'', warnings)
      | Some b \<Rightarrow> (case resolve_links fs ''unable to fully resolve secret file base directory symlinks'' b of (base, w) \<Rightarrow>
          if pathWithinBaseDir base resolved then (Inr resolved, warnings @ w)
          else if mode = ''enforce'' then (Inl ''private key file path is not allowed by policy'', warnings @ w)
          else (Inr resolved, warnings @ w @ [''private key file is outside SECRET_FILE_BASE_DIR''])))"

definition validatePrivateKeyPathPolicy :: "file_system \<Rightarrow> environment \<Rightarrow> string \<Rightarrow> (string + string) \<times> string list" where
  "validatePrivateKeyPathPolicy fs env path =
     (let raw = TrimSpace path; mode = secretFilePathMode env in
      if raw = [] then (Inl ''private key file path is empty'', [])
      else if Contains raw [CHR 0x00] then (Inl ''private key file path is invalid'', [])
      else if Contains raw ''..'' \<and> mode = ''enforce'' then (Inl ''private key file path is not allowed by policy'', [])
      else let w1 = (if Contains raw ''..'' then [''private key file path contains '..'; this is discouraged and may be blocked in enforce mode''] else []) in
        case Abs_path fs (Clean raw) of
          None \<Rightarrow> (Inl ''failed to resolve private key file path'', w1)
        | Some p \<Rightarrow> (case resolve_links fs ''unable to fully resolve private key file symlinks'' p of (resolved, w2) \<Rightarrow>
            check_base fs env mode resolved (w1 @ w2)))"

section \<open>Loading the key\<close>

text \<open>strings.ReplaceAll(key, a backslash and an n, a newline).\<close>

fun unescape_newlines :: "string \<Rightarrow> string" where
  "unescape_newlines (c # d # s) = (if c = CHR 0x5C \<and> d = CHR ''n'' then CHR 0x0A # unescape_newlines s else c # unescape_newlines (d # s))"
| "unescape_newlines s = s"

definition key_from_file :: "file_system \<Rightarrow> environment \<Rightarrow> string \<Rightarrow> string + string" where
  "key_from_file fs env path = (case fst (validatePrivateKeyPathPolicy fs env path) of
     Inl e \<Rightarrow> Inl e
   | Inr p \<Rightarrow> (case fs_read fs p of
       None \<Rightarrow> Inl ''failed to read private key from configured file''
     | Some text \<Rightarrow> let k = TrimSpace text in
         if k = [] then Inl ''configured private key file is empty''
         else if \<not> Contains k ''BEGIN'' \<or> \<not> Contains k ''PRIVATE KEY'' then Inl ''configured private key file does not appear to contain a valid PEM key''
         else Inr k))"

definition LoadPrivateKey :: "file_system \<Rightarrow> environment \<Rightarrow> string + string" where
  "LoadPrivateKey fs env =
     (if env ''DKPG_PRIVATE_KEY_FILE'' \<noteq> [] then key_from_file fs env (env ''DKPG_PRIVATE_KEY_FILE'')
      else if env ''DKPG_PRIVATE_KEY_B64'' \<noteq> [] then (case StdDecode (env ''DKPG_PRIVATE_KEY_B64'') of
          None \<Rightarrow> Inl ''failed to decode DKPG_PRIVATE_KEY_B64''
        | Some k \<Rightarrow> if blank k then Inl ''decoded DKPG_PRIVATE_KEY_B64 is empty'' else Inr (TrimSpace k))
      else if env ''DKPG_PRIVATE_KEY'' \<noteq> [] then
        (let k = TrimSpace (unescape_newlines (env ''DKPG_PRIVATE_KEY'')) in
         if k = [] then Inl ''DKPG_PRIVATE_KEY is empty'' else Inr k)
      else Inr [])"

text \<open>Load reports an error of the key and goes on without a key.\<close>

definition Load_with_key :: "(string \<Rightarrow> string) \<Rightarrow> file_system \<Rightarrow> environment \<Rightarrow> config" where
  "Load_with_key sha_hex fs env = Load sha_hex (case LoadPrivateKey fs env of Inl _ \<Rightarrow> [] | Inr k \<Rightarrow> k) env"

text \<open>The warning names the file; its mode is written by FileMode.String, an argument.\<close>

definition ValidatePrivateKeyFile :: "(32 word \<Rightarrow> string) \<Rightarrow> file_system \<Rightarrow> environment \<Rightarrow> string \<Rightarrow> string option \<times> string list" where
  "ValidatePrivateKeyFile perm_text fs env path =
     (if path = [] then (None, [])
      else case validatePrivateKeyPathPolicy fs env path of
        (Inl e, ws) \<Rightarrow> (Some e, ws)
      | (Inr p, ws) \<Rightarrow> (case fs_stat fs p of
          StatNotExist \<Rightarrow> (Some ''private key file does not exist'', ws)
        | StatFailed \<Rightarrow> (Some ''cannot access private key file'', ws)
        | Stat isdir m \<Rightarrow>
            if isdir then (Some ''private key path is a directory, not a file'', ws)
            else let perm = m AND 0x1FF in
              (None, ws @ (if perm AND 0x3F \<noteq> 0 then [''WARNING: Private key file '' @ p @ '' has permissive permissions ('' @ perm_text perm
                @ ''). Recommend: chmod 600 '' @ p] else []))))"

section \<open>Elements of a path\<close>

lemma split_slash_nonempty [simp]: "split_slash s \<noteq> []"
  by (cases s) (simp_all split: list.splits)

lemma split_slash_free: "c \<in> set (split_slash s) \<Longrightarrow> CHR ''/'' \<notin> set c"
proof (induction s arbitrary: c)
  case (Cons d s)
  then show ?case by (auto split: if_splits list.splits)
qed simp

definition proper :: "string \<Rightarrow> bool" where
  "proper c \<longleftrightarrow> c \<noteq> [] \<and> c \<noteq> ''.'' \<and> c \<noteq> ''..'' \<and> CHR ''/'' \<notin> set c"

lemma clean_elems_proper:
  "\<forall>c \<in> set out. proper c \<Longrightarrow> \<forall>c \<in> set cs. CHR ''/'' \<notin> set c \<Longrightarrow> \<forall>c \<in> set (clean_elems True out cs). proper c"
proof (induction cs arbitrary: out)
  case (Cons c cs)
  note prems = Cons.prems and IH = Cons.IH
  consider (skip) "c = [] \<or> c = ''.''" | (up) "c = ''..''" | (keep) "proper c" using Cons.prems by (auto simp: proper_def)
  then show ?case
  proof cases
    case skip
    then show ?thesis using Cons by simp
  next
    case up
    show ?thesis
    proof (cases out)
      case Nil
      then show ?thesis using up IH [of "[]"] prems by simp
    next
      case (Cons o' out')
      note out = this
      then have "o' \<noteq> ''..''" using prems by (simp add: proper_def)
      then show ?thesis using up out prems IH [of out'] by simp
    qed
  next
    case keep
    then have "clean_elems True out (c # cs) = clean_elems True (c # out) cs" by (simp add: proper_def)
    then show ?thesis using Cons.IH [of "c # out"] Cons.prems keep by simp
  qed
qed simp

lemma split_slash_append: "CHR ''/'' \<notin> set c \<Longrightarrow> split_slash (c @ CHR ''/'' # s) = c # split_slash s"
  by (induction c) (auto split: list.splits)

lemma split_slash_single: "CHR ''/'' \<notin> set c \<Longrightarrow> split_slash c = [c]"
  by (induction c) (auto split: list.splits)

lemma split_join: "cs \<noteq> [] \<Longrightarrow> \<forall>c \<in> set cs. CHR ''/'' \<notin> set c \<Longrightarrow> split_slash (join_slash cs) = cs"
  by (induction cs rule: join_slash.induct) (auto simp: split_slash_append split_slash_single)

lemma elems_join:
  assumes "\<forall>c \<in> set cs. proper c"
  shows "elems (CHR ''/'' # join_slash cs) = cs"
proof (cases "cs = []")
  case False
  then have "split_slash (join_slash cs) = cs" using assms by (intro split_join) (auto simp: proper_def)
  moreover have "filter (\<lambda>c. c \<noteq> []) cs = cs" using assms by (auto simp: proper_def intro: filter_True)
  ultimately show ?thesis by (simp add: elems_def)
qed (simp add: elems_def)

lemma Clean_rooted:
  assumes "rooted p"
  shows "rooted (Clean p)" "Clean p = CHR ''/'' # join_slash (elems (Clean p))" "\<forall>c \<in> set (elems (Clean p)). proper c"
proof -
  have pr: "\<forall>c \<in> set (clean_elems True [] (split_slash p)). proper c"
    by (rule clean_elems_proper) (use split_slash_free in auto)
  have c: "Clean p = CHR ''/'' # join_slash (clean_elems True [] (split_slash p))" using assms by (simp add: Clean_def Let_def)
  show "rooted (Clean p)" by (simp add: c rooted_def)
  have e: "elems (Clean p) = clean_elems True [] (split_slash p)" unfolding c by (rule elems_join [OF pr])
  show "Clean p = CHR ''/'' # join_slash (elems (Clean p))" unfolding e by (rule c)
  show "\<forall>c \<in> set (elems (Clean p)). proper c" unfolding e by (rule pr)
qed

section \<open>The check of the base directory\<close>

lemma strip_common_prefix: "strip_common bs ts = (xs, ys) \<Longrightarrow> xs = [] \<longleftrightarrow> prefix bs ts"
  by (induction bs ts rule: strip_common.induct) (auto split: if_splits)

lemma strip_common_parts: "strip_common bs ts = (xs, ys) \<Longrightarrow> \<exists>zs. bs = zs @ xs \<and> ts = zs @ ys"
proof (induction bs ts rule: strip_common.induct)
  case (1 b bs t ts)
  show ?case
  proof (cases "b = t")
    case True
    then obtain zs where "bs = zs @ xs" "ts = zs @ ys" using 1 by auto
    then show ?thesis using True by (intro exI [of _ "b # zs"]) simp
  qed (use 1 in auto)
qed auto

lemma first_elem: "CHR ''/'' \<notin> set c \<Longrightarrow> takeWhile (\<lambda>x. x \<noteq> CHR ''/'') (join_slash (c # cs)) = c"
  by (cases cs) (auto simp: takeWhile_append takeWhile_eq_all_conv)

lemma goes_up_iff:
  assumes "CHR ''/'' \<notin> set c"
  shows "HasPrefix (join_slash (c # cs)) ''../'' \<or> join_slash (c # cs) = ''..'' \<longleftrightarrow> c = ''..''"
proof
  assume up: "HasPrefix (join_slash (c # cs)) ''../'' \<or> join_slash (c # cs) = ''..''"
  then have "takeWhile (\<lambda>x. x \<noteq> CHR ''/'') (join_slash (c # cs)) = ''..''"
    by (auto simp: HasPrefix_iff)
  then show "c = ''..''" using first_elem [OF assms] by simp
next
  assume "c = ''..''"
  then show "HasPrefix (join_slash (c # cs)) ''../'' \<or> join_slash (c # cs) = ''..''"
    by (cases cs) (simp_all add: HasPrefix_iff)
qed

lemma clean_elems_fixed: "\<forall>c \<in> set cs. proper c \<Longrightarrow> clean_elems rt out cs = rev out @ cs"
  by (induction cs arbitrary: out) (auto simp: proper_def)

lemma Clean_fixed:
  assumes "\<forall>c \<in> set es. proper c"
  shows "Clean (CHR ''/'' # join_slash es) = CHR ''/'' # join_slash es"
proof -
  have "clean_elems True [] (split_slash (join_slash es)) = es"
  proof (cases "es = []")
    case False
    then have "split_slash (join_slash es) = es" using assms by (intro split_join) (auto simp: proper_def)
    then show ?thesis using clean_elems_fixed [OF assms] by simp
  qed simp
  then show ?thesis by (simp add: Clean_def rooted_def)
qed

lemma Rel_rooted:
  assumes "rooted p" "rooted q" "Clean q \<noteq> Clean p" "strip_common (elems (Clean p)) (elems (Clean q)) = (bs, ts)"
  shows "Rel (Clean p) (Clean q) = Some (join_slash (map (\<lambda>_. ''..'') bs @ ts))"
proof -
  note cp = Clean_rooted [OF assms(1)] and cq = Clean_rooted [OF assms(2)]
  have idem: "Clean (Clean p) = Clean p" "Clean (Clean q) = Clean q"
    by (metis Clean_fixed cp(2,3)) (metis Clean_fixed cq(2,3))
  have dot: "Clean p \<noteq> ''.''" using cp(1) by (auto simp: rooted_def)
  obtain zs where "elems (Clean p) = zs @ bs" using strip_common_parts [OF assms(4)] by blast
  then have "bs \<noteq> [] \<Longrightarrow> proper (hd bs)" using cp(3) by simp
  then have "\<not> (case bs of [] \<Rightarrow> False | d # _ \<Rightarrow> d = ''..'' \<and> ts \<noteq> [])" by (auto simp: proper_def split: list.splits)
  then show ?thesis using assms(3,4) dot cp(1) cq(1) by (simp add: Rel_def idem Let_def)
qed

lemma pathWithinBaseDir_iff:
  assumes "rooted (TrimSpace b)" "rooted (TrimSpace c)"
  shows "pathWithinBaseDir b c \<longleftrightarrow> prefix (elems (Clean (TrimSpace b))) (elems (Clean (TrimSpace c)))"
proof -
  define B where "B = Clean (TrimSpace b)"
  define C where "C = Clean (TrimSpace c)"
  note cb = Clean_rooted [OF assms(1), folded B_def] and cc = Clean_rooted [OF assms(2), folded C_def]
  have ne: "B \<noteq> []" "C \<noteq> []" using cb(1) cc(1) by (auto simp: rooted_def)
  have within: "pathWithinBaseDir b c = (case Rel B C of None \<Rightarrow> False
      | Some rel \<Rightarrow> if rel = ''.'' then True else \<not> HasPrefix rel ''../'' \<and> rel \<noteq> ''..'')"
    using ne by (simp add: pathWithinBaseDir_def Let_def B_def C_def)
  show ?thesis
  proof (cases "C = B")
    case True
    have "Clean B = B" by (metis Clean_fixed cb(2,3))
    then have "Rel B C = Some ''.''" using True by (simp add: Rel_def)
    then show ?thesis using True by (simp add: within B_def C_def)
  next
    case False
    obtain bs ts where st: "strip_common (elems B) (elems C) = (bs, ts)" by (cases "strip_common (elems B) (elems C)")
    have rel: "Rel B C = Some (join_slash (map (\<lambda>_. ''..'') bs @ ts))"
      using Rel_rooted [OF assms False [unfolded B_def C_def] st [unfolded B_def C_def]] by (simp add: B_def C_def)
    obtain zs where zs: "elems B = zs @ bs" "elems C = zs @ ts" using strip_common_parts [OF st] by blast
    show ?thesis
    proof (cases bs)
      case Nil
      then have "ts \<noteq> []" using False zs cb(2) cc(2) by auto
      then obtain t ts' where ts: "ts = t # ts'" by (cases ts) auto
      have t: "proper t" using cc(3) zs(2) ts by simp
      then have "join_slash (t # ts') \<noteq> ''.''" using first_elem [of t ts'] by (auto simp: proper_def)
      then have "pathWithinBaseDir b c" using rel Nil ts goes_up_iff [of t ts'] t by (auto simp: within proper_def)
      then show ?thesis using strip_common_prefix [OF st] Nil by (simp add: B_def C_def)
    next
      case (Cons d ds)
      let ?rel = "join_slash (''..'' # (map (\<lambda>_. ''..'') ds @ ts))"
      have "takeWhile (\<lambda>x. x \<noteq> CHR ''/'') ?rel = ''..''" by (rule first_elem) simp
      then have "?rel \<noteq> ''.''" by auto
      moreover have "HasPrefix ?rel ''../'' \<or> ?rel = ''..''" using goes_up_iff [of "''..''"] by simp
      ultimately have "\<not> pathWithinBaseDir b c" using rel Cons by (auto simp: within)
      then show ?thesis using strip_common_prefix [OF st] Cons by (simp add: B_def C_def)
    qed
  qed
qed

section \<open>Enforced paths\<close>

definition real_path :: "file_system \<Rightarrow> string \<Rightarrow> string" where
  "real_path fs p = (case fs_eval fs p of Evaluated q \<Rightarrow> q | _ \<Rightarrow> p)"

lemma resolve_links_path: "fst (resolve_links fs w p) = real_path fs p"
  by (simp add: resolve_links_def real_path_def split: eval_result.splits)

text \<open>What EvalSymlinks and the working directory promise: absolute paths.\<close>

definition fs_law :: "file_system \<Rightarrow> bool" where
  "fs_law fs \<longleftrightarrow> (\<forall>p q. rooted p \<and> fs_eval fs p = Evaluated q \<longrightarrow> rooted q) \<and> (\<forall>wd. fs_wd fs = Some wd \<longrightarrow> rooted wd)"

lemma rooted_append: "rooted p \<Longrightarrow> rooted (p @ q)"
  by (cases p) (simp_all add: rooted_def)

lemma rooted_trim: "rooted p \<Longrightarrow> rooted (TrimSpace p)"
proof -
  assume "rooted p"
  then obtain s where p: "p = CHR ''/'' # s" by (cases p) (auto simp: rooted_def)
  have d: "dropWhile is_space p = p" by (simp add: p is_space_def)
  have "TrimSpace p = rev (dropWhile is_space (rev s @ [CHR ''/'']))" by (simp add: TrimSpace_def d) (simp add: p)
  also have "\<dots> = CHR ''/'' # rev (dropWhile is_space (rev s))"
  proof -
    have "\<not> is_space (CHR ''/'')" by (simp add: is_space_def)
    then show ?thesis by (simp add: dropWhile_append)
  qed
  finally show ?thesis by (simp add: rooted_def)
qed

lemma rooted_real_path: "fs_law fs \<Longrightarrow> Abs_path fs x = Some p \<Longrightarrow> rooted p \<and> rooted (real_path fs p)"
proof -
  assume law: "fs_law fs" and a: "Abs_path fs x = Some p"
  have "rooted p"
  proof (cases "rooted x")
    case True
    then show ?thesis using a Clean_rooted(1) by (auto simp: Abs_path_def)
  next
    case False
    then obtain wd where "fs_wd fs = Some wd" "p = Clean (wd @ CHR ''/'' # x)" using a by (auto simp: Abs_path_def)
    then show ?thesis using law Clean_rooted(1) rooted_append by (auto simp: fs_law_def)
  qed
  moreover have "rooted (real_path fs p)" using law calculation by (auto simp: real_path_def fs_law_def split: eval_result.splits)
  ultimately show ?thesis by simp
qed

lemma enforced_policy:
  assumes "secretFilePathMode env = ''enforce''" "\<not> blank (env ''SECRET_FILE_BASE_DIR'')"
    and "fst (validatePrivateKeyPathPolicy fs env f) = Inr p"
  shows "\<not> Contains (TrimSpace f) ''..'' \<and> (\<exists>a b. Abs_path fs (Clean (TrimSpace f)) = Some a
    \<and> Abs_path fs (Clean (TrimSpace (env ''SECRET_FILE_BASE_DIR''))) = Some b
    \<and> p = real_path fs a \<and> pathWithinBaseDir (real_path fs b) (real_path fs a))"
proof -
  have dots: "\<not> Contains (TrimSpace f) ''..''"
    using assms(1,3) by (auto simp: validatePrivateKeyPathPolicy_def Let_def split: if_splits)
  obtain a w where a: "Abs_path fs (Clean (TrimSpace f)) = Some a" "fst (check_base fs env ''enforce'' (real_path fs a) w) = Inr p"
    using assms(1,3) dots
    by (auto simp: validatePrivateKeyPathPolicy_def Let_def case_prod_beta resolve_links_path split: if_splits option.splits)
  obtain b where "Abs_path fs (Clean (TrimSpace (env ''SECRET_FILE_BASE_DIR''))) = Some b"
    "pathWithinBaseDir (real_path fs b) (real_path fs a)" "p = real_path fs a"
    using a(2) assms(2) by (auto simp: check_base_def Let_def blank_def case_prod_beta resolve_links_path split: if_splits option.splits)
  then show ?thesis using a(1) dots by blast
qed

lemma Load_key: "DKPGPrivateKey (Load sha k env) = k"
  by (simp add: Load_def)

text \<open>
  C30: an enforced policy confines the bank key.  With SECRET_FILE_PATH_MODE=enforce and a base
  directory, a key that Load takes from the configured file is the trimmed contents of
  a file whose path, with its symbolic links resolved, lies element by element below the
  resolved base directory (spaces at the ends of the two paths apart), and the configured
  path has no two dots in a row; a path outside gives no key.
\<close>
theorem enforced_key_inside_base:
  assumes "secretFilePathMode env = ''enforce''" "\<not> blank (env ''SECRET_FILE_BASE_DIR'')" "env ''DKPG_PRIVATE_KEY_FILE'' \<noteq> []"
    and "fs_law fs" "DKPGPrivateKey (Load_with_key sha fs env) \<noteq> []"
  shows "\<exists>a b text. Abs_path fs (Clean (TrimSpace (env ''DKPG_PRIVATE_KEY_FILE''))) = Some a
    \<and> Abs_path fs (Clean (TrimSpace (env ''SECRET_FILE_BASE_DIR''))) = Some b
    \<and> fs_read fs (real_path fs a) = Some text \<and> DKPGPrivateKey (Load_with_key sha fs env) = TrimSpace text
    \<and> prefix (elems (Clean (TrimSpace (real_path fs b)))) (elems (Clean (TrimSpace (real_path fs a))))
    \<and> \<not> Contains (TrimSpace (env ''DKPG_PRIVATE_KEY_FILE'')) ''..''"
proof -
  let ?f = "env ''DKPG_PRIVATE_KEY_FILE''" and ?k = "DKPGPrivateKey (Load_with_key sha fs env)"
  have "key_from_file fs env ?f = Inr ?k"
    using assms(3,5) by (cases "key_from_file fs env ?f") (simp_all add: Load_with_key_def Load_key LoadPrivateKey_def)
  then obtain p doc where p: "fst (validatePrivateKeyPathPolicy fs env ?f) = Inr p" "fs_read fs p = Some doc" "?k = TrimSpace doc"
    by (auto simp: key_from_file_def Let_def split: sum.splits option.splits if_splits)
  obtain a b where ab: "\<not> Contains (TrimSpace ?f) ''..''" "Abs_path fs (Clean (TrimSpace ?f)) = Some a"
    "Abs_path fs (Clean (TrimSpace (env ''SECRET_FILE_BASE_DIR''))) = Some b"
    "p = real_path fs a" "pathWithinBaseDir (real_path fs b) (real_path fs a)"
    using enforced_policy [OF assms(1,2) p(1)] by blast
  have "rooted (TrimSpace (real_path fs a))" "rooted (TrimSpace (real_path fs b))"
    using rooted_real_path [OF assms(4)] ab(2,3) rooted_trim by blast+
  then have "prefix (elems (Clean (TrimSpace (real_path fs b)))) (elems (Clean (TrimSpace (real_path fs a))))"
    using ab(5) pathWithinBaseDir_iff by blast
  then show ?thesis using ab(1,2,3) p(2,3) unfolding ab(4) by blast
qed

text \<open>A deployment with its key below /run/secrets, reached through a symbolic link.\<close>

definition secret_fs :: file_system where
  "secret_fs = \<lparr> fs_wd = Some ''/srv/gateway'', fs_eval = (\<lambda>p. if p = ''/srv/gateway/key.pem'' then Evaluated ''/run/secrets/dk/key.pem'' else Evaluated p),
     fs_read = (\<lambda>p. if p = ''/run/secrets/dk/key.pem'' then Some '' BEGIN RSA PRIVATE KEY x '' else None), fs_stat = (\<lambda>_. StatFailed) \<rparr>"

definition secret_env :: "string \<Rightarrow> environment" where
  "secret_env mode n = (if n = ''DKPG_PRIVATE_KEY_FILE'' then ''./key.pem'' else if n = ''SECRET_FILE_BASE_DIR'' then ''/run/secrets/''
     else if n = ''SECRET_FILE_PATH_MODE'' then mode else [])"

theorem enforced_key_inside_base_witness:
  "DKPGPrivateKey (Load_with_key id secret_fs (secret_env '' Enforce'')) = ''BEGIN RSA PRIVATE KEY x''
   \<and> (\<exists>a b doc. Abs_path secret_fs ''key.pem'' = Some a \<and> fs_read secret_fs (real_path secret_fs a) = Some doc
       \<and> prefix (elems (Clean (TrimSpace (real_path secret_fs b)))) (elems (Clean (TrimSpace (real_path secret_fs a)))))"
proof -
  have law: "fs_law secret_fs" by (auto simp: fs_law_def secret_fs_def rooted_def split: if_splits)
  have k: "DKPGPrivateKey (Load_with_key id secret_fs (secret_env '' Enforce'')) = ''BEGIN RSA PRIVATE KEY x''"
  proof -
    have "LoadPrivateKey secret_fs (secret_env '' Enforce'') = Inr ''BEGIN RSA PRIVATE KEY x''" by code_simp
    then show ?thesis by (simp only: Load_with_key_def Load_key sum.case)
  qed
  have "secretFilePathMode (secret_env '' Enforce'') = ''enforce''" "\<not> blank (secret_env '' Enforce'' ''SECRET_FILE_BASE_DIR'')"
    "secret_env '' Enforce'' ''DKPG_PRIVATE_KEY_FILE'' \<noteq> []" "Clean (TrimSpace (secret_env '' Enforce'' ''DKPG_PRIVATE_KEY_FILE'')) = ''key.pem''"
    by code_simp+
  then show ?thesis using enforced_key_inside_base [OF _ _ _ law, of "secret_env '' Enforce''" id] k by fastforce
qed

end
