(* ===== verification/CalendarOrder.thy ===== *)
theory CalendarOrder
  imports Logs
begin

text \<open>
  The civil calendar of Calendar keeps the order of time: the months of two instants, counted
  by month_index, are in the order of the instants.  A month is one of twelve.
\<close>

definition yoe_of :: "int \<Rightarrow> int" where
  "yoe_of doe = (doe - doe div 1460 + doe div 36524 - doe div 146096) div 365"

definition year_start :: "int \<Rightarrow> int" where "year_start y = 365 * y + y div 4 - y div 100"

lemma minus_div_mono: "(a::int) \<le> b \<Longrightarrow> 1 \<le> k \<Longrightarrow> a - a div k \<le> b - b div k"
proof -
  assume a: "a \<le> b" and k: "1 \<le> k"
  then have "(b - a) * 1 \<le> (b - a) * k" by (intro mult_left_mono) auto
  then have "b - a \<le> (b - a) * k" by simp
  then have "b \<le> a + (b - a) * k" by (metis diff_le_eq add.commute)
  then have "b div k \<le> (a + (b - a) * k) div k" using k by (intro zdiv_mono1) auto
  then show ?thesis using k by simp
qed

lemma yoe_mono: "a \<le> b \<Longrightarrow> yoe_of a \<le> yoe_of b"
proof -
  assume ab: "a \<le> b"
  have e: "x div 146096 = x div 36524 div 4" for x :: int using zdiv_zmult2_eq [of 4 x 36524] by simp
  have "a - a div 1460 \<le> b - b div 1460" using ab by (rule minus_div_mono) simp
  moreover have "a div 36524 - a div 146096 \<le> b div 36524 - b div 146096"
    unfolding e by (rule minus_div_mono) (use ab zdiv_mono1 in auto)
  ultimately show ?thesis unfolding yoe_of_def by (intro zdiv_mono1) linarith+
qed

lemma yoe_years: "list_all (\<lambda>y. yoe_of (year_start y) = y \<and> yoe_of (year_start (y + 1) - 1) = y) [0..399]"
  by code_simp

lemma yoe_of_start: "0 \<le> y \<Longrightarrow> y < 400 \<Longrightarrow> yoe_of (year_start y) = y" "0 \<le> y \<Longrightarrow> y < 400 \<Longrightarrow> yoe_of (year_start (y + 1) - 1) = y"
  using yoe_years by (auto simp: list_all_iff)

text \<open>Arithmetic on the parts of a date.\<close>

lemma year_length:
  "d < 365 * (y + 1) + q' - c' \<Longrightarrow> q' \<le> q + 1 \<Longrightarrow> c \<le> c' \<Longrightarrow> d - (365 * y + q - c) < (366 :: int)"
  by presburger

lemma later_era:
  "e + 1 \<le> e' \<Longrightarrow> y < 400 \<Longrightarrow> m \<le> 11 \<Longrightarrow> 0 \<le> y' \<Longrightarrow> 0 \<le> m' \<Longrightarrow> 12 * (y + e * 400) + m + 3 \<le> 12 * (y' + e' * 400) + m' + (3 :: int)"
  by (simp add: algebra_simps)

lemma later_year:
  "e = e' \<Longrightarrow> y + 1 \<le> y' \<Longrightarrow> m \<le> 11 \<Longrightarrow> 0 \<le> m' \<Longrightarrow> 12 * (y + e * 400) + m + 3 \<le> 12 * (y' + e' * 400) + m' + (3 :: int)"
  by presburger

lemma year_in_era:
  assumes "0 \<le> doe" "doe < 146097"
  shows "0 \<le> yoe_of doe" "yoe_of doe < 400" "0 \<le> doe - year_start (yoe_of doe)" "doe - year_start (yoe_of doe) < 366"
proof -
  have z: "yoe_of 0 = 0" "yoe_of 146096 = 399" by code_simp+
  show y: "0 \<le> yoe_of doe" "yoe_of doe < 400" using yoe_mono [of 0 doe] yoe_mono [of doe 146096] z assms by auto
  show "0 \<le> doe - year_start (yoe_of doe)"
  proof (rule ccontr)
    assume "\<not> 0 \<le> doe - year_start (yoe_of doe)"
    then have le: "doe \<le> year_start (yoe_of doe) - 1" by simp
    show False
    proof (cases "yoe_of doe = 0")
      case True
      then show False using le assms(1) by (simp add: year_start_def)
    next
      case False
      then have "yoe_of (year_start (yoe_of doe) - 1) = yoe_of doe - 1" using yoe_of_start(2) [of "yoe_of doe - 1"] y by simp
      then show False using yoe_mono [OF le] by simp
    qed
  qed
  show "doe - year_start (yoe_of doe) < 366"
  proof (cases "yoe_of doe = 399")
    case True
    then show ?thesis using assms by (simp add: year_start_def)
  next
    case False
    have "doe < year_start (yoe_of doe + 1)"
    proof (rule ccontr)
      assume "\<not> doe < year_start (yoe_of doe + 1)"
      then have "yoe_of (year_start (yoe_of doe + 1)) \<le> yoe_of doe" by (intro yoe_mono) simp
      then show False using yoe_of_start(1) [of "yoe_of doe + 1"] y False by simp
    qed
    moreover have "(yoe_of doe + 1) div 4 \<le> yoe_of doe div 4 + 1" by presburger
    moreover have "yoe_of doe div 100 \<le> (yoe_of doe + 1) div 100" by (intro zdiv_mono1) auto
    ultimately show ?thesis unfolding year_start_def by (rule year_length)
  qed
qed

definition month_number :: "int \<Rightarrow> int" where
  "month_number d = (let z = d + 719468; era = z div 146097; doe = z mod 146097; y = yoe_of doe
     in 12 * (y + era * 400) + (5 * (doe - year_start y) + 2) div 153 + 3)"

lemma months_from_march:
  assumes "0 \<le> x" "x < 366"
  shows "0 \<le> (5 * x + 2) div 153" "(5 * x + 2) div 153 \<le> (11 :: int)"
proof -
  show "0 \<le> (5 * x + 2) div 153" using assms by (intro pos_imp_zdiv_nonneg_iff [THEN iffD2]) auto
  have "(5 * x + 2) div 153 \<le> (5 * 365 + 2) div 153" using assms by (intro zdiv_mono1) auto
  then show "(5 * x + 2) div 153 \<le> 11" by simp
qed

lemma civil_month_index: "month_index (year (civil_of_days d), month (civil_of_days d)) = month_number d"
  and civil_month_range: "1 \<le> month (civil_of_days d) \<and> month (civil_of_days d) \<le> 12"
proof -
  let ?doe = "(d + 719468) mod 146097"
  define y where "y = yoe_of ?doe"
  define mp where "mp = (5 * (?doe - year_start y) + 2) div 153"
  have doe: "0 \<le> ?doe" "?doe < 146097" by simp_all
  have mp: "0 \<le> mp" "mp \<le> 11" unfolding mp_def y_def by (rule months_from_march; rule year_in_era; rule doe)+
  have c: "civil_of_days d = (let m = (if mp < 10 then mp + 3 else mp - 9) in
      \<lparr> year = y + (d + 719468) div 146097 * 400 + (if m \<le> 2 then 1 else 0), month = m,
        day = ?doe - year_start y - (153 * mp + 2) div 5 + 1 \<rparr>)"
    unfolding civil_of_days_def Let_def mp_def y_def yoe_of_def year_start_def by (rule refl)
  have n: "month_number d = 12 * (y + (d + 719468) div 146097 * 400) + mp + 3"
    unfolding month_number_def Let_def mp_def y_def by (rule refl)
  show "month_index (year (civil_of_days d), month (civil_of_days d)) = month_number d"
    using mp unfolding c n by (simp add: month_index_def Let_def)
  show "1 \<le> month (civil_of_days d) \<and> month (civil_of_days d) \<le> 12" using mp unfolding c by (simp add: Let_def)
qed

lemma month_number_mono: "a \<le> b \<Longrightarrow> month_number a \<le> month_number b"
proof -
  assume ab: "a \<le> b"
  let ?era = "\<lambda>d. (d + 719468) div 146097" and ?doe = "\<lambda>d. (d + 719468) mod 146097 :: int"
  let ?y = "\<lambda>d. yoe_of (?doe d)"
  let ?mp = "\<lambda>d. (5 * (?doe d - year_start (?y d)) + 2) div 153"
  have n: "month_number d = 12 * (?y d + ?era d * 400) + ?mp d + 3" for d unfolding month_number_def Let_def by (rule refl)
  have doe: "0 \<le> ?doe d" "?doe d < 146097" for d by simp_all
  have y: "0 \<le> ?y d" "?y d < 400" for d using year_in_era(1,2) [OF doe] by auto
  have mp: "0 \<le> ?mp d" "?mp d \<le> 11" for d
    by (rule months_from_march; rule year_in_era; rule doe)+
  have "?era a \<le> ?era b" using ab by (intro zdiv_mono1) auto
  then consider (era) "?era a + 1 \<le> ?era b" | (same) "?era a = ?era b" by linarith
  then show ?thesis
  proof cases
    case era
    then show ?thesis unfolding n by (rule later_era) (rule y mp)+
  next
    case same
    have d: "?doe a \<le> ?doe b"
    proof -
      have "?doe x = x + 719468 - ?era x * 146097" for x using minus_div_mult_eq_mod [of "x + 719468" 146097] by simp
      then show ?thesis using same ab by simp
    qed
    then have "?y a \<le> ?y b" by (rule yoe_mono)
    then consider (year) "?y a + 1 \<le> ?y b" | (equal) "?y a = ?y b" by linarith
    then show ?thesis
    proof cases
      case year
      from same this show ?thesis unfolding n by (rule later_year) (rule mp)+
    next
      case equal
      have "?mp a \<le> ?mp b" unfolding equal using d by (intro zdiv_mono1) auto
      then show ?thesis unfolding n same equal by simp
    qed
  qed
qed

lemma month_index_mono: "t \<le> u \<Longrightarrow> month_index (monthStartUTC now (Some t)) \<le> month_index (monthStartUTC now (Some u))"
proof -
  assume "t \<le> u"
  then have "days_of t \<le> days_of u" by (simp add: days_of_def zdiv_mono1 hour_def minute_def second_def)
  then show ?thesis using month_number_mono by (simp add: monthStartUTC_def Let_def civil_of_def civil_month_index)
qed

definition real_month :: "month_start \<Rightarrow> bool" where "real_month m \<longleftrightarrow> 1 \<le> snd m \<and> snd m \<le> 12"

lemma real_month_of [simp]: "real_month (monthStartUTC now t)"
  using civil_month_range by (simp add: real_month_def monthStartUTC_def Let_def civil_of_def)

lemma real_month_next: "real_month m \<Longrightarrow> real_month (next_month m)"
  by (auto simp: real_month_def next_month_def)

lemma real_month_after [simp]: "real_month (month_after now)"
  using civil_month_range [of "days_of now"]
  by (auto simp: month_after_def Let_def civil_of_def real_month_def next_month_def)

lemma month_index_inj: "real_month m \<Longrightarrow> real_month m' \<Longrightarrow> month_index m = month_index m' \<Longrightarrow> m = m'"
  unfolding real_month_def month_index_def by (intro prod_eqI) presburger+

lemma real_months_upto: "real_month a \<Longrightarrow> m \<in> set (months_upto a b) \<Longrightarrow> real_month m"
proof (induction a b rule: months_upto.induct)
  case (1 t to)
  have "m \<in> set (if month_index to < month_index t then [] else t # months_upto (next_month t) to)"
    using "1.prems"(2) unfolding months_upto.simps [of t to] .
  then show ?case using "1.IH" "1.prems"(1) real_month_next by (cases "month_index to < month_index t") auto
qed

text \<open>Every month between two bounds is listed.\<close>

lemma months_between_all:
  assumes "real_month a" "real_month b" "real_month m" "month_index a \<le> month_index m" "month_index m \<le> month_index b"
  shows "m \<in> set (monthStartsBetween a b)"
proof -
  have le: "month_index a \<le> month_index b" using assms by simp
  have "month_index m \<in> set (map month_index (months_upto a b))"
    unfolding months_upto_index using assms(4,5) by (auto intro!: image_eqI [of _ _ "nat (month_index m - month_index a)"])
  then obtain m' where "m' \<in> set (months_upto a b)" "month_index m' = month_index m" by auto
  moreover then have "real_month m'" using real_months_upto [OF assms(1)] by blast
  ultimately have "m \<in> set (months_upto a b)" using month_index_inj [of m' m] assms(3) by blast
  then show ?thesis using le by (simp add: monthStartsBetween_def)
qed

lemma real_months_between: "real_month a \<Longrightarrow> real_month b \<Longrightarrow> m \<in> set (monthStartsBetween a b) \<Longrightarrow> real_month m"
  using real_months_upto by (auto simp: monthStartsBetween_def split: if_splits)

end
