(* ===== verification/LogsSchema.thy ===== *)
theory LogsSchema
  imports CalendarOrder Strings Sql
begin

text \<open>
  The schema of the log table at start-up, EnsureLogsSchema and migrateUnpartitionedAPILogs of
  internal/storage/logs.go: each database statement is a value with its effect on the catalog, and a start is
  the list of the statements it would run.  The statements commit one by one, so a start
  that is killed has run a prefix of its list.  The text of a statement that changes
  defaults only is kept as it is; the generated name of the legacy table is an argument.
\<close>

section \<open>The catalog\<close>

datatype late_column = ActorIDCol | SurfaceCol | RouteCol | AuthResultCol

text \<open>A row of the table without partitions: a column may be NULL, or absent in an old schema.\<close>

record legacy_row =
  lg_ID :: int
  lg_Method :: "string option"
  lg_Path :: "string option"
  lg_Status :: "int option"
  lg_Duration :: "int option"
  lg_IP :: "string option"
  lg_RequestID :: "string option"
  lg_ActorID :: "string option"
  lg_Surface :: "string option"
  lg_Route :: "string option"
  lg_AuthResult :: "string option"
  lg_RequestBody :: "string option"
  lg_ResponseBody :: "string option"
  lg_CreatedAt :: "time option"

record flat_table =
  ft_Columns :: "late_column list"
  ft_Rows :: "legacy_row list"

datatype logs_relation = Flat flat_table | Partitioned "queuedLogRecord list"

record catalog =
  ct_logs :: "logs_relation option"
  ct_legacy :: "(string \<times> flat_table) list"
  ct_roots :: "string list"
  ct_registry :: bool
  ct_parts :: partitions
  ct_seq :: int

section \<open>Statements\<close>

datatype schema_stmt =
    CreateRegistry string
  | CreateSequence
  | CreateParent
  | RenameTo string
  | AddLegacyColumn string late_column
  | AlterParent string
  | CreateIndex
  | CreateRoot string
  | CreateLeaf apiLogPartitionSpec
  | UpsertRegistry apiLogPartitionSpec
  | CopyLegacy string
  | SyncSequence

definition add_column :: "late_column \<Rightarrow> flat_table \<Rightarrow> flat_table" where
  "add_column col t = (if col \<in> set (ft_Columns t) then t
     else t\<lparr>ft_Columns := ft_Columns t @ [col], ft_Rows := map (case col of
        ActorIDCol \<Rightarrow> (\<lambda>r. r\<lparr>lg_ActorID := Some []\<rparr>) | SurfaceCol \<Rightarrow> (\<lambda>r. r\<lparr>lg_Surface := Some []\<rparr>)
      | RouteCol \<Rightarrow> (\<lambda>r. r\<lparr>lg_Route := Some []\<rparr>) | AuthResultCol \<Rightarrow> (\<lambda>r. r\<lparr>lg_AuthResult := Some []\<rparr>)) (ft_Rows t)\<rparr>)"

text \<open>COALESCE(x, '') and NULLIF(x, '').\<close>

definition coalesce :: "'a \<Rightarrow> 'a option \<Rightarrow> 'a" where
  "coalesce d x = (case x of None \<Rightarrow> d | Some v \<Rightarrow> v)"

definition nullif_empty :: "string option \<Rightarrow> string option" where
  "nullif_empty x = (if x = Some [] then None else x)"

text \<open>The CASE over the path, with LIKE's wildcards: the underscore of the last pattern is one of them.\<close>

definition surface_of_path :: "string option \<Rightarrow> string" where
  "surface_of_path path = (case path of
     None \<Rightarrow> ''unknown''
   | Some p \<Rightarrow> if like ''/api/business/%'' p \<or> like ''/api/v1/%'' p then ''business''
       else if like ''/api/admin/%'' p \<or> like ''/api/dkpg/%'' p \<or> like ''/api/_internal/%'' p then ''internal''
       else ''unknown'')"

definition copied :: "time \<Rightarrow> legacy_row \<Rightarrow> queuedLogRecord" where
  "copied now r = \<lparr> q_Entry = \<lparr> le_ID = lg_ID r, le_Method = coalesce [] (lg_Method r), le_Path = coalesce [] (lg_Path r),
       le_Status = coalesce 0 (lg_Status r), le_Duration = coalesce 0 (lg_Duration r), le_IP = coalesce [] (lg_IP r),
       le_RequestID = coalesce [] (lg_RequestID r), le_ActorID = coalesce [] (lg_ActorID r),
       le_APISurface = coalesce (surface_of_path (lg_Path r)) (nullif_empty (lg_Surface r)),
       le_Route = coalesce (coalesce [] (lg_Path r)) (nullif_empty (lg_Route r)),
       le_AuthResult = coalesce (if lg_Status r = Some 401 then ''unauthenticated'' else if lg_Status r = Some 403 then ''forbidden''
          else if nullif_empty (lg_ActorID r) \<noteq> None then ''authenticated'' else []) (nullif_empty (lg_AuthResult r)),
       le_RequestBody = [], le_ResponseBody = [], le_CreatedAt = [] \<rparr>,
     q_ReqBody = coalesce [] (lg_RequestBody r), q_ResBody = coalesce [] (lg_ResponseBody r),
     q_CreatedAt = Some (coalesce now (lg_CreatedAt r)) \<rparr>"

text \<open>The leaf PostgreSQL routes a row to: the list partition is exact, all other surfaces are in the default one.\<close>

definition leaf_of :: "time \<Rightarrow> queuedLogRecord \<Rightarrow> string" where
  "leaf_of now rec = (let s = le_APISurface (q_Entry rec) in
     LeafTable (makeAPILogPartitionSpec (if s = ''business'' \<or> s = ''internal'' then s else ''unknown'') (monthStartUTC now (q_CreatedAt rec))))"

definition max_id :: "int list \<Rightarrow> int" where "max_id ids = fold max ids 0"

definition relation_ids :: "logs_relation \<Rightarrow> int list" where
  "relation_ids l = (case l of Flat t \<Rightarrow> map lg_ID (ft_Rows t) | Partitioned rows \<Rightarrow> map (le_ID \<circ> q_Entry) rows)"

text \<open>The effect of a statement, None for an error.\<close>

fun exec_schema :: "time \<Rightarrow> schema_stmt \<Rightarrow> catalog \<Rightarrow> catalog option" where
  "exec_schema now (CreateRegistry ddl) c = Some (c\<lparr>ct_registry := True\<rparr>)"
| "exec_schema now CreateSequence c = Some c"
| "exec_schema now CreateParent c = Some (case ct_logs c of None \<Rightarrow> c\<lparr>ct_logs := Some (Partitioned [])\<rparr> | Some _ \<Rightarrow> c)"
| "exec_schema now (RenameTo l) c = (case ct_logs c of
     Some (Flat t) \<Rightarrow> if l \<in> set (map fst (ct_legacy c)) then None
       else Some (c\<lparr>ct_logs := None, ct_legacy := ct_legacy c @ [(l, t)]\<rparr>)
   | _ \<Rightarrow> None)"
| "exec_schema now (AddLegacyColumn l col) c =
     (if l \<in> set (map fst (ct_legacy c))
      then Some (c\<lparr>ct_legacy := map (\<lambda>(n, t). (n, if n = l then add_column col t else t)) (ct_legacy c)\<rparr>) else None)"
| "exec_schema now (AlterParent ddl) c = (if ct_logs c = None then None else Some c)"
| "exec_schema now CreateIndex c = (if ct_logs c = None then None else Some c)"
| "exec_schema now (CreateRoot name) c = (case ct_logs c of
     Some (Partitioned _) \<Rightarrow> Some (c\<lparr>ct_roots := (if name \<in> set (ct_roots c) then ct_roots c else ct_roots c @ [name])\<rparr>)
   | _ \<Rightarrow> None)"
| "exec_schema now (CreateLeaf spec) c =
     (if RootTable spec \<in> set (ct_roots c)
      then Some (c\<lparr>ct_parts := (ct_parts c)\<lparr>leaves := (if LeafTable spec \<in> set (leaves (ct_parts c)) then leaves (ct_parts c)
        else leaves (ct_parts c) @ [LeafTable spec])\<rparr>\<rparr>) else None)"
| "exec_schema now (UpsertRegistry spec) c =
     (if ct_registry c then Some (c\<lparr>ct_parts := upsertAPILogPartitionRegistry spec (ct_parts c)\<rparr>) else None)"
| "exec_schema now (CopyLegacy l) c = (case (ct_logs c, map_of (ct_legacy c) l) of
     (Some (Partitioned rows), Some t) \<Rightarrow>
        if list_all (\<lambda>r. leaf_of now (copied now r) \<in> set (leaves (ct_parts c))) (ft_Rows t)
        then Some (c\<lparr>ct_logs := Some (Partitioned (rows @ map (copied now) (ft_Rows t)))\<rparr>) else None
   | _ \<Rightarrow> None)"
| "exec_schema now SyncSequence c = (case ct_logs c of
     None \<Rightarrow> None | Some l \<Rightarrow> Some (c\<lparr>ct_seq := max_id (relation_ids l) + 1\<rparr>))"

text \<open>One statement after the other; the first error ends the start.\<close>

fun exec_all_schema :: "time \<Rightarrow> schema_stmt list \<Rightarrow> catalog \<Rightarrow> bool \<times> catalog" where
  "exec_all_schema now [] c = (True, c)"
| "exec_all_schema now (s # ss) c = (case exec_schema now s c of None \<Rightarrow> (False, c) | Some c' \<Rightarrow> exec_all_schema now ss c')"

section \<open>What a start runs\<close>

definition ensureAPILogPartitionRegistry :: "schema_stmt list" where
  "ensureAPILogPartitionRegistry = map CreateRegistry [''CREATE TABLE IF NOT EXISTS api_log_partition_registry'',
     ''CREATE INDEX IF NOT EXISTS api_log_partition_registry_surface_month_idx'', ''CREATE INDEX IF NOT EXISTS api_log_partition_registry_drop_idx'']"

definition createPartitionedAPILogTable :: "schema_stmt list" where
  "createPartitionedAPILogTable = [CreateSequence, CreateParent]"

definition ensureAPILogParentShape :: "schema_stmt list" where
  "ensureAPILogParentShape = CreateSequence # map AlterParent
     ([''ADD COLUMN IF NOT EXISTS actor_id'', ''ADD COLUMN IF NOT EXISTS api_surface'', ''ADD COLUMN IF NOT EXISTS route'',
       ''ADD COLUMN IF NOT EXISTS auth_result'', ''ALTER COLUMN id SET DEFAULT nextval('api_logs_id_seq')'']
      @ map (\<lambda>col. ''ALTER COLUMN '' @ col @ '' SET DEFAULT'') [''method'', ''path'', ''status'', ''duration_ms'', ''ip'', ''request_id'', ''actor_id'',
         ''api_surface'', ''route'', ''auth_result'', ''request_body'', ''response_body'', ''created_at'']) @ [CreateIndex]"

definition ensureAPILogSubpartitionRoots :: "schema_stmt list" where
  "ensureAPILogSubpartitionRoots = map CreateRoot [''api_logs_business'', ''api_logs_internal'', ''api_logs_unknown'']"

definition month_stmts :: "month_start list \<Rightarrow> schema_stmt list" where
  "month_stmts months = concat (map (\<lambda>m. concat (map (\<lambda>s. let spec = makeAPILogPartitionSpec s m in [CreateLeaf spec, UpsertRegistry spec])
     [''business'', ''internal'', ''unknown''])) (uniqueMonthStarts months))"

definition current_months :: "time \<Rightarrow> month_start list" where
  "current_months now = monthStartsBetween (monthStartUTC now (Some now)) (month_after now)"

text \<open>The months of the oldest and the newest row with a date, if there is one.\<close>

definition migrated_months :: "time \<Rightarrow> legacy_row list \<Rightarrow> month_start list" where
  "migrated_months now rows = (case List.map_filter lg_CreatedAt rows of
     [] \<Rightarrow> current_months now
   | t # ts \<Rightarrow> uniqueMonthStarts (current_months now
       @ monthStartsBetween (monthStartUTC now (Some (fold min ts t))) (monthStartUTC now (Some (fold max ts t)))))"

definition migrateUnpartitionedAPILogs :: "time \<Rightarrow> string \<Rightarrow> flat_table \<Rightarrow> schema_stmt list" where
  "migrateUnpartitionedAPILogs now l t =
     RenameTo l # map (AddLegacyColumn l) [ActorIDCol, SurfaceCol, RouteCol, AuthResultCol]
     @ createPartitionedAPILogTable @ ensureAPILogParentShape @ ensureAPILogSubpartitionRoots @ ensureAPILogPartitionRegistry
     @ month_stmts (migrated_months now (ft_Rows t)) @ [CopyLegacy l, SyncSequence]"

definition EnsureLogsSchema :: "time \<Rightarrow> string \<Rightarrow> catalog \<Rightarrow> schema_stmt list" where
  "EnsureLogsSchema now l c = ensureAPILogPartitionRegistry
     @ (case ct_logs c of
          None \<Rightarrow> createPartitionedAPILogTable
        | Some (Flat t) \<Rightarrow> migrateUnpartitionedAPILogs now l t
        | Some (Partitioned _) \<Rightarrow> [])
     @ ensureAPILogParentShape @ ensureAPILogSubpartitionRoots @ month_stmts (current_months now) @ [SyncSequence]"

text \<open>A start that is stopped after n statements.\<close>

definition start_logs :: "time \<Rightarrow> string \<Rightarrow> nat \<Rightarrow> catalog \<Rightarrow> bool \<times> catalog" where
  "start_logs now l n c = exec_all_schema now (take n (EnsureLogsSchema now l c)) c"

section \<open>Blocks of statements\<close>

lemma exec_append:
  "exec_all_schema now (xs @ ys) c = (case exec_all_schema now xs c of (ok, c') \<Rightarrow> if ok then exec_all_schema now ys c' else (False, c'))"
  by (induction xs arbitrary: c) (auto split: option.splits)

lemma registry_block [simp]: "exec_all_schema now ensureAPILogPartitionRegistry c = (True, c\<lparr>ct_registry := True\<rparr>)"
  by (simp add: ensureAPILogPartitionRegistry_def)

lemma shape_block [simp]: "ct_logs c = Some t \<Longrightarrow> exec_all_schema now ensureAPILogParentShape c = (True, c)"
  by (simp add: ensureAPILogParentShape_def)

lemma parent_block [simp]: "ct_logs c = None \<Longrightarrow> exec_all_schema now createPartitionedAPILogTable c = (True, c\<lparr>ct_logs := Some (Partitioned [])\<rparr>)"
  by (simp add: createPartitionedAPILogTable_def)

definition surface_roots :: "string set" where "surface_roots = {''api_logs_business'', ''api_logs_internal'', ''api_logs_unknown''}"

lemma roots_block:
  assumes "ct_logs c = Some (Partitioned rows)"
  obtains R where "exec_all_schema now ensureAPILogSubpartitionRoots c = (True, c\<lparr>ct_roots := R\<rparr>)" "surface_roots \<subseteq> set R"
  using assms that by (auto simp: ensureAPILogSubpartitionRoots_def surface_roots_def split: if_splits)

lemma spec_root: "RootTable (makeAPILogPartitionSpec s m) \<in> surface_roots"
  by (simp add: makeAPILogPartitionSpec_def surface_roots_def Let_def)

lemma leaves_upsert [simp]: "leaves (upsertAPILogPartitionRegistry spec p) = leaves p"
  by (simp add: upsertAPILogPartitionRegistry_def)

lemma specs_block:
  assumes "ct_registry c" "\<forall>spec \<in> set specs. RootTable spec \<in> set (ct_roots c)"
  shows "\<exists>p. exec_all_schema now (concat (map (\<lambda>spec. [CreateLeaf spec, UpsertRegistry spec]) specs)) c = (True, c\<lparr>ct_parts := p\<rparr>)
    \<and> set (leaves (ct_parts c)) \<union> LeafTable ` set specs \<subseteq> set (leaves p)"
  using assms
proof (induction specs arbitrary: c)
  case Nil
  then show ?case by (intro exI [of _ "ct_parts c"]) simp
next
  case (Cons spec specs)
  define q where "q = upsertAPILogPartitionRegistry spec ((ct_parts c)\<lparr>leaves := (if LeafTable spec \<in> set (leaves (ct_parts c)) then leaves (ct_parts c)
        else leaves (ct_parts c) @ [LeafTable spec])\<rparr>)"
  have q: "set (leaves q) = insert (LeafTable spec) (set (leaves (ct_parts c)))" by (auto simp: q_def)
  obtain p where p: "exec_all_schema now (concat (map (\<lambda>spec. [CreateLeaf spec, UpsertRegistry spec]) specs)) (c\<lparr>ct_parts := q\<rparr>) = (True, c\<lparr>ct_parts := p\<rparr>)"
    "set (leaves q) \<union> LeafTable ` set specs \<subseteq> set (leaves p)"
    using Cons.IH [of "c\<lparr>ct_parts := q\<rparr>"] Cons.prems by auto
  show ?case using Cons.prems p q by (intro exI [of _ p]) (simp add: q_def [symmetric])
qed

lemma months_block:
  assumes "ct_registry c" "surface_roots \<subseteq> set (ct_roots c)"
  shows "\<exists>p. exec_all_schema now (month_stmts ms) c = (True, c\<lparr>ct_parts := p\<rparr>) \<and> set (leaves (ct_parts c)) \<subseteq> set (leaves p)
    \<and> (\<forall>m \<in> set (uniqueMonthStarts ms). \<forall>s \<in> {''business'', ''internal'', ''unknown''}. LeafTable (makeAPILogPartitionSpec s m) \<in> set (leaves p))"
proof -
  let ?specs = "concat (map (\<lambda>m. map (\<lambda>s. makeAPILogPartitionSpec s m) [''business'', ''internal'', ''unknown'']) (uniqueMonthStarts ms))"
  have m: "month_stmts ms = concat (map (\<lambda>spec. [CreateLeaf spec, UpsertRegistry spec]) ?specs)"
  proof -
    have "concat (map (\<lambda>m. concat (map (\<lambda>s. let spec = makeAPILogPartitionSpec s m in [CreateLeaf spec, UpsertRegistry spec]) [''business'', ''internal'', ''unknown''])) us)
        = concat (map (\<lambda>spec. [CreateLeaf spec, UpsertRegistry spec])
            (concat (map (\<lambda>m. map (\<lambda>s. makeAPILogPartitionSpec s m) [''business'', ''internal'', ''unknown'']) us)))" for us
      by (induction us) (simp_all add: Let_def)
    then show ?thesis by (simp only: month_stmts_def)
  qed
  have "\<forall>spec \<in> set ?specs. RootTable spec \<in> set (ct_roots c)" using assms(2) spec_root by auto
  from specs_block [OF assms(1) this, of now] obtain p where
    "exec_all_schema now (month_stmts ms) c = (True, c\<lparr>ct_parts := p\<rparr>)" "set (leaves (ct_parts c)) \<union> LeafTable ` set ?specs \<subseteq> set (leaves p)"
    unfolding m by blast
  then show ?thesis by (intro exI [of _ p]) auto
qed

section \<open>Every copied row has its partition\<close>

lemma month_keys:
  assumes "real_month m" "real_month m'" "month_key m = month_key m'"
  shows "LeafTable (makeAPILogPartitionSpec s m) = LeafTable (makeAPILogPartitionSpec s m')"
proof -
  have "length (pad 2 (snd m)) = length (pad 2 (snd m'))" using assms(1,2) pad_two by (simp add: real_month_def)
  then have "pad 4 (fst m) = pad 4 (fst m') \<and> pad 2 (snd m) = pad 2 (snd m')"
    using assms(3) by (simp add: month_key_def)
  then show ?thesis by (simp add: makeAPILogPartitionSpec_def Let_def)
qed

lemma month_has_leaf:
  assumes "\<forall>m \<in> set ms. real_month m" "m \<in> set ms"
  shows "\<exists>m' \<in> set (uniqueMonthStarts ms). \<forall>s. LeafTable (makeAPILogPartitionSpec s m) = LeafTable (makeAPILogPartitionSpec s m')"
proof -
  let ?kvs = "map (\<lambda>m. (month_key m, m)) ms"
  have "(month_key m, m) \<in> set (rev ?kvs)" using assms(2) by simp
  then have "month_key m \<in> fst ` set (rev ?kvs)" by (rule rev_image_eqI) simp
  then have "map_of (rev ?kvs) (month_key m) \<noteq> None" unfolding map_of_eq_None_iff by blast
  then obtain m' where m': "map_of (rev ?kvs) (month_key m) = Some m'" by blast
  then have "(month_key m, m') \<in> set ?kvs" by (rule map_of_rev_Some)
  then have k: "m' \<in> set ms" "month_key m = month_key m'" by auto
  have "m' \<in> set (uniqueMonthStarts ms)" using m' by (force simp: uniqueMonthStarts_def set_members)
  then show ?thesis using month_keys [of m m'] k assms by blast
qed

lemma fold_min_max: "x \<in> set (t # ts) \<Longrightarrow> fold min ts (t :: time) \<le> x \<and> x \<le> fold max ts t"
  by (metis Max.set_eq_fold Max_ge Min.set_eq_fold Min_le List.finite_set)

lemma real_current: "\<forall>m \<in> set (current_months now). real_month m"
  using real_months_between [of "monthStartUTC now (Some now)" "month_after now"] by (auto simp: current_months_def)

lemma now_is_current: "monthStartUTC now (Some now) \<in> set (current_months now)"
proof -
  let ?m = "monthStartUTC now (Some now)"
  have "month_index ?m \<le> month_index (month_after now)"
    by (auto simp: month_after_def monthStartUTC_def Let_def)
  then show ?thesis unfolding current_months_def by (intro months_between_all) auto
qed

lemma set_uniqueMonthStarts: "set (uniqueMonthStarts ms) \<subseteq> set ms"
  using map_of_rev_Some [of "map (\<lambda>m. (month_key m, m)) ms"] by (fastforce simp: uniqueMonthStarts_def set_members)

lemma migrated_month_has_leaf:
  assumes "r \<in> set rows"
  shows "\<exists>m \<in> set (uniqueMonthStarts (migrated_months now rows)). \<forall>s.
     LeafTable (makeAPILogPartitionSpec s (monthStartUTC now (Some (coalesce now (lg_CreatedAt r))))) = LeafTable (makeAPILogPartitionSpec s m)"
proof (cases "List.map_filter lg_CreatedAt rows")
  case Nil
  then have "lg_CreatedAt r = None" using assms by (auto simp: List.map_filter_def filter_empty_conv)
  then show ?thesis using month_has_leaf [OF real_current now_is_current] Nil by (simp add: migrated_months_def coalesce_def)
next
  case (Cons t ts)
  define a where "a = monthStartUTC now (Some (fold min ts t))"
  define b where "b = monthStartUTC now (Some (fold max ts t))"
  define ms where "ms = current_months now @ monthStartsBetween a b"
  let ?m = "monthStartUTC now (Some (coalesce now (lg_CreatedAt r)))"
  have real: "\<forall>m \<in> set ms. real_month m"
    using real_current real_months_between [of a b] by (auto simp: ms_def a_def b_def)
  have "?m \<in> set ms"
  proof (cases "lg_CreatedAt r")
    case None
    then show ?thesis using now_is_current by (simp add: ms_def coalesce_def)
  next
    case (Some u)
    then have "u \<in> set (t # ts)" using assms unfolding Cons [symmetric] by (force simp: List.map_filter_def)
    then have "month_index a \<le> month_index ?m" "month_index ?m \<le> month_index b"
      using fold_min_max month_index_mono Some by (auto simp: a_def b_def coalesce_def)
    then show ?thesis using months_between_all [of a b ?m] by (simp add: ms_def a_def b_def)
  qed
  then obtain m1 where m1: "m1 \<in> set (uniqueMonthStarts ms)" "\<forall>s. LeafTable (makeAPILogPartitionSpec s ?m) = LeafTable (makeAPILogPartitionSpec s m1)"
    using month_has_leaf [OF real] by blast
  have "\<forall>m \<in> set (uniqueMonthStarts ms). real_month m" using real set_uniqueMonthStarts by blast
  from month_has_leaf [OF this m1(1)] show ?thesis using m1(2) Cons by (simp add: migrated_months_def ms_def a_def b_def)
qed

section \<open>A migration that is not interrupted\<close>

text \<open>A column that the table does not have is NULL in every row.\<close>

definition absent_null :: "flat_table \<Rightarrow> bool" where
  "absent_null t \<longleftrightarrow> (\<forall>r \<in> set (ft_Rows t). (ActorIDCol \<notin> set (ft_Columns t) \<longrightarrow> lg_ActorID r = None)
     \<and> (SurfaceCol \<notin> set (ft_Columns t) \<longrightarrow> lg_Surface r = None) \<and> (RouteCol \<notin> set (ft_Columns t) \<longrightarrow> lg_Route r = None)
     \<and> (AuthResultCol \<notin> set (ft_Columns t) \<longrightarrow> lg_AuthResult r = None))"

definition add_columns :: "flat_table \<Rightarrow> flat_table" where
  "add_columns t = fold add_column [ActorIDCol, SurfaceCol, RouteCol, AuthResultCol] t"

lemma copied_null:
  "lg_ActorID r = None \<Longrightarrow> copied now (r\<lparr>lg_ActorID := Some []\<rparr>) = copied now r"
  "lg_Surface r = None \<Longrightarrow> copied now (r\<lparr>lg_Surface := Some []\<rparr>) = copied now r"
  "lg_Route r = None \<Longrightarrow> copied now (r\<lparr>lg_Route := Some []\<rparr>) = copied now r"
  "lg_AuthResult r = None \<Longrightarrow> copied now (r\<lparr>lg_AuthResult := Some []\<rparr>) = copied now r"
  by (cases "lg_ActorID r"; simp add: copied_def coalesce_def nullif_empty_def)+

lemma add_column_copied:
  assumes "absent_null t"
  shows "absent_null (add_column col t)" "map (copied now) (ft_Rows (add_column col t)) = map (copied now) (ft_Rows t)"
    "length (ft_Rows (add_column col t)) = length (ft_Rows t)"
  using assms copied_null [of _ now] by (cases col; auto simp: add_column_def absent_null_def)+

lemma add_columns_copied:
  assumes "absent_null t"
  shows "map (copied now) (ft_Rows (add_columns t)) = map (copied now) (ft_Rows t)"
  using assms add_column_copied by (simp add: add_columns_def)

lemma columns_block:
  assumes "map_of (ct_legacy c) l = None" "ct_legacy c' = ct_legacy c @ [(l, t)]"
  shows "exec_all_schema now (map (AddLegacyColumn l) [ActorIDCol, SurfaceCol, RouteCol, AuthResultCol]) c' = (True, c'\<lparr>ct_legacy := ct_legacy c @ [(l, add_columns t)]\<rparr>)"
proof -
  have "l \<notin> fst ` set (ct_legacy c)" using assms(1) by (simp add: map_of_eq_None_iff)
  then have "map (\<lambda>(n, u). (n, if n = l then f u else u)) (ct_legacy c) = ct_legacy c" for f
    by (intro map_idI) (force split: prod.splits)
  then show ?thesis using assms(2) by (simp add: add_columns_def)
qed

lemma max_id_bound: "i \<in> set ids \<Longrightarrow> i < max_id ids + 1"
proof -
  assume "i \<in> set ids"
  then have "i \<le> Max (set (0 # ids))" by simp
  then show ?thesis unfolding max_id_def Max.set_eq_fold by simp
qed

lemma exec_then: "exec_all_schema now xs c = (True, c') \<Longrightarrow> exec_all_schema now (xs @ ys) c = exec_all_schema now ys c'"
  by (simp add: exec_append)

text \<open>The part of every start after the table is partitioned: no row changes.\<close>

definition finish_stmts :: "time \<Rightarrow> schema_stmt list" where
  "finish_stmts now = ensureAPILogParentShape @ ensureAPILogSubpartitionRoots @ month_stmts (current_months now) @ [SyncSequence]"

lemma finish_block:
  assumes "ct_logs c = Some (Partitioned rows)" "ct_registry c"
  shows "\<exists>c'. exec_all_schema now (finish_stmts now) c = (True, c') \<and> ct_logs c' = ct_logs c \<and> ct_legacy c' = ct_legacy c
    \<and> ct_seq c' = max_id (map (le_ID \<circ> q_Entry) rows) + 1"
proof -
  obtain R where R: "exec_all_schema now ensureAPILogSubpartitionRoots c = (True, c\<lparr>ct_roots := R\<rparr>)" "surface_roots \<subseteq> set R"
    using roots_block [OF assms(1)] .
  obtain p where p: "exec_all_schema now (month_stmts (current_months now)) (c\<lparr>ct_roots := R\<rparr>) = (True, c\<lparr>ct_roots := R, ct_parts := p\<rparr>)"
    using months_block [of "c\<lparr>ct_roots := R\<rparr>" now "current_months now"] assms(2) R(2) by fastforce
  have "exec_all_schema now (finish_stmts now) c = exec_all_schema now [SyncSequence] (c\<lparr>ct_roots := R, ct_parts := p\<rparr>)"
    unfolding finish_stmts_def by (simp only: exec_then [OF shape_block [OF assms(1)]] exec_then [OF R(1)] exec_then [OF p])
  then show ?thesis using assms(1) by (simp add: relation_ids_def)
qed

lemma migration_block:
  assumes "map_of (ct_legacy c) l = None" "ct_logs c = Some (Flat t)" "ct_registry c" "absent_null t"
  shows "\<exists>c'. exec_all_schema now (migrateUnpartitionedAPILogs now l t) c = (True, c') \<and> ct_registry c'
    \<and> ct_logs c' = Some (Partitioned (map (copied now) (ft_Rows t))) \<and> ct_legacy c' = ct_legacy c @ [(l, add_columns t)]"
proof -
  let ?t' = "add_columns t" and ?rows = "map (copied now) (ft_Rows t)"
  define c1 where "c1 = c\<lparr>ct_logs := None, ct_legacy := ct_legacy c @ [(l, t)]\<rparr>"
  define c2 where "c2 = c1\<lparr>ct_legacy := ct_legacy c @ [(l, ?t')]\<rparr>"
  define c3 where "c3 = c2\<lparr>ct_logs := Some (Partitioned [])\<rparr>"
  have "l \<notin> set (map fst (ct_legacy c))" using assms(1) by (simp add: map_of_eq_None_iff)
  then have e1: "exec_all_schema now [RenameTo l] c = (True, c1)" using assms(2) by (simp add: c1_def)
  have e2: "exec_all_schema now (map (AddLegacyColumn l) [ActorIDCol, SurfaceCol, RouteCol, AuthResultCol]) c1 = (True, c2)"
    unfolding c2_def by (rule columns_block [OF assms(1)]) (simp add: c1_def)
  have e3: "exec_all_schema now createPartitionedAPILogTable c2 = (True, c3)"
    unfolding c3_def by (rule parent_block) (simp add: c2_def c1_def)
  have l3: "ct_logs c3 = Some (Partitioned [])" "ct_registry c3" "ct_legacy c3 = ct_legacy c @ [(l, ?t')]"
    using assms(3) by (simp_all add: c3_def c2_def c1_def)
  obtain R where R: "exec_all_schema now ensureAPILogSubpartitionRoots c3 = (True, c3\<lparr>ct_roots := R\<rparr>)" "surface_roots \<subseteq> set R"
    using roots_block [OF l3(1)] .
  define c4 where "c4 = c3\<lparr>ct_roots := R\<rparr>"
  have e5: "exec_all_schema now ensureAPILogPartitionRegistry c4 = (True, c4)" using l3(2) by (simp add: c4_def)
  let ?ms = "migrated_months now (ft_Rows t)"
  obtain p where p: "exec_all_schema now (month_stmts ?ms) c4 = (True, c4\<lparr>ct_parts := p\<rparr>)"
    "\<forall>m \<in> set (uniqueMonthStarts ?ms). \<forall>s \<in> {''business'', ''internal'', ''unknown''}. LeafTable (makeAPILogPartitionSpec s m) \<in> set (leaves p)"
    using months_block [of c4 now ?ms] l3(2) R(2) by (auto simp: c4_def)
  have leaf: "leaf_of now (copied now r) \<in> set (leaves p)" if r: "r \<in> set (ft_Rows t)" for r
  proof -
    obtain m where "m \<in> set (uniqueMonthStarts ?ms)"
      "\<forall>s. LeafTable (makeAPILogPartitionSpec s (monthStartUTC now (Some (coalesce now (lg_CreatedAt r))))) = LeafTable (makeAPILogPartitionSpec s m)"
      using migrated_month_has_leaf [OF r] by blast
    then show ?thesis using p(2) by (auto simp: leaf_of_def Let_def copied_def)
  qed
  have same: "map (copied now) (ft_Rows ?t') = ?rows" using add_columns_copied [OF assms(4)] .
  have rows: "list_all (\<lambda>r. leaf_of now (copied now r) \<in> set (leaves p)) (ft_Rows ?t')"
  proof -
    have "\<forall>x \<in> set (map (copied now) (ft_Rows ?t')). leaf_of now x \<in> set (leaves p)" unfolding same using leaf by simp
    then show ?thesis by (simp add: list_all_iff)
  qed
  have legacy: "map_of (ct_legacy c3) l = Some ?t'" using assms(1) by (simp add: l3(3) map_add_def)
  have e6: "exec_all_schema now [CopyLegacy l, SyncSequence] (c4\<lparr>ct_parts := p\<rparr>)
      = (True, c4\<lparr>ct_parts := p, ct_logs := Some (Partitioned ?rows), ct_seq := max_id (relation_ids (Partitioned ?rows)) + 1\<rparr>)"
    using l3(1) legacy rows same by (simp add: c4_def)
  have "migrateUnpartitionedAPILogs now l t = [RenameTo l] @ map (AddLegacyColumn l) [ActorIDCol, SurfaceCol, RouteCol, AuthResultCol]
     @ createPartitionedAPILogTable @ ensureAPILogParentShape @ ensureAPILogSubpartitionRoots @ ensureAPILogPartitionRegistry
     @ month_stmts ?ms @ [CopyLegacy l, SyncSequence]" by (simp add: migrateUnpartitionedAPILogs_def)
  then have "exec_all_schema now (migrateUnpartitionedAPILogs now l t) c
      = (True, c4\<lparr>ct_parts := p, ct_logs := Some (Partitioned ?rows), ct_seq := max_id (relation_ids (Partitioned ?rows)) + 1\<rparr>)"
    by (simp only: exec_then [OF e1] exec_then [OF e2] exec_then [OF e3] exec_then [OF shape_block [OF l3(1)]]
        exec_then [OF R(1)] c4_def [symmetric] exec_then [OF e5] exec_then [OF p(1)] e6)
  then show ?thesis using l3(2,3) by (simp add: c4_def)
qed

text \<open>
  What a row becomes, column by column, and what it is in the table that is kept.  A missing
  value is empty, zero, or now for the date; a row without a surface of its own gets it from
  its path, where any one character may stand before "internal/".
\<close>

definition converted :: "time \<Rightarrow> legacy_row \<Rightarrow> queuedLogRecord \<Rightarrow> bool" where
  "converted now r x \<longleftrightarrow> le_ID (q_Entry x) = lg_ID r
     \<and> le_Method (q_Entry x) = (case lg_Method r of None \<Rightarrow> [] | Some v \<Rightarrow> v)
     \<and> le_Path (q_Entry x) = (case lg_Path r of None \<Rightarrow> [] | Some v \<Rightarrow> v)
     \<and> le_Status (q_Entry x) = (case lg_Status r of None \<Rightarrow> 0 | Some v \<Rightarrow> v)
     \<and> le_Duration (q_Entry x) = (case lg_Duration r of None \<Rightarrow> 0 | Some v \<Rightarrow> v)
     \<and> le_IP (q_Entry x) = (case lg_IP r of None \<Rightarrow> [] | Some v \<Rightarrow> v)
     \<and> le_RequestID (q_Entry x) = (case lg_RequestID r of None \<Rightarrow> [] | Some v \<Rightarrow> v)
     \<and> le_ActorID (q_Entry x) = (case lg_ActorID r of None \<Rightarrow> [] | Some v \<Rightarrow> v)
     \<and> (if lg_Surface r \<notin> {None, Some []} then Some (le_APISurface (q_Entry x)) = lg_Surface r
        else if \<exists>u. lg_Path r \<in> {Some (''/api/business/'' @ u), Some (''/api/v1/'' @ u)} then le_APISurface (q_Entry x) = ''business''
        else if \<exists>u c. lg_Path r \<in> {Some (''/api/admin/'' @ u), Some (''/api/dkpg/'' @ u), Some (''/api/'' @ c # ''internal/'' @ u)}
          then le_APISurface (q_Entry x) = ''internal''
        else le_APISurface (q_Entry x) = ''unknown'')
     \<and> (if lg_Route r \<notin> {None, Some []} then Some (le_Route (q_Entry x)) = lg_Route r else le_Route (q_Entry x) = le_Path (q_Entry x))
     \<and> (if lg_AuthResult r \<notin> {None, Some []} then Some (le_AuthResult (q_Entry x)) = lg_AuthResult r
        else le_AuthResult (q_Entry x) = (if lg_Status r = Some 401 then ''unauthenticated'' else if lg_Status r = Some 403 then ''forbidden''
          else if le_ActorID (q_Entry x) \<noteq> [] then ''authenticated'' else []))
     \<and> q_ReqBody x = (case lg_RequestBody r of None \<Rightarrow> [] | Some v \<Rightarrow> v)
     \<and> q_ResBody x = (case lg_ResponseBody r of None \<Rightarrow> [] | Some v \<Rightarrow> v)
     \<and> q_CreatedAt x = Some (case lg_CreatedAt r of None \<Rightarrow> now | Some v \<Rightarrow> v)"

definition retained :: "legacy_row \<Rightarrow> legacy_row \<Rightarrow> bool" where
  "retained r r' \<longleftrightarrow> r'\<lparr>lg_ActorID := None, lg_Surface := None, lg_Route := None, lg_AuthResult := None\<rparr>
        = r\<lparr>lg_ActorID := None, lg_Surface := None, lg_Route := None, lg_AuthResult := None\<rparr>
     \<and> (lg_ActorID r' = lg_ActorID r \<or> lg_ActorID r = None \<and> lg_ActorID r' = Some [])
     \<and> (lg_Surface r' = lg_Surface r \<or> lg_Surface r = None \<and> lg_Surface r' = Some [])
     \<and> (lg_Route r' = lg_Route r \<or> lg_Route r = None \<and> lg_Route r' = Some [])
     \<and> (lg_AuthResult r' = lg_AuthResult r \<or> lg_AuthResult r = None \<and> lg_AuthResult r' = Some [])"

lemma like_prefixes:
  "like ''/api/business/%'' p \<longleftrightarrow> (\<exists>u. p = ''/api/business/'' @ u)" "like ''/api/v1/%'' p \<longleftrightarrow> (\<exists>u. p = ''/api/v1/'' @ u)"
  "like ''/api/admin/%'' p \<longleftrightarrow> (\<exists>u. p = ''/api/admin/'' @ u)" "like ''/api/dkpg/%'' p \<longleftrightarrow> (\<exists>u. p = ''/api/dkpg/'' @ u)"
  using like_plain [of "''/api/business/''" "''%''" p] like_plain [of "''/api/v1/''" "''%''" p]
    like_plain [of "''/api/admin/''" "''%''" p] like_plain [of "''/api/dkpg/''" "''%''" p] like_percent_any by simp_all

lemma like_internal: "like ''/api/_internal/%'' p \<longleftrightarrow> (\<exists>c u. p = ''/api/'' @ c # ''internal/'' @ u)"
proof -
  have "like ''/api/_internal/%'' p \<longleftrightarrow> (\<exists>t. p = ''/api/'' @ t \<and> like ''_internal/%'' t)"
    using like_plain [of "''/api/''" "''_internal/%''" p] by simp
  moreover have "like ''_internal/%'' t \<longleftrightarrow> (\<exists>c v. t = c # v \<and> like ''internal/%'' v)" for t by (cases t) simp_all
  moreover have "like ''internal/%'' v \<longleftrightarrow> (\<exists>u. v = ''internal/'' @ u)" for v
    using like_plain [of "''internal/''" "''%''" v] like_percent_any by simp
  ultimately show ?thesis by auto
qed

lemma surface_of_path_cases:
  "surface_of_path path = (if \<exists>u. path \<in> {Some (''/api/business/'' @ u), Some (''/api/v1/'' @ u)} then ''business''
     else if \<exists>u c. path \<in> {Some (''/api/admin/'' @ u), Some (''/api/dkpg/'' @ u), Some (''/api/'' @ c # ''internal/'' @ u)} then ''internal''
     else ''unknown'')"
proof (cases path)
  case (Some p)
  have b: "(\<exists>u. path \<in> {Some (''/api/business/'' @ u), Some (''/api/v1/'' @ u)}) \<longleftrightarrow> like ''/api/business/%'' p \<or> like ''/api/v1/%'' p"
    unfolding like_prefixes Some by blast
  have i: "(\<exists>u c. path \<in> {Some (''/api/admin/'' @ u), Some (''/api/dkpg/'' @ u), Some (''/api/'' @ c # ''internal/'' @ u)})
      \<longleftrightarrow> like ''/api/admin/%'' p \<or> like ''/api/dkpg/%'' p \<or> like ''/api/_internal/%'' p"
    unfolding like_prefixes like_internal Some by blast
  show ?thesis unfolding b i by (simp only: Some surface_of_path_def option.case)
qed (simp add: surface_of_path_def)

lemma copied_converted: "converted now r (copied now r)"
proof -
  let ?q = "q_Entry (copied now r)"
  have pick: "x = (if A then b else if B then i else u) \<Longrightarrow> (if A then x = b else if B then x = i else x = u)"
    for A B and x b i u :: string by simp
  have own: "x \<notin> {None, Some []} \<Longrightarrow> Some (coalesce d (nullif_empty x)) = x" "\<not> x \<notin> {None, Some []} \<Longrightarrow> coalesce d (nullif_empty x) = d"
    for x and d :: string by (auto simp: coalesce_def nullif_empty_def)
  have s: "le_APISurface ?q = coalesce (surface_of_path (lg_Path r)) (nullif_empty (lg_Surface r))"
    "le_Route ?q = coalesce (le_Path ?q) (nullif_empty (lg_Route r))"
    by (simp_all add: copied_def)
  have surface: "if lg_Surface r \<notin> {None, Some []} then Some (le_APISurface ?q) = lg_Surface r
      else if \<exists>u. lg_Path r \<in> {Some (''/api/business/'' @ u), Some (''/api/v1/'' @ u)} then le_APISurface ?q = ''business''
      else if \<exists>u c. lg_Path r \<in> {Some (''/api/admin/'' @ u), Some (''/api/dkpg/'' @ u), Some (''/api/'' @ c # ''internal/'' @ u)}
        then le_APISurface ?q = ''internal'' else le_APISurface ?q = ''unknown''"
  proof (cases "lg_Surface r \<notin> {None, Some []}")
    case True
    show ?thesis unfolding if_P [OF True] s(1) by (rule own(1) [OF True])
  next
    case False
    then have "le_APISurface ?q = surface_of_path (lg_Path r)" using own(2) s(1) by (simp only:)
    then show ?thesis using pick [OF trans [OF _ surface_of_path_cases]] unfolding if_not_P [OF False] by blast
  qed
  have route: "if lg_Route r \<notin> {None, Some []} then Some (le_Route ?q) = lg_Route r else le_Route ?q = le_Path ?q"
    using own [of "lg_Route r" "le_Path ?q"] s(2) by presburger
  have "nullif_empty x \<noteq> None \<longleftrightarrow> coalesce [] x \<noteq> []" for x :: "string option" by (cases x) (simp_all add: nullif_empty_def coalesce_def)
  then have "le_AuthResult ?q = coalesce (if lg_Status r = Some 401 then ''unauthenticated'' else if lg_Status r = Some 403 then ''forbidden''
      else if le_ActorID ?q \<noteq> [] then ''authenticated'' else []) (nullif_empty (lg_AuthResult r))"
    by (simp add: copied_def)
  then have auth: "if lg_AuthResult r \<notin> {None, Some []} then Some (le_AuthResult ?q) = lg_AuthResult r
      else le_AuthResult ?q = (if lg_Status r = Some 401 then ''unauthenticated'' else if lg_Status r = Some 403 then ''forbidden''
        else if le_ActorID ?q \<noteq> [] then ''authenticated'' else [])"
    using own [of "lg_AuthResult r"] by presburger
  show ?thesis
    unfolding converted_def
    by (intro conjI; (rule surface route auth | simp add: copied_def coalesce_def))
qed

lemma add_column_retains: "absent_null t \<Longrightarrow> list_all2 retained (ft_Rows t) (ft_Rows (add_column col t))"
  by (cases col) (auto simp: add_column_def absent_null_def list_all2_map2 list_all2_same retained_def)

lemma retained_trans: "retained a b \<Longrightarrow> retained b d \<Longrightarrow> retained a d"
  unfolding retained_def by (elim conjE, intro conjI; (erule (1) trans | metis))

lemma add_columns_retains:
  assumes "absent_null t"
  shows "list_all2 retained (ft_Rows t) (ft_Rows (add_columns t))"
proof -
  have "list_all2 retained (ft_Rows t) (ft_Rows (fold add_column cols t))" for cols
    using assms
  proof (induction cols arbitrary: t)
    case (Cons col cols)
    have "absent_null (add_column col t)" using add_column_copied(1) Cons.prems by blast
    then have "list_all2 retained (ft_Rows (add_column col t)) (ft_Rows (fold add_column (col # cols) t))" using Cons.IH by simp
    from list_all2_trans [OF _ add_column_retains [OF Cons.prems] this] retained_trans show ?case by blast
  qed (simp add: list_all2_same retained_def)
  then show ?thesis by (simp only: add_columns_def)
qed

text \<open>
  C34: an uninterrupted migration keeps every log.  A start that finds a log table without
  partitions, in a schema with or without the later columns, runs to its end: every
  statement succeeds, because each row, whatever its path and date, has a partition by then.  The new table
  holds the old rows in their order, each with its id, method, path, status, duration, address, request id, actor,
  bodies and date, and with a surface, route and authentication result of its own or derived; the old table is kept
  under its new name with every value it had, and the next id of the sequence is above every id that was copied.
\<close>
theorem migration_keeps_logs:
  assumes "ct_logs c = Some (Flat t)" "absent_null t" "map_of (ct_legacy c) l = None"
    and "start_logs now l (length (EnsureLogsSchema now l c)) c = (ok, c')"
  shows "ok \<and> (\<exists>rows. ct_logs c' = Some (Partitioned rows) \<and> list_all2 (converted now) (ft_Rows t) rows)
    \<and> (\<exists>old. map_of (ct_legacy c') l = Some old \<and> list_all2 retained (ft_Rows t) (ft_Rows old))
    \<and> (\<forall>r \<in> set (ft_Rows t). lg_ID r < ct_seq c')"
proof -
  let ?c0 = "c\<lparr>ct_registry := True\<rparr>" and ?rows = "map (copied now) (ft_Rows t)"
  obtain c1 where c1: "exec_all_schema now (migrateUnpartitionedAPILogs now l t) ?c0 = (True, c1)" "ct_registry c1"
    "ct_logs c1 = Some (Partitioned ?rows)" "ct_legacy c1 = ct_legacy c @ [(l, add_columns t)]"
    using migration_block [of ?c0 l t now] assms(1-3) by auto
  obtain c2 where c2: "exec_all_schema now (finish_stmts now) c1 = (True, c2)" "ct_logs c2 = ct_logs c1" "ct_legacy c2 = ct_legacy c1"
    "ct_seq c2 = max_id (map (le_ID \<circ> q_Entry) ?rows) + 1"
    using finish_block [OF c1(3,2)] by blast
  have "EnsureLogsSchema now l c = ensureAPILogPartitionRegistry @ migrateUnpartitionedAPILogs now l t @ finish_stmts now"
    using assms(1) by (simp add: EnsureLogsSchema_def finish_stmts_def)
  then have "start_logs now l (length (EnsureLogsSchema now l c)) c = (True, c2)"
    by (simp only: start_logs_def take_all [OF order_refl] exec_then [OF registry_block] exec_then [OF c1(1)] c2(1))
  then have e: "ok" "c' = c2" using assms(4) by auto
  have "lg_ID r < ct_seq c2" if "r \<in> set (ft_Rows t)" for r
    unfolding c2(4) by (rule max_id_bound) (use that in \<open>force simp: copied_def\<close>)
  moreover have "list_all2 (converted now) (ft_Rows t) ?rows" by (simp add: list_all2_map2 list_all2_same copied_converted)
  moreover have "map_of (ct_legacy c2) l = Some (add_columns t)" using c1(4) c2(3) assms(3) by (simp add: map_add_def)
  ultimately show ?thesis using e c1(3) c2(2) add_columns_retains [OF assms(2)] by simp
qed

section \<open>A migration that is interrupted\<close>

text \<open>No copy of the old rows: there is no table, or it has partitions and no row.\<close>

definition no_rows :: "catalog \<Rightarrow> bool" where
  "no_rows c \<longleftrightarrow> ct_logs c = None \<or> ct_logs c = Some (Partitioned [])"

definition holds_legacy :: "string \<Rightarrow> legacy_row list \<Rightarrow> catalog \<Rightarrow> bool" where
  "holds_legacy l rows c \<longleftrightarrow> (case map_of (ct_legacy c) l of None \<Rightarrow> False | Some t \<Rightarrow> map lg_ID (ft_Rows t) = map lg_ID rows)"

fun copies :: "schema_stmt \<Rightarrow> bool" where
  "copies (CopyLegacy l) = True"
| "copies _ = False"

fun renames :: "schema_stmt \<Rightarrow> bool" where
  "renames (RenameTo l) = True"
| "renames _ = False"

lemma add_column_ids: "map lg_ID (ft_Rows (add_column col t)) = map lg_ID (ft_Rows t)"
  by (cases col) (simp_all add: add_column_def)

lemma map_of_changed: "map_of (map (\<lambda>(n, t). (n, if n = l then f t else t)) xs) k = (if k = l then map_option f (map_of xs k) else map_of xs k)"
  by (induction xs) (auto split: prod.splits)

lemma exec_no_rows:
  assumes "exec_schema now s c = Some c'" "\<not> copies s" "\<not> renames s"
  shows "no_rows c \<Longrightarrow> no_rows c'" "holds_legacy l rows c \<Longrightarrow> holds_legacy l rows c'"
  using assms
  by (cases s; auto simp: no_rows_def holds_legacy_def map_of_changed add_column_ids split: if_splits option.splits logs_relation.splits)+

lemma exec_all_no_rows:
  assumes "\<forall>s \<in> set ss. \<not> copies s \<and> \<not> renames s" "no_rows c" "holds_legacy l rows c"
  shows "no_rows (snd (exec_all_schema now ss c)) \<and> holds_legacy l rows (snd (exec_all_schema now ss c))"
  using assms
proof (induction ss arbitrary: c)
  case (Cons s ss)
  then show ?case using exec_no_rows [of now s c] by (cases "exec_schema now s c") auto
qed simp

text \<open>A start whose table is not an old one neither renames nor copies.\<close>

lemma later_starts:
  assumes "no_rows c" "s \<in> set (EnsureLogsSchema now l c)"
  shows "\<not> copies s \<and> \<not> renames s"
  using assms
  by (auto simp: no_rows_def EnsureLogsSchema_def ensureAPILogPartitionRegistry_def createPartitionedAPILogTable_def ensureAPILogParentShape_def
      ensureAPILogSubpartitionRoots_def month_stmts_def Let_def)

fun starts :: "(time \<times> string \<times> nat) list \<Rightarrow> catalog \<Rightarrow> catalog" where
  "starts [] c = c"
| "starts ((now, l, n) # ws) c = starts ws (snd (start_logs now l n c))"

lemma starts_no_rows:
  "no_rows c \<Longrightarrow> holds_legacy l rows c \<Longrightarrow> no_rows (starts ws c) \<and> holds_legacy l rows (starts ws c)"
proof (induction ws c rule: starts.induct)
  case (2 now l' n ws c)
  have "\<forall>s \<in> set (take n (EnsureLogsSchema now l' c)). \<not> copies s \<and> \<not> renames s"
    using later_starts [OF "2.prems"(1)] by (meson in_set_takeD)
  from exec_all_no_rows [OF this "2.prems", of now]
  show ?case using "2.IH" by (simp add: start_logs_def)
qed simp

text \<open>
  C35: an interrupted migration is never resumed.  If the first start is stopped (by a crash, an
  error or its deadline) after the old table was renamed and before the rows were copied, then
  no later start, interrupted or not, ever copies them: the log table stays without the old
  rows for good, which are still under the other name.
\<close>
theorem interrupted_migration_strands_logs:
  assumes "ct_logs c = Some (Flat t)" "map_of (ct_legacy c) l = None"
    and "RenameTo l \<in> set (take n (EnsureLogsSchema now l c))" "CopyLegacy l \<notin> set (take n (EnsureLogsSchema now l c))"
  shows "no_rows (starts ws (snd (start_logs now l n c))) \<and> holds_legacy l (ft_Rows t) (starts ws (snd (start_logs now l n c)))"
proof -
  let ?c0 = "c\<lparr>ct_registry := True\<rparr>" and ?rest = "tl (migrateUnpartitionedAPILogs now l t) @ finish_stmts now"
  let ?c1 = "c\<lparr>ct_registry := True, ct_logs := None, ct_legacy := ct_legacy c @ [(l, t)]\<rparr>"
  have ss: "EnsureLogsSchema now l c = ensureAPILogPartitionRegistry @ RenameTo l # ?rest"
    using assms(1) by (simp add: EnsureLogsSchema_def finish_stmts_def migrateUnpartitionedAPILogs_def)
  have len: "length ensureAPILogPartitionRegistry < n"
  proof (rule ccontr)
    assume "\<not> length ensureAPILogPartitionRegistry < n"
    then have "RenameTo l \<in> set ensureAPILogPartitionRegistry" using assms(3) unfolding ss by (auto dest: in_set_takeD)
    then show False by (auto simp: ensureAPILogPartitionRegistry_def)
  qed
  then obtain k where k: "n = length ensureAPILogPartitionRegistry + Suc k" using less_imp_Suc_add by fastforce
  have tk: "take n (EnsureLogsSchema now l c) = ensureAPILogPartitionRegistry @ RenameTo l # take k ?rest"
    unfolding ss k by simp
  have "l \<notin> set (map fst (ct_legacy c))" using assms(2) by (simp add: map_of_eq_None_iff)
  then have run: "start_logs now l n c = exec_all_schema now (take k ?rest) ?c1"
    using assms(1) unfolding start_logs_def tk by (simp add: exec_append)
  have "\<forall>s \<in> set (take k ?rest). \<not> copies s \<and> \<not> renames s"
  proof
    fix s assume s: "s \<in> set (take k ?rest)"
    then have in_rest: "s \<in> set ?rest" by (rule in_set_takeD)
    have "s \<noteq> CopyLegacy l" using assms(4) s unfolding tk by auto
    then show "\<not> copies s \<and> \<not> renames s" using in_rest
      by (auto simp: migrateUnpartitionedAPILogs_def finish_stmts_def ensureAPILogPartitionRegistry_def createPartitionedAPILogTable_def
          ensureAPILogParentShape_def ensureAPILogSubpartitionRoots_def month_stmts_def Let_def)
  qed
  moreover have "no_rows ?c1" "holds_legacy l (ft_Rows t) ?c1"
    using assms(2) by (simp_all add: no_rows_def holds_legacy_def map_add_def)
  ultimately have "no_rows (snd (start_logs now l n c)) \<and> holds_legacy l (ft_Rows t) (snd (start_logs now l n c))"
    unfolding run by (rule exec_all_no_rows)
  then show ?thesis using starts_no_rows by blast
qed

section \<open>A table of two rows\<close>

definition legacy_demo :: "int \<Rightarrow> string \<Rightarrow> time option \<Rightarrow> legacy_row" where
  "legacy_demo i path t = \<lparr> lg_ID = i, lg_Method = Some ''POST'', lg_Path = Some path, lg_Status = Some 401, lg_Duration = None, lg_IP = None,
     lg_RequestID = None, lg_ActorID = None, lg_Surface = None, lg_Route = None, lg_AuthResult = None, lg_RequestBody = None,
     lg_ResponseBody = None, lg_CreatedAt = t \<rparr>"

text \<open>The path of the second row is no internal path; the pattern takes it for one.\<close>

definition old_logs :: flat_table where
  "old_logs = \<lparr> ft_Columns = [], ft_Rows = [legacy_demo 7 ''/api/business/status'' (Some 5), legacy_demo 9 ''/api/xinternal/login'' None] \<rparr>"

definition old_catalog :: catalog where
  "old_catalog = \<lparr> ct_logs = Some (Flat old_logs), ct_legacy = [], ct_roots = [], ct_registry = False,
     ct_parts = \<lparr> registry = [], leaves = [], partitionWarned = False \<rparr>, ct_seq = 10 \<rparr>"

theorem migration_keeps_logs_witness:
  "\<exists>a b. start_logs 3000000000000000 ''old'' (length (EnsureLogsSchema 3000000000000000 ''old'' old_catalog)) old_catalog = (True, a)
    \<and> ct_logs a = Some (Partitioned b) \<and> map (\<lambda>x. (le_ID (q_Entry x), le_Path (q_Entry x), le_APISurface (q_Entry x), le_AuthResult (q_Entry x))) b
       = [(7, ''/api/business/status'', ''business'', ''unauthenticated''), (9, ''/api/xinternal/login'', ''internal'', ''unauthenticated'')]"
proof -
  let ?now = "3000000000000000"
  have n: "absent_null old_logs" by (simp add: absent_null_def old_logs_def legacy_demo_def)
  have o: "ct_logs old_catalog = Some (Flat old_logs)" "map_of (ct_legacy old_catalog) ''old'' = None" by (simp_all add: old_catalog_def)
  obtain ok a where r: "start_logs ?now ''old'' (length (EnsureLogsSchema ?now ''old'' old_catalog)) old_catalog = (ok, a)" by (rule prod.exhaust)
  obtain b where b: "ok" "ct_logs a = Some (Partitioned b)" "list_all2 (converted ?now) (ft_Rows old_logs) b"
    using migration_keeps_logs [OF o(1) n o(2) r] by blast
  then obtain x y where xy: "b = [x, y]" "converted ?now (legacy_demo 7 ''/api/business/status'' (Some 5)) x"
      "converted ?now (legacy_demo 9 ''/api/xinternal/login'' None) y"
    by (auto simp: old_logs_def list_all2_Cons1)
  have "le_ID (q_Entry x) = 7 \<and> le_Path (q_Entry x) = ''/api/business/status'' \<and> le_APISurface (q_Entry x) = ''business''
      \<and> le_AuthResult (q_Entry x) = ''unauthenticated''"
    using xy(2) by (simp add: converted_def legacy_demo_def)
  moreover have "le_ID (q_Entry y) = 9 \<and> le_Path (q_Entry y) = ''/api/xinternal/login'' \<and> le_APISurface (q_Entry y) = ''internal''
      \<and> le_AuthResult (q_Entry y) = ''unauthenticated''"
    using xy(3) by (simp add: converted_def legacy_demo_def)
  ultimately show ?thesis using r b(1,2) xy(1) by simp
qed

theorem interrupted_migration_strands_logs_witness:
  "no_rows (starts [(4000000000000000, ''old2'', 100)] (snd (start_logs 3000000000000000 ''old'' 20 old_catalog)))
   \<and> map lg_ID (ft_Rows old_logs) = [7, 9]"
proof
  have o: "ct_logs old_catalog = Some (Flat old_logs)" "map_of (ct_legacy old_catalog) ''old'' = None" by (simp_all add: old_catalog_def)
  let ?ss = "take 20 (EnsureLogsSchema 3000000000000000 ''old'' old_catalog)"
  have "list_ex renames ?ss \<and> \<not> list_ex copies ?ss \<and> list_all (\<lambda>s. renames s \<longrightarrow> s = RenameTo ''old'') ?ss"
    by (simp add: EnsureLogsSchema_def o ensureAPILogPartitionRegistry_def migrateUnpartitionedAPILogs_def createPartitionedAPILogTable_def
        ensureAPILogParentShape_def)
  then have "RenameTo ''old'' \<in> set ?ss" "CopyLegacy ''old'' \<notin> set ?ss" by (auto simp: list_ex_iff list_all_iff)
  from interrupted_migration_strands_logs [OF o this]
  show "no_rows (starts [(4000000000000000, ''old2'', 100)] (snd (start_logs 3000000000000000 ''old'' 20 old_catalog)))" by blast
  show "map lg_ID (ft_Rows old_logs) = [7, 9]" by (simp add: old_logs_def legacy_demo_def)
qed

end
