(* ===== verification/Ddl.thy ===== *)
theory Ddl
  imports Prelude
begin

text \<open>
  What the migrations of the payment tables use of PostgreSQL.  A schema holds the tables with their
  columns, constraints and rows, and the indexes.  A statement fails when something it names is
  missing or when the rows break what it asks for.  The default name of a constraint is taken to be free, and
  is not shortened to 63 bytes.
\<close>

section \<open>Rows and conditions\<close>

datatype sql_value = SText string | SInt int | SBool bool

type_synonym sql_row = "string \<Rightarrow> sql_value option"

datatype sql_cond =
    Always
  | NotNull string
  | NotBlank string
  | IsTrue string
  | Equals string string
  | OneOf string "string list"
  | Positive string
  | NonEmptyTrim string
  | Both sql_cond sql_cond
  | Either sql_cond sql_cond

definition trim_spaces :: "string \<Rightarrow> string" where
  "trim_spaces s = rev (dropWhile ((=) CHR '' '') (rev (dropWhile ((=) CHR '' '') s)))"

text \<open>
  SQL's three truth values, with None for NULL.  NotBlank is NULLIF(trim(c), '') IS NOT NULL and
  NonEmptyTrim is length(trim(c)) > 0, which differ on NULL.
\<close>

fun truth :: "sql_cond \<Rightarrow> sql_row \<Rightarrow> bool option" where
  "truth Always r = Some True"
| "truth (NotNull c) r = Some (r c \<noteq> None)"
| "truth (NotBlank c) r = Some (case r c of Some (SText s) \<Rightarrow> trim_spaces s \<noteq> [] | Some _ \<Rightarrow> True | None \<Rightarrow> False)"
| "truth (IsTrue c) r = map_option ((=) (SBool True)) (r c)"
| "truth (Equals c v) r = map_option ((=) (SText v)) (r c)"
| "truth (OneOf c vs) r = map_option (\<lambda>x. x \<in> SText ` set vs) (r c)"
| "truth (Positive c) r = map_option (\<lambda>x. case x of SInt n \<Rightarrow> 0 < n | _ \<Rightarrow> False) (r c)"
| "truth (NonEmptyTrim c) r = map_option (\<lambda>x. case x of SText s \<Rightarrow> trim_spaces s \<noteq> [] | _ \<Rightarrow> True) (r c)"
| "truth (Both p q) r =
     (case (truth p r, truth q r) of
        (Some False, _) \<Rightarrow> Some False
      | (_, Some False) \<Rightarrow> Some False
      | (Some True, Some True) \<Rightarrow> Some True
      | _ \<Rightarrow> None)"
| "truth (Either p q) r =
     (case (truth p r, truth q r) of
        (Some True, _) \<Rightarrow> Some True
      | (_, Some True) \<Rightarrow> Some True
      | (Some False, Some False) \<Rightarrow> Some False
      | _ \<Rightarrow> None)"

section \<open>Schemas\<close>

record col_def =
  cd_Name :: string
  cd_Type :: string
  cd_NotNull :: bool
  cd_Default :: "string option"

datatype table_constraint =
    PrimaryKey "string list"
  | UniqueKey "string list"
  | Foreign "string list" string "string list"
  | CheckThat sql_cond

record table_def =
  td_Columns :: "col_def list"
  td_Constraints :: "(string \<times> table_constraint) list"
  td_Rows :: "sql_row list"

record index_def =
  ix_Name :: string
  ix_Table :: string
  ix_Columns :: "string list"
  ix_Unique :: bool
  ix_Where :: sql_cond

record schema =
  sc_Tables :: "(string \<times> table_def) list"
  sc_Indexes :: "index_def list"

abbreviation table_of :: "schema \<Rightarrow> string \<Rightarrow> table_def option" where
  "table_of db \<equiv> map_of (sc_Tables db)"

definition sql_rows :: "schema \<Rightarrow> string \<Rightarrow> sql_row list" where
  "sql_rows db t = (case table_of db t of None \<Rightarrow> [] | Some td \<Rightarrow> td_Rows td)"

definition has_columns :: "schema \<Rightarrow> string \<Rightarrow> string list \<Rightarrow> bool" where
  "has_columns db t cs = (case table_of db t of None \<Rightarrow> False | Some td \<Rightarrow> set cs \<subseteq> set (map cd_Name (td_Columns td)))"

text \<open>The rows a unique index covers have different keys; a key with a NULL equals no other.\<close>

definition key_of :: "string list \<Rightarrow> sql_cond \<Rightarrow> sql_row \<Rightarrow> sql_value list option" where
  "key_of cs p r = (if truth p r = Some True then those (map r cs) else None)"

definition unique_rows :: "string list \<Rightarrow> sql_cond \<Rightarrow> sql_row list \<Rightarrow> bool" where
  "unique_rows cs p rows = distinct (List.map_filter (key_of cs p) rows)"

fun constraint_holds :: "schema \<Rightarrow> sql_row list \<Rightarrow> table_constraint \<Rightarrow> bool" where
  "constraint_holds db rows (PrimaryKey cs) = (unique_rows cs Always rows \<and> (\<forall>r \<in> set rows. \<forall>c \<in> set cs. r c \<noteq> None))"
| "constraint_holds db rows (UniqueKey cs) = unique_rows cs Always rows"
| "constraint_holds db rows (Foreign cs t refs) =
     (\<forall>r \<in> set rows. case those (map r cs) of None \<Rightarrow> True | Some k \<Rightarrow> Some k \<in> set (map (\<lambda>r'. those (map r' refs)) (sql_rows db t)))"
| "constraint_holds db rows (CheckThat p) = (\<forall>r \<in> set rows. truth p r \<noteq> Some False)"

definition table_holds :: "schema \<Rightarrow> table_def \<Rightarrow> bool" where
  "table_holds db td = ((\<forall>c \<in> set (td_Columns td). cd_NotNull c \<longrightarrow> (\<forall>r \<in> set (td_Rows td). r (cd_Name c) \<noteq> None))
     \<and> (\<forall>k \<in> set (map snd (td_Constraints td)). constraint_holds db (td_Rows td) k))"

definition index_holds :: "schema \<Rightarrow> index_def \<Rightarrow> bool" where
  "index_holds db i = (ix_Unique i \<longrightarrow> unique_rows (ix_Columns i) (ix_Where i) (sql_rows db (ix_Table i)))"

definition schema_holds :: "schema \<Rightarrow> bool" where
  "schema_holds db = ((\<forall>td \<in> set (map snd (sc_Tables db)). table_holds db td) \<and> (\<forall>i \<in> set (sc_Indexes db). index_holds db i))"

text \<open>Tables, indexes and keys share their names; a foreign key needs a key over the columns it refers to.\<close>

fun is_key :: "table_constraint \<Rightarrow> bool" where
  "is_key (PrimaryKey _) = True"
| "is_key (UniqueKey _) = True"
| "is_key _ = False"

definition constraints_of :: "schema \<Rightarrow> (string \<times> table_constraint) list" where
  "constraints_of db = concat (map (td_Constraints \<circ> snd) (sc_Tables db))"

definition key_names :: "schema \<Rightarrow> string list" where
  "key_names db = map fst (filter (is_key \<circ> snd) (constraints_of db))"

definition relation_names :: "schema \<Rightarrow> string list" where
  "relation_names db = map fst (sc_Tables db) @ map ix_Name (sc_Indexes db) @ key_names db"

fun keyed_by :: "string list \<Rightarrow> table_constraint \<Rightarrow> bool" where
  "keyed_by cs (PrimaryKey ks) = (set ks = set cs)"
| "keyed_by cs (UniqueKey ks) = (set ks = set cs)"
| "keyed_by cs _ = False"

fun referable :: "schema \<Rightarrow> table_constraint \<Rightarrow> bool" where
  "referable db (Foreign cs t refs) =
     (has_columns db t refs
      \<and> ((case table_of db t of None \<Rightarrow> False | Some td \<Rightarrow> list_ex (keyed_by refs \<circ> snd) (td_Constraints td))
         \<or> list_ex (\<lambda>i. ix_Table i = t \<and> ix_Unique i \<and> ix_Where i = Always \<and> set (ix_Columns i) = set refs) (sc_Indexes db)))"
| "referable db _ = True"

section \<open>Statements\<close>

text \<open>
  Every CREATE and ADD COLUMN is IF NOT EXISTS, every DROP is IF EXISTS, and AddConstraint is the DO block's
  ALTER under its look into pg_constraint.  FillNull is UPDATE t SET c = v WHERE c IS NULL.
\<close>

datatype ddl =
    CreateTable string "col_def list" "(string \<times> table_constraint) list"
  | AddColumn string col_def
  | CreateIndex index_def
  | DropIndex string
  | DropConstraint string string
  | SetNotNull string string
  | FillNull string string string
  | BackfillOrders
  | AddConstraint string string table_constraint

definition on_table :: "string \<Rightarrow> (table_def \<Rightarrow> table_def) \<Rightarrow> schema \<Rightarrow> schema" where
  "on_table t f db = db\<lparr>sc_Tables := map (\<lambda>(n, td). (n, if n = t then f td else td)) (sc_Tables db)\<rparr>"

text \<open>An UPDATE with several matching rows in FROM takes one of them, here the first.\<close>

definition order_for :: "sql_row list \<Rightarrow> sql_row \<Rightarrow> sql_value option" where
  "order_for payments i =
     (if i ''order_id'' \<noteq> None \<or> i ''inquiry_id'' = None then None
      else case filter (\<lambda>p. p ''inquiry_id'' = i ''inquiry_id'' \<and> p ''order_id'' \<noteq> None) payments of
        [] \<Rightarrow> None | p # _ \<Rightarrow> p ''order_id'')"

definition backfill :: "sql_row list \<Rightarrow> sql_row \<Rightarrow> sql_row" where
  "backfill payments i = (case order_for payments i of None \<Rightarrow> i | Some v \<Rightarrow> i(''order_id'' := Some v))"

definition fill_null :: "string \<Rightarrow> sql_value \<Rightarrow> sql_row \<Rightarrow> sql_row" where
  "fill_null c v r = (if r c = None then r(c := Some v) else r)"

definition new_column :: "string \<Rightarrow> col_def \<Rightarrow> sql_row \<Rightarrow> sql_row" where
  "new_column now c r = r(cd_Name c := map_option (\<lambda>d. SText (if d = ''CURRENT_TIMESTAMP'' then now else d)) (cd_Default c))"

definition set_not_null :: "string \<Rightarrow> col_def \<Rightarrow> col_def" where
  "set_not_null c d = (if cd_Name d = c then d\<lparr>cd_NotNull := True\<rparr> else d)"

fun ddl_step :: "string \<Rightarrow> ddl \<Rightarrow> schema \<Rightarrow> schema option" where
  "ddl_step now (CreateTable t cs ks) db =
     (if table_of db t \<noteq> None then Some db
      else let db' = db\<lparr>sc_Tables := sc_Tables db @ [(t, \<lparr>td_Columns = cs, td_Constraints = ks, td_Rows = []\<rparr>)]\<rparr>
        in if list_all (referable db' \<circ> snd) ks then Some db' else None)"
| "ddl_step now (AddColumn t c) db =
     (if table_of db t = None then None
      else if has_columns db t [cd_Name c] then Some db
      else Some (on_table t (\<lambda>td. td\<lparr>td_Columns := td_Columns td @ [c], td_Rows := map (new_column now c) (td_Rows td)\<rparr>) db))"
| "ddl_step now (CreateIndex i) db =
     (if \<not> has_columns db (ix_Table i) (ix_Columns i) then None
      else if ix_Name i \<in> set (relation_names db) then Some db
      else Some (db\<lparr>sc_Indexes := sc_Indexes db @ [i]\<rparr>))"
| "ddl_step now (DropIndex n) db =
     (if n \<in> set (key_names db) then None else Some (db\<lparr>sc_Indexes := filter (\<lambda>i. ix_Name i \<noteq> n) (sc_Indexes db)\<rparr>))"
| "ddl_step now (DropConstraint t n) db =
     (if table_of db t = None then None
      else Some (on_table t (\<lambda>td. td\<lparr>td_Constraints := filter (\<lambda>k. fst k \<noteq> n) (td_Constraints td)\<rparr>) db))"
| "ddl_step now (SetNotNull t c) db =
     (if \<not> has_columns db t [c] then None
      else Some (on_table t (\<lambda>td. td\<lparr>td_Columns := map (set_not_null c) (td_Columns td)\<rparr>) db))"
| "ddl_step now (FillNull t c v) db =
     (if \<not> has_columns db t [c] then None
      else Some (on_table t (\<lambda>td. td\<lparr>td_Rows := map (fill_null c (SText v)) (td_Rows td)\<rparr>) db))"
| "ddl_step now BackfillOrders db =
     (if \<not> has_columns db ''intra_inquiries'' [''inquiry_id'', ''order_id''] \<or> \<not> has_columns db ''payment_transactions'' [''inquiry_id'', ''order_id'']
      then None
      else Some (on_table ''intra_inquiries'' (\<lambda>td. td\<lparr>td_Rows := map (backfill (sql_rows db ''payment_transactions'')) (td_Rows td)\<rparr>) db))"
| "ddl_step now (AddConstraint n t k) db =
     (if n \<in> set (map fst (constraints_of db)) then Some db
      else if table_of db t = None \<or> \<not> referable db k then None
      else Some (on_table t (\<lambda>td. td\<lparr>td_Constraints := td_Constraints td @ [(n, k)]\<rparr>) db))"

text \<open>A statement whose result the rows contradict fails and changes nothing.\<close>

definition exec_ddl :: "string \<Rightarrow> ddl \<Rightarrow> schema \<Rightarrow> schema option" where
  "exec_ddl now s db = (case ddl_step now s db of None \<Rightarrow> None | Some db' \<Rightarrow> if schema_holds db' then Some db' else None)"

text \<open>Statements one by one, each committed, up to the first that fails.\<close>

fun exec_ddls :: "string \<Rightarrow> ddl list \<Rightarrow> schema \<Rightarrow> bool \<times> schema" where
  "exec_ddls now [] db = (True, db)"
| "exec_ddls now (s # ss) db = (case exec_ddl now s db of None \<Rightarrow> (False, db) | Some db' \<Rightarrow> exec_ddls now ss db')"

section \<open>Statements on one table\<close>

lemma entries_on_table:
  "set (sc_Tables (on_table t f db)) = (\<lambda>(n, td). (n, if n = t then f td else td)) ` set (sc_Tables db)"
  by (simp add: on_table_def)

lemma table_of_on_table [simp]:
  "table_of (on_table t f db) n = (if n = t then map_option f (table_of db n) else table_of db n)"
proof -
  have "map_of (map (\<lambda>(n, td). (n, if n = t then f td else td)) ts) n
      = (if n = t then map_option f (map_of ts n) else map_of ts n)" for ts
    by (induction ts) auto
  then show ?thesis by (simp add: on_table_def)
qed

lemma on_table_simps [simp]:
  "sc_Indexes (on_table t f db) = sc_Indexes db" "map fst (sc_Tables (on_table t f db)) = map fst (sc_Tables db)"
  by (auto simp: on_table_def)

lemma sql_rows_on_table:
  "sql_rows (on_table t f db) n = (if n = t \<and> table_of db t \<noteq> None then td_Rows (f (the (table_of db t))) else sql_rows db n)"
  by (auto simp: sql_rows_def split: option.splits)

lemma on_table_noop:
  "(\<And>td. (t, td) \<in> set (sc_Tables db) \<Longrightarrow> f td = td) \<Longrightarrow> on_table t f db = db"
  by (auto simp: on_table_def intro!: schema.equality map_idI split: prod.splits)

lemma table_of_present: "table_of db t \<noteq> None \<longleftrightarrow> t \<in> fst ` set (sc_Tables db)"
  by (simp add: map_of_eq_None_iff)

lemma set_not_null_simps [simp]:
  "cd_Name (set_not_null c d) = cd_Name d" "cd_NotNull (set_not_null c d) \<longleftrightarrow> cd_Name d = c \<or> cd_NotNull d"
  "cd_NotNull d \<Longrightarrow> set_not_null c d = d" "cd_Name d \<noteq> c \<Longrightarrow> set_not_null c d = d"
  by (simp_all add: set_not_null_def)

lemma set_not_null_names [simp]: "cd_Name ` set_not_null c ` A = cd_Name ` A"
  by (simp add: image_image)

lemma constraints_of_indexes [simp]: "constraints_of (db\<lparr>sc_Indexes := is\<rparr>) = constraints_of db"
  by (simp add: constraints_of_def)

section \<open>Settled statements\<close>

text \<open>What a statement leaves behind, which is also when it has nothing to do.\<close>

fun settled :: "ddl \<Rightarrow> schema \<Rightarrow> bool" where
  "settled (CreateTable t cs ks) db = (table_of db t \<noteq> None)"
| "settled (AddColumn t c) db = has_columns db t [cd_Name c]"
| "settled (CreateIndex i) db = (has_columns db (ix_Table i) (ix_Columns i) \<and> ix_Name i \<in> set (relation_names db))"
| "settled (DropIndex n) db = (n \<notin> set (key_names db) \<and> n \<notin> ix_Name ` set (sc_Indexes db))"
| "settled (DropConstraint t n) db =
     (table_of db t \<noteq> None \<and> (\<forall>td k. (t, td) \<in> set (sc_Tables db) \<longrightarrow> (n, k) \<notin> set (td_Constraints td)))"
| "settled (SetNotNull t c) db =
     (has_columns db t [c] \<and> (\<forall>td d. (t, td) \<in> set (sc_Tables db) \<longrightarrow> d \<in> set (td_Columns td) \<longrightarrow> cd_Name d = c \<longrightarrow> cd_NotNull d))"
| "settled (FillNull t c v) db =
     (has_columns db t [c] \<and> (\<forall>td r. (t, td) \<in> set (sc_Tables db) \<longrightarrow> r \<in> set (td_Rows td) \<longrightarrow> r c \<noteq> None))"
| "settled BackfillOrders db =
     (has_columns db ''intra_inquiries'' [''inquiry_id'', ''order_id''] \<and> has_columns db ''payment_transactions'' [''inquiry_id'', ''order_id'']
      \<and> (\<forall>td i. (''intra_inquiries'', td) \<in> set (sc_Tables db) \<longrightarrow> i \<in> set (td_Rows td) \<longrightarrow> order_for (sql_rows db ''payment_transactions'') i = None))"
| "settled (AddConstraint n t k) db = (\<exists>k. (n, k) \<in> set (constraints_of db))"

lemma in_constraints_of: "(n, k) \<in> set (constraints_of db) \<longleftrightarrow> (\<exists>m td. (m, td) \<in> set (sc_Tables db) \<and> (n, k) \<in> set (td_Constraints td))"
  by (simp add: constraints_of_def Bex_def split_paired_Ex)

lemma in_key_names: "n \<in> set (key_names db) \<longleftrightarrow> (\<exists>k. is_key k \<and> (n, k) \<in> set (constraints_of db))"
  by (force simp: key_names_def)

lemma in_on_table:
  "(m, td) \<in> set (sc_Tables (on_table t f db)) \<longleftrightarrow> (\<exists>td0. (m, td0) \<in> set (sc_Tables db) \<and> td = (if m = t then f td0 else td0))"
  by (auto simp: entries_on_table image_iff Bex_def split_paired_Ex)

lemma not_constraint_name: "n \<notin> set (map fst (constraints_of db)) \<longleftrightarrow> (\<forall>k. (n, k) \<notin> set (constraints_of db))"
  by force

lemma settled_noop: "settled s db \<Longrightarrow> ddl_step now s db = Some db"
proof (cases s)
  case (DropIndex n)
  moreover assume "settled s db"
  ultimately show ?thesis by (auto intro!: schema.equality filter_True)
next
  case (DropConstraint t n)
  moreover assume "settled s db"
  ultimately show ?thesis by (fastforce intro!: on_table_noop table_def.equality filter_True)
next
  case (SetNotNull t c)
  moreover assume "settled s db"
  ultimately show ?thesis by (fastforce intro!: on_table_noop table_def.equality map_idI)
next
  case (FillNull t c v)
  moreover assume "settled s db"
  ultimately show ?thesis by (fastforce simp: fill_null_def intro!: on_table_noop table_def.equality map_idI)
next
  case BackfillOrders
  moreover assume "settled s db"
  ultimately show ?thesis by (auto simp: backfill_def intro!: on_table_noop table_def.equality map_idI)
next
  case (AddConstraint n t k)
  moreover assume "settled s db"
  ultimately show ?thesis by force
qed (auto simp: has_columns_def split: option.splits)

lemma order_for_backfilled [simp]: "order_for ps (backfill ps i) = None"
  by (auto simp: backfill_def order_for_def split: option.splits list.splits)

lemma step_settled: "ddl_step now s db = Some db' \<Longrightarrow> settled s db'"
proof (cases s)
  case (CreateTable t cs ks)
  moreover assume "ddl_step now s db = Some db'"
  ultimately show ?thesis by (auto simp: Let_def map_add_def split: if_splits option.splits)
next
  case (AddConstraint n t k)
  moreover assume "ddl_step now s db = Some db'"
  moreover have "(n, k) \<in> set (constraints_of (on_table t (\<lambda>td. td\<lparr>td_Constraints := td_Constraints td @ [(n, k)]\<rparr>) db))"
    if "table_of db t = Some td" for td
    using map_of_SomeD [OF that] by (force simp: in_constraints_of in_on_table)
  ultimately show ?thesis by (auto split: if_splits)
qed (auto simp: has_columns_def relation_names_def key_names_def in_on_table sql_rows_on_table fill_null_def
       split: if_splits option.splits)

section \<open>The forms of a step\<close>

fun target :: "ddl \<Rightarrow> string" where
  "target (AddColumn t c) = t"
| "target (DropConstraint t n) = t"
| "target (SetNotNull t c) = t"
| "target (FillNull t c v) = t"
| "target BackfillOrders = ''intra_inquiries''"
| "target (AddConstraint n t k) = t"
| "target _ = []"

fun change :: "string \<Rightarrow> sql_row list \<Rightarrow> ddl \<Rightarrow> table_def \<Rightarrow> table_def" where
  "change now ps (AddColumn t c) td = td\<lparr>td_Columns := td_Columns td @ [c], td_Rows := map (new_column now c) (td_Rows td)\<rparr>"
| "change now ps (DropConstraint t n) td = td\<lparr>td_Constraints := filter (\<lambda>k. fst k \<noteq> n) (td_Constraints td)\<rparr>"
| "change now ps (SetNotNull t c) td = td\<lparr>td_Columns := map (set_not_null c) (td_Columns td)\<rparr>"
| "change now ps (FillNull t c v) td = td\<lparr>td_Rows := map (fill_null c (SText v)) (td_Rows td)\<rparr>"
| "change now ps BackfillOrders td = td\<lparr>td_Rows := map (backfill ps) (td_Rows td)\<rparr>"
| "change now ps (AddConstraint n t k) td = td\<lparr>td_Constraints := td_Constraints td @ [(n, k)]\<rparr>"
| "change now ps _ td = td"

fun alters :: "ddl \<Rightarrow> schema \<Rightarrow> bool" where
  "alters (AddColumn t c) db = (table_of db t \<noteq> None \<and> \<not> has_columns db t [cd_Name c])"
| "alters (AddConstraint n t k) db = (table_of db t \<noteq> None \<and> (\<forall>k. (n, k) \<notin> set (constraints_of db)))"
| "alters (CreateTable _ _ _) db = False"
| "alters (CreateIndex _) db = False"
| "alters (DropIndex _) db = False"
| "alters s db = (table_of db (target s) \<noteq> None)"

lemma change_funs:
  "change now ps (AddColumn t d) = (\<lambda>td. td\<lparr>td_Columns := td_Columns td @ [d], td_Rows := map (new_column now d) (td_Rows td)\<rparr>)"
  "change now ps (DropConstraint t n) = (\<lambda>td. td\<lparr>td_Constraints := filter (\<lambda>k. fst k \<noteq> n) (td_Constraints td)\<rparr>)"
  "change now ps (SetNotNull t c) = (\<lambda>td. td\<lparr>td_Columns := map (set_not_null c) (td_Columns td)\<rparr>)"
  "change now ps (FillNull t c v) = (\<lambda>td. td\<lparr>td_Rows := map (fill_null c (SText v)) (td_Rows td)\<rparr>)"
  "change now ps BackfillOrders = (\<lambda>td. td\<lparr>td_Rows := map (backfill ps) (td_Rows td)\<rparr>)"
  "change now ps (AddConstraint n t k) = (\<lambda>td. td\<lparr>td_Constraints := td_Constraints td @ [(n, k)]\<rparr>)"
  by (simp_all add: fun_eq_iff)

lemma has_columns_table: "has_columns db t cs \<Longrightarrow> \<exists>td. table_of db t = Some td"
  by (auto simp: has_columns_def split: option.splits)

lemma ddl_step_cases:
  assumes "ddl_step now s db = Some db'"
  obtains (same) "db' = db"
  | (created) t cs ks where "s = CreateTable t cs ks" "table_of db t = None"
      "db' = db\<lparr>sc_Tables := sc_Tables db @ [(t, \<lparr>td_Columns = cs, td_Constraints = ks, td_Rows = []\<rparr>)]\<rparr>"
  | (altered) "alters s db" "db' = on_table (target s) (change now (sql_rows db ''payment_transactions'') s) db"
  | (indexed) i where "s = CreateIndex i" "ix_Name i \<notin> set (relation_names db)" "has_columns db (ix_Table i) (ix_Columns i)"
      "db' = db\<lparr>sc_Indexes := sc_Indexes db @ [i]\<rparr>"
  | (dropped) n where "s = DropIndex n" "db' = db\<lparr>sc_Indexes := filter (\<lambda>i. ix_Name i \<noteq> n) (sc_Indexes db)\<rparr>"
proof (cases s)
  case (SetNotNull t c)
  then show thesis using assms has_columns_table [of db t "[c]"] by (intro altered) (auto simp: change_funs split: if_splits)
next
  case (FillNull t c v)
  then show thesis using assms has_columns_table [of db t "[c]"] by (intro altered) (auto simp: change_funs split: if_splits)
next
  case BackfillOrders
  then show thesis using assms has_columns_table [of db "''intra_inquiries''" "[''inquiry_id'', ''order_id'']"]
    by (intro altered) (auto simp: change_funs split: if_splits)
next
  case (DropConstraint t n)
  then show thesis using assms by (intro altered) (auto simp: change_funs split: if_splits)
next
  case (AddColumn t c)
  then show thesis using assms by (cases "has_columns db t [cd_Name c]") (intro same altered; auto simp: change_funs split: if_splits)+
next
  case (AddConstraint n t k)
  show thesis
  proof (cases "n \<in> set (map fst (constraints_of db))")
    case True
    then show thesis using AddConstraint assms by (intro same) simp
  next
    case False
    moreover have "\<forall>k. (n, k) \<notin> set (constraints_of db)" using False not_constraint_name by blast
    ultimately show thesis using AddConstraint assms by (intro altered) (auto simp: change_funs split: if_splits)
  qed
next
  case (CreateTable t cs ks)
  show thesis
  proof (cases "table_of db t = None")
    case True
    then show thesis using CreateTable assms by (intro created [of t cs ks]) (simp_all add: Let_def split: if_splits)
  next
    case False
    then show thesis using CreateTable assms by (intro same) simp
  qed
next
  case (CreateIndex i)
  show thesis
  proof (cases "ix_Name i \<in> set (relation_names db)")
    case True
    then show thesis using CreateIndex assms by (intro same) (simp split: if_splits)
  next
    case False
    then show thesis using CreateIndex assms by (intro indexed [of i]) (simp_all split: if_splits)
  qed
next
  case (DropIndex n)
  then show thesis using assms dropped by (auto split: if_splits)
qed

lemma change_constraints: "set (td_Constraints td) - {(n, k). \<exists>t. s = DropConstraint t n} \<subseteq> set (td_Constraints (change now ps s td))"
  by (cases s) auto

lemma change_columns: "cd_Name ` set (td_Columns td) \<subseteq> cd_Name ` set (td_Columns (change now ps s td))"
  by (cases s) auto

lemma later_tables:
  assumes "ddl_step now s db = Some db'" "table_of db t \<noteq> None"
  shows "table_of db' t \<noteq> None"
  using assms(1) by (cases rule: ddl_step_cases) (use assms(2) in \<open>auto simp: map_add_def\<close>)

lemma later_columns:
  assumes "ddl_step now s db = Some db'" "has_columns db t cs"
  shows "has_columns db' t cs"
  using assms(1)
proof (cases rule: ddl_step_cases)
  case altered
  then show ?thesis using assms(2) change_columns by (fastforce simp: has_columns_def split: option.splits)
qed (use assms(2) in \<open>auto simp: has_columns_def map_add_def split: option.splits\<close>)

lemma later_constraint:
  assumes "ddl_step now s db = Some db'" "(m, td) \<in> set (sc_Tables db)" "(n, k) \<in> set (td_Constraints td)" "\<And>t. s \<noteq> DropConstraint t n"
  shows "\<exists>td'. (m, td') \<in> set (sc_Tables db') \<and> (n, k) \<in> set (td_Constraints td')"
  using assms(1)
proof (cases rule: ddl_step_cases)
  case altered
  have "(n, k) \<in> set (td_Constraints (change now (sql_rows db ''payment_transactions'') s td))"
    using change_constraints [of td s] assms(3,4) by auto
  then show ?thesis using assms(2,3) altered(2) by (auto simp: in_on_table)
qed (use assms(2,3) in auto)

text \<open>Where the constraints and the indexes of the later schema come from.\<close>

lemma earlier_constraint:
  assumes "ddl_step now s db = Some db'" "(m, td') \<in> set (sc_Tables db')" "(n, k) \<in> set (td_Constraints td')"
  obtains (old) td where "(m, td) \<in> set (sc_Tables db)" "(n, k) \<in> set (td_Constraints td)"
  | (made) cs ks where "s = CreateTable m cs ks" "(n, k) \<in> set ks" "table_of db m = None"
  | (added) "s = AddConstraint n m k"
  using assms(1)
proof (cases rule: ddl_step_cases)
  case altered
  then show thesis using assms(2,3) old added by (cases s) (auto simp: in_on_table split: if_splits)
qed (use assms(2,3) old made in auto)

lemma earlier_index:
  assumes "ddl_step now s db = Some db'" "i \<in> set (sc_Indexes db')"
  shows "i \<in> set (sc_Indexes db) \<or> s = CreateIndex i \<and> ix_Name i \<notin> set (relation_names db)"
  using assms(1) by (cases rule: ddl_step_cases) (use assms(2) in auto)

lemma later_index:
  assumes "ddl_step now s db = Some db'" "i \<in> set (sc_Indexes db)" "s \<noteq> DropIndex (ix_Name i)"
  shows "i \<in> set (sc_Indexes db')"
  using assms(1) by (cases rule: ddl_step_cases) (use assms(2,3) in auto)

lemma later_names:
  assumes "ddl_step now s db = Some db'" "n \<in> set (relation_names db)" "s \<noteq> DropIndex n" "\<And>t. s \<noteq> DropConstraint t n"
  shows "n \<in> set (relation_names db')"
proof -
  consider "table_of db n \<noteq> None" | i where "i \<in> set (sc_Indexes db)" "ix_Name i = n"
    | m td k where "(m, td) \<in> set (sc_Tables db)" "(n, k) \<in> set (td_Constraints td)" "is_key k"
    using assms(2) by (auto simp: relation_names_def in_key_names in_constraints_of map_of_eq_None_iff)
  then show ?thesis
  proof cases
    case 1
    then show ?thesis using later_tables [OF assms(1)] by (simp add: relation_names_def map_of_eq_None_iff)
  next
    case 2
    then show ?thesis using later_index [OF assms(1)] assms(3) by (auto simp: relation_names_def)
  next
    case 3
    then show ?thesis using later_constraint [OF assms(1) 3(1,2) assms(4)]
      by (auto simp: relation_names_def in_key_names in_constraints_of)
  qed
qed

lemma earlier_rows:
  assumes "ddl_step now s db = Some db'" "(m, td') \<in> set (sc_Tables db')"
  obtains (new) cs ks where "s = CreateTable m cs ks" "table_of db m = None" "td_Rows td' = []"
  | (same) "(m, td') \<in> set (sc_Tables db)"
  | (changed) td where "(m, td) \<in> set (sc_Tables db)" "m = target s" "alters s db"
      "td' = change now (sql_rows db ''payment_transactions'') s td"
  using assms(1)
proof (cases rule: ddl_step_cases)
  case altered
  then show thesis using assms(2) same changed by (auto simp: in_on_table split: if_splits)
qed (use assms(2) same new in auto)

lemma change_values:
  assumes "r' \<in> set (td_Rows (change now ps s td))" "alters s db" "has_columns db (target s) cs"
    and "s \<noteq> BackfillOrders" "\<forall>t c v. s = FillNull t c v \<longrightarrow> c \<notin> set cs"
  shows "\<exists>r \<in> set (td_Rows td). \<forall>c \<in> set cs. r' c = r c"
proof (cases s)
  case (AddColumn t c)
  then have "cd_Name c \<notin> set cs" using assms(2,3) by (auto simp: has_columns_def split: option.splits)
  then show ?thesis using assms(1) AddColumn by (force simp: new_column_def)
next
  case (FillNull t c v)
  then show ?thesis using assms(1,5) by (force simp: fill_null_def)
qed (use assms in auto)

lemma order_for_None:
  "order_for ps i = None \<longleftrightarrow> i ''order_id'' \<noteq> None \<or> i ''inquiry_id'' = None
     \<or> (\<forall>p \<in> set ps. p ''inquiry_id'' = i ''inquiry_id'' \<longrightarrow> p ''order_id'' = None)"
proof (cases "filter (\<lambda>p. p ''inquiry_id'' = i ''inquiry_id'' \<and> p ''order_id'' \<noteq> None) ps")
  case Nil
  then show ?thesis by (auto simp: order_for_def filter_empty_conv)
next
  case (Cons p qs)
  have "p \<in> set (filter (\<lambda>p. p ''inquiry_id'' = i ''inquiry_id'' \<and> p ''order_id'' \<noteq> None) ps)"
    unfolding Cons by simp
  then have "p \<in> set ps \<and> p ''inquiry_id'' = i ''inquiry_id'' \<and> p ''order_id'' \<noteq> None" by simp
  then show ?thesis using Cons by (auto simp: order_for_def)
qed

lemma order_for_kept:
  assumes "order_for ps i = None" "i' ''order_id'' = i ''order_id''" "i' ''inquiry_id'' = i ''inquiry_id''"
    and "\<And>p'. p' \<in> set ps' \<Longrightarrow> \<exists>p \<in> set ps. p' ''order_id'' = p ''order_id'' \<and> p' ''inquiry_id'' = p ''inquiry_id''"
  shows "order_for ps' i' = None"
proof -
  have "\<forall>p' \<in> set ps'. p' ''inquiry_id'' = i ''inquiry_id'' \<longrightarrow> p' ''order_id'' = None"
    if "\<forall>p \<in> set ps. p ''inquiry_id'' = i ''inquiry_id'' \<longrightarrow> p ''order_id'' = None"
  proof
    fix p' assume "p' \<in> set ps'"
    from assms(4) [OF this] obtain p where p: "p \<in> set ps" "p' ''order_id'' = p ''order_id''" "p' ''inquiry_id'' = p ''inquiry_id''" by blast
    show "p' ''inquiry_id'' = i ''inquiry_id'' \<longrightarrow> p' ''order_id'' = None" unfolding p(2,3) using that p(1) by blast
  qed
  then show ?thesis using assms(1) unfolding order_for_None assms(2,3) by blast
qed

section \<open>Later statements\<close>

text \<open>The statements that undo what an earlier one left; the migrations hold no such pair.\<close>

fun undoes :: "ddl \<Rightarrow> ddl \<Rightarrow> bool" where
  "undoes (CreateIndex i) (DropIndex n) = (ix_Name i = n)"
| "undoes (CreateIndex i) (DropConstraint t n) = (ix_Name i = n)"
| "undoes (AddConstraint n t k) (DropConstraint t' n') = (n = n')"
| "undoes (DropIndex n) (CreateIndex i) = (ix_Name i = n)"
| "undoes (DropIndex n) (CreateTable t cs ks) = (n \<in> set (map fst ks))"
| "undoes (DropIndex n) (AddConstraint n' t k) = (n = n')"
| "undoes (DropConstraint t n) (AddConstraint n' t' k) = (n = n')"
| "undoes BackfillOrders (FillNull t c v) = (c \<in> {''inquiry_id'', ''order_id''})"
| "undoes _ _ = False"

lemma later_settled:
  assumes step: "ddl_step now s' db = Some db'" and s: "settled s db" and u: "\<not> undoes s s'"
  shows "settled s db'"
proof (cases s)
  case (CreateTable t cs ks)
  then show ?thesis using s later_tables [OF step] by simp
next
  case (AddColumn t c)
  then show ?thesis using s later_columns [OF step] by simp
next
  case (CreateIndex i)
  then show ?thesis using s u later_columns [OF step] later_names [OF step, of "ix_Name i"] by (cases s') auto
next
  case (AddConstraint n t k)
  then obtain k' m td where "(m, td) \<in> set (sc_Tables db)" "(n, k') \<in> set (td_Constraints td)"
    using s by (auto simp: in_constraints_of)
  then show ?thesis using AddConstraint u later_constraint [OF step] by (fastforce simp: in_constraints_of)
next
  case (DropIndex n)
  have "n \<notin> set (key_names db')"
  proof
    assume "n \<in> set (key_names db')"
    then obtain m td k where k: "(m, td) \<in> set (sc_Tables db')" "(n, k) \<in> set (td_Constraints td)" "is_key k"
      by (auto simp: in_key_names in_constraints_of)
    from step k(1,2) show False
      by (cases rule: earlier_constraint) (use s u DropIndex k(3) in \<open>auto simp: in_key_names in_constraints_of, force\<close>)
  qed
  moreover have "n \<notin> ix_Name ` set (sc_Indexes db')" using s u DropIndex by (fastforce dest!: earlier_index [OF step])
  ultimately show ?thesis using DropIndex by simp
next
  case (DropConstraint t n)
  have "(n, k) \<notin> set (td_Constraints td')" if e: "(t, td') \<in> set (sc_Tables db')" for td' k
  proof
    assume "(n, k) \<in> set (td_Constraints td')"
    from step e this show False by (cases rule: earlier_constraint) (use s u DropConstraint in auto)
  qed
  then show ?thesis using s DropConstraint later_tables [OF step, of t] by auto
next
  case (SetNotNull t c)
  have "cd_NotNull d" if e: "(t, td') \<in> set (sc_Tables db')" and d: "d \<in> set (td_Columns td')" "cd_Name d = c" for td' d
    using step e
  proof (cases rule: earlier_rows)
    case (changed td)
    then show ?thesis using s SetNotNull d by (cases s') (auto simp: has_columns_def split: option.splits)
  qed (use s SetNotNull d in \<open>auto simp: has_columns_def\<close>)
  then show ?thesis using s SetNotNull later_columns [OF step] by simp
next
  case (FillNull t c v)
  have "r c \<noteq> None" if e: "(t, td') \<in> set (sc_Tables db')" and r: "r \<in> set (td_Rows td')" for td' r
    using step e
  proof (cases rule: earlier_rows)
    case (changed td)
    then show ?thesis using s FillNull r
      by (cases s') (auto simp: fill_null_def new_column_def backfill_def split: option.splits if_splits)
  qed (use s FillNull r in \<open>auto simp: has_columns_def\<close>)
  then show ?thesis using s FillNull later_columns [OF step] by simp
next
  case BackfillOrders
  let ?cs = "[''inquiry_id'', ''order_id'']" and ?P = "''payment_transactions''" and ?I = "''intra_inquiries''"
  have cols: "has_columns db ?I ?cs" "has_columns db ?P ?cs"
    and none: "\<And>td i. (?I, td) \<in> set (sc_Tables db) \<Longrightarrow> i \<in> set (td_Rows td) \<Longrightarrow> order_for (sql_rows db ?P) i = None"
    using s BackfillOrders by auto
  show ?thesis
  proof (cases "s' = BackfillOrders")
    case True
    then have "db' = db" using settled_noop [of s db now] s step BackfillOrders by simp
    then show ?thesis using s by simp
  next
    case False
    have f: "\<forall>t c v. s' = FillNull t c v \<longrightarrow> c \<notin> set ?cs" using u BackfillOrders by auto
    have p: "\<exists>p \<in> set (sql_rows db ?P). \<forall>c \<in> set ?cs. p' c = p c" if "p' \<in> set (sql_rows db' ?P)" for p'
      using step
    proof (cases rule: ddl_step_cases)
      case altered
      show ?thesis
      proof (cases "target s' = ?P")
        case True
        obtain td where td: "table_of db ?P = Some td" using cols(2) has_columns_table by blast
        then have "p' \<in> set (td_Rows (change now (sql_rows db ?P) s' td))"
          using that by (simp add: altered(2) True sql_rows_on_table)
        from change_values [OF this altered(1) _ False f] cols(2) True td show ?thesis by (simp add: sql_rows_def)
      qed (use that altered(2) in \<open>auto simp: sql_rows_on_table\<close>)
    qed (use that in \<open>auto simp: sql_rows_def map_add_def split: option.splits if_splits\<close>)
    have "order_for (sql_rows db' ?P) i' = None" if e: "(?I, td') \<in> set (sc_Tables db')" and i: "i' \<in> set (td_Rows td')" for td' i'
    proof -
      obtain td i where t: "(?I, td) \<in> set (sc_Tables db)" "i \<in> set (td_Rows td)" "\<forall>c \<in> set ?cs. i' c = i c"
        using step e
      proof (cases rule: earlier_rows)
        case (changed td)
        have "has_columns db (target s') ?cs" using cols(1) by (simp only: changed(2) [symmetric])
        from change_values [OF i [unfolded changed(4)] changed(3) this False f] show ?thesis using that changed(1) by blast
      next
        case same
        then show ?thesis using that i by blast
      next
        case new
        then show ?thesis using i by simp
      qed
      show ?thesis
      proof (rule order_for_kept [OF none [OF t(1,2)]])
        show "i' ''order_id'' = i ''order_id''" "i' ''inquiry_id'' = i ''inquiry_id''" using t(3) by simp_all
      next
        fix p' assume "p' \<in> set (sql_rows db' ?P)"
        from p [OF this] show "\<exists>p \<in> set (sql_rows db ?P). p' ''order_id'' = p ''order_id'' \<and> p' ''inquiry_id'' = p ''inquiry_id''" by auto
      qed
    qed
    then show ?thesis using BackfillOrders cols later_columns [OF step] by simp
  qed
qed

end
