(* ===== verification/DdlRuns.thy ===== *)
theory DdlRuns
  imports Ddl
begin

text \<open>
  Runs of migrations: what a settled statement stays, that no row loses a value, and which
  constraints and indexes are in force at the end.
\<close>

section \<open>Runs\<close>

lemma exec_ddl_Some: "exec_ddl now s db = Some db' \<Longrightarrow> ddl_step now s db = Some db' \<and> schema_holds db'"
  by (auto simp: exec_ddl_def split: option.splits if_splits)

lemma run_keeps:
  assumes "\<And>s db db'. s \<in> set ss \<Longrightarrow> ddl_step now s db = Some db' \<Longrightarrow> P db \<Longrightarrow> P db'"
  shows "P db \<Longrightarrow> P (snd (exec_ddls now ss db))"
  using assms
proof (induction ss arbitrary: db)
  case (Cons s ss)
  show ?case
  proof (cases "exec_ddl now s db")
    case (Some db1)
    have "P db1" using Cons.prems(2) [of s db db1] exec_ddl_Some [OF Some] Cons.prems(1) by simp
    then have "P (snd (exec_ddls now ss db1))"
      by (rule Cons.IH) (rule Cons.prems(2), simp_all)
    then show ?thesis using Some by simp
  qed (use Cons.prems in simp)
qed simp

lemma run_holds: "schema_holds db \<Longrightarrow> schema_holds (snd (exec_ddls now ss db))"
proof (induction ss arbitrary: db)
  case (Cons s ss)
  then show ?case using exec_ddl_Some by (auto split: option.splits)
qed simp

lemma run_append:
  "exec_ddls now (xs @ ys) db = (case exec_ddls now xs db of (True, db') \<Rightarrow> exec_ddls now ys db' | (False, db') \<Rightarrow> (False, db'))"
  by (induction xs arbitrary: db) (auto split: option.splits)

lemma run_settled:
  assumes "exec_ddls now ss db = (True, db')" "sorted_wrt (\<lambda>s s'. \<not> undoes s s') ss" "s \<in> set ss"
  shows "settled s db'"
  using assms
proof (induction ss arbitrary: db)
  case (Cons a ss)
  then obtain db1 where d: "exec_ddl now a db = Some db1" "exec_ddls now ss db1 = (True, db')" by (auto split: option.splits)
  have "settled a db1" using step_settled exec_ddl_Some [OF d(1)] by blast
  then have "settled a (snd (exec_ddls now ss db1))"
    by (rule run_keeps [rotated]) (rule later_settled, assumption, assumption, use Cons.prems(2) in simp)
  then show ?case using Cons.IH [OF d(2)] Cons.prems(2,3) d(2) by auto
qed simp

lemma settled_run: "schema_holds db \<Longrightarrow> \<forall>s \<in> set ss. settled s db \<Longrightarrow> exec_ddls now ss db = (True, db)"
  by (induction ss) (simp_all add: exec_ddl_def settled_noop)

section \<open>Rows survive\<close>

text \<open>Rows have values in declared columns only.\<close>

definition declared :: "schema \<Rightarrow> bool" where
  "declared db = (distinct (map fst (sc_Tables db))
     \<and> (\<forall>td \<in> set (map snd (sc_Tables db)). \<forall>r \<in> set (td_Rows td). dom r \<subseteq> cd_Name ` set (td_Columns td)))"

lemma declared_row: "declared db \<Longrightarrow> (t, td) \<in> set (sc_Tables db) \<Longrightarrow> r \<in> set (td_Rows td) \<Longrightarrow> dom r \<subseteq> cd_Name ` set (td_Columns td)"
  by (force simp: declared_def)

lemma declared_table: "declared db \<Longrightarrow> (t, td) \<in> set (sc_Tables db) \<longleftrightarrow> table_of db t = Some td"
  by (simp add: declared_def)

lemma change_row:
  assumes "declared db" "ddl_step now s db = Some db'" "alters s db" "(target s, td) \<in> set (sc_Tables db)"
  shows "list_all2 (\<subseteq>\<^sub>m) (td_Rows td) (td_Rows (change now ps s td))
    \<and> (\<forall>r \<in> set (td_Rows (change now ps s td)). dom r \<subseteq> cd_Name ` set (td_Columns (change now ps s td)))"
proof (cases s)
  case (AddColumn t c)
  have "r \<subseteq>\<^sub>m new_column now c r" "dom (new_column now c r) \<subseteq> insert (cd_Name c) (cd_Name ` set (td_Columns td))"
    if "r \<in> set (td_Rows td)" for r
  proof -
    have "dom r \<subseteq> cd_Name ` set (td_Columns td)" "cd_Name c \<notin> cd_Name ` set (td_Columns td)"
      using declared_row [OF assms(1,4) that] assms(1,3,4) AddColumn by (auto simp: has_columns_def declared_table split: option.splits)
    then show "r \<subseteq>\<^sub>m new_column now c r" "dom (new_column now c r) \<subseteq> insert (cd_Name c) (cd_Name ` set (td_Columns td))"
      by (auto simp: map_le_def new_column_def split: if_splits)
  qed
  then show ?thesis using AddColumn by (auto simp: list_all2_map2 list_all2_same)
next
  case (FillNull t c v)
  have "r \<subseteq>\<^sub>m fill_null c (SText v) r \<and> dom (fill_null c (SText v) r) \<subseteq> cd_Name ` set (td_Columns td)"
    if "r \<in> set (td_Rows td)" for r
    using declared_row [OF assms(1,4) that] assms FillNull
    by (auto simp: map_le_def fill_null_def has_columns_def declared_table split: if_splits option.splits)
  then show ?thesis using FillNull by (auto simp: list_all2_map2 list_all2_same)
next
  case BackfillOrders
  have "r \<subseteq>\<^sub>m backfill ps r \<and> dom (backfill ps r) \<subseteq> cd_Name ` set (td_Columns td)" if "r \<in> set (td_Rows td)" for r
    using declared_row [OF assms(1,4) that] assms BackfillOrders
    by (auto simp: map_le_def backfill_def has_columns_def declared_table order_for_def split: if_splits option.splits)
  then show ?thesis using BackfillOrders by (auto simp: list_all2_map2 list_all2_same)
qed (use assms declared_row [OF assms(1,4)] in \<open>auto simp: list_all2_same\<close>)

lemma step_rows:
  assumes "declared db" "ddl_step now s db = Some db'"
  shows "declared db' \<and> list_all2 (\<subseteq>\<^sub>m) (sql_rows db t) (sql_rows db' t)"
  using assms(2)
proof (cases rule: ddl_step_cases)
  case same
  then show ?thesis using assms by (simp add: list_all2_same)
next
  case created
  have "sql_rows db' t = sql_rows db t" using created(2) by (auto simp: created(3) sql_rows_def map_add_def split: option.splits)
  then show ?thesis using assms(1) created(2) by (simp add: declared_def created(3) list_all2_same map_of_eq_None_iff)
next
  case altered
  let ?ps = "sql_rows db ''payment_transactions''"
  have d: "declared db'" unfolding declared_def
  proof (intro conjI ballI)
    show "distinct (map fst (sc_Tables db'))" using assms(1) by (simp add: altered(2) declared_def)
  next
    fix td r assume "td \<in> set (map snd (sc_Tables db'))" "r \<in> set (td_Rows td)"
    then obtain m td0 where "(m, td0) \<in> set (sc_Tables db)" "td = (if m = target s then change now ?ps s td0 else td0)"
      by (auto simp: altered(2) in_on_table)
    then show "dom r \<subseteq> cd_Name ` set (td_Columns td)"
      using change_row [OF assms altered(1)] declared_row [OF assms(1)] \<open>r \<in> set (td_Rows td)\<close> by (auto split: if_splits)
  qed
  moreover have "list_all2 (\<subseteq>\<^sub>m) (sql_rows db t) (sql_rows db' t)"
    using change_row [OF assms altered(1)] assms(1)
    by (auto simp: altered(2) sql_rows_on_table sql_rows_def list_all2_same declared_table split: option.splits)
  ultimately show ?thesis by simp
qed (use assms(1) in \<open>simp_all add: declared_def sql_rows_def list_all2_same\<close>)

lemma run_rows:
  assumes "declared db"
  shows "declared (snd (exec_ddls now ss db)) \<and> list_all2 (\<subseteq>\<^sub>m) (sql_rows db t) (sql_rows (snd (exec_ddls now ss db)) t)"
proof (rule run_keeps [where P = "\<lambda>db'. declared db' \<and> list_all2 (\<subseteq>\<^sub>m) (sql_rows db t) (sql_rows db' t)"])
  fix s db1 db2
  assume s: "ddl_step now s db1 = Some db2" and p: "declared db1 \<and> list_all2 (\<subseteq>\<^sub>m) (sql_rows db t) (sql_rows db1 t)"
  have "list_all2 (\<subseteq>\<^sub>m) (sql_rows db t) (sql_rows db2 t)"
    by (rule list_all2_trans [OF map_le_trans]) (use p step_rows [OF _ s] in auto)
  then show "declared db2 \<and> list_all2 (\<subseteq>\<^sub>m) (sql_rows db t) (sql_rows db2 t)" using p step_rows [OF _ s] by simp
qed (use assms in \<open>simp add: list_all2_same\<close>)

section \<open>What a name stands for\<close>

text \<open>If a name is taken at all, it is taken by the index, or by the constraint, the migrations mean.\<close>

definition index_means :: "index_def \<Rightarrow> schema \<Rightarrow> bool" where
  "index_means i db = (table_of db (ix_Name i) = None \<and> ix_Name i \<notin> set (key_names db) \<and> (\<forall>j \<in> set (sc_Indexes db). ix_Name j = ix_Name i \<longrightarrow> j = i))"

fun keeps_index :: "index_def \<Rightarrow> ddl \<Rightarrow> bool" where
  "keeps_index i (CreateTable t cs ks) = (t \<noteq> ix_Name i \<and> ix_Name i \<notin> set (map fst ks))"
| "keeps_index i (CreateIndex j) = (ix_Name j = ix_Name i \<longrightarrow> j = i)"
| "keeps_index i (AddConstraint n t k) = (n \<noteq> ix_Name i)"
| "keeps_index i _ = True"

definition constraint_means :: "string \<Rightarrow> string \<Rightarrow> table_constraint \<Rightarrow> schema \<Rightarrow> bool" where
  "constraint_means n t k db = (\<forall>e \<in> set (sc_Tables db). \<forall>c \<in> set (td_Constraints (snd e)). fst c = n \<longrightarrow> fst e = t \<and> snd c = k)"

fun keeps_constraint :: "string \<Rightarrow> string \<Rightarrow> table_constraint \<Rightarrow> ddl \<Rightarrow> bool" where
  "keeps_constraint n t k (CreateTable m cs ks) = (n \<notin> set (map fst ks))"
| "keeps_constraint n t k (AddConstraint n' m k') = (n' = n \<longrightarrow> m = t \<and> k' = k)"
| "keeps_constraint n t k _ = True"

lemma step_index_means:
  assumes "ddl_step now s db = Some db'" "keeps_index i s" "index_means i db"
  shows "index_means i db'"
  unfolding index_means_def
proof (intro conjI ballI impI)
  show "table_of db' (ix_Name i) = None"
    using assms(1) by (cases rule: ddl_step_cases) (use assms(2,3) in \<open>auto simp: index_means_def map_add_def\<close>)
next
  show "ix_Name i \<notin> set (key_names db')"
  proof
    assume "ix_Name i \<in> set (key_names db')"
    then obtain m td k where k: "(m, td) \<in> set (sc_Tables db')" "(ix_Name i, k) \<in> set (td_Constraints td)" "is_key k"
      by (auto simp: in_key_names in_constraints_of)
    from assms(1) k(1,2) show False
      by (cases rule: earlier_constraint) (use assms(2,3) k(3) in \<open>auto simp: index_means_def in_key_names in_constraints_of, force\<close>)
  qed
next
  fix j assume "j \<in> set (sc_Indexes db')" "ix_Name j = ix_Name i"
  then show "j = i" using earlier_index [OF assms(1), of j] assms(2,3) by (auto simp: index_means_def)
qed

lemma step_constraint_means:
  assumes "ddl_step now s db = Some db'" "keeps_constraint n t k s" "constraint_means n t k db"
  shows "constraint_means n t k db'"
proof -
  have "m = t \<and> k' = k" if "(m, td') \<in> set (sc_Tables db')" "(n, k') \<in> set (td_Constraints td')" for m td' k'
    using assms(1) that by (cases rule: earlier_constraint) (use assms(2,3) in \<open>force simp: constraint_means_def\<close>)+
  then show ?thesis by (auto simp: constraint_means_def)
qed

text \<open>So a statement that is settled, under names that mean what they should, is in force.\<close>

lemma index_in_force:
  assumes "settled (CreateIndex i) db" "index_means i db" "schema_holds db" "ix_Unique i"
  shows "unique_rows (ix_Columns i) (ix_Where i) (sql_rows db (ix_Table i))"
proof -
  have "i \<in> set (sc_Indexes db)" using assms(1,2) by (auto simp: index_means_def relation_names_def map_of_eq_None_iff)
  then show ?thesis using assms(3,4) by (auto simp: schema_holds_def index_holds_def)
qed

lemma constraint_in_force:
  assumes "settled (AddConstraint n t k) db" "constraint_means n t k db" "schema_holds db" "declared db"
  shows "constraint_holds db (sql_rows db t) k"
proof -
  obtain m td k' where e: "(m, td) \<in> set (sc_Tables db)" "(n, k') \<in> set (td_Constraints td)"
    using assms(1) by (auto simp: in_constraints_of)
  have mk: "m = t \<and> k' = k" using assms(2) e unfolding constraint_means_def by fastforce
  have "table_holds db td" using assms(3) e(1) by (force simp: schema_holds_def)
  then have "constraint_holds db (td_Rows td) k" using e(2) mk by (force simp: table_holds_def)
  then show ?thesis using e(1) mk by (simp add: sql_rows_def declared_table [OF assms(4)])
qed

lemma not_null_in_force:
  assumes "settled (SetNotNull t c) db" "schema_holds db" "declared db" "r \<in> set (sql_rows db t)"
  shows "r c \<noteq> None"
proof -
  obtain td where t: "table_of db t = Some td" "c \<in> cd_Name ` set (td_Columns td)"
    using assms(1) by (auto simp: has_columns_def split: option.splits)
  then obtain d where "d \<in> set (td_Columns td)" "cd_Name d = c" by auto
  then show ?thesis using assms t declared_table [OF assms(3)]
    by (force simp: schema_holds_def table_holds_def sql_rows_def)
qed

end
