(* ===== verification/Migrations.thy ===== *)
theory Migrations
  imports DdlRuns
begin

text \<open>
  The migrations a start runs over the payment tables: internal/storage/db.go, migrations.go, migrations_apps.go,
  migrations_international.go and migrations_merchant_routing.go, in the order of main.go, after GORM's
  AutoMigrate, which is an argument and gets the models of internal/storage/gorm.  The theorems
  show what holds of the rows after a start, and that the next start changes nothing.
\<close>

section \<open>Columns\<close>

definition plain_column :: "string \<Rightarrow> string \<Rightarrow> col_def" where
  "plain_column n ty = \<lparr>cd_Name = n, cd_Type = ty, cd_NotNull = False, cd_Default = None\<rparr>"

definition not_null_column :: "col_def \<Rightarrow> col_def" where
  "not_null_column c = c\<lparr>cd_NotNull := True\<rparr>"

definition with_default :: "string \<Rightarrow> col_def \<Rightarrow> col_def" where
  "with_default d c = c\<lparr>cd_Default := Some d\<rparr>"

definition index_on :: "string \<Rightarrow> string \<Rightarrow> string list \<Rightarrow> index_def" where
  "index_on n t cs = \<lparr>ix_Name = n, ix_Table = t, ix_Columns = cs, ix_Unique = False, ix_Where = Always\<rparr>"

definition unique_on :: "string \<Rightarrow> string \<Rightarrow> string list \<Rightarrow> sql_cond \<Rightarrow> index_def" where
  "unique_on n t cs p = \<lparr>ix_Name = n, ix_Table = t, ix_Columns = cs, ix_Unique = True, ix_Where = p\<rparr>"

section \<open>The models of GORM\<close>

text \<open>A field's column and Go type, and the columns with a unique index; the primary key is the column id.\<close>

record gorm_model =
  gm_Table :: string
  gm_Fields :: "(string \<times> string) list"
  gm_Unique :: "string list"

definition PaymentTransaction_model :: gorm_model where
  "PaymentTransaction_model = \<lparr>gm_Table = ''payment_transactions'',
     gm_Fields = [(''id'', ''uint64''), (''external_app_id'', ''string''), (''order_id'', ''string''), (''inquiry_id'', ''string''),
       (''stan_number'', ''string''), (''bfs_txn_id'', ''string''), (''bfs_request_id'', ''string''), (''bfs_order_no'', ''string''),
       (''amount'', ''float64''), (''transaction_fee'', ''float64''), (''remitter_account'', ''string''), (''remitter_name'', ''string''),
       (''remitter_phone'', ''string''), (''email_id'', ''string''), (''remitter_bank'', ''string''), (''beneficiary_account'', ''string''),
       (''transaction_datetime'', ''time.Time''), (''payment_desc'', ''string''), (''currency'', ''string''), (''status'', ''string''),
       (''error_code'', ''string''), (''error_message'', ''string''), (''created_at'', ''time.Time''), (''updated_at'', ''time.Time''),
       (''completed_at'', ''*time.Time'')],
     gm_Unique = []\<rparr>"

definition IntraInquiry_model :: gorm_model where
  "IntraInquiry_model = \<lparr>gm_Table = ''intra_inquiries'',
     gm_Fields = [(''id'', ''uint64''), (''inquiry_id'', ''string''), (''order_id'', ''string''), (''bene_account_number'', ''string''),
       (''amount'', ''float64''), (''status'', ''string''), (''error_code'', ''string''), (''error_message'', ''string''), (''created_at'', ''time.Time'')],
     gm_Unique = [''inquiry_id'']\<rparr>"

definition ExternalApp_model :: gorm_model where
  "ExternalApp_model = \<lparr>gm_Table = ''external_apps'',
     gm_Fields = [(''id'', ''string''), (''name'', ''string''), (''api_key'', ''string''), (''api_secret'', ''string''), (''webhook_url'', ''string''),
       (''is_active'', ''bool''), (''contact_name'', ''string''), (''contact_email'', ''string''), (''contact_phone'', ''string''),
       (''created_at'', ''time.Time''), (''updated_at'', ''time.Time''), (''last_used_at'', ''*time.Time'')],
     gm_Unique = [''api_key'']\<rparr>"

definition AdminUser_model :: gorm_model where
  "AdminUser_model = \<lparr>gm_Table = ''admin_users'',
     gm_Fields = [(''id'', ''uint64''), (''username'', ''string''), (''password_hash'', ''string'')],
     gm_Unique = [''username'']\<rparr>"

definition OpenAndMigrate :: "(gorm_model list \<Rightarrow> schema \<Rightarrow> string + schema) \<Rightarrow> schema \<Rightarrow> string + schema" where
  "OpenAndMigrate auto_migrate db = auto_migrate [PaymentTransaction_model, IntraInquiry_model, ExternalApp_model, AdminUser_model] db"

section \<open>RunMigrations, EnsureIndexes and EnsureAppsSchema\<close>

definition run_migrations :: "ddl list" where
  "run_migrations =
     [AddColumn ''payment_transactions'' (plain_column ''inquiry_id'' ''text''),
      CreateIndex (index_on ''payment_transactions_inquiry_id_idx'' ''payment_transactions'' [''inquiry_id'']),
      AddColumn ''intra_inquiries'' (plain_column ''order_id'' ''text''),
      AddColumn ''intra_inquiries'' (plain_column ''status'' ''text''),
      AddColumn ''intra_inquiries'' (plain_column ''error_code'' ''text''),
      AddColumn ''intra_inquiries'' (plain_column ''error_message'' ''text''),
      BackfillOrders,
      CreateIndex (unique_on ''intra_inquiries_inquiry_id_key'' ''intra_inquiries'' [''inquiry_id''] Always)]"

definition app_orders :: "string \<Rightarrow> string \<Rightarrow> index_def" where
  "app_orders n t = unique_on n t [''external_app_id'', ''order_id''] (Both (NotNull ''external_app_id'') (NotNull ''order_id''))"

definition ensure_indexes :: "ddl list" where
  "ensure_indexes = [CreateIndex (app_orders ''payment_transactions_app_order_id_uniq'' ''payment_transactions'')]"

definition apps_migrations :: "ddl list" where
  "apps_migrations =
     [AddColumn ''external_apps'' (plain_column ''api_secret'' ''VARCHAR(255)''),
      AddColumn ''external_apps'' (plain_column ''contact_name'' ''VARCHAR(200)''),
      AddColumn ''external_apps'' (plain_column ''contact_email'' ''VARCHAR(100)''),
      AddColumn ''external_apps'' (plain_column ''contact_phone'' ''VARCHAR(20)''),
      AddColumn ''external_apps'' (with_default ''CURRENT_TIMESTAMP'' (plain_column ''updated_at'' ''TIMESTAMP'')),
      AddColumn ''external_apps'' (plain_column ''last_used_at'' ''TIMESTAMP''),
      CreateIndex (index_on ''idx_external_apps_api_key'' ''external_apps'' [''api_key'']),
      CreateIndex (index_on ''idx_external_apps_is_active'' ''external_apps'' [''is_active''])]"

section \<open>RunInternationalMigrations\<close>

definition international_columns :: "col_def list" where
  "international_columns =
     [not_null_column (with_default ''gen_random_uuid()'' (plain_column ''id'' ''UUID'')),
      not_null_column (plain_column ''payment_id'' ''VARCHAR(255)''),
      not_null_column (plain_column ''stripe_session_id'' ''VARCHAR(255)''),
      not_null_column (plain_column ''reference_id'' ''VARCHAR(255)''),
      not_null_column (plain_column ''merchant_id'' ''VARCHAR(255)''),
      not_null_column (plain_column ''amount'' ''DECIMAL(10,2)''),
      not_null_column (plain_column ''total_amount'' ''DECIMAL(10,2)''),
      not_null_column (with_default ''usd'' (plain_column ''currency'' ''VARCHAR(3)'')),
      not_null_column (plain_column ''status'' ''VARCHAR(50)''),
      plain_column ''error_code'' ''VARCHAR(100)'',
      plain_column ''error_message'' ''TEXT'',
      plain_column ''description'' ''TEXT'',
      plain_column ''checkout_url'' ''TEXT'',
      not_null_column (with_default ''NOW()'' (plain_column ''created_at'' ''TIMESTAMP'')),
      plain_column ''completed_at'' ''TIMESTAMP'',
      not_null_column (with_default ''NOW()'' (plain_column ''updated_at'' ''TIMESTAMP''))]"

definition international_migrations :: "ddl list" where
  "international_migrations =
     [AddColumn ''external_apps'' (plain_column ''agency_name'' ''VARCHAR(255)''),
      AddColumn ''external_apps'' (plain_column ''submerchant_id'' ''VARCHAR(255)''),
      AddColumn ''external_apps'' (plain_column ''dk_account'' ''VARCHAR(255)''),
      CreateTable ''international_payments'' international_columns
        [(''international_payments_pkey'', PrimaryKey [''id'']),
         (''international_payments_payment_id_key'', UniqueKey [''payment_id'']),
         (''international_payments_reference_id_key'', UniqueKey [''reference_id'']),
         (''international_payments_merchant_id_fkey'', Foreign [''merchant_id''] ''external_apps'' [''id''])],
      AddColumn ''international_payments'' (plain_column ''error_code'' ''VARCHAR(100)''),
      AddColumn ''international_payments'' (plain_column ''error_message'' ''TEXT''),
      AddColumn ''international_payments'' (plain_column ''last_status_check_at'' ''TIMESTAMP''),
      CreateIndex (index_on ''idx_intl_payments_reference'' ''international_payments'' [''reference_id'']),
      CreateIndex (index_on ''idx_intl_payments_merchant'' ''international_payments'' [''merchant_id'']),
      CreateIndex (index_on ''idx_intl_payments_stripe_session'' ''international_payments'' [''stripe_session_id'']),
      CreateIndex (index_on ''idx_intl_payments_status'' ''international_payments'' [''status'']),
      CreateIndex (index_on ''idx_intl_payments_pending_checks'' ''international_payments'' [''status'', ''last_status_check_at''])]"

section \<open>RunMerchantRoutingMigrations\<close>

definition uuid_key :: col_def where
  "uuid_key = not_null_column (with_default ''gen_random_uuid()'' (plain_column ''id'' ''UUID''))"

definition stamp_column :: "string \<Rightarrow> col_def" where
  "stamp_column n = not_null_column (with_default ''now()'' (plain_column n ''TIMESTAMPTZ''))"

definition author_column :: "string \<Rightarrow> col_def" where
  "author_column n = not_null_column (with_default [] (plain_column n ''TEXT''))"

definition routing_tables :: "ddl list" where
  "routing_tables =
     [CreateTable ''payment_recipients''
        [uuid_key, not_null_column (plain_column ''name'' ''TEXT''), not_null_column (with_default ''true'' (plain_column ''is_active'' ''BOOLEAN'')),
         stamp_column ''created_at'', stamp_column ''updated_at'', author_column ''created_by'', author_column ''updated_by'']
        [(''payment_recipients_pkey'', PrimaryKey [''id''])],
      CreateTable ''integration_recipient_mappings''
        [uuid_key, not_null_column (plain_column ''external_app_id'' ''TEXT''), not_null_column (plain_column ''external_merchant_reference'' ''TEXT''),
         not_null_column (plain_column ''recipient_id'' ''UUID''), not_null_column (with_default ''true'' (plain_column ''is_active'' ''BOOLEAN'')),
         stamp_column ''created_at'', stamp_column ''updated_at'', author_column ''created_by'', author_column ''updated_by'']
        [(''integration_recipient_mappings_pkey'', PrimaryKey [''id'']),
         (''integration_recipient_mappings_external_app_id_fkey'', Foreign [''external_app_id''] ''external_apps'' [''id'']),
         (''integration_recipient_mappings_recipient_id_fkey'', Foreign [''recipient_id''] ''payment_recipients'' [''id'']),
         (''integration_recipient_mappings_external_merchant_reference_check'', CheckThat (NonEmptyTrim ''external_merchant_reference''))],
      CreateIndex (unique_on ''integration_recipient_active_reference_uniq'' ''integration_recipient_mappings''
        [''external_app_id'', ''external_merchant_reference''] (IsTrue ''is_active'')),
      CreateIndex (index_on ''integration_recipient_recipient_idx'' ''integration_recipient_mappings'' [''recipient_id'']),
      CreateTable ''gateway_credential_configurations''
        [uuid_key, not_null_column (plain_column ''recipient_id'' ''UUID''), not_null_column (plain_column ''provider'' ''TEXT''), not_null_column (plain_column ''version'' ''INTEGER''),
         not_null_column (with_default ''draft'' (plain_column ''status'' ''TEXT'')), not_null_column (plain_column ''encrypted_credentials'' ''TEXT''),
         not_null_column (with_default ''env:PAYMENT_CREDENTIALS_MASTER_KEY_B64'' (plain_column ''encryption_key_id'' ''TEXT'')),
         plain_column ''rotated_from_id'' ''UUID'', stamp_column ''created_at'', stamp_column ''updated_at'',
         plain_column ''activated_at'' ''TIMESTAMPTZ'', plain_column ''disabled_at'' ''TIMESTAMPTZ'', author_column ''created_by'', author_column ''updated_by'']
        [(''gateway_credential_configurations_pkey'', PrimaryKey [''id'']),
         (''gateway_credential_configurations_recipient_id_fkey'', Foreign [''recipient_id''] ''payment_recipients'' [''id'']),
         (''gateway_credential_configurations_rotated_from_id_fkey'', Foreign [''rotated_from_id''] ''gateway_credential_configurations'' [''id'']),
         (''gateway_credential_configurations_provider_check'', CheckThat (OneOf ''provider'' [''dkpg'', ''stripe''])),
         (''gateway_credential_configurations_status_check'', CheckThat (OneOf ''status'' [''draft'', ''active'', ''disabled'', ''retired''])),
         (''gateway_credential_configurations_version_check'', CheckThat (Positive ''version'')),
         (''gateway_credential_configurations_recipient_id_provider_version_key'', UniqueKey [''recipient_id'', ''provider'', ''version''])],
      CreateIndex (unique_on ''gateway_credential_one_active_uniq'' ''gateway_credential_configurations''
        [''recipient_id'', ''provider''] (Equals ''status'' ''active'')),
      CreateIndex (index_on ''gateway_credential_resolve_idx'' ''gateway_credential_configurations'' [''recipient_id'', ''provider'', ''status'']),
      CreateIndex (unique_on ''gateway_credential_identity_uniq'' ''gateway_credential_configurations''
        [''id'', ''recipient_id'', ''provider'', ''version''] Always)]"

text \<open>The columns, the backfill of routing_mode and its NOT NULL, for the three tables of payments.\<close>

definition payment_tables :: "string list" where
  "payment_tables = [''payment_transactions'', ''international_payments'', ''intra_inquiries'']"

definition link_columns :: "string \<Rightarrow> ddl list" where
  "link_columns t = map (AddColumn t)
     [plain_column ''external_merchant_reference'' ''TEXT'', plain_column ''recipient_id'' ''UUID'', plain_column ''gateway_provider'' ''TEXT'',
      plain_column ''gateway_credential_configuration_id'' ''UUID'', plain_column ''gateway_credential_version'' ''INTEGER'', plain_column ''routing_mode'' ''TEXT'']"

definition routing_columns :: "ddl list" where
  "routing_columns =
     link_columns ''payment_transactions'' @ link_columns ''international_payments''
     @ AddColumn ''intra_inquiries'' (plain_column ''external_app_id'' ''TEXT'') # link_columns ''intra_inquiries''
     @ map (\<lambda>t. FillNull t ''routing_mode'' ''legacy'') payment_tables
     @ map (\<lambda>t. SetNotNull t ''routing_mode'') payment_tables"

definition routing_indexes :: "ddl list" where
  "routing_indexes =
     [CreateIndex (index_on ''payment_transactions_app_merchant_reference_idx'' ''payment_transactions'' [''external_app_id'', ''external_merchant_reference'']),
      CreateIndex (index_on ''payment_transactions_credential_configuration_idx'' ''payment_transactions'' [''gateway_credential_configuration_id'']),
      CreateIndex (index_on ''international_payments_merchant_reference_idx'' ''international_payments'' [''merchant_id'', ''external_merchant_reference'']),
      CreateIndex (index_on ''international_payments_credential_configuration_idx'' ''international_payments'' [''gateway_credential_configuration_id'']),
      CreateIndex (index_on ''intra_inquiries_app_merchant_reference_idx'' ''intra_inquiries'' [''external_app_id'', ''external_merchant_reference'']),
      DropIndex ''payment_transactions_order_id_uniq'',
      CreateIndex (app_orders ''payment_transactions_app_order_id_uniq'' ''payment_transactions''),
      DropIndex ''intra_inquiries_order_id_uniq'',
      CreateIndex (app_orders ''intra_inquiries_app_order_id_uniq'' ''intra_inquiries''),
      DropConstraint ''international_payments'' ''international_payments_reference_id_key'',
      CreateIndex (unique_on ''international_payments_merchant_reference_id_uniq'' ''international_payments'' [''merchant_id'', ''reference_id''] Always)]"

definition routing_check :: "string \<Rightarrow> sql_cond" where
  "routing_check app =
     Either (Equals ''routing_mode'' ''legacy'')
       (Both (Equals ''routing_mode'' ''merchant'')
         (Both (NotNull app)
           (Both (NotBlank ''external_merchant_reference'')
             (Both (NotNull ''recipient_id'')
               (Both (NotBlank ''gateway_provider'')
                 (Both (NotNull ''gateway_credential_configuration_id'') (NotNull ''gateway_credential_version'')))))))"

definition payer_column :: "string \<Rightarrow> string" where
  "payer_column t = (if t = ''international_payments'' then ''merchant_id'' else ''external_app_id'')"

definition identity_key :: table_constraint where
  "identity_key = Foreign [''gateway_credential_configuration_id'', ''recipient_id'', ''gateway_provider'', ''gateway_credential_version'']
     ''gateway_credential_configurations'' [''id'', ''recipient_id'', ''provider'', ''version'']"

definition routing_constraints :: "ddl list" where
  "routing_constraints =
     concat (map (\<lambda>t.
       [AddConstraint (t @ ''_recipient_id_fkey'') t (Foreign [''recipient_id''] ''payment_recipients'' [''id'']),
        AddConstraint (t @ ''_credential_configuration_id_fkey'') t
          (Foreign [''gateway_credential_configuration_id''] ''gateway_credential_configurations'' [''id''])]) payment_tables)
     @ map (\<lambda>t. AddConstraint (t @ ''_credential_identity_fkey'') t identity_key) payment_tables
     @ map (\<lambda>t. AddConstraint (t @ ''_routing_mode_check'') t (CheckThat (routing_check (payer_column t)))) payment_tables"

definition routing_migrations :: "ddl list" where
  "routing_migrations = routing_tables @ routing_columns @ routing_indexes @ routing_constraints"

text \<open>The routing migrations run in one transaction.\<close>

definition RunMerchantRoutingMigrations :: "string \<Rightarrow> schema \<Rightarrow> bool \<times> schema" where
  "RunMerchantRoutingMigrations now db =
     (case exec_ddls now routing_migrations db of (True, db') \<Rightarrow> (True, db') | (False, _) \<Rightarrow> (False, db))"

text \<open>
  The order of main: Connect only warns when RunMigrations fails, every other failure ends
  the process.  The result says whether there was a warning, and whether the start went on.
\<close>

definition start_migrations :: "string \<Rightarrow> schema \<Rightarrow> (bool \<times> bool) \<times> schema" where
  "start_migrations now db =
     (case exec_ddls now run_migrations db of (quiet, db1) \<Rightarrow>
      (case exec_ddls now (ensure_indexes @ apps_migrations @ international_migrations) db1 of
         (False, db2) \<Rightarrow> ((\<not> quiet, False), db2)
       | (True, db2) \<Rightarrow> (case RunMerchantRoutingMigrations now db2 of (ok, db3) \<Rightarrow> ((\<not> quiet, ok), db3))))"

section \<open>Connections\<close>

record pool_options =
  po_MaxOpenConns :: nat
  po_MaxIdleConns :: nat
  po_ConnMaxLifetime :: dur
  po_ConnMaxIdleTime :: dur
  po_SimpleProtocol :: bool

definition pool_settings :: pool_options where
  "pool_settings = \<lparr>po_MaxOpenConns = 10, po_MaxIdleConns = 5, po_ConnMaxLifetime = 3 * minute, po_ConnMaxIdleTime = 1 * minute,
     po_SimpleProtocol = True\<rparr>"

text \<open>
  The errors of pgx' reader of the URL and of the ping are arguments.  Without a URL there is no pool; with one
  the result tells whether the migrations went through, which main does not look at.
\<close>

definition Connect :: "(string \<Rightarrow> string option) \<Rightarrow> string option \<Rightarrow> string \<Rightarrow> string \<Rightarrow> schema
    \<Rightarrow> (string + (pool_options \<times> bool) option) \<times> schema" where
  "Connect parse ping now url db =
     (if url = [] then (Inr None, db)
      else case parse url of
        Some e \<Rightarrow> (Inl (''parse database url: '' @ e), db)
      | None \<Rightarrow> (case ping of
          Some e \<Rightarrow> (Inl e, db)
        | None \<Rightarrow> (case exec_ddls now run_migrations db of (ok, db') \<Rightarrow> (Inr (Some (pool_settings, ok)), db'))))"

text \<open>
  The database steps of main, up to the log schema: AutoMigrate over GORM's own connection, Connect, and the
  migrations, which do nothing without a pool.
\<close>

definition main_database :: "(gorm_model list \<Rightarrow> schema \<Rightarrow> string + schema) \<Rightarrow> (string \<Rightarrow> string option) \<Rightarrow> string option \<Rightarrow> string \<Rightarrow> string
    \<Rightarrow> schema \<Rightarrow> (string + unit) \<times> schema" where
  "main_database auto_migrate parse ping now url db =
     (case OpenAndMigrate auto_migrate db of
        Inl e \<Rightarrow> (Inl e, db)
      | Inr db1 \<Rightarrow> (case Connect parse ping now url db1 of
          (Inl e, db2) \<Rightarrow> (Inl e, db2)
        | (Inr None, db2) \<Rightarrow> (Inr (), db2)
        | (Inr (Some _), db2) \<Rightarrow> (case exec_ddls now (ensure_indexes @ apps_migrations @ international_migrations) db2 of
            (False, db3) \<Rightarrow> (Inl ''migration failed'', db3)
          | (True, db3) \<Rightarrow> (case RunMerchantRoutingMigrations now db3 of
              (False, db4) \<Rightarrow> (Inl ''merchant routing migration'', db4)
            | (True, db4) \<Rightarrow> (Inr (), db4)))))"

lemma main_database_migrations:
  assumes "main_database auto_migrate parse ping now url db = (Inr (), db')" "url \<noteq> []"
  obtains db1 w where "OpenAndMigrate auto_migrate db = Inr db1" "start_migrations now db1 = ((w, True), db')"
  using assms that
  by (fastforce simp: main_database_def Connect_def start_migrations_def split: sum.splits option.splits prod.splits bool.splits if_splits)

lemma no_url_no_migration: "main_database auto_migrate parse ping now [] db =
    (case OpenAndMigrate auto_migrate db of Inl e \<Rightarrow> (Inl e, db) | Inr db1 \<Rightarrow> (Inr (), db1))"
  by (simp add: main_database_def Connect_def split: sum.splits)

end
