(* ===== verification/MigrationLaws.thy ===== *)
theory MigrationLaws
  imports Migrations
begin

text \<open>
  What a start's migrations guarantee of the tables of payments, and that they settle.
\<close>

section \<open>The statements of a start\<close>

definition later_migrations :: "ddl list" where
  "later_migrations = ensure_indexes @ apps_migrations @ international_migrations @ routing_migrations"

lemmas migration_defs = run_migrations_def later_migrations_def ensure_indexes_def apps_migrations_def international_migrations_def
  routing_migrations_def routing_tables_def routing_columns_def routing_indexes_def routing_constraints_def link_columns_def payment_tables_def

lemma start_later:
  assumes "start_migrations now db = ((w, True), db')"
  shows "exec_ddls now later_migrations (snd (exec_ddls now run_migrations db)) = (True, db')"
    "w = (\<not> fst (exec_ddls now run_migrations db))"
  using assms
  by (auto simp: start_migrations_def later_migrations_def RunMerchantRoutingMigrations_def run_append split: prod.splits bool.splits)

text \<open>No statement undoes an earlier one, by the names they use.\<close>

fun orderly :: "ddl \<Rightarrow> bool" where
  "orderly (CreateIndex i) = (ix_Name i \<notin> set [''payment_transactions_order_id_uniq'', ''intra_inquiries_order_id_uniq'', ''international_payments_reference_id_key''])"
| "orderly (AddConstraint n t k) = (n \<notin> set [''payment_transactions_order_id_uniq'', ''intra_inquiries_order_id_uniq'', ''international_payments_reference_id_key''])"
| "orderly (CreateTable t cs ks) = (list_all (\<lambda>k. fst k \<notin> set [''payment_transactions_order_id_uniq'', ''intra_inquiries_order_id_uniq'']) ks)"
| "orderly (DropIndex n) = (n \<in> set [''payment_transactions_order_id_uniq'', ''intra_inquiries_order_id_uniq''])"
| "orderly (DropConstraint t n) = (n = ''international_payments_reference_id_key'')"
| "orderly (FillNull t c v) = (c = ''routing_mode'')"
| "orderly _ = True"

lemma orderly_undoes: "orderly s \<Longrightarrow> orderly s' \<Longrightarrow> \<not> undoes s s'"
  by (cases s; cases s') (auto simp: list_all_iff)

lemma migrations_orderly: "list_all orderly (run_migrations @ later_migrations)"
  by (simp add: migration_defs app_orders_def index_on_def unique_on_def)

lemma orderly_sorted: "list_all orderly ss \<Longrightarrow> sorted_wrt (\<lambda>s s'. \<not> undoes s s') ss"
  by (induction ss) (auto simp: list_all_iff orderly_undoes)

section \<open>What holds after a start\<close>

definition order_columns :: "string \<Rightarrow> string list" where
  "order_columns t = (if t = ''international_payments'' then [''merchant_id'', ''reference_id''] else [''external_app_id'', ''order_id''])"

definition order_index :: "string \<Rightarrow> index_def" where
  "order_index t = (if t = ''international_payments''
     then unique_on ''international_payments_merchant_reference_id_uniq'' t [''merchant_id'', ''reference_id''] Always
     else app_orders (t @ ''_app_order_id_uniq'') t)"

definition link_check :: "string \<Rightarrow> table_constraint" where
  "link_check t = CheckThat (routing_check (payer_column t))"

text \<open>The names on which the stores rely are free or stand for what the migrations mean.\<close>

definition own_names :: "schema \<Rightarrow> bool" where
  "own_names db = (\<forall>t \<in> set payment_tables. index_means (order_index t) db
     \<and> constraint_means (t @ ''_credential_identity_fkey'') t identity_key db
     \<and> constraint_means (t @ ''_routing_mode_check'') t (link_check t) db)"

text \<open>A payment names its app, its reference and the version of the credential it was made with.\<close>

definition routed_row :: "string \<Rightarrow> schema \<Rightarrow> sql_row \<Rightarrow> bool" where
  "routed_row t db r \<longleftrightarrow> r ''routing_mode'' = Some (SText ''merchant'') \<and> r (payer_column t) \<noteq> None
     \<and> truth (NotBlank ''external_merchant_reference'') r = Some True
     \<and> (\<exists>c \<in> set (sql_rows db ''gateway_credential_configurations''). c ''id'' \<noteq> None \<and> c ''id'' = r ''gateway_credential_configuration_id''
         \<and> c ''recipient_id'' \<noteq> None \<and> c ''recipient_id'' = r ''recipient_id'' \<and> c ''provider'' = r ''gateway_provider''
         \<and> c ''version'' \<noteq> None \<and> c ''version'' = r ''gateway_credential_version'')"

lemma checked_row:
  assumes "truth (routing_check app) r \<noteq> Some False" "r ''routing_mode'' \<noteq> None"
  shows "r ''routing_mode'' = Some (SText ''legacy'')
    \<or> r ''routing_mode'' = Some (SText ''merchant'') \<and> r app \<noteq> None \<and> truth (NotBlank ''external_merchant_reference'') r = Some True
      \<and> r ''recipient_id'' \<noteq> None \<and> truth (NotBlank ''gateway_provider'') r = Some True
      \<and> r ''gateway_credential_configuration_id'' \<noteq> None \<and> r ''gateway_credential_version'' \<noteq> None"
  using assms by (cases "r ''routing_mode''") (auto simp: routing_check_def split: if_splits bool.splits option.splits)

lemma in_imageD: "y \<in> f ` A \<Longrightarrow> \<exists>x \<in> A. f x = y"
  by auto

lemma identified_row:
  assumes "constraint_holds db rows identity_key" "r \<in> set rows"
    and "r ''gateway_credential_configuration_id'' = Some i" "r ''recipient_id'' = Some p" "r ''gateway_provider'' = Some g" "r ''gateway_credential_version'' = Some v"
  shows "\<exists>c \<in> set (sql_rows db ''gateway_credential_configurations''). c ''id'' = Some i \<and> c ''recipient_id'' = Some p \<and> c ''provider'' = Some g \<and> c ''version'' = Some v"
proof -
  have "those (map r [''gateway_credential_configuration_id'', ''recipient_id'', ''gateway_provider'', ''gateway_credential_version'']) = Some [i, p, g, v]"
    using assms(3-6) by simp
  with bspec [OF assms(1) [unfolded identity_key_def constraint_holds.simps] assms(2)]
  have "Some [i, p, g, v] \<in> (\<lambda>c. those (map c [''id'', ''recipient_id'', ''provider'', ''version'']))
      ` set (sql_rows db ''gateway_credential_configurations'')"
    by (simp only: option.case set_map)
  from in_imageD [OF this] obtain c where c: "c \<in> set (sql_rows db ''gateway_credential_configurations'')"
      "those (map c [''id'', ''recipient_id'', ''provider'', ''version'']) = Some [i, p, g, v]"
    by (rule bexE)
  from c(2) have "c ''id'' = Some i \<and> c ''recipient_id'' = Some p \<and> c ''provider'' = Some g \<and> c ''version'' = Some v"
    by (simp only: list.map those.simps) (auto split: option.splits)
  with c(1) show ?thesis by blast
qed

lemma linked_row:
  assumes "constraint_holds db rows (link_check t)" "constraint_holds db rows identity_key" "r \<in> set rows" "r ''routing_mode'' \<noteq> None"
  shows "r ''routing_mode'' = Some (SText ''legacy'') \<or> routed_row t db r"
proof -
  have "truth (routing_check (payer_column t)) r \<noteq> Some False" using assms(1,3) by (simp add: link_check_def)
  from checked_row [OF this assms(4)] show ?thesis
  proof
    assume m: "r ''routing_mode'' = Some (SText ''merchant'') \<and> r (payer_column t) \<noteq> None \<and> truth (NotBlank ''external_merchant_reference'') r = Some True
      \<and> r ''recipient_id'' \<noteq> None \<and> truth (NotBlank ''gateway_provider'') r = Some True
      \<and> r ''gateway_credential_configuration_id'' \<noteq> None \<and> r ''gateway_credential_version'' \<noteq> None"
    then have "r ''gateway_provider'' \<noteq> None" by (auto split: option.splits)
    with m identified_row [OF assms(2,3)] show ?thesis by (fastforce simp: routed_row_def)
  qed simp
qed

text \<open>The migrations keep those meanings.\<close>

lemma migrations_keep_indexes:
  "list_all (\<lambda>t. list_all (keeps_index (order_index t)) (run_migrations @ later_migrations)) payment_tables"
  by (simp add: migration_defs order_index_def app_orders_def index_on_def unique_on_def)

lemma migrations_keep_constraints:
  "list_all (\<lambda>t. list_all (\<lambda>s. keeps_constraint (t @ ''_credential_identity_fkey'') t identity_key s
      \<and> keeps_constraint (t @ ''_routing_mode_check'') t (link_check t) s) (run_migrations @ later_migrations)) payment_tables"
  by (simp add: migration_defs link_check_def)

lemma migrations_keep_names:
  assumes "t \<in> set payment_tables" "s \<in> set (run_migrations @ later_migrations)"
  shows "keeps_index (order_index t) s \<and> keeps_constraint (t @ ''_credential_identity_fkey'') t identity_key s
    \<and> keeps_constraint (t @ ''_routing_mode_check'') t (link_check t) s"
  using assms migrations_keep_indexes migrations_keep_constraints unfolding list_all_iff by blast

lemma order_index_included: "list_all (\<lambda>t. CreateIndex (order_index t) \<in> set routing_indexes) payment_tables"
  unfolding routing_indexes_def order_index_def payment_tables_def by simp

lemma migrations_include:
  assumes "t \<in> set payment_tables"
  shows "CreateIndex (order_index t) \<in> set later_migrations" "SetNotNull t ''routing_mode'' \<in> set later_migrations"
    "AddConstraint (t @ ''_credential_identity_fkey'') t identity_key \<in> set later_migrations"
    "AddConstraint (t @ ''_routing_mode_check'') t (link_check t) \<in> set later_migrations"
proof -
  show "SetNotNull t ''routing_mode'' \<in> set later_migrations"
    using assms by (auto simp: later_migrations_def routing_migrations_def routing_columns_def)
  show "AddConstraint (t @ ''_credential_identity_fkey'') t identity_key \<in> set later_migrations"
    "AddConstraint (t @ ''_routing_mode_check'') t (link_check t) \<in> set later_migrations"
    using assms by (auto simp: later_migrations_def routing_migrations_def routing_constraints_def link_check_def)
  show "CreateIndex (order_index t) \<in> set later_migrations"
    using assms order_index_included by (auto simp: later_migrations_def routing_migrations_def list_all_iff)
qed

lemma unique_orders:
  assumes "unique_rows (ix_Columns (order_index t)) (ix_Where (order_index t)) rows"
  shows "distinct (List.map_filter (\<lambda>r. those (map r (order_columns t))) rows)"
proof -
  have "key_of (ix_Columns (order_index t)) (ix_Where (order_index t)) = (\<lambda>r. those (map r (order_columns t)))"
    by (rule ext) (auto simp: key_of_def order_index_def order_columns_def app_orders_def unique_on_def split: option.splits if_splits)
  then show ?thesis using assms by (simp add: unique_rows_def)
qed

lemma migrated_payments:
  assumes "start_migrations now db = ((w, True), db')" "schema_holds db" "declared db" "own_names db" "t \<in> set payment_tables"
  shows "list_all2 (\<subseteq>\<^sub>m) (sql_rows db t) (sql_rows db' t)
    \<and> (\<forall>r \<in> set (sql_rows db' t). r ''routing_mode'' = Some (SText ''legacy'') \<or> routed_row t db' r)
    \<and> distinct (List.map_filter (\<lambda>r. those (map r (order_columns t))) (sql_rows db' t))"
proof -
  define d where "d = snd (exec_ddls now run_migrations db)"
  have run: "exec_ddls now later_migrations d = (True, db')" using start_later(1) [OF assms(1)] by (simp add: d_def)
  have h: "schema_holds db'" using run_holds [of d now later_migrations] run_holds [OF assms(2), of now run_migrations] run by (simp add: d_def)
  have rows: "declared d" "list_all2 (\<subseteq>\<^sub>m) (sql_rows db t) (sql_rows d t)" using run_rows [OF assms(3)] by (simp_all add: d_def)
  have rows': "declared db'" "list_all2 (\<subseteq>\<^sub>m) (sql_rows d t) (sql_rows db' t)" using run_rows [OF rows(1), of now later_migrations] run by simp_all
  let ?P = "\<lambda>db. index_means (order_index t) db \<and> constraint_means (t @ ''_credential_identity_fkey'') t identity_key db
    \<and> constraint_means (t @ ''_routing_mode_check'') t (link_check t) db"
  have keep: "?P (snd (exec_ddls now ss x))" if "?P x" "set ss \<subseteq> set (run_migrations @ later_migrations)" for ss x
    using that(1)
  proof (rule run_keeps [where P = ?P, rotated])
    fix s x x' assume "s \<in> set ss" "ddl_step now s x = Some x'" "?P x"
    then show "?P x'" using migrations_keep_names [OF assms(5), of s] that(2) step_index_means step_constraint_means by blast
  qed
  have "?P db" using assms(4,5) by (simp add: own_names_def)
  then have "?P d" unfolding d_def by (rule keep) simp
  then have means: "?P db'" using keep [of d later_migrations] run by simp
  have settled: "settled s db'" if "s \<in> set later_migrations" for s
    using run_settled [OF run orderly_sorted that] migrations_orderly by simp
  note inc = migrations_include [OF assms(5)]
  have "r ''routing_mode'' = Some (SText ''legacy'') \<or> routed_row t db' r" if r: "r \<in> set (sql_rows db' t)" for r
    using constraint_in_force [OF settled [OF inc(4)] _ h rows'(1)] constraint_in_force [OF settled [OF inc(3)] _ h rows'(1)]
      not_null_in_force [OF settled [OF inc(2)] h rows'(1) r] means linked_row [OF _ _ r] by blast
  moreover have "distinct (List.map_filter (\<lambda>r. those (map r (order_columns t))) (sql_rows db' t))"
    using index_in_force [OF settled [OF inc(1)] _ h] means unique_orders [of t]
    by (auto simp: order_index_def app_orders_def unique_on_def split: if_splits)
  moreover have "list_all2 (\<subseteq>\<^sub>m) (sql_rows db t) (sql_rows db' t)"
    by (rule list_all2_trans [OF map_le_trans rows(2) rows'(2)])
  ultimately show ?thesis by blast
qed

text \<open>
  C22: a start that gets past the migrations leaves every payment accounted for.  No row of a payment
  loses a value; every row is marked legacy or names its app, its reference and a stored credential
  of that recipient, provider and version; and within an app no two rows share an order.
\<close>
theorem migrations_account_for_payments:
  assumes "start_migrations now db = ((w, True), db')" "schema_holds db" "declared db" "own_names db" "t \<in> set payment_tables"
  shows "list_all2 (\<subseteq>\<^sub>m) (sql_rows db t) (sql_rows db' t)
    \<and> (\<forall>r \<in> set (sql_rows db' t). r ''routing_mode'' = Some (SText ''legacy'') \<or> routed_row t db' r)
    \<and> distinct (List.map_filter (\<lambda>r. those (map r (order_columns t))) (sql_rows db' t))"
  by (rule migrated_payments [OF assms])

text \<open>
  C23: the migrations settle.  After a start that ran through without a warning, the next start's migrations
  change nothing and report nothing, at whatever instant they run.
\<close>
theorem migrations_settle:
  assumes "start_migrations now db = ((False, True), db')" "schema_holds db"
  shows "start_migrations now' db' = ((False, True), db')"
proof -
  obtain d where q: "exec_ddls now run_migrations db = (True, d)"
    using start_later(2) [OF assms(1)] by (cases "exec_ddls now run_migrations db") auto
  have run: "exec_ddls now (run_migrations @ later_migrations) db = (True, db')"
    using start_later(1) [OF assms(1)] by (simp add: run_append q)
  have "schema_holds db'" using run_holds [OF assms(2), of now "run_migrations @ later_migrations"] run by simp
  moreover have "settled s db'" if "s \<in> set (run_migrations @ later_migrations)" for s
    using run_settled [OF run orderly_sorted [OF migrations_orderly] that] .
  ultimately have e: "exec_ddls now' ss db' = (True, db')" if "set ss \<subseteq> set (run_migrations @ later_migrations)" for ss
    using that by (intro settled_run) auto
  have "exec_ddls now' run_migrations db' = (True, db')" "exec_ddls now' routing_migrations db' = (True, db')"
    "exec_ddls now' (ensure_indexes @ apps_migrations @ international_migrations) db' = (True, db')"
    by (rule e, simp add: later_migrations_def subset_iff)+
  then show ?thesis by (simp add: start_migrations_def RunMerchantRoutingMigrations_def)
qed

section \<open>A migrated database\<close>

definition moved_table :: "string list \<Rightarrow> string list \<Rightarrow> (string \<times> table_constraint) list \<Rightarrow> sql_row list \<Rightarrow> table_def" where
  "moved_table names needed ks rows = \<lparr>td_Columns = map (\<lambda>n. plain_column n ''TEXT'') names @ map (\<lambda>n. not_null_column (plain_column n ''TEXT'')) needed,
     td_Constraints = ks, td_Rows = rows\<rparr>"

definition moved_links :: "string list" where
  "moved_links = [''external_merchant_reference'', ''recipient_id'', ''gateway_provider'', ''gateway_credential_configuration_id'', ''gateway_credential_version'']"

definition moved_constraints :: "string \<Rightarrow> (string \<times> table_constraint) list" where
  "moved_constraints t =
     [(t @ ''_recipient_id_fkey'', Foreign [''recipient_id''] ''payment_recipients'' [''id'']),
      (t @ ''_credential_configuration_id_fkey'', Foreign [''gateway_credential_configuration_id''] ''gateway_credential_configurations'' [''id'']),
      (t @ ''_credential_identity_fkey'', identity_key),
      (t @ ''_routing_mode_check'', link_check t)]"

definition moved_legacy :: sql_row where
  "moved_legacy = [''id'' \<mapsto> SInt 1, ''external_app_id'' \<mapsto> SText ''shop'', ''order_id'' \<mapsto> SText ''o1'', ''routing_mode'' \<mapsto> SText ''legacy'']"

definition moved_routed :: sql_row where
  "moved_routed = [''id'' \<mapsto> SInt 2, ''external_app_id'' \<mapsto> SText ''shop'', ''order_id'' \<mapsto> SText ''o2'', ''routing_mode'' \<mapsto> SText ''merchant'',
     ''external_merchant_reference'' \<mapsto> SText ''hotel'', ''recipient_id'' \<mapsto> SText ''p'', ''gateway_provider'' \<mapsto> SText ''dkpg'',
     ''gateway_credential_configuration_id'' \<mapsto> SText ''c'', ''gateway_credential_version'' \<mapsto> SInt 1]"

definition moved_payments :: table_def where
  "moved_payments = moved_table ([''id'', ''external_app_id'', ''order_id'', ''inquiry_id''] @ moved_links) [''routing_mode'']
     (moved_constraints ''payment_transactions'') [moved_legacy, moved_routed]"

definition moved_inquiries :: table_def where
  "moved_inquiries = moved_table ([''id'', ''inquiry_id'', ''order_id'', ''status'', ''error_code'', ''error_message'', ''external_app_id''] @ moved_links)
     [''routing_mode''] (moved_constraints ''intra_inquiries'') []"

definition moved_international :: table_def where
  "moved_international = moved_table ([''id'', ''reference_id'', ''merchant_id'', ''stripe_session_id'', ''status'', ''error_code'', ''error_message'', ''last_status_check_at''] @ moved_links)
     [''routing_mode''] (moved_constraints ''international_payments'') []"

definition moved_apps :: table_def where
  "moved_apps = moved_table [''id'', ''api_key'', ''is_active'', ''api_secret'', ''contact_name'', ''contact_email'', ''contact_phone'', ''updated_at'',
     ''last_used_at'', ''agency_name'', ''submerchant_id'', ''dk_account''] [] [] []"

definition moved_recipients :: table_def where
  "moved_recipients = moved_table [] [''id'', ''name''] [(''payment_recipients_pkey'', PrimaryKey [''id''])] [[''id'' \<mapsto> SText ''p'', ''name'' \<mapsto> SText ''Hotel'']]"

definition moved_mappings :: table_def where
  "moved_mappings = moved_table [''external_app_id'', ''external_merchant_reference'', ''recipient_id'', ''is_active''] [''id''] [] []"

definition moved_credential :: sql_row where
  "moved_credential = [''id'' \<mapsto> SText ''c'', ''recipient_id'' \<mapsto> SText ''p'', ''provider'' \<mapsto> SText ''dkpg'', ''version'' \<mapsto> SInt 1, ''status'' \<mapsto> SText ''active'']"

definition moved_credentials :: table_def where
  "moved_credentials = moved_table [''id'', ''recipient_id'', ''provider'', ''version'', ''status''] [] [] [moved_credential]"

definition created_indexes :: "ddl list \<Rightarrow> index_def list" where
  "created_indexes ss = concat (map (\<lambda>s. case s of CreateIndex i \<Rightarrow> [i] | _ \<Rightarrow> []) ss)"

definition moved_schema :: schema where
  "moved_schema = \<lparr>sc_Tables = [(''payment_transactions'', moved_payments), (''intra_inquiries'', moved_inquiries),
     (''international_payments'', moved_international), (''external_apps'', moved_apps), (''payment_recipients'', moved_recipients),
     (''integration_recipient_mappings'', moved_mappings), (''gateway_credential_configurations'', moved_credentials)],
     sc_Indexes = created_indexes (run_migrations @ later_migrations)\<rparr>"

lemma moved_tables [simp]:
  "sc_Tables moved_schema = [(''payment_transactions'', moved_payments), (''intra_inquiries'', moved_inquiries),
     (''international_payments'', moved_international), (''external_apps'', moved_apps), (''payment_recipients'', moved_recipients),
     (''integration_recipient_mappings'', moved_mappings), (''gateway_credential_configurations'', moved_credentials)]"
  by (simp add: moved_schema_def)

lemmas moved_defs = moved_payments_def moved_inquiries_def moved_international_def moved_apps_def moved_recipients_def moved_mappings_def moved_credentials_def
  moved_table_def moved_links_def plain_column_def not_null_column_def

lemma moved_columns [simp]:
  "cd_Name ` set (td_Columns moved_payments) = {''id'', ''external_app_id'', ''order_id'', ''inquiry_id'', ''routing_mode''} \<union> set moved_links"
  "cd_Name ` set (td_Columns moved_inquiries) = {''id'', ''inquiry_id'', ''order_id'', ''status'', ''error_code'', ''error_message'', ''external_app_id'', ''routing_mode''} \<union> set moved_links"
  "cd_Name ` set (td_Columns moved_international) = {''id'', ''reference_id'', ''merchant_id'', ''stripe_session_id'', ''status'', ''error_code'', ''error_message'', ''last_status_check_at'', ''routing_mode''} \<union> set moved_links"
  "cd_Name ` set (td_Columns moved_apps) = {''id'', ''api_key'', ''is_active'', ''api_secret'', ''contact_name'', ''contact_email'', ''contact_phone'', ''updated_at'',
     ''last_used_at'', ''agency_name'', ''submerchant_id'', ''dk_account''}"
  "cd_Name ` set (td_Columns moved_recipients) = {''id'', ''name''}"
  "cd_Name ` set (td_Columns moved_mappings) = {''external_app_id'', ''external_merchant_reference'', ''recipient_id'', ''is_active'', ''id''}"
  "cd_Name ` set (td_Columns moved_credentials) = {''id'', ''recipient_id'', ''provider'', ''version'', ''status''}"
  by (auto simp: moved_defs)

lemma moved_has: "has_columns moved_schema t cs = (case table_of moved_schema t of None \<Rightarrow> False | Some td \<Rightarrow> set cs \<subseteq> cd_Name ` set (td_Columns td))"
  by (simp add: has_columns_def)

lemma moved_index: "i \<in> set (sc_Indexes moved_schema) \<longleftrightarrow> CreateIndex i \<in> set (run_migrations @ later_migrations)"
  by (auto simp: moved_schema_def created_indexes_def split: ddl.splits intro!: bexI [of _ "CreateIndex i"])

text \<open>Every column an index or a later statement uses is there.\<close>

fun moved_ready :: "ddl \<Rightarrow> bool" where
  "moved_ready (CreateTable t cs ks) = (table_of moved_schema t \<noteq> None)"
| "moved_ready (AddColumn t c) = has_columns moved_schema t [cd_Name c]"
| "moved_ready (CreateIndex i) = has_columns moved_schema (ix_Table i) (ix_Columns i)"
| "moved_ready (DropIndex n) = True"
| "moved_ready (DropConstraint t n) = (t = ''international_payments'')"
| "moved_ready (SetNotNull t c) = (t \<in> set payment_tables \<and> c = ''routing_mode'')"
| "moved_ready (FillNull t c v) = (t \<in> set payment_tables \<and> c = ''routing_mode'')"
| "moved_ready BackfillOrders = True"
| "moved_ready (AddConstraint n t k) = (t \<in> set payment_tables \<and> (n, k) \<in> set (moved_constraints t))"

lemma moved_ready_run: "list_all moved_ready run_migrations"
  by (simp add: migration_defs moved_has index_on_def unique_on_def plain_column_def moved_links_def)

lemma moved_ready_apps: "list_all moved_ready (ensure_indexes @ apps_migrations)"
  by (simp add: migration_defs moved_has index_on_def unique_on_def app_orders_def plain_column_def with_default_def moved_links_def)

lemma moved_ready_international: "list_all moved_ready international_migrations"
  by (simp add: migration_defs moved_has index_on_def unique_on_def plain_column_def moved_links_def)

lemma moved_ready_tables: "list_all moved_ready routing_tables"
  by (simp add: migration_defs moved_has index_on_def unique_on_def plain_column_def moved_links_def)

lemma moved_ready_columns: "list_all moved_ready routing_columns"
  by (simp add: migration_defs moved_has plain_column_def moved_links_def)

lemma moved_ready_indexes: "list_all moved_ready routing_indexes"
  by (simp add: migration_defs moved_has index_on_def unique_on_def app_orders_def moved_links_def)

lemma moved_ready_constraints: "list_all moved_ready routing_constraints"
  by (auto simp: routing_constraints_def moved_constraints_def link_check_def list_all_iff)

lemma moved_all_ready: "s \<in> set (run_migrations @ later_migrations) \<Longrightarrow> moved_ready s"
  using moved_ready_run moved_ready_apps moved_ready_international moved_ready_tables moved_ready_columns moved_ready_indexes moved_ready_constraints
  unfolding list_all_iff later_migrations_def routing_migrations_def by auto

lemma moved_constraints_of: "td_Constraints moved_payments = moved_constraints ''payment_transactions''"
  "td_Constraints moved_inquiries = moved_constraints ''intra_inquiries''" "td_Constraints moved_international = moved_constraints ''international_payments''"
  "td_Constraints moved_apps = []" "td_Constraints moved_recipients = [(''payment_recipients_pkey'', PrimaryKey [''id''])]"
  "td_Constraints moved_mappings = []" "td_Constraints moved_credentials = []"
  by (simp_all add: moved_payments_def moved_inquiries_def moved_international_def moved_apps_def moved_recipients_def moved_mappings_def moved_credentials_def moved_table_def)

lemma moved_rows: "td_Rows moved_payments = [moved_legacy, moved_routed]" "td_Rows moved_inquiries = []" "td_Rows moved_international = []"
  "td_Rows moved_apps = []" "td_Rows moved_recipients = [[''id'' \<mapsto> SText ''p'', ''name'' \<mapsto> SText ''Hotel'']]"
  "td_Rows moved_mappings = []" "td_Rows moved_credentials = [moved_credential]"
  by (simp_all add: moved_payments_def moved_inquiries_def moved_international_def moved_apps_def moved_recipients_def moved_mappings_def moved_credentials_def moved_table_def)

lemma moved_keys: "key_names moved_schema = [''payment_recipients_pkey'']"
  by (simp add: key_names_def constraints_of_def moved_constraints_of moved_constraints_def identity_key_def link_check_def)

lemma moved_payment_tables:
  assumes "(t, td) \<in> set (sc_Tables moved_schema)" "t \<in> set payment_tables"
  shows "td = moved_payments \<or> td = moved_inquiries \<or> td = moved_international"
  using assms by (auto simp: payment_tables_def)

lemma moved_mode_needed:
  "d \<in> set (td_Columns moved_payments) \<union> set (td_Columns moved_inquiries) \<union> set (td_Columns moved_international) \<Longrightarrow> cd_Name d = ''routing_mode'' \<Longrightarrow> cd_NotNull d"
  by (auto simp: moved_defs)

lemma moved_mode:
  assumes "(t, td) \<in> set (sc_Tables moved_schema)" "t \<in> set payment_tables"
  shows "(\<forall>d \<in> set (td_Columns td). cd_Name d = ''routing_mode'' \<longrightarrow> cd_NotNull d) \<and> (\<forall>r \<in> set (td_Rows td). r ''routing_mode'' \<noteq> None)"
  using moved_payment_tables [OF assms] moved_mode_needed by (auto simp: moved_rows moved_legacy_def moved_routed_def)

lemma moved_tables_of:
  assumes "t \<in> set payment_tables"
  obtains td where "(t, td) \<in> set (sc_Tables moved_schema)" "td_Constraints td = moved_constraints t" "has_columns moved_schema t [''routing_mode'']"
proof -
  consider "t = ''payment_transactions''" | "t = ''international_payments''" | "t = ''intra_inquiries''"
    using assms by (auto simp: payment_tables_def)
  then show thesis
  proof cases
    case 1
    then show thesis by (intro that [of moved_payments]) (simp_all add: moved_constraints_of moved_has)
  next
    case 2
    then show thesis by (intro that [of moved_international]) (simp_all add: moved_constraints_of moved_has)
  next
    case 3
    then show thesis by (intro that [of moved_inquiries]) (simp_all add: moved_constraints_of moved_has)
  qed
qed

lemma moved_settled:
  assumes "s \<in> set (run_migrations @ later_migrations)"
  shows "settled s moved_schema"
proof -
  have o: "orderly x" if "x \<in> set (run_migrations @ later_migrations)" for x
    using that migrations_orderly unfolding list_all_iff by blast
  show ?thesis
  proof (cases s)
    case (CreateIndex i)
    then have "i \<in> set (sc_Indexes moved_schema)" using assms moved_index by simp
    then show ?thesis using CreateIndex moved_all_ready [OF assms] by (auto simp: relation_names_def)
  next
    case (DropIndex n)
    have "n \<notin> ix_Name ` set (sc_Indexes moved_schema)" using o moved_index o [OF assms] DropIndex by fastforce
    then show ?thesis using DropIndex o [OF assms] by (auto simp: moved_keys)
  next
    case (DropConstraint t n)
    then show ?thesis using moved_all_ready [OF assms] o [OF assms] by (simp add: moved_constraints_of moved_constraints_def)
  next
    case (SetNotNull t c)
    then have t: "t \<in> set payment_tables" "c = ''routing_mode''" using moved_all_ready [OF assms] by simp_all
    have "has_columns moved_schema t [c]" using moved_tables_of [OF t(1)] t(2) by blast
    then show ?thesis using moved_mode t unfolding SetNotNull settled.simps by blast
  next
    case (FillNull t c v)
    then have t: "t \<in> set payment_tables" "c = ''routing_mode''" using moved_all_ready [OF assms] by simp_all
    have "has_columns moved_schema t [c]" using moved_tables_of [OF t(1)] t(2) by blast
    then show ?thesis using moved_mode t unfolding FillNull settled.simps by blast
  next
    case BackfillOrders
    then show ?thesis by (simp add: moved_has moved_rows)
  next
    case (AddConstraint n t k)
    then have "t \<in> set payment_tables" "(n, k) \<in> set (moved_constraints t)" using moved_all_ready [OF assms] by simp_all
    then show ?thesis unfolding AddConstraint settled.simps in_constraints_of using moved_tables_of [of t] by metis
  qed (use moved_all_ready [OF assms] in simp_all)
qed

lemma moved_declared: "declared moved_schema"
  by (simp add: declared_def moved_rows moved_links_def moved_legacy_def moved_routed_def moved_credential_def)

lemma moved_unique: "list_all (\<lambda>s. case s of CreateIndex i \<Rightarrow> ix_Unique i \<longrightarrow> ix_Table i = ''payment_transactions'' \<longrightarrow> ix_Columns i = [''external_app_id'', ''order_id'']
    | _ \<Rightarrow> True) (run_migrations @ later_migrations)"
  by (simp add: migration_defs index_on_def unique_on_def app_orders_def)

lemma short_unique: "length rows \<le> 1 \<Longrightarrow> unique_rows cs p rows"
  by (cases rows) (auto simp: unique_rows_def map_filter_simps split: option.splits)

lemma moved_sql_rows: "sql_rows moved_schema t = (if t = ''payment_transactions'' then [moved_legacy, moved_routed]
    else if t = ''payment_recipients'' then [[''id'' \<mapsto> SText ''p'', ''name'' \<mapsto> SText ''Hotel'']]
    else if t = ''gateway_credential_configurations'' then [moved_credential] else [])"
  by (simp add: sql_rows_def moved_rows)

lemma moved_index_holds: "i \<in> set (sc_Indexes moved_schema) \<Longrightarrow> index_holds moved_schema i"
proof -
  assume "i \<in> set (sc_Indexes moved_schema)"
  then have c: "ix_Unique i \<longrightarrow> ix_Table i = ''payment_transactions'' \<longrightarrow> ix_Columns i = [''external_app_id'', ''order_id'']"
    using moved_unique unfolding list_all_iff moved_index by (fastforce split: ddl.splits)
  show ?thesis
  proof (cases "ix_Table i = ''payment_transactions''")
    case True
    then show ?thesis using c
      by (auto simp: index_holds_def moved_sql_rows unique_rows_def key_of_def map_filter_simps moved_legacy_def moved_routed_def)
  next
    case False
    then show ?thesis by (simp add: index_holds_def moved_sql_rows short_unique)
  qed
qed

lemma moved_holds: "schema_holds moved_schema"
  unfolding schema_holds_def
proof (intro conjI ballI moved_index_holds)
  fix td assume "td \<in> set (map snd (sc_Tables moved_schema))"
  then consider "td = moved_payments" | "td = moved_inquiries" | "td = moved_international" | "td = moved_apps" | "td = moved_recipients" | "td = moved_mappings"
    | "td = moved_credentials" by auto
  then show "table_holds moved_schema td"
  proof cases
    case 1
    show ?thesis unfolding 1 table_holds_def moved_rows moved_constraints_of moved_constraints_def
      by (simp add: moved_payments_def moved_table_def plain_column_def not_null_column_def moved_legacy_def moved_routed_def moved_sql_rows identity_key_def link_check_def
        routing_check_def payer_column_def moved_credential_def trim_spaces_def)
  next
    case 5
    show ?thesis unfolding 5 table_holds_def moved_rows moved_constraints_of
      by (simp add: moved_recipients_def moved_table_def not_null_column_def short_unique plain_column_def)
  next
    case 7
    show ?thesis unfolding 7 table_holds_def moved_rows moved_constraints_of
      by (simp add: moved_credentials_def moved_table_def not_null_column_def plain_column_def moved_credential_def)
  qed (simp_all add: table_holds_def moved_rows moved_constraints_of moved_constraints_def identity_key_def link_check_def)
qed

lemma moved_own: "own_names moved_schema"
  unfolding own_names_def
proof (intro ballI conjI)
  fix t assume t: "t \<in> set payment_tables"
  have "keeps_index (order_index t) (CreateIndex j)" if "j \<in> set (sc_Indexes moved_schema)" for j
    using migrations_keep_indexes t that unfolding list_all_iff moved_index by blast
  then show "index_means (order_index t) moved_schema"
    using t by (auto simp: index_means_def moved_keys payment_tables_def order_index_def app_orders_def unique_on_def)
  show "constraint_means (t @ ''_credential_identity_fkey'') t identity_key moved_schema"
    "constraint_means (t @ ''_routing_mode_check'') t (link_check t) moved_schema"
    using t by (auto simp: constraint_means_def payment_tables_def moved_constraints_of moved_constraints_def)
qed

lemma moved_start: "start_migrations now moved_schema = ((False, True), moved_schema)"
proof -
  have e: "exec_ddls now ss moved_schema = (True, moved_schema)" if "set ss \<subseteq> set (run_migrations @ later_migrations)" for ss
    using that moved_settled by (intro settled_run moved_holds) auto
  have "exec_ddls now run_migrations moved_schema = (True, moved_schema)" "exec_ddls now routing_migrations moved_schema = (True, moved_schema)"
    "exec_ddls now (ensure_indexes @ apps_migrations @ international_migrations) moved_schema = (True, moved_schema)"
    by (rule e, simp add: later_migrations_def subset_iff)+
  then show ?thesis by (simp add: start_migrations_def RunMerchantRoutingMigrations_def)
qed

theorem migrations_account_for_payments_witness:
  "routed_row ''payment_transactions'' moved_schema moved_routed"
  using migrations_account_for_payments [OF moved_start moved_holds moved_declared moved_own, of "''payment_transactions''"]
  by (simp add: payment_tables_def moved_sql_rows moved_routed_def)

theorem migrations_settle_witness: "start_migrations ''later'' moved_schema = ((False, True), moved_schema)"
  using migrations_settle [OF moved_start moved_holds] .

end
