(* ===== verification/Startup.thy ===== *)
theory Startup
  imports AdminLogin RateLimiter ApiKeyAuth International BootProvision LogsSchema Routes Secrets MigrationLaws
begin

text \<open>
  The start of the service, main.go: the checks that end it, the preparation of the database, and the
  components built from the configuration.  GORM's AutoMigrate and the error of the connection, None for
  success, are arguments; the number of statements of the log schema that run
  before the deadline is an argument; the database has an address.  The listener, the
  signal handler and what is only printed are left out.
\<close>

section \<open>What is built from the configuration\<close>

text \<open>time.Duration(n) * unit wraps around at 64 bits.\<close>

definition go_duration :: "int \<Rightarrow> dur \<Rightarrow> dur" where
  "go_duration n unit = sint (word_of_int (n * unit) :: 64 word)"

record server_options =
  so_AppName :: string
  so_ReadTimeout :: dur
  so_WriteTimeout :: dur
  so_IdleTimeout :: dur
  so_Concurrency :: int
  so_ReadBufferSize :: int
  so_WriteBufferSize :: int
  so_ProxyHeader :: string
  so_BodyLimit :: int
  so_MaxConnsPerIP :: "int option"

definition server_of :: "config \<Rightarrow> server_options" where
  "server_of cfg = \<lparr> so_AppName = AppName cfg, so_ReadTimeout = go_duration (ServerReadTimeoutSeconds cfg) second,
     so_WriteTimeout = go_duration (ServerWriteTimeoutSeconds cfg) second, so_IdleTimeout = go_duration (ServerIdleTimeoutSeconds cfg) second,
     so_Concurrency = ServerConcurrency cfg, so_ReadBufferSize = ServerReadBufferBytes cfg, so_WriteBufferSize = ServerReadBufferBytes cfg,
     so_ProxyHeader = ''X-Forwarded-Proto'', so_BodyLimit = 64 * 1024,
     so_MaxConnsPerIP = (if 0 < ServerMaxConnsPerIP cfg then Some (ServerMaxConnsPerIP cfg) else None) \<rparr>"

definition jwt_of :: "config \<Rightarrow> jwt_manager" where
  "jwt_of cfg = \<lparr> jm_Secret = JWTSecret cfg, jm_TTL = go_duration (JWTTTLMinutes cfg) minute, jm_Issuer = JWTIssuer cfg,
     jm_Audience = JWTAudience cfg \<rparr>"

definition auth_of :: "config \<Rightarrow> auth_controller" where
  "auth_of cfg = \<lparr> ac_JWT = Some (jwt_of cfg),
     ac_Captcha = Some (NewCaptchaVerifier (LoginCaptchaSiteKey cfg) (LoginCaptchaSecret cfg) (LoginCaptchaAfterFailures cfg)
       (go_duration (LoginCaptchaTimeoutSeconds cfg) second)),
     ac_CookieName = AuthCookieName cfg, ac_CSRFCookieName = CSRFCookieName cfg \<rparr>"

definition auth_state_of :: "config \<Rightarrow> auth_state" where
  "auth_state_of cfg = \<lparr> as_Sessions = Some (NewSessionManager (jm_TTL (jwt_of cfg))),
     as_Limiter = Some (NewLoginLimiter (LoginMaxAttempts cfg) (go_duration (LoginWindowMinutes cfg) minute)
       (go_duration (LoginLockMinutes cfg) minute)) \<rparr>"

definition keys_of :: "config \<Rightarrow> key_verifier" where
  "keys_of cfg = newAPIKeyAuthVerifier (APIKeyAuthMaxConcurrent cfg) (go_duration (APIKeyAuthInvalidCacheSeconds cfg) second)
     (go_duration (APIKeyAuthBusyRetryAfterSeconds cfg) second)"

text \<open>One limiter per risk tier.\<close>

datatype tier = BizTier | OTPTier | AdminWriteTier | AppCreateTier

definition limiter_of :: "config \<Rightarrow> tier \<Rightarrow> ip_limiter" where
  "limiter_of cfg t = (case t of
     BizTier \<Rightarrow> NewIPRateLimiter (BizRateLimitMax cfg) (go_duration (BizRateLimitWindowSeconds cfg) second)
   | OTPTier \<Rightarrow> NewIPRateLimiter (OTPRateLimitMax cfg) (go_duration (OTPRateLimitWindowSeconds cfg) second)
   | AdminWriteTier \<Rightarrow> NewIPRateLimiter (AdminWriteRateLimitMax cfg) (go_duration (AdminWriteRateLimitWindowSeconds cfg) second)
   | AppCreateTier \<Rightarrow> NewIPRateLimiter (AppCreateRateLimitMax cfg) (go_duration (AppCreateRateLimitWindowSeconds cfg) second))"

record service =
  sv_Server :: server_options
  sv_Auth :: auth_controller
  sv_AuthState :: auth_state
  sv_Keys :: key_verifier
  sv_Limiters :: "tier \<Rightarrow> ip_limiter"
  sv_Resolver :: gateway_resolver
  sv_Intl :: intl_controller
  sv_Logs :: log_repo
  sv_Routes :: "route_entry list"

section \<open>What is stored\<close>

record stored_data =
  sd_schema :: schema
  sd_admins :: admin_users
  sd_catalog :: catalog
  sd_routing :: routing_db
  sd_fallback :: "fallback_line list"

text \<open>NewLogRepository: empty queues over the file and the table that are there.\<close>

definition NewLogRepository :: "stored_data \<Rightarrow> log_repo" where
  "NewLogRepository st = \<lparr> t1Queue = [], t2Queue = [], fallback = sd_fallback st,
     api_logs = (case ct_logs (sd_catalog st) of Some (Partitioned rows) \<Rightarrow> rows | _ \<Rightarrow> []),
     next_id = ct_seq (sd_catalog st), droppedLogsTotal = 0, closed = False \<rparr>"

definition service_of :: "config \<Rightarrow> aead \<Rightarrow> stored_data \<Rightarrow> service" where
  "service_of cfg g st = (let resolver = \<lparr> gr_Cipher = Some g, gr_Cfg = cfg \<rparr> in
     \<lparr> sv_Server = server_of cfg, sv_Auth = auth_of cfg, sv_AuthState = auth_state_of cfg, sv_Keys = keys_of cfg,
       sv_Limiters = limiter_of cfg, sv_Resolver = resolver,
       sv_Intl = \<lparr> ic_StripeClient = Some (stripe_NewClient (StripeBaseURL cfg) (StripeAPIKey cfg)), ic_Cfg = cfg, ic_Resolver = resolver \<rparr>,
       sv_Logs = NewLogRepository st, sv_Routes = main_table (AdminSignupKey cfg) (AdminSignupRoute cfg) \<rparr>)"

section \<open>The start\<close>

record startup_world =
  su_sha :: "string \<Rightarrow> string"
  su_fs :: file_system
  su_bcrypt :: bcrypt
  su_gcm :: "string \<Rightarrow> aead"
  su_gorm :: "gorm_model list \<Rightarrow> schema \<Rightarrow> string + schema"
  su_connect :: "string option"
  su_clock :: string
  su_now :: time
  su_legacy :: string
  su_statements :: nat
  su_plan :: "string option"
  su_boot :: "boot_world list"

text \<open>Connect's error is that of the URL's reader or of the ping; su_clock is what CURRENT_TIMESTAMP writes.\<close>

definition main_start :: "startup_world \<Rightarrow> environment \<Rightarrow> stored_data \<Rightarrow> (string + service) \<times> stored_data" where
  "main_start w env st =
     (let cfg = Load_with_key (su_sha w) (su_fs w) env in
      if blank (JWTSecret cfg) then (Inl ''JWT_SECRET must be set'', st)
      else if JWTTTLMinutes cfg \<le> 0 then (Inl ''JWT_TTL_MINUTES must be greater than 0'', st)
      else case OpenAndMigrate (su_gorm w) (sd_schema st) of Inl e \<Rightarrow> (Inl e, st) | Inr db \<Rightarrow> let st = st\<lparr>sd_schema := db\<rparr> in
      (case EnsureAdminUser (su_bcrypt w) (AdminUsername cfg) (AdminPassword cfg) (AdminPasswordHash cfg) (sd_admins st) of
         (Inl e, us) \<Rightarrow> (Inl e, st\<lparr>sd_admins := us\<rparr>)
       | (Inr _, us) \<Rightarrow> let st = st\<lparr>sd_admins := us\<rparr> in
         case su_connect w of Some e \<Rightarrow> (Inl e, st) | None \<Rightarrow>
         case start_migrations (su_clock w) (sd_schema st) of ((_, migrated), db) \<Rightarrow> let st = st\<lparr>sd_schema := db\<rparr> in
         if \<not> migrated then (Inl ''migration'', st) else
         (case start_logs (su_now w) (su_legacy w) (su_statements w) (sd_catalog st) of (ok, cat) \<Rightarrow>
            if \<not> ok \<or> su_statements w < length (EnsureLogsSchema (su_now w) (su_legacy w) (sd_catalog st))
            then (Inl ''log schema'', st\<lparr>sd_catalog := cat\<rparr>)
            else let st = st\<lparr>sd_catalog := cat\<rparr> in
              case NewFromBase64 (su_gcm w) (PaymentCredentialMasterKey cfg) of
                Inl _ \<Rightarrow> (Inl ''PAYMENT_CREDENTIALS_MASTER_KEY_B64 must be a base64-encoded 32-byte key'', st)
              | Inr g \<Rightarrow> (Inr (service_of cfg g st), st\<lparr>sd_routing := provisionAtBoot (Some g) (su_boot w) (su_plan w) (sd_routing st)\<rparr>))))"

section \<open>Seeding is a history of the routing tables\<close>

lemma routing_step_uuid: "routing_step db db' \<Longrightarrow> uuid_of db' = uuid_of db"
proof (induction rule: routing_step.induct)
  case (create_draft db rnd now rid provider keyID encrypt d db')
  then show ?case by (auto simp: CreateDraftCredential_def insertCredential_def Let_def split: option.splits sum.splits prod.splits if_splits)
next
  case (rotate db rnd now cid keyID encrypt d db')
  then show ?case by (auto simp: RotateCredential_def insertCredential_def Let_def split: option.splits sum.splits prod.splits if_splits)
qed (auto simp: CreateRecipient_def SetRecipientActive_def CreateMapping_def SetMappingActive_def SetCredentialStatus_def Let_def
  split: option.splits if_splits)

lemma routing_steps_uuid: "routing_step\<^sup>*\<^sup>* db db' \<Longrightarrow> uuid_of db' = uuid_of db"
  by (induction rule: rtranclp_induct) (simp_all add: routing_step_uuid)

definition boot_ids :: "boot_world \<Rightarrow> routing_db \<Rightarrow> bool" where
  "boot_ids w db \<longleftrightarrow> (\<forall>k \<in> {bw_recipient_uuid w, bw_mapping_uuid w} \<union> bw_credential_uuid w ` set (bw_order w). fresh_uuid k db)"

lemma boot_destination_steps:
  assumes "fresh_uuid (bw_credential_uuid w p) db"
  shows "routing_step\<^sup>*\<^sup>* db (boot_destination g w app ref rid b p db)"
proof -
  let ?draft = "CreateDraftCredential (bw_now w) (bw_credential_uuid w p) rid p master_key_id (credentialEncryptor g (bw_nonce w p) (boot_values b p)) db"
  have "routing_step\<^sup>*\<^sup>* db (snd (SetCredentialStatus (bw_now w) (gc_ID c) ''active'' db1))" if "?draft = (Inr c, db1)" for c db1
  proof -
    have "routing_step db db1" using create_draft [OF _ that] assms by (simp add: fresh_uuid_def)
    moreover have "routing_step db1 (snd (SetCredentialStatus (bw_now w) (gc_ID c) ''active'' db1))"
      by (rule set_status) (rule surjective_pairing)
    ultimately show ?thesis by simp
  qed
  then show ?thesis by (auto simp: boot_destination_def Let_def split: sum.splits prod.splits)
qed

lemma fresh_uuid_later: "routing_step\<^sup>*\<^sup>* db db' \<Longrightarrow> fresh_uuid k db' = fresh_uuid k db"
  by (simp add: fresh_uuid_def routing_steps_uuid)

lemma boot_ids_later: "routing_step\<^sup>*\<^sup>* db db' \<Longrightarrow> boot_ids w db' = boot_ids w db"
  by (simp add: boot_ids_def fresh_uuid_later)

lemma boot_destinations_steps:
  assumes "\<forall>p \<in> set ps. fresh_uuid (bw_credential_uuid w p) db"
  shows "routing_step\<^sup>*\<^sup>* db (fold (boot_destination g w app ref rid b) ps db)"
  using assms
proof (induction ps arbitrary: db)
  case (Cons p ps)
  have one: "routing_step\<^sup>*\<^sup>* db (boot_destination g w app ref rid b p db)" using Cons.prems by (intro boot_destination_steps) simp
  moreover have "routing_step\<^sup>*\<^sup>* (boot_destination g w app ref rid b p db) (fold (boot_destination g w app ref rid b) ps (boot_destination g w app ref rid b p db))"
    using Cons.prems fresh_uuid_later [OF one] by (intro Cons.IH) simp
  ultimately show ?case by simp
qed simp

lemma provisionOne_steps:
  assumes "boot_ids w db"
  shows "routing_step\<^sup>*\<^sup>* db (snd (provisionOne g w app b db))"
proof -
  let ?name = "TrimSpace (bp_Name b)" and ?ref = "TrimSpace (bp_Reference b)"
  define first where "first = (case boot_recipient ?name db of Some r \<Rightarrow> (Inr (), db)
      | None \<Rightarrow> CreateRecipient (bw_now w) (bw_recipient_uuid w) (bw_recipient_uuid w) ?name True db)"
  define rid where "rid = (case boot_recipient ?name db of Some r \<Rightarrow> pr_ID r | None \<Rightarrow> bw_recipient_uuid w)"
  let ?fill = "\<lambda>d. fold (boot_destination g w app ?ref rid b) (bw_order w) d"
  let ?map = "\<lambda>d. CreateMapping (bw_now w) (bw_mapping_uuid w) app ?ref rid True d"
  have ids: "fresh_uuid (bw_recipient_uuid w) db" "fresh_uuid (bw_mapping_uuid w) db" "\<forall>p \<in> set (bw_order w). fresh_uuid (bw_credential_uuid w p) db"
    using assms by (auto simp: boot_ids_def)
  have s1: "routing_step\<^sup>*\<^sup>* db (snd first)"
    using create_recipient [of db "bw_recipient_uuid w" "bw_now w" "bw_recipient_uuid w" ?name True "fst first" "snd first"] ids(1)
    by (auto simp: first_def fresh_uuid_def split: option.splits)
  have s2: "routing_step\<^sup>*\<^sup>* db (?fill (snd first))"
    using s1 boot_destinations_steps [of "bw_order w" w "snd first" g app ?ref rid b] ids(3) fresh_uuid_later [OF s1] by (meson rtranclp_trans)
  have "fresh_uuid (bw_mapping_uuid w) (?fill (snd first))" using fresh_uuid_later [OF s2] ids(2) by simp
  then have "routing_step (?fill (snd first)) (snd (?map (?fill (snd first))))"
    unfolding fresh_uuid_def by (rule create_mapping) (rule surjective_pairing)
  then have s3: "routing_step\<^sup>*\<^sup>* db (snd (?map (?fill (snd first))))" using s2 by simp
  have "snd (provisionOne g w app b db) \<in> {db, ?fill (snd first), snd (?map (?fill (snd first)))}"
    unfolding provisionOne_def Let_def first_def [symmetric] rid_def [symmetric]
    by (cases first; cases "fst first"; cases "?map (?fill (snd first))"; cases "fst (?map (?fill (snd first)))") auto
  then show ?thesis using s2 s3 by auto
qed

lemma provision_all_steps:
  assumes "\<forall>w \<in> set ws. boot_ids w db"
  shows "routing_step\<^sup>*\<^sup>* db (provision_all g ws app bs db)"
  using assms
proof (induction g ws app bs db rule: provision_all.induct)
  case (1 g w ws app b bs db)
  have one: "routing_step\<^sup>*\<^sup>* db (snd (provisionOne g w app b db))" using "1.prems" by (intro provisionOne_steps) simp
  then have "routing_step\<^sup>*\<^sup>* (snd (provisionOne g w app b db)) (provision_all g ws app bs (snd (provisionOne g w app b db)))"
    using "1.prems" boot_ids_later [OF one] by (intro "1.IH") simp
  with one show ?case by simp
qed simp_all

lemma provisionAtBoot_steps:
  assumes "\<forall>w \<in> set ws. boot_ids w db"
  shows "routing_step\<^sup>*\<^sup>* db (provisionAtBoot g ws file db)"
  using provision_all_steps [OF assms] by (auto simp: provisionAtBoot_def split: option.splits)

section \<open>The log table after a start\<close>

lemma exec_schema_leaf_logs:
  "exec_all_schema now ss c = (ok, c') \<Longrightarrow> \<forall>x \<in> set ss. \<exists>spec. x = CreateLeaf spec \<or> x = UpsertRegistry spec \<Longrightarrow> ct_logs c' = ct_logs c"
proof (induction ss arbitrary: c)
  case (Cons x ss)
  have "ct_logs d = ct_logs c" if "exec_schema now x c = Some d" for d
    using that Cons.prems(2) by (auto split: if_splits)
  then show ?case using Cons by (auto split: option.splits)
qed simp

lemma month_stmts_shape: "x \<in> set (month_stmts ms) \<Longrightarrow> \<exists>spec. x = CreateLeaf spec \<or> x = UpsertRegistry spec"
  by (auto simp: month_stmts_def Let_def)

lemma exec_split:
  assumes "exec_all_schema now (xs @ ys) c = (True, c')"
  obtains c1 where "exec_all_schema now xs c = (True, c1)" "exec_all_schema now ys c1 = (True, c')"
  using assms by (auto simp: exec_append split: prod.splits if_splits)

lemma roots_partitioned:
  assumes "exec_all_schema now ensureAPILogSubpartitionRoots c = (True, c')"
  obtains rows where "ct_logs c' = Some (Partitioned rows)"
  using assms that by (auto simp: ensureAPILogSubpartitionRoots_def split: option.splits logs_relation.splits)

lemma started_logs:
  assumes "start_logs now l n c = (True, c')" "length (EnsureLogsSchema now l c) \<le> n"
  obtains rows where "ct_logs c' = Some (Partitioned rows)" "\<forall>r \<in> set rows. le_ID (q_Entry r) < ct_seq c'"
proof -
  let ?pre = "ensureAPILogPartitionRegistry @ (case ct_logs c of None \<Rightarrow> createPartitionedAPILogTable
      | Some (Flat t) \<Rightarrow> migrateUnpartitionedAPILogs now l t | Some (Partitioned _) \<Rightarrow> []) @ ensureAPILogParentShape"
  have "exec_all_schema now (?pre @ (ensureAPILogSubpartitionRoots @ (month_stmts (current_months now) @ [SyncSequence]))) c = (True, c')"
    using assms by (simp add: start_logs_def EnsureLogsSchema_def)
  then obtain c1 c2 c3 where c: "exec_all_schema now ensureAPILogSubpartitionRoots c1 = (True, c2)"
      "exec_all_schema now (month_stmts (current_months now)) c2 = (True, c3)" "exec_all_schema now [SyncSequence] c3 = (True, c')"
    by (metis exec_split)
  obtain rows where r: "ct_logs c2 = Some (Partitioned rows)" using roots_partitioned [OF c(1)] by blast
  have "ct_logs c3 = Some (Partitioned rows)" using exec_schema_leaf_logs [OF c(2)] month_stmts_shape r by simp
  then have "c' = c3\<lparr>ct_seq := max_id (map (le_ID \<circ> q_Entry) rows) + 1\<rparr>" "ct_logs c' = Some (Partitioned rows)"
    using c(3) by (auto simp: relation_ids_def)
  then show thesis using that max_id_bound [of _ "map (le_ID \<circ> q_Entry) rows"] by force
qed

section \<open>What a started service is\<close>

lemma main_start_Inr:
  assumes "main_start w env st = (Inr svc, st')"
  defines "cfg \<equiv> Load_with_key (su_sha w) (su_fs w) env"
  obtains us cat g db0 warned db where "OpenAndMigrate (su_gorm w) (sd_schema st) = Inr db0" "start_migrations (su_clock w) db0 = ((warned, True), db)"
    "\<not> blank (JWTSecret cfg)" "0 < JWTTTLMinutes cfg"
    "EnsureAdminUser (su_bcrypt w) (AdminUsername cfg) (AdminPassword cfg) (AdminPasswordHash cfg) (sd_admins st) = (Inr (), us)"
    "start_logs (su_now w) (su_legacy w) (su_statements w) (sd_catalog st) = (True, cat)"
    "length (EnsureLogsSchema (su_now w) (su_legacy w) (sd_catalog st)) \<le> su_statements w"
    "NewFromBase64 (su_gcm w) (PaymentCredentialMasterKey cfg) = Inr g"
    "svc = service_of cfg g (st\<lparr>sd_admins := us, sd_schema := db, sd_catalog := cat\<rparr>)"
    "st' = st\<lparr>sd_admins := us, sd_schema := db, sd_catalog := cat, sd_routing := provisionAtBoot (Some g) (su_boot w) (su_plan w) (sd_routing st)\<rparr>"
  using assms(1) that unfolding main_start_def Let_def cfg_def [symmetric]
  by (auto split: if_splits option.splits sum.splits prod.splits)

lemma admin_ensured:
  assumes "EnsureAdminUser b u p h users = (Inr (), users')"
  shows "TrimSpace u \<in> fst ` set users' \<and> set users \<subseteq> set users'"
  using assms by (auto simp: EnsureAdminUser_def Let_def split: option.splits sum.splits if_splits)

text \<open>
  C15: a start leaves every component where its invariant begins.  Whatever the environment says, a
  service that starts has a secret to sign sessions with, an administrator, an empty session store whose
  invariant holds, limiters and slots with positive bounds, a cipher over a key of 32 bytes, a
  partitioned log table with the next id above every stored one, and routing tables that
  satisfy their invariant and are reached from the stored ones by steps of the repository, so
  that no recorded credential is lost by the seeding; and every stored payment is legacy or names a stored
  credential.  Of AutoMigrate it needs that the database still satisfies its own constraints.
\<close>
theorem started_service_wellformed:
  assumes "main_start w env st = (Inr svc, st')" "routing_inv (sd_routing st)"
    and "\<forall>b \<in> set (su_boot w). boot_ids b (sd_routing st)"
    and "\<forall>db. OpenAndMigrate (su_gorm w) (sd_schema st) = Inr db \<longrightarrow> schema_holds db \<and> declared db \<and> own_names db"
  shows "(\<exists>j m l. ac_JWT (sv_Auth svc) = Some j \<and> \<not> blank (jm_Secret j)
      \<and> as_Sessions (sv_AuthState svc) = Some m \<and> sm_wf m \<and> sessions m = [] \<and> 0 < ttl m
      \<and> as_Limiter (sv_AuthState svc) = Some l \<and> 0 < maxAttempts l \<and> 0 < ll_window l \<and> 0 < lockDuration l)
    \<and> (\<forall>t. 0 < maxRequests (sv_Limiters svc t) \<and> 0 < rl_window (sv_Limiters svc t))
    \<and> 0 < kv_maxConcurrent (sv_Keys svc) \<and> 0 < kv_invalidCacheTTL (sv_Keys svc) \<and> 0 < kv_retryAfter (sv_Keys svc)
    \<and> (\<exists>key. length key = 32 \<and> gr_Cipher (sv_Resolver svc) = Some (su_gcm w key) \<and> ic_Resolver (sv_Intl svc) = sv_Resolver svc)
    \<and> (\<exists>u. u \<in> fst ` set (sd_admins st')) \<and> set (sd_admins st) \<subseteq> set (sd_admins st')
    \<and> ct_logs (sd_catalog st') = Some (Partitioned (api_logs (sv_Logs svc)))
    \<and> (\<forall>r \<in> set (api_logs (sv_Logs svc)). le_ID (q_Entry r) < next_id (sv_Logs svc))
    \<and> routing_inv (sd_routing st') \<and> routing_step\<^sup>*\<^sup>* (sd_routing st) (sd_routing st')
    \<and> (\<forall>t \<in> set payment_tables. \<forall>r \<in> set (sql_rows (sd_schema st') t).
        r ''routing_mode'' = Some (SText ''legacy'') \<or> routed_row t (sd_schema st') r)"
proof -
  let ?cfg = "Load_with_key (su_sha w) (su_fs w) env"
  obtain us cat g db0 warned db where m: "OpenAndMigrate (su_gorm w) (sd_schema st) = Inr db0" "start_migrations (su_clock w) db0 = ((warned, True), db)"
    and s: "\<not> blank (JWTSecret ?cfg)"
    "EnsureAdminUser (su_bcrypt w) (AdminUsername ?cfg) (AdminPassword ?cfg) (AdminPasswordHash ?cfg) (sd_admins st) = (Inr (), us)"
    "start_logs (su_now w) (su_legacy w) (su_statements w) (sd_catalog st) = (True, cat)"
    "length (EnsureLogsSchema (su_now w) (su_legacy w) (sd_catalog st)) \<le> su_statements w"
    "NewFromBase64 (su_gcm w) (PaymentCredentialMasterKey ?cfg) = Inr g"
    "svc = service_of ?cfg g (st\<lparr>sd_admins := us, sd_schema := db, sd_catalog := cat\<rparr>)"
    "st' = st\<lparr>sd_admins := us, sd_schema := db, sd_catalog := cat, sd_routing := provisionAtBoot (Some g) (su_boot w) (su_plan w) (sd_routing st)\<rparr>"
    using assms(1) by (rule main_start_Inr)
  have auth: "\<exists>j m l. ac_JWT (sv_Auth svc) = Some j \<and> \<not> blank (jm_Secret j)
      \<and> as_Sessions (sv_AuthState svc) = Some m \<and> sm_wf m \<and> sessions m = [] \<and> 0 < ttl m
      \<and> as_Limiter (sv_AuthState svc) = Some l \<and> 0 < maxAttempts l \<and> 0 < ll_window l \<and> 0 < lockDuration l"
    using s(1) by (simp add: s(6) service_of_def auth_of_def auth_state_of_def jwt_of_def Let_def)
      (simp add: NewSessionManager_def NewLoginLimiter_def)
  have tiers: "0 < maxRequests (sv_Limiters svc t) \<and> 0 < rl_window (sv_Limiters svc t)" for t
    by (cases t) (simp_all add: s(6) service_of_def limiter_of_def NewIPRateLimiter_def Let_def)
  have keys: "0 < kv_maxConcurrent (sv_Keys svc)" "0 < kv_invalidCacheTTL (sv_Keys svc)" "0 < kv_retryAfter (sv_Keys svc)"
    by (simp_all add: s(6) service_of_def keys_of_def newAPIKeyAuthVerifier_def Let_def)
  have cipher: "\<exists>key. length key = 32 \<and> gr_Cipher (sv_Resolver svc) = Some (su_gcm w key) \<and> ic_Resolver (sv_Intl svc) = sv_Resolver svc"
    using s(5) by (auto simp: s(6) service_of_def NewFromBase64_def Let_def split: option.splits if_splits)
  obtain rows where rows: "ct_logs cat = Some (Partitioned rows)" "\<forall>r \<in> set rows. le_ID (q_Entry r) < ct_seq cat"
    using started_logs [OF s(3,4)] .
  have logs: "api_logs (sv_Logs svc) = rows" "next_id (sv_Logs svc) = ct_seq cat"
    by (simp_all add: s(6) service_of_def NewLogRepository_def Let_def rows(1))
  have "routing_step\<^sup>*\<^sup>* (sd_routing st) (sd_routing st')" using provisionAtBoot_steps [OF assms(3)] by (simp add: s(7))
  moreover have "routing_inv (sd_routing st')" using routing_steps_inv [OF calculation assms(2)] by simp
  moreover have "r ''routing_mode'' = Some (SText ''legacy'') \<or> routed_row t (sd_schema st') r"
    if "t \<in> set payment_tables" "r \<in> set (sql_rows (sd_schema st') t)" for t r
    using migrated_payments [OF m(2) _ _ _ that(1)] assms(4) m(1) that(2) by (simp add: s(7))
  ultimately show ?thesis using auth tiers keys cipher admin_ensured [OF s(2)] rows logs by (auto simp: s(7))
qed

section \<open>A start that succeeds\<close>

text \<open>A log table that is missing, partitioned, or flat in one of the shapes it had, never stops a start.\<close>

lemma start_completes:
  assumes "\<And>t. ct_logs c = Some (Flat t) \<Longrightarrow> absent_null t \<and> map_of (ct_legacy c) l = None"
    and "length (EnsureLogsSchema now l c) \<le> n"
  shows "\<exists>c'. start_logs now l n c = (True, c')"
proof -
  let ?c0 = "c\<lparr>ct_registry := True\<rparr>"
  define mid where "mid = (case ct_logs c of None \<Rightarrow> createPartitionedAPILogTable
    | Some (Flat t) \<Rightarrow> migrateUnpartitionedAPILogs now l t | Some (Partitioned _) \<Rightarrow> [])"
  have "\<exists>c1 rows. exec_all_schema now mid ?c0 = (True, c1) \<and> ct_registry c1 \<and> ct_logs c1 = Some (Partitioned rows)"
  proof (cases "ct_logs c")
    case None
    then show ?thesis using parent_block [of ?c0 now] by (simp add: mid_def)
  next
    case (Some r)
    show ?thesis
    proof (cases r)
      case (Flat t)
      then show ?thesis using migration_block [of ?c0 l t now] assms(1) [of t] Some by (fastforce simp: mid_def)
    next
      case (Partitioned rows)
      then show ?thesis using Some by (simp add: mid_def)
    qed
  qed
  then obtain c1 rows where c1: "exec_all_schema now mid ?c0 = (True, c1)" "ct_registry c1" "ct_logs c1 = Some (Partitioned rows)" by blast
  obtain c2 where c2: "exec_all_schema now (finish_stmts now) c1 = (True, c2)" using finish_block [OF c1(3,2)] by blast
  have "EnsureLogsSchema now l c = ensureAPILogPartitionRegistry @ mid @ finish_stmts now"
    by (simp add: EnsureLogsSchema_def finish_stmts_def mid_def)
  then have "exec_all_schema now (EnsureLogsSchema now l c) c = (True, c2)"
    by (simp only: exec_then [OF registry_block] exec_then [OF c1(1)] c2)
  then show ?thesis using assms(2) by (simp add: start_logs_def)
qed

definition start_env :: environment where
  "start_env n = (if n = ''JWT_SECRET'' then ''s3cret'' else if n = ''PAYMENT_CREDENTIALS_MASTER_KEY_B64'' then StdEncode (replicate 32 CHR ''k'')
     else if n = ''BIZ_RATE_LIMIT_MAX'' then ''2'' else if n = ''BIZ_RATE_LIMIT_WINDOW_SECONDS'' then ''10''
     else if n = ''APP_CREATE_RATE_LIMIT_MAX'' then ''-1'' else [])"

definition start_world :: startup_world where
  "start_world = \<lparr> su_sha = id, su_fs = secret_fs, su_bcrypt = \<lparr> bc_hash = Inr, bc_compare = (=), bc_cost_ok = (\<lambda>_. True) \<rparr>,
     su_gcm = (\<lambda>_. toy_aead), su_gorm = (\<lambda>_. Inr), su_connect = None, su_clock = ''now'', su_now = 0, su_legacy = ''api_logs_old'',
     su_statements = length (EnsureLogsSchema 0 ''api_logs_old'' old_catalog), su_plan = None, su_boot = [] \<rparr>"

definition start_stored :: stored_data where
  "start_stored = \<lparr> sd_schema = moved_schema, sd_admins = [(''admin'', ''h'')], sd_catalog = old_catalog, sd_routing = demo_db, sd_fallback = [] \<rparr>"

lemma start_key: "NewFromBase64 (\<lambda>_. toy_aead) (PaymentCredentialMasterKey (Load_with_key id secret_fs start_env)) = Inr toy_aead"
proof -
  have t: "TrimSpace (StdEncode (replicate 32 CHR ''k'')) = StdEncode (replicate 32 CHR ''k'')" by code_simp
  have n: "StdEncode (replicate 32 CHR ''k'') \<noteq> []" by code_simp
  have "PaymentCredentialMasterKey (Load_with_key id secret_fs start_env) = getenv start_env ''PAYMENT_CREDENTIALS_MASTER_KEY_B64'' []"
    by (simp add: Load_with_key_def Load_def)
  also have "\<dots> = StdEncode (replicate 32 CHR ''k'')" using t n by (simp add: getenv_def start_env_def)
  finally show ?thesis using t by (simp add: NewFromBase64_def StdDecode_StdEncode)
qed

lemma start_demo:
  obtains svc st' where "main_start start_world start_env start_stored = (Inr svc, st')"
proof -
  let ?cfg = "Load_with_key id secret_fs start_env"
  have js: "\<not> blank (JWTSecret ?cfg)" "0 < JWTTTLMinutes ?cfg" "TrimSpace (AdminUsername ?cfg) = ''admin''"
    by (simp_all add: Load_with_key_def Load_def getenv_def start_env_def blank_def TrimSpace_def is_space_def atoi_def)
      code_simp+
  have adm: "EnsureAdminUser b (AdminUsername ?cfg) p h [(''admin'', ''h'')] = (Inr (), [(''admin'', ''h'')])" for b p h
  proof -
    have "ValidateAdminUsername ''admin'' = None" by code_simp
    then show ?thesis by (simp add: EnsureAdminUser_def js(3))
  qed
  obtain cat where "start_logs 0 ''api_logs_old'' (length (EnsureLogsSchema 0 ''api_logs_old'' old_catalog)) old_catalog = (True, cat)"
    using start_completes [of old_catalog "''api_logs_old''" 0] by (fastforce simp: old_catalog_def old_logs_def absent_null_def legacy_demo_def)
  then show thesis
    using that js start_key adm
    by (simp add: main_start_def start_world_def start_stored_def OpenAndMigrate_def moved_start Let_def not_le)
qed

theorem started_service_wellformed_witness:
  "\<exists>svc st'. main_start start_world start_env start_stored = (Inr svc, st') \<and> routing_inv (sd_routing st')
    \<and> ct_logs (sd_catalog st') = Some (Partitioned (api_logs (sv_Logs svc))) \<and> 0 < maxRequests (sv_Limiters svc OTPTier)"
proof -
  obtain svc st' where s: "main_start start_world start_env start_stored = (Inr svc, st')" by (rule start_demo)
  have i: "routing_inv (sd_routing start_stored)" "\<forall>b \<in> set (su_boot start_world). boot_ids b (sd_routing start_stored)"
    using demo_inv by (simp_all add: start_stored_def start_world_def)
  have "\<forall>db. OpenAndMigrate (su_gorm start_world) (sd_schema start_stored) = Inr db \<longrightarrow> schema_holds db \<and> declared db \<and> own_names db"
    using moved_holds moved_declared moved_own by (simp add: OpenAndMigrate_def start_world_def start_stored_def)
  note w = started_service_wellformed [OF s i this]
  have "routing_inv (sd_routing st')" using w by (elim conjE)
  moreover have "ct_logs (sd_catalog st') = Some (Partitioned (api_logs (sv_Logs svc)))" using w by (elim conjE)
  moreover have "\<forall>t. 0 < maxRequests (sv_Limiters svc t) \<and> 0 < rl_window (sv_Limiters svc t)" using w by (elim conjE)
  ultimately show ?thesis using s by auto
qed

section \<open>The configured rates\<close>

lemma go_duration_exact:
  assumes "0 \<le> n * u" "n * u < 2 ^ 63"
  shows "go_duration n u = n * u"
  unfolding go_duration_def sint_sbintrunc' by (rule signed_take_bit_int_eq_self) (use assms in simp_all)

fun tier_name :: "tier \<Rightarrow> string" where
  "tier_name BizTier = ''BIZ''" | "tier_name OTPTier = ''OTP''" | "tier_name AdminWriteTier = ''ADMIN_WRITE''" | "tier_name AppCreateTier = ''APP_CREATE''"

fun tier_default :: "tier \<Rightarrow> int" where
  "tier_default BizTier = 60" | "tier_default OTPTier = 10" | "tier_default AdminWriteTier = 20" | "tier_default AppCreateTier = 5"

text \<open>What an environment asks for: the number a variable spells, or the tier's default.\<close>

definition asked :: "environment \<Rightarrow> string \<Rightarrow> int \<Rightarrow> int" where
  "asked env name d = (if blank (env name) then d else case Atoi (TrimSpace (env name)) of None \<Rightarrow> d | Some v \<Rightarrow> v)"

lemma atoi_getenv: "Atoi (TrimSpace dflt) = Some d \<Longrightarrow> atoi (getenv env name dflt) d = asked env name d"
  by (simp add: atoi_def getenv_def asked_def blank_def Let_def split: option.splits)

lemma limiter_asked:
  "maxRequests (limiter_of (Load_with_key sha fs env) t) = (let n = asked env (tier_name t @ ''_RATE_LIMIT_MAX'') (tier_default t) in if n \<le> 0 then 60 else n)"
  "rl_window (limiter_of (Load_with_key sha fs env) t)
     = (let d = go_duration (asked env (tier_name t @ ''_RATE_LIMIT_WINDOW_SECONDS'') 60) second in if d \<le> 0 then minute else d)"
proof -
  have n: "Atoi (TrimSpace ''60'') = Some 60" "Atoi (TrimSpace ''10'') = Some 10" "Atoi (TrimSpace ''20'') = Some 20" "Atoi (TrimSpace ''5'') = Some 5"
    by code_simp+
  show "maxRequests (limiter_of (Load_with_key sha fs env) t) = (let n = asked env (tier_name t @ ''_RATE_LIMIT_MAX'') (tier_default t) in if n \<le> 0 then 60 else n)"
    by (cases t) (simp_all add: limiter_of_def NewIPRateLimiter_def Load_with_key_def Load_def Let_def atoi_getenv n)
  show "rl_window (limiter_of (Load_with_key sha fs env) t)
     = (let d = go_duration (asked env (tier_name t @ ''_RATE_LIMIT_WINDOW_SECONDS'') 60) second in if d \<le> 0 then minute else d)"
    by (cases t) (simp_all add: limiter_of_def NewIPRateLimiter_def Load_with_key_def Load_def Let_def atoi_getenv n)
qed

text \<open>
  C16: a started service keeps to the configured rates.  Every tier of requests has the bound
  and the window its two environment variables ask for (a window of more than 2^63 nanoseconds wraps around; a
  bound that is not positive becomes 60, also for the tiers whose own default is
  lower), and over any history of its calls no address is admitted more often than
  the bound in any interval of one window.
\<close>
theorem startup_enforces_rates:
  fixes t :: tier and t0 :: time
  assumes "main_start w env st = (Inr svc, st')" "sorted (map fst h)" "ip \<noteq> []"
  defines "l \<equiv> sv_Limiters svc t" and "n \<equiv> asked env (tier_name t @ ''_RATE_LIMIT_MAX'') (tier_default t)"
    and "s \<equiv> asked env (tier_name t @ ''_RATE_LIMIT_WINDOW_SECONDS'') 60"
  shows "maxRequests l = (if n \<le> 0 then 60 else n)
    \<and> (0 < s \<and> s * second < 2 ^ 63 \<longrightarrow> rl_window l = s * second)
    \<and> int (in_window t0 (rl_window l) (admitted ip (fst (rl_run h l)))) \<le> maxRequests l"
proof -
  have l: "l = limiter_of (Load_with_key (su_sha w) (su_fs w) env) t"
    using assms(1) unfolding l_def by (rule main_start_Inr) (simp add: service_of_def Let_def)
  obtain a b where "l = NewIPRateLimiter a b" by (cases t) (simp_all add: l limiter_of_def)
  then have "int (in_window t0 (rl_window l) (admitted ip (fst (rl_run h l)))) \<le> maxRequests l"
    using sliding_window_bound [OF assms(2,3)] by simp
  moreover have "rl_window l = s * second" if "0 < s" "s * second < 2 ^ 63"
    using that go_duration_exact [of s second] by (simp add: l limiter_asked s_def [symmetric] Let_def second_def)
  ultimately show ?thesis by (simp add: l limiter_asked n_def [symmetric] Let_def)
qed

theorem startup_enforces_rates_witness:
  "\<exists>svc st'. main_start start_world start_env start_stored = (Inr svc, st')
    \<and> maxRequests (sv_Limiters svc BizTier) = 2 \<and> rl_window (sv_Limiters svc BizTier) = 10 * second
    \<and> maxRequests (sv_Limiters svc AppCreateTier) = 60
    \<and> int (in_window 0 (10 * second) (admitted ''a'' (fst (rl_run [(1, ''a''), (2, ''a''), (3, ''a'')] (sv_Limiters svc BizTier))))) \<le> 2"
proof -
  obtain svc st' where s: "main_start start_world start_env start_stored = (Inr svc, st')" by (rule start_demo)
  have a: "asked start_env ''BIZ_RATE_LIMIT_MAX'' 60 = 2" "asked start_env ''BIZ_RATE_LIMIT_WINDOW_SECONDS'' 60 = 10"
    "asked start_env ''APP_CREATE_RATE_LIMIT_MAX'' 5 = -1" by code_simp+
  show ?thesis
    using s startup_enforces_rates [OF s, of "[(1, ''a''), (2, ''a''), (3, ''a'')]" "''a''" BizTier 0]
      startup_enforces_rates [OF s, of "[]" "''a''" AppCreateTier] a by (auto simp: second_def)
qed

end
