(* ===== verification/IntlSync.thy ===== *)
theory IntlSync
  imports IntlProps TransactionsList
begin

text \<open>
  The background job of card payments over its ticks, StartPendingStatusSync, with what
  it brings about, and the listing of card payments in the admin portal: the rest of
  controllers/international_controller.go.
\<close>

section \<open>The job over its ticks\<close>

text \<open>A run at the start and one at every tick until the service stops, each with the gateway and the instant it meets.\<close>

fun StartPendingStatusSync :: "intl_world list \<Rightarrow> intl_controller \<Rightarrow> intl_state \<Rightarrow> intl_state option" where
  "StartPendingStatusSync [] ctl s = Some s"
| "StartPendingStatusSync (w # ws) ctl s = (case reconcilePendingPayments w ctl s of
     None \<Rightarrow> None | Some s' \<Rightarrow> StartPendingStatusSync ws ctl s')"

section \<open>A paid payment is completed\<close>

text \<open>The row of a payment is untouched or completed.\<close>

definition kept_or_completed :: "InternationalPayment \<Rightarrow> intl_state \<Rightarrow> bool" where
  "kept_or_completed p s \<longleftrightarrow> (\<forall>q \<in> set (is_payments s). intl_key q = intl_key p \<longrightarrow> q = p \<or> ip_Status q = ''completed'')"

text \<open>The gateway, asked with the client of the payment, says that it was paid.\<close>

definition gateway_confirms :: "intl_world \<Rightarrow> intl_controller \<Rightarrow> routing_db \<Rightarrow> InternationalPayment \<Rightarrow> bool" where
  "gateway_confirms w ctl rt p \<longleftrightarrow> (\<exists>c resp logs. stripeClientForPayment ctl rt p = Inr c
     \<and> CheckApplicationStatus (iw_http w) c (ip_ReferenceID p) = (Inr resp, logs) \<and> as_ResponseData resp)"

lemma single_settles:
  assumes "kept_or_completed p s" "gateway_confirms w ctl (is_routing s) p" "t = iw_now w" "q = p \<or> intl_key q \<noteq> intl_key p"
  shows "kept_or_completed p (snd (reconcileSinglePendingPayment w ctl q t s))"
proof (cases "q = p")
  case True
  then show ?thesis using assms(2) reconcile_completes [of ctl s p _ w _ _ t] unfolding gateway_confirms_def kept_or_completed_def
    by (metis prod.collapse)
next
  case False
  let ?s = "snd (reconcileSinglePendingPayment w ctl q t s)"
  have rows: "list_all2 (checked t {intl_key q}) (is_payments s) (is_payments ?s)" by (rule reconcile_single_rows(1) [OF assms(3)])
  show ?thesis
    unfolding kept_or_completed_def
  proof (intro ballI impI)
    fix x assume x: "x \<in> set (is_payments ?s)" "intl_key x = intl_key p"
    then obtain y where y: "y \<in> set (is_payments s)" "checked t {intl_key q} y x"
      using rows by (metis in_set_conv_nth list_all2_conv_all_nth nth_mem)
    then have "intl_key y = intl_key x" using card_terms_key [of x y] by (simp add: checked_def)
    then have "x = y" using y(2) x(2) assms(4) False by (simp add: checked_def)
    then show "x = p \<or> ip_Status x = ''completed''" using assms(1) x y(1) by (simp add: kept_or_completed_def)
  qed
qed

lemma batch_settles:
  assumes "kept_or_completed p s" "gateway_confirms w ctl (is_routing s) p" "t = iw_now w"
    and "\<forall>q \<in> set ps. q = p \<or> intl_key q \<noteq> intl_key p"
  shows "kept_or_completed p (reconcile_batch w ctl t ps s) \<and> is_routing (reconcile_batch w ctl t ps s) = is_routing s
    \<and> map intl_key (is_payments (reconcile_batch w ctl t ps s)) = map intl_key (is_payments s)"
  using assms(1,2,4)
proof (induction ps arbitrary: s)
  case (Cons q ps)
  let ?s = "if blank (ip_ReferenceID q) then s else snd (reconcileSinglePendingPayment w ctl q t s)"
  have "list_all2 (checked t {(ip_MerchantID q, ip_ReferenceID q)}) (is_payments s) (is_payments (snd (reconcileSinglePendingPayment w ctl q t s)))"
    using reconcile_single_rows(1) [OF assms(3)] by (simp add: intl_key_def)
  then have "is_routing ?s = is_routing s" "map intl_key (is_payments ?s) = map intl_key (is_payments s)"
    using reconcile_single_rows(2) [OF assms(3)] checked_rows(1) by auto
  moreover have "kept_or_completed p ?s" using single_settles [OF Cons.prems(1,2) assms(3)] Cons.prems(1,3) by simp
  ultimately show ?case using Cons.IH [of ?s] Cons.prems by (simp add: reconcile_batch_def)
qed (simp add: reconcile_batch_def)

lemma loop_settles:
  assumes "reconcile_loop w ctl t s = Some s'" "t = iw_now w"
    and "kept_or_completed p s" "gateway_confirms w ctl (is_routing s) p"
  shows "kept_or_completed p s' \<and> map intl_key (is_payments s') = map intl_key (is_payments s)"
proof -
  let ?P = "\<lambda>w ctl t s s'. t = iw_now w \<and> kept_or_completed p s \<and> gateway_confirms w ctl (is_routing s) p
    \<longrightarrow> kept_or_completed p s' \<and> map intl_key (is_payments s') = map intl_key (is_payments s)"
  have "?P w ctl t s s'"
  proof (rule reconcile_loop.raw_induct [where P = ?P, OF _ assms(1)], intro impI, elim conjE)
    fix loop w ctl t s s'
    let ?ps = "ListPendingForStatusCheck (t - pendingStatusCheckInterval) (t - pendingStatusCheckMaxAge) pendingStatusCheckBatchSize s"
    assume IH: "\<And>w ctl t s s'. loop w ctl t s = Some s' \<Longrightarrow> ?P w ctl t s s'"
      and step: "(let pending = ?ps in if pending = [] then Some s
         else if length pending < pendingStatusCheckBatchSize then Some (reconcile_batch w ctl t pending s)
         else loop w ctl t (reconcile_batch w ctl t pending s)) = Some s'"
      and prems: "t = iw_now w" "kept_or_completed p s" "gateway_confirms w ctl (is_routing s) p"
    have "\<forall>q \<in> set ?ps. q = p \<or> intl_key q \<noteq> intl_key p"
    proof
      fix q assume "q \<in> set ?ps"
      then have q: "q \<in> set (is_payments s)" "ToLower (ip_Status q) = ''pending''"
        using pending_due(1) [of "t - pendingStatusCheckInterval" "t - pendingStatusCheckMaxAge" pendingStatusCheckBatchSize s]
        by (auto simp: due_def)
      then have "ip_Status q \<noteq> ''completed''" by (auto simp: ToLower_def lower_char_def)
      then show "q = p \<or> intl_key q \<noteq> intl_key p" using prems(2) q(1) by (auto simp: kept_or_completed_def)
    qed
    note b = batch_settles [OF prems(2,3,1) this]
    have cases: "(if a then Some x else if b then Some y else z) = Some v \<Longrightarrow> v = x \<or> v = y \<or> z = Some v" for a b and x y v :: intl_state and z
      by (auto split: if_splits)
    from step [unfolded Let_def, THEN cases] consider "s' = s" | "s' = reconcile_batch w ctl t ?ps s" | "loop w ctl t (reconcile_batch w ctl t ?ps s) = Some s'"
      by blast
    then show "kept_or_completed p s' \<and> map intl_key (is_payments s') = map intl_key (is_payments s)"
    proof cases
      case 3
      then show ?thesis using IH [OF 3] b prems(1,3) by simp
    qed (use prems(2) b in simp_all)
  qed
  then show ?thesis using assms(2-4) by simp
qed

section \<open>Completed payments stay completed\<close>

text \<open>A row with the terms t is completed.\<close>

definition card_settled :: "intl_state \<Rightarrow> InternationalPayment \<Rightarrow> bool" where
  "card_settled s p \<longleftrightarrow> (\<exists>q \<in> set (is_payments s). card_terms q = card_terms p \<and> ip_Status q = ''completed'')"

lemma settled_update:
  assumes "card_settled s p" "\<And>q. card_terms (f q) = card_terms q" "\<And>q. ip_Status q = ''completed'' \<Longrightarrow> ip_Status (f q) = ''completed''"
  shows "card_settled (snd (intl_update m r f s)) p"
proof -
  obtain q where q: "q \<in> set (is_payments s)" "card_terms q = card_terms p" "ip_Status q = ''completed''"
    using assms(1) by (auto simp: card_settled_def)
  let ?q = "if intl_key q = (m, r) then f q else q"
  have "?q \<in> set (is_payments (snd (intl_update m r f s)))" using q(1) by (auto simp: intl_update_def)
  moreover have "card_terms ?q = card_terms p" "ip_Status ?q = ''completed''" using q(2,3) assms(2,3) by simp_all
  ultimately show ?thesis unfolding card_settled_def by blast
qed

lemma settled_marks:
  "card_settled s p \<Longrightarrow> card_settled (snd (MarkStatusCheckAttempt now m r t s)) p"
  "card_settled s p \<Longrightarrow> card_settled (snd (UpdatePaymentStatus now m r ''completed'' s)) p"
  unfolding MarkStatusCheckAttempt_def UpdatePaymentStatus_def
  by (rule settled_update; simp add: card_terms_def link_of_def)+

lemma settled_logs: "card_settled (s\<lparr>is_logs := l\<rparr>) p = card_settled s p"
  by (simp add: card_settled_def)

lemma settled_single: "card_settled s p \<Longrightarrow> card_settled (snd (reconcileSinglePendingPayment w ctl q t s)) p"
  by (cases rule: reconcile_single_cases [of w ctl q t s]) (simp_all add: settled_marks settled_logs)

lemma CheckPaymentStatus_effect:
  assumes "CheckPaymentStatus w ctl m ref s = (resp, s')"
  shows "s' = s \<or> (\<exists>q. s' = snd (reconcileSinglePendingPayment w ctl q (iw_now w) s))"
  using assms by (auto simp: CheckPaymentStatus_def split: if_splits sum.splits option.splits prod.splits; metis snd_conv)

lemma settled_step:
  assumes "card_step a s s'" "card_settled s p"
  shows "card_settled s' p"
  using assms(1)
proof (cases rule: card_step.cases)
  case (create m w ctl r resp)
  then have "grows m s s'" using CreatePayment_grows by blast
  then show ?thesis using assms(2) by (auto simp: grows_def card_settled_def)
next
  case (check m w ctl ref resp)
  from CheckPaymentStatus_effect [OF check(3)] show ?thesis using settled_single [OF assms(2)] assms(2) by auto
next
  case (reconcile w ctl q b)
  then show ?thesis using settled_single [OF assms(2), of w ctl q "iw_now w"] by simp
next
  case (routing rt)
  then show ?thesis using assms(2) by (simp add: card_settled_def)
qed

abbreviation card_steps :: "intl_state \<Rightarrow> intl_state \<Rightarrow> bool" where
  "card_steps \<equiv> (\<lambda>s s'. \<exists>a. card_step a s s')\<^sup>*\<^sup>*"

lemma settled_steps: "card_steps s s' \<Longrightarrow> card_settled s p \<Longrightarrow> card_settled s' p"
  by (induction rule: rtranclp_induct) (auto intro: settled_step)

lemma card_steps_inv: "card_steps s s' \<Longrightarrow> card_inv s \<Longrightarrow> card_inv s'"
  using card.history_inv [of "\<lambda>_. True" s s'] by (simp add: card.history_def)

text \<open>A run of the job is made of the single checks that the steps have.\<close>

lemma batch_steps: "card_steps s (reconcile_batch w ctl (iw_now w) ps s)"
proof (induction ps arbitrary: s)
  case (Cons q ps)
  let ?s = "if blank (ip_ReferenceID q) then s else snd (reconcileSinglePendingPayment w ctl q (iw_now w) s)"
  have "card_steps s ?s"
    using card_step.reconcile [OF prod.collapse [symmetric], where w = w and ctl = ctl and p = q and s = s] by (auto intro!: r_into_rtranclp)
  moreover have "card_steps ?s (reconcile_batch w ctl (iw_now w) (q # ps) s)"
    using Cons.IH [of ?s] by (simp add: reconcile_batch_def)
  ultimately show ?case by (rule rtranclp_trans)
qed (simp add: reconcile_batch_def)

lemma loop_steps:
  assumes "reconcile_loop w ctl t s = Some s'" "t = iw_now w"
  shows "card_steps s s'"
proof -
  let ?P = "\<lambda>w ctl t s s'. t = iw_now w \<longrightarrow> card_steps s s'"
  have "?P w ctl t s s'"
  proof (rule reconcile_loop.raw_induct [where P = ?P, OF _ assms(1)], intro impI)
    fix loop w ctl t s s'
    let ?ps = "ListPendingForStatusCheck (t - pendingStatusCheckInterval) (t - pendingStatusCheckMaxAge) pendingStatusCheckBatchSize s"
    assume IH: "\<And>w ctl t s s'. loop w ctl t s = Some s' \<Longrightarrow> ?P w ctl t s s'"
      and step: "(let pending = ?ps in if pending = [] then Some s
         else if length pending < pendingStatusCheckBatchSize then Some (reconcile_batch w ctl t pending s)
         else loop w ctl t (reconcile_batch w ctl t pending s)) = Some s'"
      and t: "t = iw_now w"
    note b = batch_steps [of s w ctl ?ps, folded t]
    have cases: "(if a then Some x else if b then Some y else z) = Some v \<Longrightarrow> v = x \<or> v = y \<or> z = Some v" for a b and x y v :: intl_state and z
      by (auto split: if_splits)
    from step [unfolded Let_def, THEN cases] consider "s' = s" | "s' = reconcile_batch w ctl t ?ps s" | "loop w ctl t (reconcile_batch w ctl t ?ps s) = Some s'"
      by blast
    then show "card_steps s s'"
    proof cases
      case 3
      then show ?thesis using IH [OF 3] t b by (meson rtranclp_trans)
    qed (use b in simp_all)
  qed
  then show ?thesis using assms(2) by simp
qed

text \<open>The job returns from every table of a history, after any number of ticks.\<close>

lemma sync_returns:
  assumes "card_inv s"
  obtains s' where "StartPendingStatusSync ws ctl s = Some s'" "card_steps s s'"
  using assms
proof (induction ws arbitrary: s thesis)
  case (Cons w ws)
  have "\<forall>q \<in> set (is_payments s). due_at (iw_now w) q \<longrightarrow> \<not> blank (ip_ReferenceID q)" using Cons.prems(2) by (simp add: card_inv_def)
  then obtain s1 where s1: "reconcile_loop w ctl (iw_now w) s = Some s1" using reconcile_loop_ends by blast
  note st = loop_steps [OF s1 refl]
  obtain s2 where "StartPendingStatusSync ws ctl s1 = Some s2" "card_steps s1 s2"
    by (rule Cons.IH [OF _ card_steps_inv [OF st Cons.prems(2)]])
  moreover from this(2) st have "card_steps s s2" by (meson rtranclp_trans)
  ultimately show ?case using Cons.prems(1) [of s2] s1 by (simp add: reconcilePendingPayments_def)
qed simp

text \<open>
  C7: a paid card payment is completed by the next run and stays completed.  In the table of any history, a
  payment that is pending, less than a week old and not checked in the last ten minutes,
  and that the gateway reports as paid, is completed when the run of the job
  returns, which it does, however many other payments are pending and whatever the
  gateway says of them.  After that, whatever the apps and the administrators do, and through
  any number of further runs, each of which returns whatever the gateway then says, the payment is
  there as completed, with its amount and total.
\<close>
theorem paid_payment_completes:
  assumes "(\<lambda>s s'. \<exists>a. card_step a s s')\<^sup>*\<^sup>* s0 s" "card_inv s0" "p \<in> set (is_payments s)"
    and "due (iw_now w - pendingStatusCheckInterval) (iw_now w - pendingStatusCheckMaxAge) p" "gateway_confirms w ctl (is_routing s) p"
  shows "\<exists>s1. StartPendingStatusSync [w] ctl s = Some s1 \<and>
    (\<forall>s2 ws ctl'. (\<lambda>s s'. \<exists>a. card_step a s s')\<^sup>*\<^sup>* s1 s2 \<longrightarrow>
       (\<exists>s3 q. StartPendingStatusSync ws ctl' s2 = Some s3 \<and> q \<in> set (is_payments s3) \<and> intl_key q = intl_key p
          \<and> ip_Status q = ''completed'' \<and> ip_Amount q = ip_Amount p \<and> ip_TotalAmount q = ip_TotalAmount p))"
proof -
  have inv: "card_inv s" by (rule card_steps_inv [OF assms(1,2)])
  then have "\<forall>q \<in> set (is_payments s). due_at (iw_now w) q \<longrightarrow> \<not> blank (ip_ReferenceID q)" by (simp add: card_inv_def)
  then obtain s1 where s1: "reconcile_loop w ctl (iw_now w) s = Some s1" "filter (due_at (iw_now w)) (is_payments s1) = []"
    using reconcile_loop_ends by blast
  have "distinct (map intl_key (is_payments s))" using inv by (simp add: card_inv_def)
  then have "kept_or_completed p s"
    using assms(3) unfolding kept_or_completed_def by (metis distinct_map inj_onD)
  from loop_settles [OF s1(1) refl this assms(5)] have k: "kept_or_completed p s1" by blast
  note st = loop_steps [OF s1(1) refl]
  have "card.history (\<lambda>_. True) s s1" using st by (simp add: card.history_def)
  then obtain q where q: "q \<in> set (is_payments s1)" "card_terms q = card_terms p"
    using card.persistence [OF _ inv assms(3)] by blast
  then have "q \<noteq> p" using s1(2) assms(4) by (auto simp: filter_empty_conv)
  then have "card_settled s1 p" using k q card_terms_key [OF q(2)] unfolding kept_or_completed_def card_settled_def by blast
  moreover have "card_inv s1" by (rule card_steps_inv [OF st inv])
  ultimately have later: "\<exists>s3 q. StartPendingStatusSync ws ctl' s2 = Some s3 \<and> q \<in> set (is_payments s3) \<and> card_terms q = card_terms p
      \<and> ip_Status q = ''completed''" if "card_steps s1 s2" for s2 ws ctl'
    using sync_returns [OF card_steps_inv [OF that], of ws ctl'] settled_steps [of s2 _ p] settled_steps [OF that, of p]
    unfolding card_settled_def by metis
  show ?thesis
  proof (rule exI [of _ s1], intro conjI allI impI)
    show "StartPendingStatusSync [w] ctl s = Some s1" using s1(1) by (simp add: reconcilePendingPayments_def)
    fix s2 ws ctl' assume "card_steps s1 s2"
    from later [OF this, of ws ctl'] obtain s3 q where x: "StartPendingStatusSync ws ctl' s2 = Some s3" "q \<in> set (is_payments s3)"
        "card_terms q = card_terms p" "ip_Status q = ''completed''" by blast
    moreover have "intl_key q = intl_key p" "ip_Amount q = ip_Amount p" "ip_TotalAmount q = ip_TotalAmount p"
      using x(3) by (simp_all add: card_terms_def link_of_def intl_key_def)
    ultimately show "\<exists>s3 q. StartPendingStatusSync ws ctl' s2 = Some s3 \<and> q \<in> set (is_payments s3) \<and> intl_key q = intl_key p
          \<and> ip_Status q = ''completed'' \<and> ip_Amount q = ip_Amount p \<and> ip_TotalAmount q = ip_TotalAmount p" by blast
  qed
qed

text \<open>The gateway says yes once; the runs after it meet a gateway that answers nothing.\<close>

definition card_dead :: intl_world where
  "card_dead = card_world\<lparr>iw_http := (\<lambda>_. Inl ''down''), iw_now := 3000 * minute\<rparr>"

theorem paid_payment_completes_witness:
  "\<exists>s' q. StartPendingStatusSync [card_world, card_dead, card_dead] card_ctl card_shared = Some s' \<and> q \<in> set (is_payments s')
     \<and> intl_key q = (''A'', ''R1'') \<and> ip_Status q = ''completed'' \<and> ip_Amount q = 5 \<and> ip_Status (card_row ''A'') = ''pending''"
proof -
  have d: "due (iw_now card_world - pendingStatusCheckInterval) (iw_now card_world - pendingStatusCheckMaxAge) (card_row ''A'')"
    by (simp add: due_def pendingStatusCheckMaxAge_def str_eval) (simp add: card_row_def intl_record_def card_world_def)
  have g: "gateway_confirms card_world card_ctl (is_routing card_shared) (card_row ''A'')"
    using card_row_client card_asks by (fastforce simp: gateway_confirms_def card_shared_def card_start_def)
  have "card_row ''A'' \<in> set (is_payments card_shared)" by (simp add: card_shared_def)
  from paid_payment_completes [OF rtranclp.rtrancl_refl card_shared_inv this d g]
  obtain s1 where s1: "StartPendingStatusSync [card_world] card_ctl card_shared = Some s1"
    and later: "\<And>s2 ws ctl'. card_steps s1 s2 \<Longrightarrow> \<exists>s3 q. StartPendingStatusSync ws ctl' s2 = Some s3 \<and> q \<in> set (is_payments s3)
       \<and> intl_key q = intl_key (card_row ''A'') \<and> ip_Status q = ''completed'' \<and> ip_Amount q = ip_Amount (card_row ''A'')
       \<and> ip_TotalAmount q = ip_TotalAmount (card_row ''A'')" by blast
  obtain s3 q where "StartPendingStatusSync [card_dead, card_dead] card_ctl s1 = Some s3" "q \<in> set (is_payments s3)"
       "intl_key q = intl_key (card_row ''A'')" "ip_Status q = ''completed''" "ip_Amount q = ip_Amount (card_row ''A'')"
    using later [OF rtranclp.rtrancl_refl, of "[card_dead, card_dead]" card_ctl] by blast
  moreover have "reconcilePendingPayments card_world card_ctl card_shared = Some s1" using s1 by (simp split: option.splits)
  moreover have "ip_Amount (card_row ''A'') = 5" by (simp add: card_row_def intl_record_def card_req_def)
  ultimately show ?thesis by (intro exI [of _ s3] exI [of _ q]) simp
qed

section \<open>The listing\<close>

definition intl_listWithFilters :: "list_request \<Rightarrow> intl_state \<Rightarrow> response" where
  "intl_listWithFilters q s =
     (let n = (if tl_Limit q = 0 then 50 else tl_Limit q); n = (if n \<le> 0 \<or> n > 500 then 50 else n) in
      case parseDateRange (tl_From q) (tl_To q) of
        None \<Rightarrow> send_error 400 ''Invalid date range''
      | Some (since, to) \<Rightarrow> Response 200 [(''Cache-Control'', ''no-store'')] []
          (JObj [(''data'', JArr (map toSafeIntlPayment (intl_List n (TrimSpace (tl_Status q))
             (map_option day_start since) (map_option day_start to) (TrimSpace (tl_Search q)) s)))]))"

definition intl_ListByQuery :: "(string \<Rightarrow> string) \<Rightarrow> intl_state \<Rightarrow> response" where
  "intl_ListByQuery query s =
     (if \<not> blank (query ''search'') then send_error 400 ''use POST /api/admin/international/transactions/search for search queries''
      else intl_listWithFilters \<lparr> tl_AppID = [], tl_Status = query ''status'', tl_From = query ''from'', tl_To = query ''to'',
             tl_Search = [], tl_Limit = QueryInt (query ''limit'') 50 \<rparr> s)"

definition intl_ListByBody :: "request \<Rightarrow> intl_state \<Rightarrow> response" where
  "intl_ListByBody r s = (case (BodyFields [''status'', ''from'', ''to'', ''search''] r, int_of ''limit'' r) of
     (Some f, Some n) \<Rightarrow> intl_listWithFilters \<lparr> tl_AppID = [], tl_Status = f ''status'', tl_From = f ''from'', tl_To = f ''to'',
        tl_Search = f ''search'', tl_Limit = n \<rparr> s
   | _ \<Rightarrow> send_error 400 ''invalid JSON'')"

text \<open>
  The listing keeps what the comment of the type says it keeps: the tokens of the checkout, the
  gateway's error texts and the row ids of a table have no part in any answer.
\<close>

definition without_tokens :: "InternationalPayment \<Rightarrow> InternationalPayment" where
  "without_tokens p = p\<lparr>ip_ID := [], ip_StripeSessionID := [], ip_CheckoutURL := [], ip_ErrorMessage := []\<rparr>"

lemma intl_List_alike:
  "map toSafeIntlPayment (intl_List n st since to search (s\<lparr>is_payments := map without_tokens (is_payments s)\<rparr>))
   = map toSafeIntlPayment (intl_List n st since to search s)"
proof -
  let ?keep = "\<lambda>r. (blank st \<or> ToLower (ip_Status r) = ToLower (TrimSpace st))
             \<and> (case since of None \<Rightarrow> True | Some t \<Rightarrow> t \<le> ip_CreatedAt r) \<and> (case to of None \<Rightarrow> True | Some t \<Rightarrow> ip_CreatedAt r < t + 24 * hour)
             \<and> (blank search \<or> ilike (ip_ReferenceID r) (contains_pattern search) \<or> ilike (ip_PaymentID r) (contains_pattern search)
                \<or> ilike (ip_MerchantID r) (contains_pattern search) \<or> ilike (ip_Description r) (contains_pattern search))"
  have "list_all2 (\<lambda>a b. b = without_tokens a) (order_desc ip_CreatedAt (filter ?keep (is_payments s)))
      (order_desc ip_CreatedAt (filter ?keep (map without_tokens (is_payments s))))"
    by (rule order_desc_alike, rule filter_alike; cases since; cases to)
      (simp_all add: list_all2_map2 list_all2_same without_tokens_def)
  then have "list_all2 (\<lambda>a b. b = without_tokens a) (intl_List n st since to search s)
      (intl_List n st since to search (s\<lparr>is_payments := map without_tokens (is_payments s)\<rparr>))"
    by (auto simp: intl_List_def limit_to_def Let_def intro: list_all2_takeI)
  then show ?thesis
    by (rule map_alike [symmetric]) (simp add: without_tokens_def toSafeIntlPayment_def)
qed

lemma intl_listing_discreet:
  "intl_ListByBody r (s\<lparr>is_payments := map without_tokens (is_payments s)\<rparr>) = intl_ListByBody r s"
  "intl_ListByQuery q (s\<lparr>is_payments := map without_tokens (is_payments s)\<rparr>) = intl_ListByQuery q s"
  by (simp_all add: intl_ListByBody_def intl_ListByQuery_def intl_listWithFilters_def intl_List_alike Let_def split: option.splits)

end
