(* ===== verification/Webhook.thy ===== *)
theory Webhook
  imports Strings
begin

text \<open>
  The check of webhook addresses, internal/common/webhook_url.go.  url.Parse is an argument, with the
  parts of its result the code reads and the text it has under another scheme and
  host; so is netip.ParseAddr: whether an address is one of the internal ranges, None when the
  host is no address.
\<close>

record parsed_url =
  pu_scheme :: string
  pu_user :: bool
  pu_hostname :: string
  pu_port :: string
  pu_fragment :: string
  pu_text :: "string \<Rightarrow> string option \<Rightarrow> string"

record WebhookURLAssessment =
  wa_Normalized :: string
  wa_Issues :: "string list"

definition webhook_issues :: "(string \<Rightarrow> bool option) \<Rightarrow> parsed_url \<Rightarrow> string list" where
  "webhook_issues addr u = (let host = TrimSpace (pu_hostname u) in
     (if pu_scheme u = [] \<or> \<not> EqualFold (pu_scheme u) ''https'' then [''scheme must be https''] else [])
     @ (if pu_user u then [''credentials in URL are not allowed''] else [])
     @ (if host = [] then [''host is required''] else [])
     @ (if pu_fragment u \<noteq> [] then [''URL fragments are not allowed''] else [])
     @ (if EqualFold host ''localhost'' then [''localhost is not allowed''] else [])
     @ (if addr host = Some True then [''internal IP ranges are not allowed''] else []))"

text \<open>The host stays as it was when it is blank.\<close>

definition webhook_normalized :: "parsed_url \<Rightarrow> string" where
  "webhook_normalized u = (let host = TrimSpace (pu_hostname u); port = TrimSpace (pu_port u) in
     TrimSpace (pu_text u (ToLower (pu_scheme u))
       (if host = [] then None else Some (if port \<noteq> [] then ToLower host @ '':'' @ port else ToLower host))))"

definition AssessWebhookURL :: "(string \<Rightarrow> parsed_url option) \<Rightarrow> (string \<Rightarrow> bool option) \<Rightarrow> string \<Rightarrow> WebhookURLAssessment" where
  "AssessWebhookURL parse addr raw = (let trimmed = TrimSpace raw in
     if trimmed = [] then \<lparr> wa_Normalized = trimmed, wa_Issues = [] \<rparr>
     else case parse trimmed of
       None \<Rightarrow> \<lparr> wa_Normalized = trimmed, wa_Issues = [''parse error''] \<rparr>
     | Some u \<Rightarrow> \<lparr> wa_Normalized = webhook_normalized u, wa_Issues = webhook_issues addr u \<rparr>)"

text \<open>An address without issues is absent, or a plain HTTPS address of a host that is not internal.\<close>

lemma accepted_webhook:
  assumes "wa_Issues (AssessWebhookURL parse addr raw) = []" "\<not> blank raw"
  shows "\<exists>u. parse (TrimSpace raw) = Some u \<and> EqualFold (pu_scheme u) ''https'' \<and> \<not> pu_user u \<and> pu_fragment u = []
    \<and> \<not> blank (pu_hostname u) \<and> \<not> EqualFold (TrimSpace (pu_hostname u)) ''localhost'' \<and> addr (TrimSpace (pu_hostname u)) \<noteq> Some True"
  using assms by (auto simp: AssessWebhookURL_def webhook_issues_def blank_def Let_def split: option.splits if_splits)

lemma webhook_idle: "blank raw \<Longrightarrow> AssessWebhookURL parse addr raw = \<lparr> wa_Normalized = [], wa_Issues = [] \<rparr>"
  by (simp add: AssessWebhookURL_def blank_def)

end
