(* ===== verification/GenericRows.thy ===== *)
theory GenericRows
  imports TransactionsList
begin

text \<open>
  What the list of transactions does when its query fails: the readers of rows as JSON and
  listRecentGeneric of internal/storage/repository.go.  A row is the list of the members of
  to_jsonb in the physical order of the table; PostgreSQL's text of a JSON value that is no
  string and its reading of a timestamp are arguments.
\<close>

section \<open>Errors of the driver\<close>

definition isMissingColumnError :: "store_error \<Rightarrow> string \<Rightarrow> bool" where
  "isMissingColumnError e column = (case e of ErrNoRows \<Rightarrow> False
     | StoreError msg \<Rightarrow> (let m = ToLower msg in Contains m ''column'' \<and> Contains m (ToLower column) \<and> Contains m ''does not exist''))"

definition isAnyMissingColumnError :: "store_error \<Rightarrow> bool" where
  "isAnyMissingColumnError e = (case e of ErrNoRows \<Rightarrow> False
     | StoreError msg \<Rightarrow> (let m = ToLower msg in Contains m ''column'' \<and> Contains m ''does not exist''))"

definition missing_table :: "string \<Rightarrow> bool" where
  "missing_table msg \<longleftrightarrow> Contains (ToLower msg) ''relation'' \<and> Contains (ToLower msg) ''payment_transactions''"

text \<open>The first argument is the error of the query, or the rows it finds.\<close>

definition IntraInquiryOrderIDExists :: "string + string list \<Rightarrow> string \<Rightarrow> store_error + bool" where
  "IntraInquiryOrderIDExists ids orderID =
     (if blank orderID then Inr False
      else case ids of
        Inr os \<Rightarrow> Inr (orderID \<in> set os)
      | Inl e \<Rightarrow> if isMissingColumnError (StoreError e) ''order_id'' then Inr False else Inl (StoreError e))"

definition paymentTransactionsColumns :: "string + string list \<Rightarrow> string + string list" where
  "paymentTransactionsColumns names = (case names of
     Inl e \<Rightarrow> if missing_table e then Inr [] else Inl e
   | Inr ns \<Rightarrow> Inr (map (\<lambda>n. ToLower (TrimSpace n)) ns))"

section \<open>Readers of JSON members\<close>

definition toStringSafe :: "json option \<Rightarrow> string" where
  "toStringSafe v = (case v of
     None \<Rightarrow> [] | Some JNull \<Rightarrow> [] | Some (JStr s) \<Rightarrow> TrimSpace s | Some (JNum q) \<Rightarrow> TrimSpace (num_text q)
   | Some (JBool b) \<Rightarrow> if b then ''true'' else ''false''
   | Some w \<Rightarrow> TrimSpace (writeCanonical w))"

text \<open>The conversion of a float to int64 truncates.\<close>

definition toInt64 :: "json option \<Rightarrow> int" where
  "toInt64 v = (case v of
     Some (JNum q) \<Rightarrow> if q < 0 then - floor (- q) else floor q
   | Some (JStr s) \<Rightarrow> (case Atoi (TrimSpace s) of None \<Rightarrow> 0 | Some n \<Rightarrow> n)
   | _ \<Rightarrow> 0)"

fun repo_firstNonEmpty :: "string list \<Rightarrow> string" where
  "repo_firstNonEmpty [] = []"
| "repo_firstNonEmpty (v # vs) = (if TrimSpace v \<noteq> [] then TrimSpace v else repo_firstNonEmpty vs)"

type_synonym json_row = "(string \<times> json) list"

definition generic_row :: "json_row \<Rightarrow> TransactionRow" where
  "generic_row m = (let f = (\<lambda>k. toStringSafe (jget m k)) in
     \<lparr> tx_ID = toInt64 (jget m ''id''), tx_ExternalAppID = f ''external_app_id'', tx_OrderID = f ''order_id'',
       tx_InquiryID = f ''inquiry_id'', tx_StanNumber = f ''stan_number'', tx_BFSTxnID = f ''bfs_txn_id'', tx_Amount = f ''amount'',
       tx_Currency = f ''currency'', tx_Status = f ''status'', tx_RemitterAccount = f ''remitter_account'',
       tx_BeneficiaryAccount = f ''beneficiary_account'',
       tx_TransactionDatetime = repo_firstNonEmpty [f ''transaction_datetime'', f ''created_at'', f ''updated_at''],
       tx_CreatedAt = repo_firstNonEmpty [f ''created_at'', f ''updated_at''] \<rparr>)"

section \<open>The generic query\<close>

record jsonb_world =
  jw_text :: "json \<Rightarrow> string"
  jw_time :: "string \<Rightarrow> time"

text \<open>The operator that reads a member as text, None for NULL.\<close>

definition jsonb_text :: "jsonb_world \<Rightarrow> json_row \<Rightarrow> string \<Rightarrow> string option" where
  "jsonb_text w m k = (case jget m k of
     None \<Rightarrow> None | Some JNull \<Rightarrow> None | Some (JStr s) \<Rightarrow> Some s | Some v \<Rightarrow> Some (jw_text w v))"

definition coalesced :: "jsonb_world \<Rightarrow> json_row \<Rightarrow> string \<Rightarrow> string" where
  "coalesced w m k = (case jsonb_text w m k of None \<Rightarrow> [] | Some s \<Rightarrow> s)"

definition generic_in_days :: "jsonb_world \<Rightarrow> int option \<Rightarrow> int option \<Rightarrow> json_row \<Rightarrow> bool" where
  "generic_in_days w since to m \<longleftrightarrow> (case map_option (jw_time w) (jsonb_text w m ''created_at'') of
     None \<Rightarrow> since = None \<and> to = None
   | Some t \<Rightarrow> (case since of None \<Rightarrow> True | Some d \<Rightarrow> day_start d \<le> t) \<and> (case to of None \<Rightarrow> True | Some d \<Rightarrow> t < day_start (d + 1)))"

definition generic_filter :: "jsonb_world \<Rightarrow> string \<Rightarrow> string \<Rightarrow> int option \<Rightarrow> int option \<Rightarrow> string \<Rightarrow> json_row \<Rightarrow> bool" where
  "generic_filter w appID st since to search m \<longleftrightarrow>
     (\<not> blank appID \<longrightarrow> coalesced w m ''external_app_id'' = TrimSpace appID)
     \<and> (\<not> blank st \<longrightarrow> ToLower (coalesced w m ''status'') = ToLower (TrimSpace st))
     \<and> generic_in_days w since to m
     \<and> (\<not> blank search \<longrightarrow> list_ex (\<lambda>k. ilike (coalesced w m k) (contains_pattern search))
          [''order_id'', ''stan_number'', ''bfs_txn_id'', ''remitter_account'', ''beneficiary_account''])"

definition listRecentGeneric :: "jsonb_world \<Rightarrow> int \<Rightarrow> string \<Rightarrow> string \<Rightarrow> int option \<Rightarrow> int option \<Rightarrow> string \<Rightarrow> json_row list
    \<Rightarrow> TransactionRow list" where
  "listRecentGeneric w n appID st since to search rows =
     map generic_row (limit_to n (rev (filter (generic_filter w appID st since to search) rows)))"

text \<open>
  The outcome of ListRecent: the query's rows; an empty list when the query fails for a missing
  table; else the generic rows, or the error when the generic query fails too.
\<close>

definition ListRecent_outcome :: "string + TransactionRow list \<Rightarrow> TransactionRow list option \<Rightarrow> store_error + TransactionRow list" where
  "ListRecent_outcome query generic = (case query of
     Inr rows \<Rightarrow> Inr rows
   | Inl e \<Rightarrow> if missing_table e then Inr []
       else case generic of Some rows \<Rightarrow> Inr rows | None \<Rightarrow> Inl (StoreError e))"

section \<open>The generic rows are the rows\<close>

text \<open>The members of a row of the full table, with its timestamps as PostgreSQL writes them.\<close>

definition row_json :: "(time \<Rightarrow> string) \<Rightarrow> payment_row \<Rightarrow> json_row" where
  "row_json ts p = [(''id'', jint (pt_ID p)), (''external_app_id'', JStr (ml_ExternalAppID p)), (''order_id'', JStr (pp_OrderID p)),
     (''inquiry_id'', JStr (pp_InquiryID p)), (''stan_number'', JStr (pp_STAN p)), (''bfs_txn_id'', JStr (pp_BFSTxnID p)),
     (''amount'', JNum (pp_Amount p)), (''currency'', JStr (pp_Currency p)), (''status'', JStr (pp_Status p)),
     (''remitter_account'', JStr (pp_RemitterAccount p)), (''beneficiary_account'', JStr (pp_BeneficiaryAccount p)),
     (''transaction_datetime'', JStr (ts (pp_TransactionDatetime p))), (''created_at'', JStr (ts (pp_CreatedAt p))),
     (''updated_at'', JStr (ts (pt_UpdatedAt p)))]"

definition trimmed_row :: "payment_row \<Rightarrow> bool" where
  "trimmed_row p \<longleftrightarrow> list_all (\<lambda>s. TrimSpace s = s) [ml_ExternalAppID p, pp_OrderID p, pp_InquiryID p, pp_STAN p, pp_BFSTxnID p,
     pp_Currency p, pp_Status p, pp_RemitterAccount p, pp_BeneficiaryAccount p, num_text (pp_Amount p)]"

text \<open>
  On a full table whose texts have no surrounding spaces the generic row is the row of the
  proper query; only the text of the amount is the shortest one.
\<close>

lemma generic_row_agrees:
  assumes "list_all (has_col tx) detail_columns" "trimmed_row p" "st_timestamp tx = ts"
    and "\<And>t. TrimSpace (ts t) = ts t \<and> ts t \<noteq> []"
  shows "generic_row (row_json ts p) = (row_text tx p)\<lparr>tx_Amount := num_text (pp_Amount p)\<rparr>"
  using assms
  by (simp add: generic_row_def row_json_def row_text_def jget_def toStringSafe_def toInt64_def trimmed_row_def detail_columns_def
      selectTextExpr_def selectInt64Expr_def first_time_def jint_def Let_def)

end
