(* ===== verification/Diagnostics.thy ===== *)
theory Diagnostics
  imports Config Json Http Strings Calendar
begin

text \<open>
  The constant and diagnostic handlers of controllers/ (health, hello, the debug and
  seed controllers, which main.go builds but no route reaches), and the lines that the two provider clients
  write to the standard output.
\<close>

section \<open>Health, hello and the debug handlers\<close>

definition Health :: response where "Health = send 200 [(''status'', JStr ''ok'')]"

definition Hello :: response where "Hello = send 200 [(''message'', JStr ''Hello from Fiber MVC'')]"

definition debug_mask :: "string \<Rightarrow> string" where
  "debug_mask s = (let s = TrimSpace s in
     if s = [] then []
     else if length s \<le> 4 then Repeat ''*'' (length s)
     else Repeat ''*'' (length s - 4) @ drop (length s - 4) s)"

definition DebugConfig :: "config \<Rightarrow> response" where
  "DebugConfig cfg = send 200 [(''dkpg_base_url'', JStr (DKPGBaseURL cfg)), (''dkpg_api_key_set'', JBool (DKPGAPIKey cfg \<noteq> [])),
     (''dkpg_api_key_masked'', JStr (debug_mask (DKPGAPIKey cfg))), (''dkpg_username_set'', JBool (DKPGUsername cfg \<noteq> [])),
     (''dkpg_client_id_set'', JBool (DKPGClientID cfg \<noteq> []))]"

text \<open>The argument is the count, None without a database; a failing count reads as 0.\<close>

definition admin_debug_Status :: "nat option option \<Rightarrow> response" where
  "admin_debug_Status db = (case db of
     None \<Rightarrow> send 200 [(''db'', JStr ''nil'')]
   | Some n \<Rightarrow> send 200 [(''db'', JStr ''ok''), (''admin_users'', jint (int (case n of None \<Rightarrow> 0 | Some n \<Rightarrow> n)))])"

definition db_debug_Status :: "nat option option \<Rightarrow> response" where
  "db_debug_Status db = (case db of
     None \<Rightarrow> send 200 [(''db_connected'', JBool False), (''error'', JStr ''DB is nil'')]
   | Some None \<Rightarrow> send 200 [(''db_connected'', JBool False), (''error'', JStr ''Something went wrong'')]
   | Some (Some n) \<Rightarrow> send 200 [(''db_connected'', JBool True), (''payment_transactions_count'', jint (int n))])"

text \<open>The configuration's secrets are shown by their last four characters at most, and by whether they are set.\<close>

lemma debug_config_discreet:
  assumes "DKPGBaseURL c = DKPGBaseURL d" "debug_mask (DKPGAPIKey c) = debug_mask (DKPGAPIKey d)"
    and "(DKPGAPIKey c = []) = (DKPGAPIKey d = [])" "(DKPGUsername c = []) = (DKPGUsername d = [])" "(DKPGClientID c = []) = (DKPGClientID d = [])"
  shows "DebugConfig c = DebugConfig d"
  using assms by (simp add: DebugConfig_def)

lemma length_debug_mask: "length (debug_mask s) = length (TrimSpace s)"
  by (simp add: debug_mask_def Let_def Repeat_def)

section \<open>Sample rows\<close>

text \<open>The columns the seed writes, and the minutes its rows are old; the rows have no routing mode.\<close>

record seed_row =
  sr_ExternalAppID :: string
  sr_OrderID :: string
  sr_StanNumber :: string
  sr_BFSTxnID :: string
  sr_Amount :: rat
  sr_TransactionFee :: rat
  sr_RemitterAccount :: string
  sr_RemitterName :: string
  sr_RemitterPhone :: string
  sr_RemitterBank :: string
  sr_BeneficiaryAccount :: string
  sr_PaymentDesc :: string
  sr_Currency :: string
  sr_Status :: string
  sr_CreatedAt :: time
  sr_UpdatedAt :: time

definition seed_samples :: "time \<Rightarrow> seed_row list" where
  "seed_samples now =
     [\<lparr> sr_ExternalAppID = ''APP-001'', sr_OrderID = ''ORDER-1001'', sr_StanNumber = ''020111571912'', sr_BFSTxnID = ''523400081332'',
        sr_Amount = 5000, sr_TransactionFee = 5, sr_RemitterAccount = ''770182571'', sr_RemitterName = ''John Doe'',
        sr_RemitterPhone = ''17811440'', sr_RemitterBank = ''1040'', sr_BeneficiaryAccount = ''110158212197'',
        sr_PaymentDesc = ''Invoice #1001'', sr_Currency = ''BTN'', sr_Status = ''Success'',
        sr_CreatedAt = now - 10 * minute, sr_UpdatedAt = now - 10 * minute \<rparr>,
      \<lparr> sr_ExternalAppID = ''APP-002'', sr_OrderID = ''ORDER-1002'', sr_StanNumber = ''020111572000'', sr_BFSTxnID = ''523400081333'',
        sr_Amount = 12000, sr_TransactionFee = 0, sr_RemitterAccount = ''770182572'', sr_RemitterName = ''Jane Smith'',
        sr_RemitterPhone = ''17654321'', sr_RemitterBank = ''1040'', sr_BeneficiaryAccount = ''110158212197'',
        sr_PaymentDesc = ''Invoice #1002'', sr_Currency = ''BTN'', sr_Status = ''Failed'',
        sr_CreatedAt = now - 30 * minute, sr_UpdatedAt = now - 30 * minute \<rparr>]"

text \<open>Create is an argument: whether the table takes the rows; without a database it is None.\<close>

definition SeedFakeTransactions :: "(seed_row list \<Rightarrow> bool) option \<Rightarrow> time \<Rightarrow> response" where
  "SeedFakeTransactions create now = (case create of
     None \<Rightarrow> send_error 500 ''db not available''
   | Some ok \<Rightarrow> if ok (seed_samples now) then send 200 [(''ok'', JBool True), (''inserted'', jint 2)]
       else send_error 500 ''Something went wrong'')"

section \<open>The lines of the provider clients\<close>

definition internal_call_line :: "string \<Rightarrow> string \<Rightarrow> string \<Rightarrow> string \<Rightarrow> string \<Rightarrow> string \<Rightarrow> nat \<Rightarrow> int \<Rightarrow> json" where
  "internal_call_line service meth path requestID reqBody resBody st duration = JObj
     [(''type'', JStr ''internal_call_log''), (''sink'', JStr ''stdout''), (''service'', JStr service), (''method'', JStr meth),
      (''path'', JStr (TrimSpace path)), (''status'', jint (int st)), (''duration_ms'', jint duration),
      (''request_id'', JStr (TrimSpace requestID)), (''req_len'', jint (int (length reqBody))), (''res_len'', jint (int (length resBody))),
      (''api_surface'', JStr ''internal''), (''request_path'', JStr (service @ '':'' @ TrimSpace path))]"

definition stripe_call_line :: "string \<Rightarrow> string \<Rightarrow> string \<Rightarrow> string \<Rightarrow> string \<Rightarrow> nat \<Rightarrow> int \<Rightarrow> json" where
  "stripe_call_line = internal_call_line ''stripe''"

definition dkpg_call_line :: "string \<Rightarrow> string \<Rightarrow> string \<Rightarrow> string \<Rightarrow> string \<Rightarrow> nat \<Rightarrow> int \<Rightarrow> json" where
  "dkpg_call_line = internal_call_line ''dkpg''"

text \<open>A request id of a payload: the first of three names that holds a string.\<close>

definition readRequestID :: "(string \<times> json) list \<Rightarrow> string" where
  "readRequestID payload = (case List.map_filter (\<lambda>k. case jget payload k of Some (JStr s) \<Rightarrow> Some s | _ \<Rightarrow> None)
       [''request_id'', ''requestId'', ''requestID''] of
     [] \<Rightarrow> [] | s # _ \<Rightarrow> TrimSpace s)"

definition limitLogBody :: "string \<Rightarrow> string" where
  "limitLogBody s = (if length s \<le> 64 * 1024 then s else take (64 * 1024) s @ ''...(truncated)'')"

text \<open>The standard output learns nothing of the bodies but their lengths.\<close>

lemma call_lines_discreet:
  assumes "length rq = length rq'" "length rs = length rs'"
  shows "stripe_call_line m p i rq rs st d = stripe_call_line m p i rq' rs' st d"
    "dkpg_call_line m p i rq rs st d = dkpg_call_line m p i rq' rs' st d"
  using assms by (simp_all add: stripe_call_line_def dkpg_call_line_def internal_call_line_def)

section \<open>Names of tables\<close>

text \<open>quoteIdent doubles the quotes of a name; what PostgreSQL reads between the quotes is the name.\<close>

definition quoteIdent :: "string \<Rightarrow> string" where
  "quoteIdent name = [CHR 0x22] @ concat (map (\<lambda>c. if c = CHR 0x22 then [CHR 0x22, CHR 0x22] else [c]) name) @ [CHR 0x22]"

fun read_ident :: "string \<Rightarrow> (string \<times> string) option" where
  "read_ident [] = None"
| "read_ident (c # cs) = (if c \<noteq> CHR 0x22 then map_option (\<lambda>(n, r). (c # n, r)) (read_ident cs)
     else case cs of d # ds \<Rightarrow> if d = CHR 0x22 then map_option (\<lambda>(n, r). (c # n, r)) (read_ident ds) else Some ([], cs) | [] \<Rightarrow> Some ([], []))"

lemma quoteIdent_reads:
  assumes "rest = [] \<or> hd rest \<noteq> CHR 0x22"
  shows "read_ident (tl (quoteIdent name @ rest)) = Some (name, rest)"
proof -
  have "read_ident (concat (map (\<lambda>c. if c = CHR 0x22 then [CHR 0x22, CHR 0x22] else [c]) name) @ CHR 0x22 # rest) = Some (name, rest)"
    using assms by (induction name) (auto split: list.splits)
  then show ?thesis by (simp add: quoteIdent_def)
qed

definition uniqueLegacyAPILogTableName :: "time \<Rightarrow> string" where
  "uniqueLegacyAPILogTableName now = ''api_logs_legacy_unpartitioned_'' @ fmt_date now @ fmt_clock now"

end
