(* ===== verification/LogShutdown.thy ===== *)
theory LogShutdown
  imports Logs
begin

text \<open>
  The life of the log repository beside its workers: the maintenance worker and the shutdown, Close of
  internal/storage/logs.go, with what an orderly shutdown leaves.
\<close>

section \<open>Maintenance\<close>

text \<open>A tick of the maintenance worker: its instant, the outcomes of the two deletions, and the answer of isPartitionedTable.\<close>

record maintenance_tick =
  mt_now :: time
  mt_expired :: bool
  mt_noise :: bool
  mt_check :: "bool option"

text \<open>A run at the start and one at every tick until the repository is closed.\<close>

fun runMaintenanceWorker :: "maintenance_tick list \<Rightarrow> log_repo \<times> partitions \<Rightarrow> log_repo \<times> partitions" where
  "runMaintenanceWorker [] s = s"
| "runMaintenanceWorker (t # ts) (r, p) = runMaintenanceWorker ts
     (runRetentionMaintenance (mt_now t) (mt_expired t) (mt_noise t) r, runPartitionMaintenance (mt_check t) (mt_now t) p)"

definition DroppedLogsTotal :: "log_repo option \<Rightarrow> 64 word" where
  "DroppedLogsTotal r = (case r of None \<Rightarrow> 0 | Some r \<Rightarrow> droppedLogsTotal r)"

text \<open>Maintenance keeps the records of payments, in the queues and in the table.\<close>

lemma maintenance_keeps_payments:
  "payment_record x \<Longrightarrow> held x r \<Longrightarrow> held x (fst (runMaintenanceWorker ts (r, p)))"
  by (induction ts arbitrary: r p) (simp_all add: retention_held)

section \<open>Shutdown\<close>

text \<open>
  Close refuses further records and waits for the workers; here both drain with a database and a
  file that work.
\<close>

definition orderly_Close :: "time \<Rightarrow> pipeline \<Rightarrow> pipeline" where
  "orderly_Close now p = run_log [Close, T1Stop now (\<lambda>_. ((True, True), True)) True True (\<lambda>_. True), T2Stop now (\<lambda>_. True)] p"

definition readable_file :: "log_repo \<Rightarrow> bool" where
  "readable_file r \<longleftrightarrow> (\<forall>l \<in> set (fallback r). \<exists>why rec. l = Line why rec)"

lemma readable_queue [simp]: "readable_file (r\<lparr>t1Queue := q\<rparr>) = readable_file r"
  by (simp add: readable_file_def)

lemma insertSync_fallback: "fallback (snd (insertSync now ok rec r)) = fallback r" "t1Queue (snd (insertSync now ok rec r)) = t1Queue r"
  by (simp_all add: insertSync_def)

lemma t1_write_readable: "readable_file r \<Longrightarrow> readable_file (t1_write now why out rec r)"
  by (auto simp: t1_write_def insertT1WithRetry_once insertSync_def appendToFallback_def readable_file_def)

lemma drain_t1_readable: "readable_file r \<Longrightarrow> readable_file (drain_t1 now out q r)"
  by (induction now out q r rule: drain_t1.induct) (simp_all add: t1_write_readable)

lemma scan_pending:
  "scan_fallback now out ls r = (Some pending, r') \<Longrightarrow> set pending \<subseteq> set ls"
proof (induction now out ls r arbitrary: pending r' rule: scan_fallback.induct)
  case (4 now out why rec ls r)
  show ?case
  proof (cases "out 0")
    case True
    then show ?thesis using 4 by (auto simp: insertSync_def)
  next
    case False
    obtain res r2 where s: "scan_fallback now (\<lambda>n. out (Suc n)) ls r = (res, r2)" by force
    with False 4(3) obtain pending1 where "res = Some pending1" "pending = Line why rec # pending1"
      by (cases res) (auto simp: insertSync_def)
    then show ?thesis using 4(2) False s by (auto simp: insertSync_def)
  qed
qed auto

lemma replay_readable: "readable_file r \<Longrightarrow> readable_file (replayFallback now disk swap out r)"
proof -
  assume r: "readable_file r"
  obtain res r' where s: "scan_fallback now out (fallback r) r = (res, r')" by force
  then have "fallback r' = fallback r" using scan_fallback_held by blast
  then show ?thesis using r scan_pending [of now out "fallback r" r] s
    by (cases res) (auto simp: replayFallback_def readable_file_def)
qed

lemma t2_write_fallback: "fallback (t2_write now ok rec r) = fallback r" "t1Queue (t2_write now ok rec r) = t1Queue r"
  "closed (t2_write now ok rec r) = closed r"
  by (auto simp: t2_write_def insertSync_def recordT2Drop_def)

lemma drain_t2_fallback: "fallback (drain_t2 now out q r) = fallback r \<and> t1Queue (drain_t2 now out q r) = t1Queue r
    \<and> set (api_logs r) \<subseteq> set (api_logs (drain_t2 now out q r))"
proof (induction now out q r rule: drain_t2.induct)
  case (2 now out rec q r)
  have "set (api_logs r) \<subseteq> set (api_logs (t2_write now (out 0) rec (r\<lparr>t2Queue := q\<rparr>)))"
    by (auto simp: t2_write_def insertSync_def recordT2Drop_def)
  then show ?case using 2 by (auto simp: t2_write_fallback)
qed simp

lemma apply_event_readable: "readable_file (repo p) \<Longrightarrow> readable_file (repo (apply_event e p))"
proof (cases e)
  case (Send disk cd pick rec)
  moreover assume "readable_file (repo p)"
  ultimately show ?thesis
    by (auto simp: enqueue_def appendToFallback_def recordT2Drop_def readable_file_def split: logWriteTier.splits if_splits)
next
  case (T2Work now ok)
  moreover assume "readable_file (repo p)"
  ultimately show ?thesis by (auto simp: t2_receive_def readable_file_def t2_write_fallback split: list.splits)
next
  case (T1Work now out)
  moreover assume "readable_file (repo p)"
  ultimately show ?thesis by (cases "t1Queue (repo p)") (simp_all add: t1_receive_def t1_write_readable)
qed (simp_all add: replay_readable drainT1Queue_def drain_t1_readable drainT2Queue_def,
     simp_all add: readable_file_def drain_t2_fallback runRetentionMaintenance_def Let_def)

lemma run_log_readable: "readable_file (repo p) \<Longrightarrow> readable_file (repo (run_log es p))"
  by (induction es arbitrary: p) (simp_all add: run_log_def apply_event_readable)

lemma drain_t1_empties:
  "t1Queue r = q \<Longrightarrow> t1Queue (drain_t1 now (\<lambda>_. ((True, True), True)) q r) = []"
proof (induction q arbitrary: r)
  case (Cons rec q)
  then show ?case by (simp add: Cons.IH t1_write_held(3))
qed simp

lemma scan_all_ok:
  "\<forall>l \<in> set ls. \<exists>why rec. l = Line why rec \<Longrightarrow> fst (scan_fallback now (\<lambda>_. True) ls r) = Some []"
proof (induction ls arbitrary: r)
  case (Cons l ls)
  then obtain why rec where "l = Line why rec" by auto
  then show ?case using Cons by (simp add: insertSync_def)
qed simp

lemma replay_empties:
  assumes "readable_file r"
  shows "fallback (replayFallback now True True (\<lambda>_. True) r) = []" "t1Queue (replayFallback now True True (\<lambda>_. True) r) = t1Queue r"
proof -
  obtain r' where s: "scan_fallback now (\<lambda>_. True) (fallback r) r = (Some [], r')"
    using scan_all_ok [of "fallback r" now r] assms by (cases "scan_fallback now (\<lambda>_. True) (fallback r) r") (auto simp: readable_file_def)
  then show "fallback (replayFallback now True True (\<lambda>_. True) r) = []" "t1Queue (replayFallback now True True (\<lambda>_. True) r) = t1Queue r"
    using scan_fallback_held [OF s] by (simp_all add: replayFallback_def)
qed

text \<open>
  C33: an orderly shutdown writes every accepted record of a payment.  After any history in which
  the fallback file could be written, however often inserts failed and whatever is still
  queued or in the file: when Close is called while the worker runs and the database
  works, both the queue and the file end empty and the record is a row of the table.
\<close>
theorem orderly_shutdown_writes_all:
  assumes "\<forall>e \<in> set es. file_writable e" "t1_running (run_log es start_pipeline)"
    and "rec \<in> set (accepted (run_log es start_pipeline))" "payment_record rec" "payment_path (lower_trim (le_Path (q_Entry rec)))"
  shows "let r = repo (orderly_Close now (run_log es start_pipeline))
    in t1Queue r = [] \<and> fallback r = [] \<and> (\<exists>row \<in> set (api_logs r). kept_row rec row)"
proof -
  let ?p = "run_log es start_pipeline" and ?ok = "\<lambda>_. ((True, True), True)"
  let ?es = "es @ [Close, T1Stop now ?ok True True (\<lambda>_. True), T2Stop now (\<lambda>_. True)]"
  have p: "orderly_Close now ?p = run_log ?es start_pipeline" by (simp add: orderly_Close_def run_log_def)
  have "rec \<in> set (accepted (run_log ?es start_pipeline))"
    using assms(3) by (simp add: run_log_def)
  then have h: "held rec (repo (orderly_Close now ?p))"
    unfolding p by (intro accepted_payment_held [OF _ _ assms(4,5)]) (use assms(1) in auto)
  define d where "d = drainT1Queue now ?ok ((repo ?p)\<lparr>closed := True\<rparr>)"
  have "readable_file (repo ?p)" by (rule run_log_readable) (simp add: readable_file_def start_pipeline_def)
  then have rd: "readable_file d" unfolding d_def drainT1Queue_def by (intro drain_t1_readable) (simp add: readable_file_def)
  have q: "t1Queue d = []" unfolding d_def drainT1Queue_def by (rule drain_t1_empties) simp
  have e: "t1Queue (replayFallback now True True (\<lambda>_. True) d) = []" "fallback (replayFallback now True True (\<lambda>_. True) d) = []"
    using replay_empties [OF rd] q by simp_all
  have "repo (orderly_Close now ?p) \<in> {replayFallback now True True (\<lambda>_. True) d, drainT2Queue now (\<lambda>_. True) (replayFallback now True True (\<lambda>_. True) d)}"
    using assms(2) by (simp add: orderly_Close_def run_log_def d_def)
  then have "t1Queue (repo (orderly_Close now ?p)) = [] \<and> fallback (repo (orderly_Close now ?p)) = []"
    using e drain_t2_fallback by (auto simp: drainT2Queue_def)
  then show ?thesis using h by (simp add: held_def Let_def)
qed

theorem orderly_shutdown_writes_all_witness:
  "\<exists>row \<in> set (api_logs (repo (orderly_Close 9 (run_log [Admit demo_record, Send True False True demo_record,
      T1Work 8 ((False, False), True)] start_pipeline)))). kept_row demo_record row"
proof -
  let ?es = "[Admit demo_record, Send True False True demo_record, T1Work 8 ((False, False), True)]"
  have "t1_running (run_log ?es start_pipeline) \<and> demo_record \<in> set (accepted (run_log ?es start_pipeline))"
    by (simp add: run_log_def start_pipeline_def enqueue_def demo_record_path(3) logQueueBufferSize_def)
  from orderly_shutdown_writes_all [of ?es demo_record 9] this demo_record_path(1,2) show ?thesis by (simp add: Let_def)
qed

end
