(* ===== verification/Spec2Isabelle.thy ===== *)
theory Spec2Isabelle
  imports AdminLogin ApiKeyAuth BusinessProps IntlProps RateLimiter OtpLog Routes SqlSeed
    Middleware LogsController Secrets LogsSchema Startup IntlSync Webhook GenericRows Diagnostics LogShutdown
    MigrationLaws
begin

text \<open>
  A model of the PTEP payment gateway, a Go service on Fiber and PostgreSQL that takes payments for
  many merchants through two providers: a bank (DK, payments in ngultrum confirmed with a one-time
  password) and a card gateway (Stripe's checkout).  Sources are named relative to src/.

  The program and its parts

  An external app calls the service with an API key.  A request passes the layers of every
  request, the rate limiter of its group, the request logger and the API key middleware, and a
  payment handler runs.  It resolves the app's merchant reference to the recipient's settings,
  which are kept encrypted; the gateway is called with these settings and never with
  settings of the client; the credential that was used is recorded with the payment, and
  every later step of the payment uses that one.  Administrators sign in with a password, a
  captcha after failures and a cookie session; they manage apps, recipients, credentials and
  mappings, and read lists, statistics and logs.  The logs take their own way, through two
  queues and a file, to a table partitioned by month.

  Theories, sources and correspondence

  \<^item> Prelude, Strings, Base64, Calendar, CalendarOrder, Sql, Outbound, Http: what the sources use of
    Go's standard library, PostgreSQL, HTTP and Fiber.  A string is a list of bytes; a request gives
    the accessors of fiber.Ctx; a response is a status, headers, cookies and a JSON body; a handler
    is a function from a request and the state it reads to a response and the new state.
  \<^item> Json, JsonText: JSON values, the canonical text of internal/dkpg/canonical.go and a reader of it.
  \<^item> LoginLimiter, RateLimiter, SessionStore, Sessions, AdminAuth, AdminUsers, AdminLogin:
    internal/auth/, middleware/admin_auth.go, csrf_middleware.go and rate_limit.go,
    internal/storage/gorm/admin.go, controllers/auth_controller.go and admin_signup_controller.go.
    The maps of the limiters and the store are association lists; SessionStore is the
    contract between the store and its callers.
  \<^item> Config, Secrets: config/config.go and config/secrets.go; the environment is a function.
  \<^item> Cipher, RoutingStore, RoutingLaws, RoutingSteps, RoutingResolve, Resolver: internal/credentials/,
    internal/storage/merchant_routing.go with its migration, and controllers/gateway_resolver.go.  The
    tables are lists of rows; routing_step is the relation of the operations and routing_inv its
    invariant; credential_source is the contract the payment flows rely on.
  \<^item> RoutingAdmin, RoutingProvision, BootProvision, SqlSeed: the three ways to set a recipient up,
    controllers/merchant_routing_admin_controller.go, Provision of
    merchant_routing_overview_controller.go, provision_boot.go, and cmd/provision_sql/.
  \<^item> Dkpg, StripeClient, Helpers: internal/dkpg/client.go, internal/stripe/client.go and
    internal/common/helpers.go.  A provider is a function from requests to answers.
  \<^item> Inputs, PaymentStore, Ledger, Business, BusinessLaws, BusinessHistory, BusinessDemo, BusinessProps:
    the bank payments, internal/storage/repository.go, transaction_routing.go and
    controllers/business_controller.go.  International, IntlLaws, IntlProps: the card payments,
    internal/storage/international_repository.go and controllers/international_controller.go with
    its background job; IntlSync is the run of that job and the list of the portal.  Ledger is
    the contract both payment tables provide.
  \<^item> ApiKeys, Validation, Apps, ApiKeyAuth: internal/common/api_key.go, internal/validation/,
    internal/storage/apps.go, the controllers of apps and middleware/api_key_auth.go.
  \<^item> Logs, LogsSchema, LogShutdown, LogsController, RequestLogger, OtpLog: internal/storage/logs.go,
    controllers/logs_controller.go and middleware/request_logger.go.
  \<^item> TransactionsList, GenericRows, Platform: the screens of the portal, controllers/transactions_list_controller.go,
    date_range.go, Overview and upi_controller.go, with the query of repository.go that reads rows as JSON
    when the list's own query fails.
  \<^item> Ddl, DdlRuns, Migrations, MigrationLaws: internal/storage/db.go, migrations.go, migrations_apps.go,
    migrations_international.go, migrations_merchant_routing.go and the models of internal/storage/gorm/.  Ddl
    says what a statement does to a schema with its rows; the migrations are lists of statements.
  \<^item> Startup: main.go from the environment to the running service, over the migrations and the components.  Diagnostics, Webhook: the health, debug
    and seed controllers, the providers' lines on the standard output, and internal/common/webhook_url.go.
  \<^item> Middleware, Routes: middleware/https_redirect.go, security_headers.go, error_handler.go, and the
    order of main.go and routes/routes.go.

  What the lemmas show

  \<^item> Payments go to the right account: every request to a provider carries the account the
    tables give the app's reference (initiate_pays_merchant, card_payment_pays_merchant), a status
    query the account that the payload opening the payment named, whatever changed since
    (status_asks_original_account), every later step uses the recorded credential
    (recorded_credential_settles), and tenants do not touch each other's rows (tenants_isolated).
    A reference is sent to the bank once (reference_sent_once), the terms of a payment stay
    (payment_terms_fixed), the background job ends (card_job_ends), and a payment the gateway confirms is
    completed by it and stays completed (paid_payment_completes).
  \<^item> Routing: the invariant of the tables under every operation, the functional specification of
    ResolveActive, the effect of a rotation, immutability of credentials, and what the three ways of
    setting up leave behind when they succeed and when they fail.
  \<^item> Admission: the admin middleware and the sessions refine a small specification; login and logout;
    the limiters' bounds; the API key middleware against its reference; the table of routes
    guards every controller; the headers and the error text of every answer; the place of the bank's key.
  \<^item> Start and tables: a start that succeeds leaves every component where its invariant begins
    (started_service_wellformed) and enforces the bounds of the environment (startup_enforces_rates); the
    migrations account for every payment (migrations_account_for_payments) and settle (migrations_settle).
  \<^item> Logs and screens: accepted records are kept and written at the latest by an orderly shutdown
    (orderly_shutdown_writes_all), secrets are redacted, accounts are masked, the
    statistics agree, the migration of the log table keeps the rows, column by
    column, with the surface that LIKE's wildcards give a path.
  \<^item> Round trips of base64, the cipher and the canonical JSON text.
  \<^item> Where the code does not do what it means to, a theorem states what it does:
    shared_reference_completes_both, completed_without_verdict, restart_pays_seed,
    sql_seed_unreadable, otp_logged_in_clear, interrupted_migration_strands_logs.

  Conventions, bounds and fuel

  Errors are values of a sum, a nil error being Inr.  Time is an integer in nanoseconds and an
  argument, one instant per request; so are random bytes, uuids and nonces, the order in which Go
  ranges over a map, and code outside src/: bcrypt, JWT, AES-GCM, SHA-256, PEM and RSA, netip, url.Parse, the
  validator's email rule, the providers, the booking platform, the file system, and PostgreSQL's
  reading of uuids and rendering of timestamps.  What the sources rely on is a named law, such as
  aead_law and fs_law, with an instance in the witnesses.  Numbers of JSON documents are exact rationals.
  The fuel of the JSON reader is the length of the text, which canonical_roundtrip shows to be enough; the
  loop of the background job is a partial function whose result is proved to exist.  Goroutines of the logs and of the background job are interleaved as
  sequences of steps; a request of another kind is one step.

  Not modelled

  Text outside ASCII (case mapping and white space of Unicode), floating-point rounding, lost database
  connections, stdout diagnostics other than the request logger's and the provider clients' lines, and the
  zeroing of memory.  GORM's AutoMigrate, which is an argument; the listener and the signal handler
  of main.go, which are calls of Fiber and the operating system; the pages, scripts and request collection, which are
  in other languages.  The rows of the migrations' schema and the rows of the stores are separate models of the same
  tables: the constraints the first shows are those the second checks.
\<close>

end
